(* ===== verification/Ftl_Prelude.thy ===== *)
theory Ftl_Prelude
  imports Main "HOL-Library.Word" "HOL-Library.Monad_Syntax"
begin

text \<open>
  Shared vocabulary of the development: the theorem collections the component proofs use,
  the sentinels of the firmware's index fields, the truncation of a value stored in a narrow
  bit field, and a few facts on lists and on the option monad.

  Conventions of the model.
  \<^item> A C array is a total function from indices; an index that the invariants bound is
    always inside the array.
  \<^item> Indices, tags and addresses are \<^typ>\<open>nat\<close>. A counter that is incremented and
    decremented in place is a word of the width of its bit field, so it wraps as in C.
  \<^item> \<^term>\<open>None\<close> is the outcome of a firmware function that does not come back: a failed
    \<^verbatim>\<open>assert\<close>, or a polling loop that the hardware never lets go.
\<close>

named_theorems nand_consts \<open>the constants of the flash geometry\<close>
named_theorems layout \<open>the addresses of the memory map\<close>

subsection \<open>Bit-field truncation\<close>

definition u32 :: "nat \<Rightarrow> nat" where
  "u32 n = n mod 2 ^ 32"

definition u16 :: "nat \<Rightarrow> nat" where
  "u16 n = n mod 2 ^ 16"

definition u8 :: "nat \<Rightarrow> nat" where
  "u8 n = n mod 2 ^ 8"

lemma u32_id [simp]: "n < 2 ^ 32 \<Longrightarrow> u32 n = n"
  by (simp add: u32_def)

lemma u16_id [simp]: "n < 2 ^ 16 \<Longrightarrow> u16 n = n"
  by (simp add: u16_def)

lemma u8_id [simp]: "n < 2 ^ 8 \<Longrightarrow> u8 n = n"
  by (simp add: u8_def)

lemma u32_less: "u32 n < 2 ^ 32"
  by (simp add: u32_def)

lemma u16_less: "u16 n < 2 ^ 16"
  by (simp add: u16_def)

subsection \<open>Arrays\<close>

text \<open>
  A loop \<^verbatim>\<open>for (i = 0; i < n; i++) a[i] = f(i, a[i])\<close>: every element in range is replaced.
\<close>

definition array_for :: "nat \<Rightarrow> (nat \<Rightarrow> 'a \<Rightarrow> 'a) \<Rightarrow> (nat \<Rightarrow> 'a) \<Rightarrow> nat \<Rightarrow> 'a" where
  "array_for n f a = (\<lambda>i. if i < n then f i (a i) else a i)"

lemma array_for_loop: "fold (\<lambda>i b. b(i := f i (b i))) [0..<n] a = array_for n f a"
  by (induction n) (auto simp: array_for_def fun_eq_iff)

lemma array_for_in [simp]: "i < n \<Longrightarrow> array_for n f a i = f i (a i)"
  by (simp add: array_for_def)

lemma array_for_out [simp]: "n \<le> i \<Longrightarrow> array_for n f a i = a i"
  by (simp add: array_for_def)

subsection \<open>Counters\<close>

lemma of_nat_length_snoc [simp]:
  "(of_nat (length (xs @ [x])) :: 'a::len word) = of_nat (length xs) + 1"
  by simp

lemma of_nat_length_remove1:
  assumes "x \<in> set xs"
  shows "(of_nat (length (remove1 x xs)) :: 'a::len word) = of_nat (length xs) - 1"
proof -
  have "length xs = Suc (length (remove1 x xs))"
    using assms length_pos_if_in_set [OF assms] by (simp add: length_remove1)
  then show ?thesis by simp
qed

lemma word_counter_zero_iff:
  "n < 2 ^ LENGTH('a::len) \<Longrightarrow> (of_nat n :: 'a word) = 0 \<longleftrightarrow> n = 0"
  by (auto simp: word_of_nat_eq_0_iff dest: dvd_imp_le)

subsection \<open>Lists\<close>

lemma set_remove1_distinct: "distinct xs \<Longrightarrow> set (remove1 x xs) = set xs - {x}"
  by (simp add: set_remove1_eq)

lemma distinct_split_unique:
  "distinct (xs @ x # ys) \<Longrightarrow> x \<notin> set xs \<and> x \<notin> set ys"
  by auto

lemma last_remove_mid: "ys \<noteq> [] \<Longrightarrow> last (xs @ ys) = last ys"
  by simp

lemma finite_distinct_length_le:
  assumes "distinct xs" and "set xs \<subseteq> {..<n}"
  shows "length xs \<le> n"
  using assms by (metis card_lessThan card_mono distinct_card finite_lessThan)

subsection \<open>The option monad\<close>

lemma bind_SomeE:
  assumes "Option.bind m f = Some y"
  obtains x where "m = Some x" and "f x = Some y"
  using assms by (cases m) auto

lemma bind_Some_iff: "Option.bind m f = Some y \<longleftrightarrow> (\<exists>x. m = Some x \<and> f x = Some y)"
  by (cases m) auto

text \<open>A loop over a list of indices whose body may fail.\<close>

fun ofold :: "('a \<Rightarrow> 's \<Rightarrow> 's option) \<Rightarrow> 'a list \<Rightarrow> 's \<Rightarrow> 's option" where
  "ofold f [] s = Some s"
| "ofold f (x # xs) s = Option.bind (f x s) (ofold f xs)"

lemma ofold_append: "ofold f (xs @ ys) s = Option.bind (ofold f xs s) (ofold f ys)"
proof (induction xs arbitrary: s)
  case Nil
  show ?case by simp
next
  case (Cons x xs)
  show ?case by (cases "f x s") (simp_all add: Cons.IH)
qed

text \<open>An invariant of the body is an invariant of the loop.\<close>

lemma ofold_invariant:
  assumes "\<And>x s s'. x \<in> set xs \<Longrightarrow> P s \<Longrightarrow> f x s = Some s' \<Longrightarrow> P s'"
    and "P s" and "ofold f xs s = Some s'"
  shows "P s'"
  using assms
proof (induction xs arbitrary: s)
  case Nil
  then show ?case by simp
next
  case (Cons x xs)
  from Cons.prems(3) obtain t where t: "f x s = Some t" "ofold f xs t = Some s'"
    by (auto elim: bind_SomeE)
  have "P t" using Cons.prems(1) [of x s t] Cons.prems(2) t(1) by simp
  then show ?case using Cons.IH [of t] Cons.prems(1) t(2) by (meson list.set_intros(2))
qed

text \<open>A view that the body keeps is kept by the loop.\<close>

lemma ofold_frame:
  assumes "\<And>x s s'. f x s = Some s' \<Longrightarrow> v s' = v s" and "ofold f xs s = Some s'"
  shows "v s' = v s"
  using ofold_invariant [of xs "\<lambda>t. v t = v s" f s s'] assms by metis

lemma fold_invariant_list:
  assumes "\<And>x s. x \<in> set xs \<Longrightarrow> P s \<Longrightarrow> P (f x s)" and "P s"
  shows "P (fold f xs s)"
  using assms by (induction xs arbitrary: s) auto

end
