(* ===== verification/Ftl_Config.thy ===== *)
theory Ftl_Config
  imports Ftl_Prelude
begin

text \<open>
  The constants of \<^verbatim>\<open>cosmos-firmware/ftl_config.h\<close>. The user configurable factors are
  a record, so every theorem holds for each configuration that the firmware accepts at start-up;
  the number of connected channels comes from the board support package and is one of them.
  What the hardware shows to the firmware over time is the second half of the record: an
  observation for each instant, read through the clock of the model.
\<close>

section \<open>The configuration\<close>

record ftl_config =
  USER_CHANNELS :: nat
  USER_WAYS :: nat
  USER_BLOCKS_PER_LUN :: nat
  BITS_PER_FLASH_CELL :: nat

definition BYTES_PER_DATA_REGION_OF_NAND_ROW :: nat where
  "BYTES_PER_DATA_REGION_OF_NAND_ROW = 16384"

definition ROWS_PER_SLC_BLOCK :: nat where
  "ROWS_PER_SLC_BLOCK = 128"

definition ROWS_PER_MLC_BLOCK :: nat where
  "ROWS_PER_MLC_BLOCK = 256"

definition MAIN_BLOCKS_PER_LUN :: nat where
  "MAIN_BLOCKS_PER_LUN = 4096"

definition EXTENDED_BLOCKS_PER_LUN :: nat where
  "EXTENDED_BLOCKS_PER_LUN = 88"

definition TOTAL_BLOCKS_PER_LUN :: nat where
  "TOTAL_BLOCKS_PER_LUN = MAIN_BLOCKS_PER_LUN + EXTENDED_BLOCKS_PER_LUN"

definition LUNS_PER_DIE :: nat where
  "LUNS_PER_DIE = 2"

definition MAIN_BLOCKS_PER_DIE :: nat where
  "MAIN_BLOCKS_PER_DIE = MAIN_BLOCKS_PER_LUN * LUNS_PER_DIE"

definition TOTAL_BLOCKS_PER_DIE :: nat where
  "TOTAL_BLOCKS_PER_DIE = TOTAL_BLOCKS_PER_LUN * LUNS_PER_DIE"

definition BAD_BLOCK_MARK_PAGE0 :: nat where
  "BAD_BLOCK_MARK_PAGE0 = 0"

definition BAD_BLOCK_MARK_PAGE1 :: nat where
  "BAD_BLOCK_MARK_PAGE1 = ROWS_PER_MLC_BLOCK - 1"

definition BAD_BLOCK_MARK_BYTE0 :: nat where
  "BAD_BLOCK_MARK_BYTE0 = 0"

definition BAD_BLOCK_MARK_BYTE1 :: nat where
  "BAD_BLOCK_MARK_BYTE1 = BYTES_PER_DATA_REGION_OF_NAND_ROW"

definition NSC_MAX_WAYS :: nat where
  "NSC_MAX_WAYS = 8"

definition BYTES_PER_DATA_REGION_OF_PAGE :: nat where
  "BYTES_PER_DATA_REGION_OF_PAGE = 16384"

definition BYTES_PER_SPARE_REGION_OF_PAGE :: nat where
  "BYTES_PER_SPARE_REGION_OF_PAGE = 256"

definition PAGES_PER_SLC_BLOCK :: nat where
  "PAGES_PER_SLC_BLOCK = ROWS_PER_SLC_BLOCK"

definition PAGES_PER_MLC_BLOCK :: nat where
  "PAGES_PER_MLC_BLOCK = ROWS_PER_MLC_BLOCK"

definition BIT_ERROR_THRESHOLD_PER_CHUNK :: nat where
  "BIT_ERROR_THRESHOLD_PER_CHUNK = 20"

definition ERROR_INFO_WORD_COUNT :: nat where
  "ERROR_INFO_WORD_COUNT = 11"

definition BYTES_PER_NVME_BLOCK :: nat where
  "BYTES_PER_NVME_BLOCK = 4096"

definition SLC_MODE :: nat where
  "SLC_MODE = 1"

definition MLC_MODE :: nat where
  "MLC_MODE = 2"

definition BYTES_PER_DATA_REGION_OF_SLICE :: nat where
  "BYTES_PER_DATA_REGION_OF_SLICE = 16384"

definition BYTES_PER_SPARE_REGION_OF_SLICE :: nat where
  "BYTES_PER_SPARE_REGION_OF_SLICE = 256"

definition SLICES_PER_PAGE :: nat where
  "SLICES_PER_PAGE = BYTES_PER_DATA_REGION_OF_PAGE div BYTES_PER_DATA_REGION_OF_SLICE"

definition NVME_BLOCKS_PER_SLICE :: nat where
  "NVME_BLOCKS_PER_SLICE = BYTES_PER_DATA_REGION_OF_SLICE div BYTES_PER_NVME_BLOCK"

definition USER_DIES :: "'a ftl_config_scheme \<Rightarrow> nat" where
  "USER_DIES c = USER_CHANNELS c * USER_WAYS c"

definition USER_PAGES_PER_BLOCK :: "'a ftl_config_scheme \<Rightarrow> nat" where
  "USER_PAGES_PER_BLOCK c = PAGES_PER_SLC_BLOCK * BITS_PER_FLASH_CELL c"

definition USER_PAGES_PER_LUN :: "'a ftl_config_scheme \<Rightarrow> nat" where
  "USER_PAGES_PER_LUN c = USER_PAGES_PER_BLOCK c * USER_BLOCKS_PER_LUN c"

definition USER_PAGES_PER_DIE :: "'a ftl_config_scheme \<Rightarrow> nat" where
  "USER_PAGES_PER_DIE c = USER_PAGES_PER_LUN c * LUNS_PER_DIE"

definition USER_PAGES_PER_CHANNEL :: "'a ftl_config_scheme \<Rightarrow> nat" where
  "USER_PAGES_PER_CHANNEL c = USER_PAGES_PER_DIE c * USER_WAYS c"

definition USER_PAGES_PER_SSD :: "'a ftl_config_scheme \<Rightarrow> nat" where
  "USER_PAGES_PER_SSD c = USER_PAGES_PER_CHANNEL c * USER_CHANNELS c"

definition SLICES_PER_BLOCK :: "'a ftl_config_scheme \<Rightarrow> nat" where
  "SLICES_PER_BLOCK c = USER_PAGES_PER_BLOCK c * SLICES_PER_PAGE"

definition SLICES_PER_SSD :: "'a ftl_config_scheme \<Rightarrow> nat" where
  "SLICES_PER_SSD c = USER_PAGES_PER_SSD c * SLICES_PER_PAGE"

definition USER_BLOCKS_PER_DIE :: "'a ftl_config_scheme \<Rightarrow> nat" where
  "USER_BLOCKS_PER_DIE c = USER_BLOCKS_PER_LUN c * LUNS_PER_DIE"

definition USER_BLOCKS_PER_CHANNEL :: "'a ftl_config_scheme \<Rightarrow> nat" where
  "USER_BLOCKS_PER_CHANNEL c = USER_BLOCKS_PER_DIE c * USER_WAYS c"

definition USER_BLOCKS_PER_SSD :: "'a ftl_config_scheme \<Rightarrow> nat" where
  "USER_BLOCKS_PER_SSD c = USER_BLOCKS_PER_CHANNEL c * USER_CHANNELS c"

definition MB_PER_BLOCK :: "'a ftl_config_scheme \<Rightarrow> nat" where
  "MB_PER_BLOCK c = (BYTES_PER_DATA_REGION_OF_SLICE * SLICES_PER_BLOCK c) div (1024 * 1024)"

definition MB_PER_SSD :: "'a ftl_config_scheme \<Rightarrow> nat" where
  "MB_PER_SSD c = USER_BLOCKS_PER_SSD c * MB_PER_BLOCK c"

definition MB_PER_MIN_FREE_BLOCK_SPACE :: "'a ftl_config_scheme \<Rightarrow> nat" where
  "MB_PER_MIN_FREE_BLOCK_SPACE c = USER_DIES c * MB_PER_BLOCK c"

definition MB_PER_OVER_PROVISION_BLOCK_SPACE :: "'a ftl_config_scheme \<Rightarrow> nat" where
  "MB_PER_OVER_PROVISION_BLOCK_SPACE c = (USER_BLOCKS_PER_SSD c div 10) * MB_PER_BLOCK c"

text \<open>The size of the volume in 4 KB blocks, as \<^verbatim>\<open>InitFTL\<close> computes it at its end (unsigned 32-bit).\<close>

definition storageCapacity_L :: "'a ftl_config_scheme \<Rightarrow> nat \<Rightarrow> 32 word" where
  "storageCapacity_L c mbPerbadBlockSpace =
     (of_nat (MB_PER_SSD c) -
       (of_nat (MB_PER_MIN_FREE_BLOCK_SPACE c) + of_nat mbPerbadBlockSpace +
        of_nat (MB_PER_OVER_PROVISION_BLOCK_SPACE c))) *
     of_nat ((1024 * 1024) div BYTES_PER_NVME_BLOCK)"

section \<open>Accepted configurations\<close>

text \<open>
  The value the repository is built with, for a board with a given number of channels, and the
  range of configurations that \<^verbatim>\<open>CheckConfigRestriction\<close> and \<^verbatim>\<open>InitChCtlReg\<close> let through (at most
  eight controllers can be connected).
\<close>

definition cosmos_config :: "nat \<Rightarrow> ftl_config" where
  "cosmos_config channels =
     \<lparr> USER_CHANNELS = channels, USER_WAYS = 8, USER_BLOCKS_PER_LUN = 142,
       BITS_PER_FLASH_CELL = SLC_MODE \<rparr>"

definition wf_config :: "'a ftl_config_scheme \<Rightarrow> bool" where
  "wf_config c \<longleftrightarrow>
     1 \<le> USER_CHANNELS c \<and> USER_CHANNELS c \<le> 8 \<and>
     1 \<le> USER_WAYS c \<and> USER_WAYS c \<le> NSC_MAX_WAYS \<and>
     1 \<le> USER_BLOCKS_PER_LUN c \<and> USER_BLOCKS_PER_LUN c \<le> MAIN_BLOCKS_PER_LUN \<and>
     (BITS_PER_FLASH_CELL c = SLC_MODE \<or> BITS_PER_FLASH_CELL c = MLC_MODE)"

declare
  BYTES_PER_DATA_REGION_OF_NAND_ROW_def [nand_consts] ROWS_PER_SLC_BLOCK_def [nand_consts]
  ROWS_PER_MLC_BLOCK_def [nand_consts] MAIN_BLOCKS_PER_LUN_def [nand_consts]
  EXTENDED_BLOCKS_PER_LUN_def [nand_consts] TOTAL_BLOCKS_PER_LUN_def [nand_consts]
  LUNS_PER_DIE_def [nand_consts] MAIN_BLOCKS_PER_DIE_def [nand_consts]
  TOTAL_BLOCKS_PER_DIE_def [nand_consts] NSC_MAX_WAYS_def [nand_consts]
  BYTES_PER_DATA_REGION_OF_PAGE_def [nand_consts] BYTES_PER_SPARE_REGION_OF_PAGE_def [nand_consts]
  PAGES_PER_SLC_BLOCK_def [nand_consts] PAGES_PER_MLC_BLOCK_def [nand_consts]
  BYTES_PER_NVME_BLOCK_def [nand_consts] SLC_MODE_def [nand_consts] MLC_MODE_def [nand_consts]
  BYTES_PER_DATA_REGION_OF_SLICE_def [nand_consts]
  BYTES_PER_SPARE_REGION_OF_SLICE_def [nand_consts]

lemma SLICES_PER_PAGE_1 [simp]: "SLICES_PER_PAGE = 1"
  by (simp add: SLICES_PER_PAGE_def nand_consts)

lemma NVME_BLOCKS_PER_SLICE_4 [simp]: "NVME_BLOCKS_PER_SLICE = 4"
  by (simp add: NVME_BLOCKS_PER_SLICE_def nand_consts)

lemma SLICES_PER_BLOCK_pages [simp]: "SLICES_PER_BLOCK c = USER_PAGES_PER_BLOCK c"
  by (simp add: SLICES_PER_BLOCK_def)

lemma wf_config_cosmos: "1 \<le> n \<Longrightarrow> n \<le> 8 \<Longrightarrow> wf_config (cosmos_config n)"
  by (simp add: wf_config_def cosmos_config_def nand_consts)

lemma USER_DIES_bounds: "wf_config c \<Longrightarrow> 1 \<le> USER_DIES c \<and> USER_DIES c \<le> 64"
  using mult_le_mono [of "USER_CHANNELS c" 8 "USER_WAYS c" 8]
  by (auto simp: wf_config_def USER_DIES_def nand_consts)

lemma USER_PAGES_PER_BLOCK_values:
  "wf_config c \<Longrightarrow> USER_PAGES_PER_BLOCK c = 128 \<or> USER_PAGES_PER_BLOCK c = 256"
  by (auto simp: wf_config_def USER_PAGES_PER_BLOCK_def nand_consts)

lemma USER_PAGES_PER_BLOCK_pos: "wf_config c \<Longrightarrow> 0 < USER_PAGES_PER_BLOCK c"
  using USER_PAGES_PER_BLOCK_values by fastforce

lemma USER_BLOCKS_PER_DIE_bounds:
  "wf_config c \<Longrightarrow> 2 \<le> USER_BLOCKS_PER_DIE c \<and> USER_BLOCKS_PER_DIE c \<le> 8192"
  by (auto simp: wf_config_def USER_BLOCKS_PER_DIE_def nand_consts)

text \<open>The SSD has a slice for each page of each block of each die.\<close>

lemma SLICES_PER_SSD_product:
  "SLICES_PER_SSD c = USER_DIES c * (USER_BLOCKS_PER_DIE c * USER_PAGES_PER_BLOCK c)"
  by (simp add: SLICES_PER_SSD_def USER_PAGES_PER_SSD_def USER_PAGES_PER_CHANNEL_def
      USER_PAGES_PER_DIE_def USER_PAGES_PER_LUN_def USER_DIES_def USER_BLOCKS_PER_DIE_def)

lemma SLICES_PER_SSD_bound:
  assumes "wf_config c"
  shows "SLICES_PER_SSD c \<le> 134217728"
proof -
  have "USER_DIES c \<le> 64" and "USER_BLOCKS_PER_DIE c \<le> 8192"
    using USER_DIES_bounds USER_BLOCKS_PER_DIE_bounds assms by auto
  moreover have "USER_PAGES_PER_BLOCK c \<le> 256"
    using USER_PAGES_PER_BLOCK_values [OF assms] by auto
  ultimately have "USER_DIES c * (USER_BLOCKS_PER_DIE c * USER_PAGES_PER_BLOCK c)
      \<le> 64 * (8192 * 256)"
    by (intro mult_le_mono)
  then show ?thesis by (simp add: SLICES_PER_SSD_product)
qed

section \<open>The hardware\<close>

text \<open>
  What the devices answer is not part of the firmware. An \<open>observation\<close> is everything the
  firmware could read from them at one instant; a \<open>platform\<close> is a configuration with
  an observation for each instant.
\<close>

record observation =
  obs_xtime :: "64 word"
  obs_reg :: "nat \<Rightarrow> 32 word"
  obs_controller_busy :: "nat \<Rightarrow> 32 word"
  obs_ready_busy :: "nat \<Rightarrow> 32 word"
  obs_complete_flag :: "nat \<Rightarrow> nat \<Rightarrow> 32 word"
  obs_status_report :: "nat \<Rightarrow> nat \<Rightarrow> 32 word"
  obs_error_info :: "nat \<Rightarrow> nat \<Rightarrow> nat \<Rightarrow> 32 word"
  obs_dram :: "nat \<Rightarrow> 8 word"

record platform = ftl_config +
  obs :: "nat \<Rightarrow> observation"

end
