(* ===== verification/Dll.thy ===== *)
theory Dll
  imports Ftl_Prelude
begin

text \<open>
  Intrusive doubly linked lists. Every queue, free list, victim list, LRU list, hash chain and
  way list of the firmware is a head and a tail index plus a previous and a next index in each
  element, with an all-ones sentinel. This theory states what such a list is
  (\<open>dll\<close>: the links spell a list of distinct elements), the four link manipulations the
  firmware repeats for each of its lists (append at the tail, take from the head, unlink from
  the middle, push at the head), and that each of them does what it says on the spelled list.
  The locales below are the interfaces: a component that owns a list interprets them on its own
  operations by proving one equation on the links.
\<close>

section \<open>Lists spelled by links\<close>

type_synonym 'i links = "('i \<Rightarrow> 'i) \<times> ('i \<Rightarrow> 'i) \<times> 'i \<times> 'i"

fun dseg :: "('i \<Rightarrow> 'i) \<Rightarrow> ('i \<Rightarrow> 'i) \<Rightarrow> 'i \<Rightarrow> 'i list \<Rightarrow> 'i \<Rightarrow> bool" where
  "dseg p n a [] z = True"
| "dseg p n a (x # xs) z =
     (p x = a \<and> n x = (if xs = [] then z else hd xs) \<and> dseg p n x xs z)"

fun dll :: "'i \<Rightarrow> 'i links \<Rightarrow> 'i list \<Rightarrow> bool" where
  "dll e (p, n, h, t) xs =
     (distinct xs \<and> e \<notin> set xs \<and> h = (if xs = [] then e else hd xs) \<and>
      t = (if xs = [] then e else last xs) \<and> dseg p n e xs e)"

lemma dseg_append:
  "dseg p n a (xs @ ys) z =
     (dseg p n a xs (if ys = [] then z else hd ys) \<and>
      dseg p n (if xs = [] then a else last xs) ys z)"
  by (induction xs arbitrary: a) auto

lemma dseg_cong:
  assumes "\<And>y. y \<in> set ys \<Longrightarrow> p' y = p y \<and> n' y = n y"
  shows "dseg p' n' a ys z = dseg p n a ys z"
  using assms by (induction ys arbitrary: a) auto

lemma dseg_upd_other [simp]:
  "x \<notin> set ys \<Longrightarrow> dseg (p(x := v)) n a ys z = dseg p n a ys z"
  "x \<notin> set ys \<Longrightarrow> dseg p (n(x := v)) a ys z = dseg p n a ys z"
  by (rule dseg_cong; auto)+

text \<open>Only the first element sees what comes before, only the last what comes after.\<close>

lemma dseg_new_before:
  assumes "dseg p n a (x # xs) z" and "x \<notin> set xs"
  shows "dseg (p(x := b)) n b (x # xs) z"
  using assms by (cases xs) auto

lemma dseg_new_after:
  assumes "dseg p n a (xs @ [x]) z" and "x \<notin> set xs"
  shows "dseg p (n(x := b)) a (xs @ [x]) b"
  using assms by (auto simp: dseg_append)

lemma dll_Nil [simp]: "dll e (p, n, h, t) [] \<longleftrightarrow> h = e \<and> t = e"
  by auto

lemma dll_distinct: "dll e v xs \<Longrightarrow> distinct xs"
  by (cases v) auto

lemma dll_no_sentinel: "dll e v xs \<Longrightarrow> e \<notin> set xs"
  by (cases v) auto

lemma dll_head_empty_iff: "dll e (p, n, h, t) xs \<Longrightarrow> h = e \<longleftrightarrow> xs = []"
  by (auto split: if_splits)

lemma dll_tail_empty_iff: "dll e (p, n, h, t) xs \<Longrightarrow> t = e \<longleftrightarrow> xs = []"
  by (auto split: if_splits)

lemma dll_ConsD:
  assumes "dll e (p, n, h, t) (x # xs)"
  shows "h = x" and "n x = (if xs = [] then e else hd xs)" and "p x = e"
  using assms by auto

lemma dll_cong:
  assumes "\<And>y. y \<in> set ys \<Longrightarrow> p' y = p y \<and> n' y = n y"
  shows "dll e (p', n', h, t) ys = dll e (p, n, h, t) ys"
  using dseg_cong [of ys p' p n' n e e] assms by simp

text \<open>The neighbours of an element, and that no element is its own neighbour.\<close>

lemma dll_neighbours:
  assumes "dll e (p, n, h, t) (as @ x # bs)"
  shows "p x = (if as = [] then e else last as)" and "n x = (if bs = [] then e else hd bs)"
  using assms by (auto simp: dseg_append)

lemma dll_no_self:
  assumes "dll e (p, n, h, t) xs" and "x \<in> set xs"
  shows "p x \<noteq> x" and "n x \<noteq> x"
proof -
  obtain as bs where xs: "xs = as @ x # bs" using split_list [OF assms(2)] by blast
  have "x \<notin> set as" "x \<notin> set bs" "x \<noteq> e" using assms unfolding xs by auto
  then have "as \<noteq> [] \<Longrightarrow> last as \<noteq> x" "bs \<noteq> [] \<Longrightarrow> hd bs \<noteq> x" "x \<noteq> e"
    using last_in_set hd_in_set by fastforce+
  then show "p x \<noteq> x" and "n x \<noteq> x"
    using dll_neighbours [OF assms(1) [unfolded xs]] by auto
qed

text \<open>The links spell at most one list.\<close>

lemma dseg_unique:
  assumes "dseg p n a xs e" and "dseg p n b ys e" and "e \<notin> set xs" and "e \<notin> set ys"
    and "xs \<noteq> [] \<longleftrightarrow> ys \<noteq> []" and "xs \<noteq> [] \<Longrightarrow> hd xs = hd ys"
  shows "xs = ys"
  using assms
proof (induction xs arbitrary: ys a b)
  case Nil
  then show ?case by simp
next
  case (Cons x xs)
  then obtain ys' where ys: "ys = x # ys'" by (cases ys) auto
  have heads: "(if xs = [] then e else hd xs) = (if ys' = [] then e else hd ys')"
    using Cons.prems(1,2) ys by auto
  have "e \<notin> set xs" "e \<notin> set ys'" using Cons.prems ys by auto
  then have "xs = ys'"
    using Cons.IH [where ys = ys' and a = x and b = x] Cons.prems(1,2) ys heads
    by (metis dseg.simps(2) hd_in_set)
  then show ?case by (simp add: ys)
qed

lemma dll_unique:
  assumes "dll e v xs" and "dll e v ys"
  shows "xs = ys"
proof -
  obtain p n h t where v: "v = (p, n, h, t)" by (cases v)
  have "xs \<noteq> [] \<longleftrightarrow> ys \<noteq> []"
    using dll_head_empty_iff assms unfolding v by metis
  then show ?thesis
    using dseg_unique [of p n e xs e e ys] assms unfolding v by auto
qed

text \<open>The list that an initialisation loop lays out: consecutive indices.\<close>

lemma dseg_upt:
  assumes "i \<le> j"
    and "\<And>t. i \<le> t \<Longrightarrow> t < j \<Longrightarrow> p t = (if t = i then a else t - 1)"
    and "\<And>t. i \<le> t \<Longrightarrow> t < j \<Longrightarrow> n t = (if Suc t = j then z else Suc t)"
  shows "dseg p n a [i..<j] z"
  using assms
proof (induction "j - i" arbitrary: i a)
  case 0
  then show ?case by simp
next
  case (Suc d)
  then have "i < j" by simp
  have "dseg p n i [Suc i..<j] z"
    using Suc.hyps(1) [of "Suc i" i] Suc.hyps(2) Suc.prems \<open>i < j\<close> by simp
  then show ?case using Suc.prems \<open>i < j\<close> by (simp add: upt_conv_Cons)
qed

lemma dll_upt:
  assumes "0 < n" and "n \<le> e" and "h = 0" and "t = n - 1"
    and "\<And>i. i < n \<Longrightarrow> p i = (if i = 0 then e else i - 1)"
    and "\<And>i. i < n \<Longrightarrow> nx i = (if Suc i = n then e else Suc i)"
  shows "dll e (p, nx, h, t) [0..<n]"
  using assms dseg_upt [of 0 n p e nx e] by simp

section \<open>The link manipulations\<close>

fun put_links :: "'i \<Rightarrow> 'i \<Rightarrow> 'i links \<Rightarrow> 'i links" where
  "put_links e x (p, n, h, t) =
     (if t \<noteq> e then (p(x := t), n(x := e, t := x), h, x)
      else (p(x := e), n(x := e), x, x))"

fun pop_links :: "'i \<Rightarrow> 'i links \<Rightarrow> 'i links" where
  "pop_links e (p, n, h, t) =
     (if n h \<noteq> e then (p(n h := e), n, n h, t) else (p, n, e, e))"

fun unlink_links :: "'i \<Rightarrow> 'i \<Rightarrow> 'i links \<Rightarrow> 'i links" where
  "unlink_links e x (p, n, h, t) =
     (if n x \<noteq> e \<and> p x \<noteq> e then (p(n x := p x), n(p x := n x), h, t)
      else if n x = e \<and> p x \<noteq> e then (p, n(p x := e), h, p x)
      else if n x \<noteq> e \<and> p x = e then (p(n x := e), n, n x, t)
      else (p, n, e, e))"

fun push_links :: "'i \<Rightarrow> 'i \<Rightarrow> 'i links \<Rightarrow> 'i links" where
  "push_links e x (p, n, h, t) =
     (if h \<noteq> e then (p(x := e, h := x), n(x := h), x, t)
      else (p(x := e), n(x := e), x, x))"

lemma dll_put_links:
  assumes "dll e v xs" and "x \<notin> set xs" and "x \<noteq> e"
  shows "dll e (put_links e x v) (xs @ [x])"
proof -
  obtain p n h t where v: "v = (p, n, h, t)" by (cases v)
  show ?thesis
  proof (cases "xs = []")
    case True
    then show ?thesis using assms unfolding v by auto
  next
    case False
    then obtain ys y where xs: "xs = ys @ [y]" using rev_exhaust by blast
    have d: "dseg p n e (ys @ [y]) e" "y \<notin> set ys" "t = y" "t \<noteq> e"
      using assms unfolding v xs by auto
    have "dseg p (n(y := x)) e (ys @ [y]) x"
      using dseg_new_after [OF d(1,2)] .
    moreover have "x \<notin> set (ys @ [y])" using assms(2) xs by simp
    ultimately have "dseg (p(x := y)) (n(x := e, y := x)) e (ys @ [y]) x"
      by (subst dseg_cong [where p = p and n = "n(y := x)"]) auto
    then have "dseg (p(x := y)) (n(x := e, y := x)) e ((ys @ [y]) @ [x]) e"
      using \<open>x \<notin> set (ys @ [y])\<close> by (subst dseg_append) auto
    then show ?thesis
      using assms d unfolding v xs by (auto simp: hd_append)
  qed
qed

lemma dll_pop_links:
  assumes "dll e v (x # xs)"
  shows "dll e (pop_links e v) xs"
proof -
  obtain p n h t where v: "v = (p, n, h, t)" by (cases v)
  show ?thesis
  proof (cases xs)
    case Nil
    then show ?thesis using assms unfolding v by auto
  next
    case (Cons y ys)
    have d: "dseg p n x (y # ys) e" "y \<notin> set ys" "h = x" "n x = y" "y \<noteq> e"
      using assms unfolding v Cons by auto
    have "dseg (p(y := e)) n e (y # ys) e" using dseg_new_before [OF d(1,2)] .
    then show ?thesis using assms d unfolding v Cons by auto
  qed
qed

lemma dll_push_links:
  assumes "dll e v xs" and "x \<notin> set xs" and "x \<noteq> e"
  shows "dll e (push_links e x v) (x # xs)"
proof -
  obtain p n h t where v: "v = (p, n, h, t)" by (cases v)
  show ?thesis
  proof (cases xs)
    case Nil
    then show ?thesis using assms unfolding v by auto
  next
    case (Cons y ys)
    have d: "dseg p n e (y # ys) e" "y \<notin> set ys" "h = y" "y \<noteq> e" "x \<noteq> y" "x \<notin> set ys"
      using assms unfolding v Cons by auto
    have "dseg (p(y := x)) n x (y # ys) e" using dseg_new_before [OF d(1,2)] .
    then have "dseg (p(x := e, y := x)) (n(x := y)) x (y # ys) e"
      using d by (subst dseg_cong [where p = "p(y := x)" and n = n]) auto
    then show ?thesis using assms d unfolding v Cons by auto
  qed
qed

text \<open>Unlinking: the element splits the list, and each side may be empty.\<close>

lemma dll_unlink_mid:
  assumes "dll e (p, n, h, t) (as @ x # bs)"
  shows "dll e (unlink_links e x (p, n, h, t)) (as @ bs)"
proof -
  have dist: "distinct (as @ x # bs)" "e \<notin> set (as @ x # bs)"
    and seg: "dseg p n e as x" "dseg p n (if as = [] then e else last as) (x # bs) e"
    using assms by (auto simp: dseg_append)
  have px: "p x = (if as = [] then e else last as)" and nx: "n x = (if bs = [] then e else hd bs)"
    and segb: "dseg p n x bs e" using seg(2) by auto
  have h: "h = hd (as @ [x])" and t: "t = last (x # bs)"
    using assms by (auto simp: hd_append)
  consider "as = []" "bs = []" | as' a where "as = as' @ [a]" "bs = []"
    | b bs' where "as = []" "bs = b # bs'"
    | as' a b bs' where "as = as' @ [a]" "bs = b # bs'"
    by (cases as rule: rev_exhaust; cases bs) auto
  then show ?thesis
  proof cases
    case 1
    then show ?thesis using px nx by auto
  next
    case 2
    then have "dseg p (n(a := e)) e (as' @ [a]) e"
      using dseg_new_after [of p n e as' a x e] seg(1) dist by auto
    then show ?thesis using 2 px nx dist h by (auto simp: hd_append)
  next
    case 3
    then have "dseg (p(b := e)) n e (b # bs') e"
      using dseg_new_before [of p n x b bs' e e] segb dist by auto
    then show ?thesis using 3 px nx dist t by auto
  next
    case 4
    have "dseg p (n(a := b)) e (as' @ [a]) b"
      using dseg_new_after [of p n e as' a x b] seg(1) dist 4 by auto
    then have l: "dseg (p(b := a)) (n(a := b)) e (as' @ [a]) b"
      using dist 4 by (subst dseg_cong [where p = p and n = "n(a := b)"]) auto
    have "dseg (p(b := a)) n a (b # bs') e"
      using dseg_new_before [of p n x b bs' e a] segb dist 4 by auto
    then have r: "dseg (p(b := a)) (n(a := b)) a (b # bs') e"
      using dist 4 by (subst dseg_cong [where p = "p(b := a)" and n = n]) auto
    have "dseg (p(b := a)) (n(a := b)) e ((as' @ [a]) @ (b # bs')) e"
      using l r by (subst dseg_append) simp
    then show ?thesis using 4 px nx dist h t by (auto simp: hd_append)
  qed
qed

lemma dll_unlink_links:
  assumes "dll e v xs" and "x \<in> set xs"
  shows "dll e (unlink_links e x v) (remove1 x xs)"
proof -
  obtain p n h t where v: "v = (p, n, h, t)" by (cases v)
  obtain as bs where xs: "xs = as @ x # bs" "x \<notin> set as"
    using split_list_first [OF assms(2)] by blast
  have "remove1 x xs = as @ bs" using xs by (simp add: remove1_append)
  then show ?thesis using dll_unlink_mid assms(1) unfolding v xs(1) by metis
qed

text \<open>What the manipulations leave alone: the links of every other list.\<close>

fun agree_on :: "'i set \<Rightarrow> 'i links \<Rightarrow> 'i links \<Rightarrow> bool" where
  "agree_on A (p, n, h, t) (p', n', h', t') = (\<forall>y \<in> A. p' y = p y \<and> n' y = n y)"

lemma dll_agree:
  assumes "dll e (p, n, h, t) ys" and "agree_on (set ys) (p, n, h0, t0) (p', n', h1, t1)"
  shows "dll e (p', n', h, t) ys"
  using assms dll_cong [of ys p' p n' n e h t] by simp

lemma put_links_agree:
  assumes "dll e v xs" and "x \<notin> A" and "A \<inter> set xs = {}"
  shows "agree_on A v (put_links e x v)"
  using assms by (cases v) auto

lemma pop_links_agree:
  assumes "dll e v (x # xs)" and "A \<inter> set (x # xs) = {}"
  shows "agree_on A v (pop_links e v)"
  using assms by (cases v; cases xs) auto

lemma unlink_links_agree:
  assumes "dll e v xs" and "x \<in> set xs" and "A \<inter> set xs = {}"
  shows "agree_on A v (unlink_links e x v)"
proof -
  obtain p n h t where v: "v = (p, n, h, t)" by (cases v)
  obtain as bs where xs: "xs = as @ x # bs" using split_list [OF assms(2)] by blast
  have "p x = (if as = [] then e else last as)" "n x = (if bs = [] then e else hd bs)"
    using assms(1) unfolding v xs by (auto simp: dseg_append)
  then show ?thesis using assms(3) unfolding v xs
    by (auto simp: Int_commute disjoint_iff)
qed

section \<open>Interfaces\<close>

text \<open>
  A list owner shows its links (\<open>view\<close>) and promises that its operation changes them as the
  corresponding manipulation does. What follows for the spelled list is proved once here.
\<close>

locale dlist =
  fixes nil :: 'i and view :: "'s \<Rightarrow> 'i links"
begin

abbreviation spells :: "'s \<Rightarrow> 'i list \<Rightarrow> bool" where
  "spells s xs \<equiv> dll nil (view s) xs"

lemma spells_unique: "spells s xs \<Longrightarrow> spells s ys \<Longrightarrow> xs = ys"
  by (rule dll_unique)

end

locale dlist_put = dlist nil view for nil :: 'i and view :: "'s \<Rightarrow> 'i links" +
  fixes put :: "'i \<Rightarrow> 's \<Rightarrow> 's"
  assumes view_put: "view (put x s) = put_links nil x (view s)"
begin

lemma spells_put: "spells s xs \<Longrightarrow> x \<notin> set xs \<Longrightarrow> x \<noteq> nil \<Longrightarrow> spells (put x s) (xs @ [x])"
  by (simp add: view_put dll_put_links)

end

locale dlist_pop = dlist nil view for nil :: 'i and view :: "'s \<Rightarrow> 'i links" +
  fixes pop :: "'s \<Rightarrow> 's"
  assumes view_pop: "view (pop s) = pop_links nil (view s)"
begin

lemma spells_pop: "spells s (x # xs) \<Longrightarrow> spells (pop s) xs"
  by (simp add: view_pop dll_pop_links)

end

locale dlist_unlink = dlist nil view for nil :: 'i and view :: "'s \<Rightarrow> 'i links" +
  fixes unlink :: "'i \<Rightarrow> 's \<Rightarrow> 's"
  assumes view_unlink: "view (unlink x s) = unlink_links nil x (view s)"
begin

lemma spells_unlink: "spells s xs \<Longrightarrow> x \<in> set xs \<Longrightarrow> spells (unlink x s) (remove1 x xs)"
  by (simp add: view_unlink dll_unlink_links)

end

text \<open>A first-in first-out queue: append at the tail, take from the head.\<close>

locale dlist_fifo = dlist_put nil view put + dlist_pop nil view pop
  for nil :: 'i and view :: "'s \<Rightarrow> 'i links" and put :: "'i \<Rightarrow> 's \<Rightarrow> 's" and pop :: "'s \<Rightarrow> 's"
begin

lemma put_then_pop:
  assumes "spells s (y # ys)" and "x \<notin> set (y # ys)" and "x \<noteq> nil"
  shows "spells (pop (put x s)) (ys @ [x])"
proof -
  have "spells (put x s) (y # (ys @ [x]))" using spells_put [OF assms] by simp
  then show ?thesis by (rule spells_pop)
qed

end

text \<open>A queue with removal from the middle.\<close>

locale dlist_sel = dlist_put nil view put + dlist_unlink nil view unlink
  for nil :: 'i and view :: "'s \<Rightarrow> 'i links" and put unlink :: "'i \<Rightarrow> 's \<Rightarrow> 's"
begin

lemma put_then_unlink:
  assumes "spells s xs" and "x \<notin> set xs" and "x \<noteq> nil"
  shows "spells (unlink x (put x s)) xs"
proof -
  have "remove1 x (xs @ [x]) = xs" using assms(2) by (simp add: remove1_append)
  then show ?thesis using spells_unlink [OF spells_put [OF assms], of x] by simp
qed

end

end
