(* ===== verification/Request_Allocation.thy ===== *)
theory Request_Allocation
  imports Ftl_Config Dll
begin

text \<open>
  The request pool of \<^verbatim>\<open>request_format.h\<close>, \<^verbatim>\<open>request_queue.h\<close> and \<^verbatim>\<open>request_allocation.[ch]\<close>:
  the request record, the seven kinds of queues threaded through the pool by its previous and next
  tags, and the operations that move a request between them. Operations whose C body also
  reports to another component (time stamps, custom command counters, release of blocked
  requests) have the part on the queues here, with the suffix \<open>_q\<close>; the whole function
  is defined over the complete state in the later theories.

  The abstraction of the pool is a function from queue names to lists of tags (\<open>pool_ok\<close>).
\<close>

section \<open>Requests\<close>

datatype req_type = REQ_TYPE_SLICE | REQ_TYPE_NAND | REQ_TYPE_NVME_DMA

datatype req_queue_type =
  REQ_QUEUE_TYPE_NONE | REQ_QUEUE_TYPE_FREE | REQ_QUEUE_TYPE_SLICE
| REQ_QUEUE_TYPE_BLOCKED_BY_BUF_DEP | REQ_QUEUE_TYPE_BLOCKED_BY_ROW_ADDR_DEP
| REQ_QUEUE_TYPE_NVME_DMA | REQ_QUEUE_TYPE_NAND | REQ_QUEUE_TYPE_CUSTOM_CMD

datatype req_code =
  REQ_CODE_WRITE | REQ_CODE_READ | REQ_CODE_READ_TRANSFER | REQ_CODE_ERASE | REQ_CODE_RESET
| REQ_CODE_SET_FEATURE | REQ_CODE_FLUSH | REQ_CODE_RxDMA | REQ_CODE_TxDMA
| REQ_CODE_OCSSD_PHY_WRITE | REQ_CODE_OCSSD_PHY_READ | REQ_CODE_OCSSD_PHY_ERASE

datatype data_buf_format =
  REQ_OPT_DATA_BUF_ENTRY | REQ_OPT_DATA_BUF_TEMP_ENTRY | REQ_OPT_DATA_BUF_ADDR
| REQ_OPT_DATA_BUF_NONE

datatype nand_addr = REQ_OPT_NAND_ADDR_VSA | REQ_OPT_NAND_ADDR_PHY_ORG

datatype block_space = REQ_OPT_BLOCK_SPACE_MAIN | REQ_OPT_BLOCK_SPACE_TOTAL

definition LOGICAL_SLICE_ADDR_NONE :: nat where
  "LOGICAL_SLICE_ADDR_NONE = 0xffffffff"

text \<open>
  One-bit options are Booleans (ON is \<^term>\<open>True\<close>). The two members of the data buffer union share one word, so
  one field is enough. In the NAND union the members of the two address formats are separate
  fields: the firmware reads the format that \<open>nandAddr\<close> says was written.
\<close>

record nvme_dma_info =
  startIndex :: nat
  nvmeBlockOffset :: nat
  numOfNvmeBlock :: nat
  reqTail :: "8 word"
  issuedFlag :: bool
  overFlowCnt :: "32 word"

record nand_info =
  virtualSliceAddr :: nat
  physicalCh :: nat
  physicalWay :: nat
  physicalBlock :: nat
  programmedPageCnt :: nat
  physicalPage :: nat

record req_option =
  dataBufFormat :: data_buf_format
  nandAddr :: nand_addr
  nandEcc :: bool
  nandEccWarning :: bool
  rowAddrDependencyCheck :: bool
  forceUnitAccess :: bool
  blockSpace :: block_space
  customCmd :: bool
  ccmdDataBuf :: bool

record ssd_req =
  reqType :: req_type
  reqQueueType :: req_queue_type
  reqCode :: req_code
  nvmeCmdSlotTag :: nat
  logicalSliceAddr :: nat
  reqOpt :: req_option
  dataBufInfo :: nat
  nvmeDmaInfo :: nvme_dma_info
  nandInfo :: nand_info
  prevReq :: nat
  nextReq :: nat
  prevBlockingReq :: nat
  nextBlockingReq :: nat

section \<open>The pool and its queues\<close>

record req_queue =
  headReq :: nat
  tailReq :: nat
  reqCnt :: "16 word"

record req_state =
  reqPool :: "nat \<Rightarrow> ssd_req"
  freeReqQ :: req_queue
  sliceReqQ :: req_queue
  blockedByBufDepReqQ :: req_queue
  blockedByRowAddrDepReqQ :: "nat \<Rightarrow> nat \<Rightarrow> req_queue"
  nvmeDmaReqQ :: req_queue
  nandReqQ :: "nat \<Rightarrow> nat \<Rightarrow> req_queue"
  customCmdQ :: req_queue
  notCompletedNandReqCnt :: "32 word"
  notCompletedCustomCmdCnt :: "32 word"
  blockedReqCnt :: "32 word"

definition AVAILABLE_OUNTSTANDING_REQ_COUNT :: "'a ftl_config_scheme \<Rightarrow> nat" where
  "AVAILABLE_OUNTSTANDING_REQ_COUNT c = USER_DIES c * 128"

definition REQ_SLOT_TAG_NONE :: nat where
  "REQ_SLOT_TAG_NONE = 0xffff"

definition REQ_SLOT_TAG_FAIL :: nat where
  "REQ_SLOT_TAG_FAIL = 0xffff"

definition upd_req :: "nat \<Rightarrow> (ssd_req \<Rightarrow> ssd_req) \<Rightarrow> req_state \<Rightarrow> req_state" where
  "upd_req t f s = s\<lparr>reqPool := (reqPool s)(t := f (reqPool s t))\<rparr>"

definition empty_queue :: req_queue where
  "empty_queue = \<lparr>headReq = REQ_SLOT_TAG_NONE, tailReq = REQ_SLOT_TAG_NONE, reqCnt = 0\<rparr>"

text \<open>The loop over the pool and the two stores after it.\<close>

definition InitReqPool_pool ::
  "'a ftl_config_scheme \<Rightarrow> (nat \<Rightarrow> ssd_req) \<Rightarrow> nat \<Rightarrow> ssd_req" where
  "InitReqPool_pool c pool =
     (let n = AVAILABLE_OUNTSTANDING_REQ_COUNT c;
          p = array_for n (\<lambda>t r. r\<lparr>reqQueueType := REQ_QUEUE_TYPE_FREE,
                prevBlockingReq := REQ_SLOT_TAG_NONE, nextBlockingReq := REQ_SLOT_TAG_NONE,
                prevReq := u16 (t + 65535), nextReq := u16 (t + 1)\<rparr>) pool;
          p = p(0 := (p 0)\<lparr>prevReq := REQ_SLOT_TAG_NONE\<rparr>)
      in p(n - 1 := (p (n - 1))\<lparr>nextReq := REQ_SLOT_TAG_NONE\<rparr>))"

definition InitReqPool :: "'a ftl_config_scheme \<Rightarrow> req_state \<Rightarrow> req_state" where
  "InitReqPool c s =
     s\<lparr>freeReqQ := \<lparr>headReq = 0, tailReq = u16 (AVAILABLE_OUNTSTANDING_REQ_COUNT c - 1),
          reqCnt = of_nat (AVAILABLE_OUNTSTANDING_REQ_COUNT c)\<rparr>,
       sliceReqQ := empty_queue,
       blockedByBufDepReqQ := empty_queue,
       nvmeDmaReqQ := empty_queue,
       blockedByRowAddrDepReqQ := array_for (USER_CHANNELS c)
          (\<lambda>ch. array_for (USER_WAYS c) (\<lambda>way q. empty_queue)) (blockedByRowAddrDepReqQ s),
       nandReqQ := array_for (USER_CHANNELS c)
          (\<lambda>ch. array_for (USER_WAYS c) (\<lambda>way q. empty_queue)) (nandReqQ s),
       customCmdQ := empty_queue,
       reqPool := InitReqPool_pool c (reqPool s),
       notCompletedNandReqCnt := 0,
       blockedReqCnt := 0\<rparr>"

subsection \<open>Queue manipulations\<close>

text \<open>
  The C file repeats three bodies for its queues: append at the tail, take the head, unlink a
  given request. They are written once, over the queue variable (its value and its update).
\<close>

type_synonym queue_upd = "(req_queue \<Rightarrow> req_queue) \<Rightarrow> req_state \<Rightarrow> req_state"

definition put_tail ::
  "(req_state \<Rightarrow> req_queue) \<Rightarrow> queue_upd \<Rightarrow> req_queue_type \<Rightarrow> nat \<Rightarrow> req_state \<Rightarrow> req_state" where
  "put_tail qv qu ty t s =
     (let tl = tailReq (qv s);
          s1 = (if tl \<noteq> REQ_SLOT_TAG_NONE
                then qu (\<lambda>q. q\<lparr>tailReq := t\<rparr>)
                      (upd_req tl (\<lambda>r. r\<lparr>nextReq := t\<rparr>)
                        (upd_req t (\<lambda>r. r\<lparr>prevReq := tl, nextReq := REQ_SLOT_TAG_NONE\<rparr>) s))
                else qu (\<lambda>q. q\<lparr>headReq := t, tailReq := t\<rparr>)
                      (upd_req t (\<lambda>r. r\<lparr>prevReq := REQ_SLOT_TAG_NONE,
                                         nextReq := REQ_SLOT_TAG_NONE\<rparr>) s))
      in qu (\<lambda>q. q\<lparr>reqCnt := reqCnt q + 1\<rparr>) (upd_req t (\<lambda>r. r\<lparr>reqQueueType := ty\<rparr>) s1))"

definition take_head ::
  "(req_state \<Rightarrow> req_queue) \<Rightarrow> queue_upd \<Rightarrow> req_state \<Rightarrow> req_state" where
  "take_head qv qu s =
     (let t = headReq (qv s);
          nx = nextReq (reqPool s t);
          s1 = (if nx \<noteq> REQ_SLOT_TAG_NONE
                then upd_req nx (\<lambda>r. r\<lparr>prevReq := REQ_SLOT_TAG_NONE\<rparr>)
                      (qu (\<lambda>q. q\<lparr>headReq := nx\<rparr>) s)
                else qu (\<lambda>q. q\<lparr>headReq := REQ_SLOT_TAG_NONE, tailReq := REQ_SLOT_TAG_NONE\<rparr>) s)
      in qu (\<lambda>q. q\<lparr>reqCnt := reqCnt q - 1\<rparr>)
           (upd_req t (\<lambda>r. r\<lparr>reqQueueType := REQ_QUEUE_TYPE_NONE\<rparr>) s1))"

definition unlink_ptrs ::
  "(req_state \<Rightarrow> req_queue) \<Rightarrow> queue_upd \<Rightarrow> nat \<Rightarrow> req_state \<Rightarrow> req_state" where
  "unlink_ptrs qv qu t s =
     (let pv = prevReq (reqPool s t); nx = nextReq (reqPool s t) in
      if nx \<noteq> REQ_SLOT_TAG_NONE \<and> pv \<noteq> REQ_SLOT_TAG_NONE then
        upd_req nx (\<lambda>r. r\<lparr>prevReq := pv\<rparr>) (upd_req pv (\<lambda>r. r\<lparr>nextReq := nx\<rparr>) s)
      else if nx = REQ_SLOT_TAG_NONE \<and> pv \<noteq> REQ_SLOT_TAG_NONE then
        qu (\<lambda>q. q\<lparr>tailReq := pv\<rparr>) (upd_req pv (\<lambda>r. r\<lparr>nextReq := REQ_SLOT_TAG_NONE\<rparr>) s)
      else if nx \<noteq> REQ_SLOT_TAG_NONE \<and> pv = REQ_SLOT_TAG_NONE then
        qu (\<lambda>q. q\<lparr>headReq := nx\<rparr>) (upd_req nx (\<lambda>r. r\<lparr>prevReq := REQ_SLOT_TAG_NONE\<rparr>) s)
      else
        qu (\<lambda>q. q\<lparr>headReq := REQ_SLOT_TAG_NONE, tailReq := REQ_SLOT_TAG_NONE\<rparr>) s)"

definition unlink_account :: "queue_upd \<Rightarrow> nat \<Rightarrow> req_state \<Rightarrow> req_state" where
  "unlink_account qu t s =
     qu (\<lambda>q. q\<lparr>reqCnt := reqCnt q - 1\<rparr>)
       (upd_req t (\<lambda>r. r\<lparr>reqQueueType := REQ_QUEUE_TYPE_NONE\<rparr>) s)"

definition unlink_req ::
  "(req_state \<Rightarrow> req_queue) \<Rightarrow> queue_upd \<Rightarrow> nat \<Rightarrow> req_state \<Rightarrow> req_state" where
  "unlink_req qv qu t s = unlink_account qu t (unlink_ptrs qv qu t s)"

text \<open>The update of one element of a two-dimensional queue array.\<close>

definition upd_row_q :: "nat \<Rightarrow> nat \<Rightarrow> queue_upd" where
  "upd_row_q ch way f =
     blockedByRowAddrDepReqQ_update (\<lambda>qs. qs(ch := (qs ch)(way := f (qs ch way))))"

definition upd_nand_q :: "nat \<Rightarrow> nat \<Rightarrow> queue_upd" where
  "upd_nand_q ch way f = nandReqQ_update (\<lambda>qs. qs(ch := (qs ch)(way := f (qs ch way))))"

subsection \<open>Operations\<close>

definition PutToFreeReqQ :: "nat \<Rightarrow> req_state \<Rightarrow> req_state" where
  "PutToFreeReqQ t s = put_tail freeReqQ freeReqQ_update REQ_QUEUE_TYPE_FREE t s"

definition GetFromFreeReqQ_q :: "req_state \<Rightarrow> req_state \<times> nat" where
  "GetFromFreeReqQ_q s = (take_head freeReqQ freeReqQ_update s, headReq (freeReqQ s))"

definition PutToSliceReqQ_q :: "nat \<Rightarrow> req_state \<Rightarrow> req_state" where
  "PutToSliceReqQ_q t s = put_tail sliceReqQ sliceReqQ_update REQ_QUEUE_TYPE_SLICE t s"

definition GetFromSliceReqQ :: "req_state \<Rightarrow> req_state \<times> nat" where
  "GetFromSliceReqQ s =
     (if headReq (sliceReqQ s) = REQ_SLOT_TAG_NONE then (s, REQ_SLOT_TAG_FAIL)
      else (take_head sliceReqQ sliceReqQ_update s, headReq (sliceReqQ s)))"

definition PutToBlockedByBufDepReqQ :: "nat \<Rightarrow> req_state \<Rightarrow> req_state" where
  "PutToBlockedByBufDepReqQ t s =
     (let s = put_tail blockedByBufDepReqQ blockedByBufDepReqQ_update
                REQ_QUEUE_TYPE_BLOCKED_BY_BUF_DEP t s
      in s\<lparr>blockedReqCnt := blockedReqCnt s + 1\<rparr>)"

definition SelectiveGetFromBlockedByBufDepReqQ :: "nat \<Rightarrow> req_state \<Rightarrow> req_state option" where
  "SelectiveGetFromBlockedByBufDepReqQ t s =
     (if t = REQ_SLOT_TAG_NONE then None
      else let s = unlink_req blockedByBufDepReqQ blockedByBufDepReqQ_update t s
           in Some (s\<lparr>blockedReqCnt := blockedReqCnt s - 1\<rparr>))"

definition PutToBlockedByRowAddrDepReqQ :: "nat \<Rightarrow> nat \<Rightarrow> nat \<Rightarrow> req_state \<Rightarrow> req_state" where
  "PutToBlockedByRowAddrDepReqQ t ch way s =
     (let s = put_tail (\<lambda>s. blockedByRowAddrDepReqQ s ch way) (upd_row_q ch way)
                REQ_QUEUE_TYPE_BLOCKED_BY_ROW_ADDR_DEP t s
      in s\<lparr>blockedReqCnt := blockedReqCnt s + 1\<rparr>)"

definition SelectiveGetFromBlockedByRowAddrDepReqQ ::
  "nat \<Rightarrow> nat \<Rightarrow> nat \<Rightarrow> req_state \<Rightarrow> req_state option" where
  "SelectiveGetFromBlockedByRowAddrDepReqQ t ch way s =
     (if t = REQ_SLOT_TAG_NONE then None
      else let s = unlink_req (\<lambda>s. blockedByRowAddrDepReqQ s ch way) (upd_row_q ch way) t s
           in Some (s\<lparr>blockedReqCnt := blockedReqCnt s - 1\<rparr>))"

definition PutToNvmeDmaReqQ_q :: "nat \<Rightarrow> req_state \<Rightarrow> req_state" where
  "PutToNvmeDmaReqQ_q t s = put_tail nvmeDmaReqQ nvmeDmaReqQ_update REQ_QUEUE_TYPE_NVME_DMA t s"

definition SelectiveGetFromNvmeDmaReqQ_q :: "nat \<Rightarrow> req_state \<Rightarrow> req_state" where
  "SelectiveGetFromNvmeDmaReqQ_q t s = unlink_req nvmeDmaReqQ nvmeDmaReqQ_update t s"

definition PutToNandReqQ :: "nat \<Rightarrow> nat \<Rightarrow> nat \<Rightarrow> req_state \<Rightarrow> req_state" where
  "PutToNandReqQ t ch way s =
     (let s = put_tail (\<lambda>s. nandReqQ s ch way) (upd_nand_q ch way) REQ_QUEUE_TYPE_NAND t s
      in s\<lparr>notCompletedNandReqCnt := notCompletedNandReqCnt s + 1\<rparr>)"

definition GetFromNandReqQ_q :: "nat \<Rightarrow> nat \<Rightarrow> req_state \<Rightarrow> (req_state \<times> nat) option" where
  "GetFromNandReqQ_q ch way s =
     (let t = headReq (nandReqQ s ch way) in
      if t = REQ_SLOT_TAG_NONE then None
      else let s = take_head (\<lambda>s. nandReqQ s ch way) (upd_nand_q ch way) s
           in Some (s\<lparr>notCompletedNandReqCnt := notCompletedNandReqCnt s - 1\<rparr>, t))"

definition PutToCustomCmdReqQ_q :: "nat \<Rightarrow> req_state \<Rightarrow> req_state" where
  "PutToCustomCmdReqQ_q t s =
     (let s = put_tail customCmdQ customCmdQ_update REQ_QUEUE_TYPE_CUSTOM_CMD t s
      in s\<lparr>notCompletedCustomCmdCnt := notCompletedCustomCmdCnt s + 1\<rparr>)"

text \<open>
  Removal from the custom command queue happens in two halves: the command counters are told in
  between.
\<close>

definition SelectiveGetFromCustomCmdReqQ_ptrs :: "nat \<Rightarrow> req_state \<Rightarrow> req_state" where
  "SelectiveGetFromCustomCmdReqQ_ptrs t s = unlink_ptrs customCmdQ customCmdQ_update t s"

definition SelectiveGetFromCustomCmdReqQ_account :: "nat \<Rightarrow> req_state \<Rightarrow> req_state" where
  "SelectiveGetFromCustomCmdReqQ_account t s =
     (let s = unlink_account customCmdQ_update t s
      in s\<lparr>notCompletedCustomCmdCnt := notCompletedCustomCmdCnt s - 1\<rparr>)"


section \<open>The abstraction: queues as lists of tags\<close>

datatype qid = QFree | QSlice | QBufDep | QRow nat nat | QDma | QNand nat nat | QCustom

fun queue_of :: "req_state \<Rightarrow> qid \<Rightarrow> req_queue" where
  "queue_of s QFree = freeReqQ s"
| "queue_of s QSlice = sliceReqQ s"
| "queue_of s QBufDep = blockedByBufDepReqQ s"
| "queue_of s (QRow ch way) = blockedByRowAddrDepReqQ s ch way"
| "queue_of s QDma = nvmeDmaReqQ s"
| "queue_of s (QNand ch way) = nandReqQ s ch way"
| "queue_of s QCustom = customCmdQ s"

fun qtype :: "qid \<Rightarrow> req_queue_type" where
  "qtype QFree = REQ_QUEUE_TYPE_FREE"
| "qtype QSlice = REQ_QUEUE_TYPE_SLICE"
| "qtype QBufDep = REQ_QUEUE_TYPE_BLOCKED_BY_BUF_DEP"
| "qtype (QRow ch way) = REQ_QUEUE_TYPE_BLOCKED_BY_ROW_ADDR_DEP"
| "qtype QDma = REQ_QUEUE_TYPE_NVME_DMA"
| "qtype (QNand ch way) = REQ_QUEUE_TYPE_NAND"
| "qtype QCustom = REQ_QUEUE_TYPE_CUSTOM_CMD"

text \<open>The queues that exist: one row and one NAND queue for each die of the configuration.\<close>

fun valid_q :: "'a ftl_config_scheme \<Rightarrow> qid \<Rightarrow> bool" where
  "valid_q c (QRow ch way) = (ch < USER_CHANNELS c \<and> way < USER_WAYS c)"
| "valid_q c (QNand ch way) = (ch < USER_CHANNELS c \<and> way < USER_WAYS c)"
| "valid_q c _ = True"

definition qview :: "req_state \<Rightarrow> qid \<Rightarrow> nat links" where
  "qview s q = (\<lambda>t. prevReq (reqPool s t), \<lambda>t. nextReq (reqPool s t),
                headReq (queue_of s q), tailReq (queue_of s q))"

text \<open>
  \<open>pool_ok c s Q\<close>: the links of the pool spell the lists \<open>Q\<close>, each counter is the length of its
  list, each listed tag is in range and carries the type of its queue, and no tag is in two
  queues.
\<close>

definition queue_ok :: "'a ftl_config_scheme \<Rightarrow> req_state \<Rightarrow> qid \<Rightarrow> nat list \<Rightarrow> bool" where
  "queue_ok c s q xs \<longleftrightarrow>
     dll REQ_SLOT_TAG_NONE (qview s q) xs \<and>
     reqCnt (queue_of s q) = of_nat (length xs) \<and>
     (\<forall>t \<in> set xs. t < AVAILABLE_OUNTSTANDING_REQ_COUNT c \<and> reqQueueType (reqPool s t) = qtype q)"

definition pool_ok :: "'a ftl_config_scheme \<Rightarrow> req_state \<Rightarrow> (qid \<Rightarrow> nat list) \<Rightarrow> bool" where
  "pool_ok c s Q \<longleftrightarrow>
     (\<forall>q. valid_q c q \<longrightarrow> queue_ok c s q (Q q)) \<and>
     (\<forall>q. \<not> valid_q c q \<longrightarrow> Q q = []) \<and>
     (\<forall>q q'. q \<noteq> q' \<longrightarrow> set (Q q) \<inter> set (Q q') = {})"

text \<open>A tag in no queue: one the firmware is working on.\<close>

definition in_no_queue :: "(qid \<Rightarrow> nat list) \<Rightarrow> nat \<Rightarrow> bool" where
  "in_no_queue Q t \<longleftrightarrow> (\<forall>q. t \<notin> set (Q q))"

text \<open>
  The two counters that tell the firmware whether low-level work is outstanding count the blocked
  requests and the requests in the NAND queues.
\<close>

definition die_sum :: "'a ftl_config_scheme \<Rightarrow> (nat \<Rightarrow> nat \<Rightarrow> nat) \<Rightarrow> nat" where
  "die_sum c f = (\<Sum>ch<USER_CHANNELS c. \<Sum>way<USER_WAYS c. f ch way)"

definition counters_ok :: "'a ftl_config_scheme \<Rightarrow> req_state \<Rightarrow> (qid \<Rightarrow> nat list) \<Rightarrow> bool" where
  "counters_ok c s Q \<longleftrightarrow>
     blockedReqCnt s =
       of_nat (length (Q QBufDep) + die_sum c (\<lambda>ch way. length (Q (QRow ch way)))) \<and>
     notCompletedNandReqCnt s = of_nat (die_sum c (\<lambda>ch way. length (Q (QNand ch way))))"

definition pool_inv :: "'a ftl_config_scheme \<Rightarrow> req_state \<Rightarrow> (qid \<Rightarrow> nat list) \<Rightarrow> bool" where
  "pool_inv c s Q \<longleftrightarrow> pool_ok c s Q \<and> counters_ok c s Q"

lemma counters_upd_req [simp]:
  "blockedReqCnt (upd_req t f s) = blockedReqCnt s"
  "notCompletedNandReqCnt (upd_req t f s) = notCompletedNandReqCnt s"
  "notCompletedCustomCmdCnt (upd_req t f s) = notCompletedCustomCmdCnt s"
  by (simp_all add: upd_req_def)

lemma reqPool_upd_req [simp]:
  "reqPool (upd_req t f s) = (reqPool s)(t := f (reqPool s t))"
  by (simp add: upd_req_def)

lemma queue_of_upd_req [simp]: "queue_of (upd_req t f s) q = queue_of s q"
  by (cases q) (simp_all add: upd_req_def)

lemma queue_fields_upd_req [simp]:
  "freeReqQ (upd_req t f s) = freeReqQ s"
  "sliceReqQ (upd_req t f s) = sliceReqQ s"
  "blockedByBufDepReqQ (upd_req t f s) = blockedByBufDepReqQ s"
  "blockedByRowAddrDepReqQ (upd_req t f s) = blockedByRowAddrDepReqQ s"
  "nvmeDmaReqQ (upd_req t f s) = nvmeDmaReqQ s"
  "nandReqQ (upd_req t f s) = nandReqQ s"
  "customCmdQ (upd_req t f s) = customCmdQ s"
  by (simp_all add: upd_req_def)

lemma queue_of_counters [simp]:
  "queue_of (s\<lparr>blockedReqCnt := n\<rparr>) q = queue_of s q"
  "queue_of (s\<lparr>notCompletedNandReqCnt := n\<rparr>) q = queue_of s q"
  "queue_of (s\<lparr>notCompletedCustomCmdCnt := n\<rparr>) q = queue_of s q"
  by (cases q; simp)+

lemma pool_ok_counters [simp]:
  "pool_ok c (s\<lparr>blockedReqCnt := n\<rparr>) Q = pool_ok c s Q"
  "pool_ok c (s\<lparr>notCompletedNandReqCnt := n\<rparr>) Q = pool_ok c s Q"
  "pool_ok c (s\<lparr>notCompletedCustomCmdCnt := n\<rparr>) Q = pool_ok c s Q"
  by (simp_all add: pool_ok_def queue_ok_def qview_def)

lemma pool_okD:
  assumes "pool_ok c s Q" and "valid_q c q"
  shows "dll REQ_SLOT_TAG_NONE (qview s q) (Q q)"
    and "reqCnt (queue_of s q) = of_nat (length (Q q))"
    and "t \<in> set (Q q) \<Longrightarrow> t < AVAILABLE_OUNTSTANDING_REQ_COUNT c"
    and "t \<in> set (Q q) \<Longrightarrow> reqQueueType (reqPool s t) = qtype q"
  using assms by (auto simp: pool_ok_def queue_ok_def)

lemma pool_ok_disjoint: "pool_ok c s Q \<Longrightarrow> q \<noteq> q' \<Longrightarrow> set (Q q) \<inter> set (Q q') = {}"
  by (simp add: pool_ok_def)

lemma pool_ok_head:
  assumes "pool_ok c s Q" and "valid_q c q"
  shows "headReq (queue_of s q) = (if Q q = [] then REQ_SLOT_TAG_NONE else hd (Q q))"
  using pool_okD(1) [OF assms] by (simp add: qview_def)

lemma AVAILABLE_REQ_bound:
  "wf_config c \<Longrightarrow> 128 \<le> AVAILABLE_OUNTSTANDING_REQ_COUNT c \<and>
     AVAILABLE_OUNTSTANDING_REQ_COUNT c \<le> 8192"
  using USER_DIES_bounds [of c] by (auto simp: AVAILABLE_OUNTSTANDING_REQ_COUNT_def)

text \<open>A counter that reads zero belongs to an empty queue: the lists are too short to wrap.\<close>

lemma pool_ok_cnt_zero:
  assumes "wf_config c" and "pool_ok c s Q" and "valid_q c q"
  shows "reqCnt (queue_of s q) = 0 \<longleftrightarrow> Q q = []"
proof -
  have "distinct (Q q)" using pool_okD(1) [OF assms(2,3)] by (rule dll_distinct)
  moreover have "set (Q q) \<subseteq> {..<AVAILABLE_OUNTSTANDING_REQ_COUNT c}"
    using pool_okD(3) [OF assms(2,3)] by auto
  ultimately have "length (Q q) \<le> 8192"
    using finite_distinct_length_le AVAILABLE_REQ_bound [OF assms(1)] le_trans by blast
  then show ?thesis
    using pool_okD(2) [OF assms(2,3)] word_counter_zero_iff [where 'a = 16, of "length (Q q)"]
    by simp
qed

text \<open>Changing fields of a request other than its links and its queue type keeps the queues.\<close>

lemma pool_ok_upd_req:
  assumes "pool_ok c s Q"
    and "\<And>r. prevReq (f r) = prevReq r" and "\<And>r. nextReq (f r) = nextReq r"
    and "\<And>r. reqQueueType (f r) = reqQueueType r"
  shows "pool_ok c (upd_req t f s) Q"
proof -
  have "qview (upd_req t f s) q = qview s q" for q
    using assms(2,3) by (auto simp: qview_def fun_eq_iff)
  then show ?thesis using assms(1,4) by (auto simp: pool_ok_def queue_ok_def)
qed

lemma queue_ok_frame:
  assumes "pool_ok c s Q" and "valid_q c q'"
    and "agree_on (set (Q q')) (qview s q) (qview s' q)"
    and "queue_of s' q' = queue_of s q'"
    and "\<And>t. t \<in> set (Q q') \<Longrightarrow> reqQueueType (reqPool s' t) = reqQueueType (reqPool s t)"
  shows "queue_ok c s' q' (Q q')"
proof -
  have "dll REQ_SLOT_TAG_NONE (qview s' q') (Q q')"
    using dll_agree [of REQ_SLOT_TAG_NONE _ _ _ _ "Q q'"] pool_okD(1) [OF assms(1,2)] assms(3,4)
    by (auto simp: qview_def)
  then show ?thesis
    using pool_okD(2-4) [OF assms(1,2)] assms(4,5) by (simp add: queue_ok_def)
qed

lemma pool_ok_change:
  assumes "pool_ok c s Q" and "valid_q c q" and "queue_ok c s' q xs"
    and "\<And>q'. valid_q c q' \<Longrightarrow> q' \<noteq> q \<Longrightarrow> queue_ok c s' q' (Q q')"
    and "\<And>q'. q' \<noteq> q \<Longrightarrow> set xs \<inter> set (Q q') = {}"
  shows "pool_ok c s' (Q(q := xs))"
  using assms unfolding pool_ok_def by (auto simp: Int_commute)

section \<open>What the manipulations do to the queues\<close>

text \<open>
  The interface of a queue variable: reading it gives the queue named \<open>q\<close>, updating it changes
  that queue and nothing else.
\<close>

locale queue_var =
  fixes qv :: "req_state \<Rightarrow> req_queue" and qu :: queue_upd and q :: qid
  assumes qv_queue: "qv s = queue_of s q"
    and qu_queue: "queue_of (qu f s) q' = (if q' = q then f (queue_of s q) else queue_of s q')"
    and qu_pool: "reqPool (qu f s) = reqPool s"
    and qu_counters: "blockedReqCnt (qu f s) = blockedReqCnt s"
      "notCompletedNandReqCnt (qu f s) = notCompletedNandReqCnt s"
begin

lemma counters [simp]:
  "blockedReqCnt (put_tail qv qu ty t s) = blockedReqCnt s"
  "blockedReqCnt (take_head qv qu s) = blockedReqCnt s"
  "blockedReqCnt (unlink_req qv qu t s) = blockedReqCnt s"
  "notCompletedNandReqCnt (put_tail qv qu ty t s) = notCompletedNandReqCnt s"
  "notCompletedNandReqCnt (take_head qv qu s) = notCompletedNandReqCnt s"
  "notCompletedNandReqCnt (unlink_req qv qu t s) = notCompletedNandReqCnt s"
  by (simp_all add: put_tail_def take_head_def unlink_req_def unlink_ptrs_def unlink_account_def
      Let_def qu_counters)

lemma put_queue:
  "queue_of (put_tail qv qu ty t s) q' =
     (if q' = q then
        \<lparr>headReq = (if tailReq (queue_of s q) \<noteq> REQ_SLOT_TAG_NONE then headReq (queue_of s q) else t),
         tailReq = t, reqCnt = reqCnt (queue_of s q) + 1\<rparr>
      else queue_of s q')"
  by (auto simp: put_tail_def Let_def qv_queue qu_queue)

lemma put_pool:
  "reqPool (put_tail qv qu ty t s) u =
     (let r = reqPool s u; tl = tailReq (queue_of s q);
          r = (if u = t then r\<lparr>prevReq := tl, nextReq := REQ_SLOT_TAG_NONE\<rparr> else r);
          r = (if tl \<noteq> REQ_SLOT_TAG_NONE \<and> u = tl then r\<lparr>nextReq := t\<rparr> else r)
      in if u = t then r\<lparr>reqQueueType := ty\<rparr> else r)"
  by (auto simp: put_tail_def Let_def qv_queue qu_queue qu_pool)

lemma put_view: "qview (put_tail qv qu ty t s) q = put_links REQ_SLOT_TAG_NONE t (qview s q)"
  by (auto simp: qview_def put_queue put_pool Let_def fun_eq_iff)

lemma take_queue:
  "queue_of (take_head qv qu s) q' =
     (if q' = q then
        (let nx = nextReq (reqPool s (headReq (queue_of s q))) in
         \<lparr>headReq = nx,
          tailReq = (if nx \<noteq> REQ_SLOT_TAG_NONE then tailReq (queue_of s q) else REQ_SLOT_TAG_NONE),
          reqCnt = reqCnt (queue_of s q) - 1\<rparr>)
      else queue_of s q')"
  by (auto simp: take_head_def Let_def qv_queue qu_queue)

lemma take_pool:
  "reqPool (take_head qv qu s) u =
     (let r = reqPool s u; t = headReq (queue_of s q); nx = nextReq (reqPool s t);
          r = (if nx \<noteq> REQ_SLOT_TAG_NONE \<and> u = nx then r\<lparr>prevReq := REQ_SLOT_TAG_NONE\<rparr> else r)
      in if u = t then r\<lparr>reqQueueType := REQ_QUEUE_TYPE_NONE\<rparr> else r)"
  by (auto simp: take_head_def Let_def qv_queue qu_pool)

lemma take_view: "qview (take_head qv qu s) q = pop_links REQ_SLOT_TAG_NONE (qview s q)"
  by (auto simp: qview_def take_queue take_pool Let_def fun_eq_iff)

lemma unlink_queue:
  "queue_of (unlink_req qv qu t s) q' =
     (if q' = q then
        (let pv = prevReq (reqPool s t); nx = nextReq (reqPool s t) in
         \<lparr>headReq = (if pv = REQ_SLOT_TAG_NONE then nx else headReq (queue_of s q)),
          tailReq = (if nx = REQ_SLOT_TAG_NONE then pv else tailReq (queue_of s q)),
          reqCnt = reqCnt (queue_of s q) - 1\<rparr>)
      else queue_of s q')"
  by (auto simp: unlink_req_def unlink_ptrs_def unlink_account_def Let_def qu_queue)

lemma unlink_pool:
  "reqPool (unlink_req qv qu t s) u =
     (let r = reqPool s u; pv = prevReq (reqPool s t); nx = nextReq (reqPool s t);
          r = (if pv \<noteq> REQ_SLOT_TAG_NONE \<and> u = pv then r\<lparr>nextReq := nx\<rparr> else r);
          r = (if nx \<noteq> REQ_SLOT_TAG_NONE \<and> u = nx then r\<lparr>prevReq := pv\<rparr> else r)
      in if u = t then r\<lparr>reqQueueType := REQ_QUEUE_TYPE_NONE\<rparr> else r)"
  by (cases "prevReq (reqPool s t) = REQ_SLOT_TAG_NONE";
      cases "nextReq (reqPool s t) = REQ_SLOT_TAG_NONE")
    (simp_all add: unlink_req_def unlink_ptrs_def unlink_account_def Let_def qu_pool)

lemma unlink_view: "qview (unlink_req qv qu t s) q = unlink_links REQ_SLOT_TAG_NONE t (qview s q)"
  by (auto simp: qview_def unlink_queue unlink_pool Let_def fun_eq_iff)

text \<open>The three manipulations act on the abstraction as append, tail and removal.\<close>

lemma put_ok:
  assumes "pool_ok c s Q" and "valid_q c q" and "wf_config c"
    and "t < AVAILABLE_OUNTSTANDING_REQ_COUNT c" and "in_no_queue Q t"
  shows "pool_ok c (put_tail qv qu (qtype q) t s) (Q(q := Q q @ [t]))"
proof (rule pool_ok_change [OF assms(1,2)])
  note D = pool_okD [OF assms(1,2)]
  have fresh: "t \<notin> set (Q q')" for q' using assms(5) by (simp add: in_no_queue_def)
  have "t \<noteq> REQ_SLOT_TAG_NONE"
    using assms(4) AVAILABLE_REQ_bound [OF assms(3)] by (simp add: REQ_SLOT_TAG_NONE_def)
  then show "queue_ok c (put_tail qv qu (qtype q) t s) q (Q q @ [t])"
    using D(2-4) dll_put_links [OF D(1) fresh] assms(4)
    by (auto simp: queue_ok_def put_view put_queue put_pool Let_def)
  fix q' assume q': "q' \<noteq> q"
  show "set (Q q @ [t]) \<inter> set (Q q') = {}"
    using fresh pool_ok_disjoint [OF assms(1) q'] by auto
  assume v: "valid_q c q'"
  have disj: "set (Q q') \<inter> set (Q q) = {}" using pool_ok_disjoint [OF assms(1) q'] .
  show "queue_ok c (put_tail qv qu (qtype q) t s) q' (Q q')"
  proof (rule queue_ok_frame [OF assms(1) v, of q])
    show "agree_on (set (Q q')) (qview s q) (qview (put_tail qv qu (qtype q) t s) q)"
      unfolding put_view by (rule put_links_agree [OF D(1) fresh disj])
    show "queue_of (put_tail qv qu (qtype q) t s) q' = queue_of s q'"
      using q' by (simp add: put_queue)
    fix u assume "u \<in> set (Q q')"
    then show "reqQueueType (reqPool (put_tail qv qu (qtype q) t s) u)
        = reqQueueType (reqPool s u)"
      using fresh by (auto simp: put_pool Let_def)
  qed
qed

lemma take_ok:
  assumes "pool_ok c s Q" and "valid_q c q" and "Q q = t # xs"
  shows "headReq (qv s) = t" and "pool_ok c (take_head qv qu s) (Q(q := xs))"
proof -
  note D = pool_okD [OF assms(1,2), unfolded assms(3)]
  show head: "headReq (qv s) = t"
    using pool_ok_head [OF assms(1,2)] assms(3) by (simp add: qv_queue)
  have dist: "t \<notin> set xs" using dll_distinct [OF D(1)] by simp
  show "pool_ok c (take_head qv qu s) (Q(q := xs))"
  proof (rule pool_ok_change [OF assms(1,2)])
    show "queue_ok c (take_head qv qu s) q xs"
      using D(2-4) dll_pop_links [OF D(1)] dist head
      by (auto simp: queue_ok_def take_view take_queue take_pool Let_def qv_queue)
    fix q' assume q': "q' \<noteq> q"
    have disj: "set (Q q') \<inter> set (t # xs) = {}"
      using pool_ok_disjoint [OF assms(1) q'] assms(3) by simp
    then show "set xs \<inter> set (Q q') = {}" by auto
    assume v: "valid_q c q'"
    show "queue_ok c (take_head qv qu s) q' (Q q')"
    proof (rule queue_ok_frame [OF assms(1) v, of q])
      show "agree_on (set (Q q')) (qview s q) (qview (take_head qv qu s) q)"
        unfolding take_view by (rule pop_links_agree [OF D(1) disj])
      show "queue_of (take_head qv qu s) q' = queue_of s q'" using q' by (simp add: take_queue)
      fix u assume "u \<in> set (Q q')"
      then show "reqQueueType (reqPool (take_head qv qu s) u) = reqQueueType (reqPool s u)"
        using disj head by (auto simp: take_pool Let_def qv_queue)
    qed
  qed
qed

lemma unlink_ok:
  assumes "pool_ok c s Q" and "valid_q c q" and "t \<in> set (Q q)"
  shows "pool_ok c (unlink_req qv qu t s) (Q(q := remove1 t (Q q)))"
proof (rule pool_ok_change [OF assms(1,2)])
  note D = pool_okD [OF assms(1,2)]
  have dist: "set (remove1 t (Q q)) = set (Q q) - {t}"
    using dll_distinct [OF D(1)] by (rule set_remove1_distinct)
  show "queue_ok c (unlink_req qv qu t s) q (remove1 t (Q q))"
    using D(2-4) dll_unlink_links [OF D(1) assms(3)] dist
      of_nat_length_remove1 [OF assms(3), where 'a = 16]
    by (auto simp: queue_ok_def unlink_view unlink_queue unlink_pool Let_def)
  fix q' assume q': "q' \<noteq> q"
  have disj: "set (Q q') \<inter> set (Q q) = {}" using pool_ok_disjoint [OF assms(1) q'] .
  then show "set (remove1 t (Q q)) \<inter> set (Q q') = {}" using dist by auto
  assume v: "valid_q c q'"
  show "queue_ok c (unlink_req qv qu t s) q' (Q q')"
  proof (rule queue_ok_frame [OF assms(1) v, of q])
    show "agree_on (set (Q q')) (qview s q) (qview (unlink_req qv qu t s) q)"
      unfolding unlink_view by (rule unlink_links_agree [OF D(1) assms(3) disj])
    show "queue_of (unlink_req qv qu t s) q' = queue_of s q'" using q' by (simp add: unlink_queue)
    fix u assume "u \<in> set (Q q')"
    then show "reqQueueType (reqPool (unlink_req qv qu t s) u) = reqQueueType (reqPool s u)"
      using disj assms(3) by (auto simp: unlink_pool Let_def)
  qed
qed

end

section \<open>The seven queues\<close>

interpretation freeq: queue_var freeReqQ freeReqQ_update QFree
proof unfold_locales
  show "queue_of (freeReqQ_update f s) q' = (if q' = QFree then f (queue_of s QFree) else queue_of s q')"
    for f s q' by (cases q') auto
qed simp_all

interpretation sliceq: queue_var sliceReqQ sliceReqQ_update QSlice
proof unfold_locales
  show "queue_of (sliceReqQ_update f s) q' = (if q' = QSlice then f (queue_of s QSlice) else queue_of s q')"
    for f s q' by (cases q') auto
qed simp_all

interpretation bufq: queue_var blockedByBufDepReqQ blockedByBufDepReqQ_update QBufDep
proof unfold_locales
  show "queue_of (blockedByBufDepReqQ_update f s) q' =
      (if q' = QBufDep then f (queue_of s QBufDep) else queue_of s q')"
    for f s q' by (cases q') auto
qed simp_all

interpretation dmaq: queue_var nvmeDmaReqQ nvmeDmaReqQ_update QDma
proof unfold_locales
  show "queue_of (nvmeDmaReqQ_update f s) q' = (if q' = QDma then f (queue_of s QDma) else queue_of s q')"
    for f s q' by (cases q') auto
qed simp_all

interpretation customq: queue_var customCmdQ customCmdQ_update QCustom
proof unfold_locales
  show "queue_of (customCmdQ_update f s) q' = (if q' = QCustom then f (queue_of s QCustom) else queue_of s q')"
    for f s q' by (cases q') auto
qed simp_all

interpretation rowq: queue_var "\<lambda>s. blockedByRowAddrDepReqQ s ch way" "upd_row_q ch way" "QRow ch way"
  for ch way
proof unfold_locales
  show "queue_of (upd_row_q ch way f s) q' =
      (if q' = QRow ch way then f (queue_of s (QRow ch way)) else queue_of s q')" for f s q'
    by (cases q') (auto simp: upd_row_q_def)
qed (simp_all add: upd_row_q_def)

interpretation nandq: queue_var "\<lambda>s. nandReqQ s ch way" "upd_nand_q ch way" "QNand ch way"
  for ch way
proof unfold_locales
  show "queue_of (upd_nand_q ch way f s) q' =
      (if q' = QNand ch way then f (queue_of s (QNand ch way)) else queue_of s q')" for f s q'
    by (cases q') (auto simp: upd_nand_q_def)
qed (simp_all add: upd_nand_q_def)

section \<open>Properties of the pool\<close>

text \<open>The start-up layout: every tag is free, in order, and every other queue is empty.\<close>

lemma InitReqPool_pool_fields:
  assumes "wf_config c" and "t < AVAILABLE_OUNTSTANDING_REQ_COUNT c"
  shows "prevReq (InitReqPool_pool c pool t) = (if t = 0 then REQ_SLOT_TAG_NONE else t - 1)"
    and "nextReq (InitReqPool_pool c pool t) =
      (if Suc t = AVAILABLE_OUNTSTANDING_REQ_COUNT c then REQ_SLOT_TAG_NONE else Suc t)"
    and "reqQueueType (InitReqPool_pool c pool t) = REQ_QUEUE_TYPE_FREE"
    and "prevBlockingReq (InitReqPool_pool c pool t) = REQ_SLOT_TAG_NONE"
    and "nextBlockingReq (InitReqPool_pool c pool t) = REQ_SLOT_TAG_NONE"
proof -
  have "u16 (t + 65535) = (if t = 0 then 65535 else t - 1)" "u16 (Suc t) = Suc t"
    using assms(2) AVAILABLE_REQ_bound [OF assms(1)] by (auto simp: u16_def mod_if)
  then show "prevReq (InitReqPool_pool c pool t) = (if t = 0 then REQ_SLOT_TAG_NONE else t - 1)"
    and "nextReq (InitReqPool_pool c pool t) =
      (if Suc t = AVAILABLE_OUNTSTANDING_REQ_COUNT c then REQ_SLOT_TAG_NONE else Suc t)"
    and "reqQueueType (InitReqPool_pool c pool t) = REQ_QUEUE_TYPE_FREE"
    and "prevBlockingReq (InitReqPool_pool c pool t) = REQ_SLOT_TAG_NONE"
    and "nextBlockingReq (InitReqPool_pool c pool t) = REQ_SLOT_TAG_NONE"
    using assms(2) by (auto simp: InitReqPool_pool_def Let_def)
qed

definition init_queues :: "'a ftl_config_scheme \<Rightarrow> qid \<Rightarrow> nat list" where
  "init_queues c q = (if q = QFree then [0..<AVAILABLE_OUNTSTANDING_REQ_COUNT c] else [])"

lemma InitReqPool_queue_of:
  "valid_q c q \<Longrightarrow> q \<noteq> QFree \<Longrightarrow> queue_of (InitReqPool c s) q = empty_queue"
  by (cases q) (auto simp: InitReqPool_def)

lemma InitReqPool_pool_ok:
  assumes "wf_config c"
  shows "pool_ok c (InitReqPool c s) (init_queues c)"
proof -
  let ?n = "AVAILABLE_OUNTSTANDING_REQ_COUNT c"
  note F = InitReqPool_pool_fields [OF assms]
  have pool: "reqPool (InitReqPool c s) = InitReqPool_pool c (reqPool s)"
    by (simp add: InitReqPool_def)
  have "dll REQ_SLOT_TAG_NONE (qview (InitReqPool c s) QFree) [0..<?n]"
    unfolding qview_def pool using AVAILABLE_REQ_bound [OF assms] F(1,2)
    by (intro dll_upt) (auto simp: InitReqPool_def REQ_SLOT_TAG_NONE_def)
  then have "queue_ok c (InitReqPool c s) QFree [0..<?n]"
    using F(3) unfolding queue_ok_def pool by (auto simp: InitReqPool_def)
  moreover have "queue_ok c (InitReqPool c s) q []" if "valid_q c q" "q \<noteq> QFree" for q
    using InitReqPool_queue_of [OF that] by (simp add: queue_ok_def qview_def empty_queue_def)
  ultimately show ?thesis by (auto simp: pool_ok_def init_queues_def)
qed

text \<open>A change in one die changes the sum over the dies by as much.\<close>

lemma die_sum_change:
  assumes "ch < USER_CHANNELS c" and "way < USER_WAYS c"
    and "\<And>a b. (a, b) \<noteq> (ch, way) \<Longrightarrow> g a b = f a b"
  shows "die_sum c g + f ch way = die_sum c f + g ch way"
proof -
  have row: "(\<Sum>b<USER_WAYS c. g ch b) + f ch way = (\<Sum>b<USER_WAYS c. f ch b) + g ch way"
    using assms(2,3) by (simp add: sum.remove [of _ way])
  have "(\<Sum>a\<in>{..<USER_CHANNELS c} - {ch}. \<Sum>b<USER_WAYS c. g a b) =
      (\<Sum>a\<in>{..<USER_CHANNELS c} - {ch}. \<Sum>b<USER_WAYS c. f a b)"
    using assms(3) by (intro sum.cong refl) auto
  then show ?thesis
    using assms(1) row by (simp add: die_sum_def sum.remove [of "{..<USER_CHANNELS c}" ch])
qed

lemma die_sum_row:
  assumes "ch < USER_CHANNELS c" and "way < USER_WAYS c"
  shows "die_sum c (\<lambda>a b. length ((Q(QRow ch way := xs)) (QRow a b))) + length (Q (QRow ch way))
    = die_sum c (\<lambda>a b. length (Q (QRow a b))) + length xs"
proof -
  let ?g = "\<lambda>a b. length ((Q(QRow ch way := xs)) (QRow a b))" and ?f = "\<lambda>a b. length (Q (QRow a b))"
  have "die_sum c ?g + ?f ch way = die_sum c ?f + ?g ch way"
    by (rule die_sum_change [OF assms]) auto
  then show ?thesis by simp
qed

lemma die_sum_nand:
  assumes "ch < USER_CHANNELS c" and "way < USER_WAYS c"
  shows "die_sum c (\<lambda>a b. length ((Q(QNand ch way := xs)) (QNand a b))) + length (Q (QNand ch way))
    = die_sum c (\<lambda>a b. length (Q (QNand a b))) + length xs"
proof -
  let ?g = "\<lambda>a b. length ((Q(QNand ch way := xs)) (QNand a b))" and ?f = "\<lambda>a b. length (Q (QNand a b))"
  have "die_sum c ?g + ?f ch way = die_sum c ?f + ?g ch way"
    by (rule die_sum_change [OF assms]) auto
  then show ?thesis by simp
qed

lemma counters_plain:
  assumes "counters_ok c s Q" and "\<And>ch way. q \<noteq> QRow ch way" and "\<And>ch way. q \<noteq> QNand ch way"
    and "q \<noteq> QBufDep" and "blockedReqCnt s' = blockedReqCnt s"
    and "notCompletedNandReqCnt s' = notCompletedNandReqCnt s"
  shows "counters_ok c s' (Q(q := xs))"
proof -
  have "(Q(q := xs)) (QRow a b) = Q (QRow a b)" "(Q(q := xs)) (QNand a b) = Q (QNand a b)"
    "(Q(q := xs)) QBufDep = Q QBufDep" for a b
    using assms(2-4) by (metis fun_upd_other)+
  then show ?thesis using assms by (simp add: counters_ok_def)
qed

text \<open>The removals in the form the operations use.\<close>

lemma GetFromSliceReqQ_cases:
  assumes "pool_ok c s Q"
  shows "GetFromSliceReqQ s =
    (case Q QSlice of [] \<Rightarrow> (s, REQ_SLOT_TAG_FAIL)
     | t # _ \<Rightarrow> (take_head sliceReqQ sliceReqQ_update s, t))"
  using pool_ok_head [OF assms, of QSlice] dll_no_sentinel [OF pool_okD(1) [OF assms, of QSlice]]
  by (auto simp: GetFromSliceReqQ_def split: list.splits)

lemma valid_tag_not_NONE:
  assumes "wf_config c" and "pool_ok c s Q" and "valid_q c q" and "t \<in> set (Q q)"
  shows "t \<noteq> REQ_SLOT_TAG_NONE"
  using dll_no_sentinel [OF pool_okD(1) [OF assms(2,3)]] assms(4) by auto

lemma PutToFreeReqQ_inv:
  assumes "pool_inv c s Q" and "wf_config c" and "t < AVAILABLE_OUNTSTANDING_REQ_COUNT c"
    and "in_no_queue Q t"
  shows "pool_inv c (PutToFreeReqQ t s) (Q(QFree := Q QFree @ [t]))"
  using assms freeq.put_ok [of c s Q t]
  by (auto simp: pool_inv_def PutToFreeReqQ_def intro: counters_plain)

lemma PutToSliceReqQ_q_inv:
  assumes "pool_inv c s Q" and "wf_config c" and "t < AVAILABLE_OUNTSTANDING_REQ_COUNT c"
    and "in_no_queue Q t"
  shows "pool_inv c (PutToSliceReqQ_q t s) (Q(QSlice := Q QSlice @ [t]))"
  using assms sliceq.put_ok [of c s Q t]
  by (auto simp: pool_inv_def PutToSliceReqQ_q_def intro: counters_plain)

lemma PutToNvmeDmaReqQ_q_inv:
  assumes "pool_inv c s Q" and "wf_config c" and "t < AVAILABLE_OUNTSTANDING_REQ_COUNT c"
    and "in_no_queue Q t"
  shows "pool_inv c (PutToNvmeDmaReqQ_q t s) (Q(QDma := Q QDma @ [t]))"
  using assms dmaq.put_ok [of c s Q t]
  by (auto simp: pool_inv_def PutToNvmeDmaReqQ_q_def intro: counters_plain)

lemma PutToCustomCmdReqQ_q_inv:
  assumes "pool_inv c s Q" and "wf_config c" and "t < AVAILABLE_OUNTSTANDING_REQ_COUNT c"
    and "in_no_queue Q t"
  shows "pool_inv c (PutToCustomCmdReqQ_q t s) (Q(QCustom := Q QCustom @ [t]))"
  using assms customq.put_ok [of c s Q t]
  by (auto simp: pool_inv_def PutToCustomCmdReqQ_q_def Let_def intro: counters_plain)

lemma PutToBlockedByBufDepReqQ_inv:
  assumes "pool_inv c s Q" and "wf_config c" and "t < AVAILABLE_OUNTSTANDING_REQ_COUNT c"
    and "in_no_queue Q t"
  shows "pool_inv c (PutToBlockedByBufDepReqQ t s) (Q(QBufDep := Q QBufDep @ [t]))"
  using assms bufq.put_ok [of c s Q t]
  by (simp add: pool_inv_def counters_ok_def PutToBlockedByBufDepReqQ_def Let_def)

lemma PutToBlockedByRowAddrDepReqQ_inv:
  assumes "pool_inv c s Q" and "wf_config c" and "t < AVAILABLE_OUNTSTANDING_REQ_COUNT c"
    and "in_no_queue Q t" and "ch < USER_CHANNELS c" and "way < USER_WAYS c"
  shows "pool_inv c (PutToBlockedByRowAddrDepReqQ t ch way s)
    (Q(QRow ch way := Q (QRow ch way) @ [t]))"
proof -
  have "die_sum c (\<lambda>a b. length ((Q(QRow ch way := Q (QRow ch way) @ [t])) (QRow a b)))
      = die_sum c (\<lambda>a b. length (Q (QRow a b))) + 1"
    using die_sum_row [OF assms(5,6), of Q "Q (QRow ch way) @ [t]"] by simp
  then show ?thesis
    using assms rowq.put_ok [of c s Q ch way t]
    by (simp add: pool_inv_def counters_ok_def PutToBlockedByRowAddrDepReqQ_def Let_def)
qed

lemma PutToNandReqQ_inv:
  assumes "pool_inv c s Q" and "wf_config c" and "t < AVAILABLE_OUNTSTANDING_REQ_COUNT c"
    and "in_no_queue Q t" and "ch < USER_CHANNELS c" and "way < USER_WAYS c"
  shows "pool_inv c (PutToNandReqQ t ch way s) (Q(QNand ch way := Q (QNand ch way) @ [t]))"
proof -
  have "die_sum c (\<lambda>a b. length ((Q(QNand ch way := Q (QNand ch way) @ [t])) (QNand a b)))
      = die_sum c (\<lambda>a b. length (Q (QNand a b))) + 1"
    using die_sum_nand [OF assms(5,6), of Q "Q (QNand ch way) @ [t]"] by simp
  then show ?thesis
    using assms nandq.put_ok [of c s Q ch way t]
    by (simp add: pool_inv_def counters_ok_def PutToNandReqQ_def Let_def)
qed

lemmas queue_put_invs =
  PutToFreeReqQ_inv PutToSliceReqQ_q_inv PutToNvmeDmaReqQ_q_inv PutToCustomCmdReqQ_q_inv
  PutToBlockedByBufDepReqQ_inv PutToBlockedByRowAddrDepReqQ_inv PutToNandReqQ_inv

lemma GetFromFreeReqQ_q_inv:
  assumes "pool_inv c s Q" and "Q QFree = t # xs"
  shows "snd (GetFromFreeReqQ_q s) = t"
    and "pool_inv c (fst (GetFromFreeReqQ_q s)) (Q(QFree := xs))"
  using assms freeq.take_ok [of c s Q t xs]
  by (auto simp: pool_inv_def GetFromFreeReqQ_q_def intro: counters_plain)

lemma GetFromSliceReqQ_inv:
  assumes "pool_inv c s Q"
  shows "GetFromSliceReqQ s = (s, REQ_SLOT_TAG_FAIL) \<and> Q QSlice = [] \<or>
    (\<exists>t xs s'. Q QSlice = t # xs \<and> GetFromSliceReqQ s = (s', t) \<and> pool_inv c s' (Q(QSlice := xs)))"
proof (cases "Q QSlice")
  case Nil
  then show ?thesis using assms GetFromSliceReqQ_cases [of c s Q] by (simp add: pool_inv_def)
next
  case (Cons t xs)
  then show ?thesis
    using assms GetFromSliceReqQ_cases [of c s Q] sliceq.take_ok [of c s Q t xs]
    by (auto simp: pool_inv_def intro: counters_plain)
qed

lemma SelectiveGetFromNvmeDmaReqQ_q_inv:
  assumes "pool_inv c s Q" and "t \<in> set (Q QDma)"
  shows "pool_inv c (SelectiveGetFromNvmeDmaReqQ_q t s) (Q(QDma := remove1 t (Q QDma)))"
  using assms dmaq.unlink_ok [of c s Q t]
  by (auto simp: pool_inv_def SelectiveGetFromNvmeDmaReqQ_q_def intro: counters_plain)

lemma SelectiveGetFromCustomCmdReqQ_inv:
  assumes "pool_inv c s Q" and "t \<in> set (Q QCustom)"
  shows "pool_inv c
    (SelectiveGetFromCustomCmdReqQ_account t (SelectiveGetFromCustomCmdReqQ_ptrs t s))
    (Q(QCustom := remove1 t (Q QCustom)))"
proof -
  have "SelectiveGetFromCustomCmdReqQ_account t (SelectiveGetFromCustomCmdReqQ_ptrs t s) =
      (unlink_req customCmdQ customCmdQ_update t s)
        \<lparr>notCompletedCustomCmdCnt := notCompletedCustomCmdCnt (unlink_req customCmdQ customCmdQ_update t s) - 1\<rparr>"
    by (simp add: SelectiveGetFromCustomCmdReqQ_account_def SelectiveGetFromCustomCmdReqQ_ptrs_def
        unlink_req_def Let_def)
  then show ?thesis
    using assms customq.unlink_ok [of c s Q t] by (auto simp: pool_inv_def intro: counters_plain)
qed

lemma length_remove1_Suc: "t \<in> set xs \<Longrightarrow> length xs = Suc (length (remove1 t xs))"
  using length_pos_if_in_set [of t xs] by (simp add: length_remove1)

lemma SelectiveGetFromBlockedByBufDepReqQ_inv:
  assumes "pool_inv c s Q" and "wf_config c" and "t \<in> set (Q QBufDep)"
  shows "\<exists>s'. SelectiveGetFromBlockedByBufDepReqQ t s = Some s' \<and>
    pool_inv c s' (Q(QBufDep := remove1 t (Q QBufDep)))"
  using assms valid_tag_not_NONE [of c s Q QBufDep t] bufq.unlink_ok [of c s Q t]
    length_remove1_Suc [OF assms(3)]
  by (auto simp: pool_inv_def counters_ok_def SelectiveGetFromBlockedByBufDepReqQ_def Let_def)

lemma SelectiveGetFromBlockedByRowAddrDepReqQ_inv:
  assumes "pool_inv c s Q" and "wf_config c" and "t \<in> set (Q (QRow ch way))"
    and "ch < USER_CHANNELS c" and "way < USER_WAYS c"
  shows "\<exists>s'. SelectiveGetFromBlockedByRowAddrDepReqQ t ch way s = Some s' \<and>
    pool_inv c s' (Q(QRow ch way := remove1 t (Q (QRow ch way))))"
proof -
  have "die_sum c (\<lambda>a b. length (Q (QRow a b))) = Suc (die_sum c
      (\<lambda>a b. length ((Q(QRow ch way := remove1 t (Q (QRow ch way)))) (QRow a b))))"
    using die_sum_row [OF assms(4,5), of Q "remove1 t (Q (QRow ch way))"]
      length_remove1_Suc [OF assms(3)] by simp
  then show ?thesis
    using assms valid_tag_not_NONE [of c s Q "QRow ch way" t] rowq.unlink_ok [of c s Q ch way t]
    by (auto simp: pool_inv_def counters_ok_def SelectiveGetFromBlockedByRowAddrDepReqQ_def Let_def)
qed

lemma GetFromNandReqQ_q_inv:
  assumes "pool_inv c s Q" and "wf_config c" and "Q (QNand ch way) = t # xs"
    and "ch < USER_CHANNELS c" and "way < USER_WAYS c"
  shows "\<exists>s'. GetFromNandReqQ_q ch way s = Some (s', t) \<and> pool_inv c s' (Q(QNand ch way := xs))"
proof -
  have "die_sum c (\<lambda>a b. length (Q (QNand a b))) =
      Suc (die_sum c (\<lambda>a b. length ((Q(QNand ch way := xs)) (QNand a b))))"
    using die_sum_nand [OF assms(4,5), of Q xs] assms(3) by simp
  then show ?thesis
    using assms valid_tag_not_NONE [of c s Q "QNand ch way" t] nandq.take_ok [of c s Q ch way t xs]
    by (auto simp: pool_inv_def counters_ok_def GetFromNandReqQ_q_def Let_def)
qed

lemma InitReqPool_inv:
  assumes "wf_config c"
  shows "pool_inv c (InitReqPool c s) (init_queues c)"
  using InitReqPool_pool_ok [OF assms, of s]
  by (simp add: pool_inv_def counters_ok_def init_queues_def InitReqPool_def die_sum_def)

section \<open>Theorems on the pool\<close>

interpretation freefifo: dlist_fifo REQ_SLOT_TAG_NONE "\<lambda>s. qview s QFree" PutToFreeReqQ
  "\<lambda>s. fst (GetFromFreeReqQ_q s)"
  by unfold_locales (simp_all add: PutToFreeReqQ_def GetFromFreeReqQ_q_def freeq.put_view freeq.take_view)

interpretation dmasel: dlist_sel REQ_SLOT_TAG_NONE "\<lambda>s. qview s QDma" PutToNvmeDmaReqQ_q
  SelectiveGetFromNvmeDmaReqQ_q
  by unfold_locales
    (simp_all add: PutToNvmeDmaReqQ_q_def SelectiveGetFromNvmeDmaReqQ_q_def dmaq.put_view dmaq.unlink_view)

text \<open>
  C29. Start-up of the request pool: every slot is free, in order of its tag, every other queue is
  empty, and the outstanding work counters are zero.
\<close>

theorem InitReqPool_establishes:
  assumes "wf_config c"
  shows "pool_inv c (InitReqPool c s) (init_queues c) \<and>
    blockedReqCnt (InitReqPool c s) = 0 \<and> notCompletedNandReqCnt (InitReqPool c s) = 0"
  using InitReqPool_inv [OF assms] by (simp add: InitReqPool_def)

theorem InitReqPool_establishes_witness:
  "\<forall>s. pool_inv (cosmos_config 4) (InitReqPool (cosmos_config 4) s) (init_queues (cosmos_config 4))"
  using InitReqPool_establishes [OF wf_config_cosmos [of 4]] by simp

text \<open>
  C15. Insertion: putting a request that is in no queue into one of the seven kinds of queues appends
  its tag to that queue, leaves every other queue as it is, and keeps the counters of blocked and of
  outstanding NAND requests right.
\<close>

theorem queue_puts_refine:
  assumes "wf_config c" and "pool_inv c s Q" and "t < AVAILABLE_OUNTSTANDING_REQ_COUNT c"
    and "in_no_queue Q t" and "ch < USER_CHANNELS c" and "way < USER_WAYS c"
  shows "pool_inv c (PutToFreeReqQ t s) (Q(QFree := Q QFree @ [t])) \<and>
    pool_inv c (PutToSliceReqQ_q t s) (Q(QSlice := Q QSlice @ [t])) \<and>
    pool_inv c (PutToBlockedByBufDepReqQ t s) (Q(QBufDep := Q QBufDep @ [t])) \<and>
    pool_inv c (PutToBlockedByRowAddrDepReqQ t ch way s) (Q(QRow ch way := Q (QRow ch way) @ [t])) \<and>
    pool_inv c (PutToNvmeDmaReqQ_q t s) (Q(QDma := Q QDma @ [t])) \<and>
    pool_inv c (PutToNandReqQ t ch way s) (Q(QNand ch way := Q (QNand ch way) @ [t])) \<and>
    pool_inv c (PutToCustomCmdReqQ_q t s) (Q(QCustom := Q QCustom @ [t]))"
  by (intro conjI queue_put_invs assms)

lemma first_free_taken:
  assumes "wf_config c"
  defines "Q \<equiv> (init_queues c)(QFree := [1..<AVAILABLE_OUNTSTANDING_REQ_COUNT c])"
  shows "snd (GetFromFreeReqQ_q (InitReqPool c s)) = 0"
    and "pool_inv c (fst (GetFromFreeReqQ_q (InitReqPool c s))) Q"
    and "0 < AVAILABLE_OUNTSTANDING_REQ_COUNT c" and "in_no_queue Q 0"
proof -
  show pos: "0 < AVAILABLE_OUNTSTANDING_REQ_COUNT c" using AVAILABLE_REQ_bound [OF assms(1)] by simp
  then have "init_queues c QFree = 0 # [1..<AVAILABLE_OUNTSTANDING_REQ_COUNT c]"
    by (simp add: init_queues_def upt_conv_Cons)
  from GetFromFreeReqQ_q_inv [OF InitReqPool_inv [OF assms(1)] this]
  show "snd (GetFromFreeReqQ_q (InitReqPool c s)) = 0"
    "pool_inv c (fst (GetFromFreeReqQ_q (InitReqPool c s))) Q" by (simp_all add: Q_def)
  show "in_no_queue Q 0" by (simp add: in_no_queue_def Q_def init_queues_def)
qed

theorem queue_puts_refine_witness:
  "\<forall>s. \<exists>Q. pool_inv (cosmos_config 4)
     (PutToNandReqQ 0 3 7 (fst (GetFromFreeReqQ_q (InitReqPool (cosmos_config 4) s)))) Q \<and> Q (QNand 3 7) = [0]"
proof
  fix s
  let ?c = "cosmos_config 4"
  have wf: "wf_config ?c" by (rule wf_config_cosmos) simp_all
  have dims: "3 < USER_CHANNELS ?c" "7 < USER_WAYS ?c" by (simp_all add: cosmos_config_def)
  note F = first_free_taken [OF wf]
  have "pool_inv ?c (PutToNandReqQ 0 3 7 (fst (GetFromFreeReqQ_q (InitReqPool ?c s))))
      (((init_queues ?c)(QFree := [1..<AVAILABLE_OUNTSTANDING_REQ_COUNT ?c]))
       (QNand 3 7 := init_queues ?c (QNand 3 7) @ [0]))"
    using queue_puts_refine [OF wf F(2) [of s] F(3,4) dims] by simp
  then show "\<exists>Q. pool_inv ?c (PutToNandReqQ 0 3 7 (fst (GetFromFreeReqQ_q (InitReqPool ?c s)))) Q \<and> Q (QNand 3 7) = [0]"
    by (intro exI conjI, assumption) (simp add: init_queues_def)
qed

text \<open>
  C16. Removal: taking from the free queue and from a NAND queue returns the oldest request, taking from
  an empty slice queue reports failure, and unlinking a request from the middle of a queue
  removes that request only; the other queues and the counters stay right.
\<close>

theorem queue_gets_refine:
  assumes "wf_config c" and "pool_inv c s Q" and "ch < USER_CHANNELS c" and "way < USER_WAYS c"
  shows "(\<forall>t xs. Q QFree = t # xs \<longrightarrow> snd (GetFromFreeReqQ_q s) = t \<and>
      pool_inv c (fst (GetFromFreeReqQ_q s)) (Q(QFree := xs))) \<and>
    (Q QSlice = [] \<longrightarrow> GetFromSliceReqQ s = (s, REQ_SLOT_TAG_FAIL)) \<and>
    (\<forall>t xs. Q QSlice = t # xs \<longrightarrow> snd (GetFromSliceReqQ s) = t \<and>
      pool_inv c (fst (GetFromSliceReqQ s)) (Q(QSlice := xs))) \<and>
    (\<forall>t xs. Q (QNand ch way) = t # xs \<longrightarrow>
      (\<exists>s'. GetFromNandReqQ_q ch way s = Some (s', t) \<and> pool_inv c s' (Q(QNand ch way := xs)))) \<and>
    (\<forall>t \<in> set (Q QBufDep). \<exists>s'. SelectiveGetFromBlockedByBufDepReqQ t s = Some s' \<and>
      pool_inv c s' (Q(QBufDep := remove1 t (Q QBufDep)))) \<and>
    (\<forall>t \<in> set (Q (QRow ch way)). \<exists>s'. SelectiveGetFromBlockedByRowAddrDepReqQ t ch way s = Some s' \<and>
      pool_inv c s' (Q(QRow ch way := remove1 t (Q (QRow ch way))))) \<and>
    (\<forall>t \<in> set (Q QDma). pool_inv c (SelectiveGetFromNvmeDmaReqQ_q t s) (Q(QDma := remove1 t (Q QDma)))) \<and>
    (\<forall>t \<in> set (Q QCustom).
      pool_inv c (SelectiveGetFromCustomCmdReqQ_account t (SelectiveGetFromCustomCmdReqQ_ptrs t s))
        (Q(QCustom := remove1 t (Q QCustom))))"
proof (intro conjI allI impI ballI)
  show "Q QSlice = [] \<Longrightarrow> GetFromSliceReqQ s = (s, REQ_SLOT_TAG_FAIL)"
    using GetFromSliceReqQ_inv [OF assms(2)] by auto
  fix t xs assume "Q QSlice = t # xs"
  then show "snd (GetFromSliceReqQ s) = t" "pool_inv c (fst (GetFromSliceReqQ s)) (Q(QSlice := xs))"
    using GetFromSliceReqQ_inv [OF assms(2)] by auto
qed (use assms in \<open>blast intro: GetFromFreeReqQ_q_inv GetFromNandReqQ_q_inv
    SelectiveGetFromBlockedByBufDepReqQ_inv SelectiveGetFromBlockedByRowAddrDepReqQ_inv
    SelectiveGetFromNvmeDmaReqQ_q_inv SelectiveGetFromCustomCmdReqQ_inv\<close>)+

theorem queue_gets_refine_witness:
  "\<forall>s. snd (GetFromFreeReqQ_q (fst (GetFromFreeReqQ_q (InitReqPool (cosmos_config 4) s)))) = 1"
proof
  fix s
  let ?c = "cosmos_config 4"
  have wf: "wf_config ?c" by (rule wf_config_cosmos) simp_all
  have dims: "3 < USER_CHANNELS ?c" "7 < USER_WAYS ?c" by (simp_all add: cosmos_config_def)
  have "[1..<AVAILABLE_OUNTSTANDING_REQ_COUNT ?c] = 1 # [2..<AVAILABLE_OUNTSTANDING_REQ_COUNT ?c]"
    using AVAILABLE_REQ_bound [OF wf] by (simp add: upt_conv_Cons numeral_2_eq_2)
  then show "snd (GetFromFreeReqQ_q (fst (GetFromFreeReqQ_q (InitReqPool ?c s)))) = 1"
    using queue_gets_refine [OF wf first_free_taken(2) [OF wf] dims, of s] by simp
qed

end
