(* ===== verification/Data_Buffer.thy ===== *)
theory Data_Buffer
  imports Request_Allocation
begin

text \<open>
  The DRAM data buffer of \<^verbatim>\<open>data_buffer.[ch]\<close>: a fixed set of entries, each holding one logical
  slice, in an LRU list, with a hash table from slice addresses to entries. The same code exists a
  second time for the read buffer (\<^verbatim>\<open>data_buffer_ccmd.[ch]\<close>, theory \<open>Data_Buffer_Ccmd\<close>), so the
  bodies that are literally the same are written once, over the number of entries.

  The abstraction is a list of entries in order of use plus the set of entries that are in the
  hash table (\<open>buf_inv\<close>). The locale \<open>slice_cache\<close> is what the request transformation relies on.
\<close>

section \<open>State\<close>

definition LSA_NONE :: nat where
  "LSA_NONE = 0xffffffff"

definition DATA_BUF_NONE :: nat where
  "DATA_BUF_NONE = 0xffff"

definition DATA_BUF_FAIL :: nat where
  "DATA_BUF_FAIL = 0xffff"

record data_buf_entry =
  bufLogicalSliceAddr :: nat
  prevEntry :: nat
  nextEntry :: nat
  blockingReqTail :: nat
  hashPrevEntry :: nat
  hashNextEntry :: nat
  dirty :: bool

record buf_list =
  headEntry :: nat
  tailEntry :: nat

record data_buf =
  dataBuf :: "nat \<Rightarrow> data_buf_entry"
  lruList :: buf_list
  dataBufHash :: "nat \<Rightarrow> buf_list"

definition AVAILABLE_DATA_BUFFER_ENTRY_COUNT :: "'a ftl_config_scheme \<Rightarrow> nat" where
  "AVAILABLE_DATA_BUFFER_ENTRY_COUNT c = 47 * USER_DIES c"

definition AVAILABLE_TEMPORARY_DATA_BUFFER_ENTRY_COUNT :: "'a ftl_config_scheme \<Rightarrow> nat" where
  "AVAILABLE_TEMPORARY_DATA_BUFFER_ENTRY_COUNT c = USER_DIES c"

definition FindDataBufHashTableEntry :: "'a ftl_config_scheme \<Rightarrow> nat \<Rightarrow> nat" where
  "FindDataBufHashTableEntry c lsa = lsa mod AVAILABLE_DATA_BUFFER_ENTRY_COUNT c"

definition upd_buf :: "nat \<Rightarrow> (data_buf_entry \<Rightarrow> data_buf_entry) \<Rightarrow> data_buf \<Rightarrow> data_buf" where
  "upd_buf e f b = b\<lparr>dataBuf := (dataBuf b)(e := f (dataBuf b e))\<rparr>"

definition upd_hash :: "nat \<Rightarrow> (buf_list \<Rightarrow> buf_list) \<Rightarrow> data_buf \<Rightarrow> data_buf" where
  "upd_hash h f b = b\<lparr>dataBufHash := (dataBufHash b)(h := f (dataBufHash b h))\<rparr>"

section \<open>Operations\<close>

subsection \<open>Bodies shared by the two buffers\<close>

definition buf_init :: "nat \<Rightarrow> data_buf \<Rightarrow> data_buf" where
  "buf_init n b =
     (let m = array_for n (\<lambda>e r. r\<lparr>bufLogicalSliceAddr := LSA_NONE, prevEntry := u16 (e + 65535),
                nextEntry := u16 (e + 1), dirty := False, blockingReqTail := REQ_SLOT_TAG_NONE,
                hashPrevEntry := DATA_BUF_NONE, hashNextEntry := DATA_BUF_NONE\<rparr>) (dataBuf b);
          m = m(0 := (m 0)\<lparr>prevEntry := DATA_BUF_NONE\<rparr>);
          m = m(n - 1 := (m (n - 1))\<lparr>nextEntry := DATA_BUF_NONE\<rparr>)
      in b\<lparr>dataBuf := m,
           dataBufHash := array_for n
             (\<lambda>h r. \<lparr>headEntry = DATA_BUF_NONE, tailEntry = DATA_BUF_NONE\<rparr>) (dataBufHash b),
           lruList := \<lparr>headEntry = 0, tailEntry = u16 (n - 1)\<rparr>\<rparr>)"

text \<open>The walk along a hash chain; it ends with the entry found or with the sentinel.\<close>

partial_function (option) hash_find :: "data_buf \<Rightarrow> nat \<Rightarrow> nat \<Rightarrow> nat option" where
  [code]: "hash_find b lsa e =
     (if e = DATA_BUF_NONE then Some DATA_BUF_FAIL
      else if bufLogicalSliceAddr (dataBuf b e) = lsa then Some e
      else hash_find b lsa (hashNextEntry (dataBuf b e)))"

definition lru_push_head :: "nat \<Rightarrow> data_buf \<Rightarrow> data_buf" where
  "lru_push_head e b =
     (if headEntry (lruList b) \<noteq> DATA_BUF_NONE then
        (let hd = headEntry (lruList b);
             b = upd_buf e (\<lambda>r. r\<lparr>prevEntry := DATA_BUF_NONE, nextEntry := hd\<rparr>) b;
             b = upd_buf hd (\<lambda>r. r\<lparr>prevEntry := e\<rparr>) b
         in b\<lparr>lruList := (lruList b)\<lparr>headEntry := e\<rparr>\<rparr>)
      else
        (let b = upd_buf e (\<lambda>r. r\<lparr>prevEntry := DATA_BUF_NONE, nextEntry := DATA_BUF_NONE\<rparr>) b
         in b\<lparr>lruList := \<lparr>headEntry = e, tailEntry = e\<rparr>\<rparr>))"

definition hash_put :: "nat \<Rightarrow> nat \<Rightarrow> data_buf \<Rightarrow> data_buf" where
  "hash_put n e b =
     (let h = bufLogicalSliceAddr (dataBuf b e) mod n;
          tl = tailEntry (dataBufHash b h)
      in if tl \<noteq> DATA_BUF_NONE then
           (let b = upd_buf e (\<lambda>r. r\<lparr>hashPrevEntry := tl, hashNextEntry := REQ_SLOT_TAG_NONE\<rparr>) b;
                b = upd_buf tl (\<lambda>r. r\<lparr>hashNextEntry := e\<rparr>) b
            in upd_hash h (\<lambda>l. l\<lparr>tailEntry := e\<rparr>) b)
         else
           (let b = upd_buf e (\<lambda>r. r\<lparr>hashPrevEntry := REQ_SLOT_TAG_NONE,
                                     hashNextEntry := REQ_SLOT_TAG_NONE\<rparr>) b
            in upd_hash h (\<lambda>l. l\<lparr>headEntry := e, tailEntry := e\<rparr>) b))"

definition hash_sel :: "nat \<Rightarrow> nat \<Rightarrow> data_buf \<Rightarrow> data_buf" where
  "hash_sel n e b =
     (if bufLogicalSliceAddr (dataBuf b e) \<noteq> LSA_NONE then
        (let pv = hashPrevEntry (dataBuf b e);
             nx = hashNextEntry (dataBuf b e);
             h = bufLogicalSliceAddr (dataBuf b e) mod n
         in if nx \<noteq> DATA_BUF_NONE \<and> pv \<noteq> DATA_BUF_NONE then
              upd_buf nx (\<lambda>r. r\<lparr>hashPrevEntry := pv\<rparr>) (upd_buf pv (\<lambda>r. r\<lparr>hashNextEntry := nx\<rparr>) b)
            else if nx = DATA_BUF_NONE \<and> pv \<noteq> DATA_BUF_NONE then
              upd_hash h (\<lambda>l. l\<lparr>tailEntry := pv\<rparr>)
                (upd_buf pv (\<lambda>r. r\<lparr>hashNextEntry := DATA_BUF_NONE\<rparr>) b)
            else if nx \<noteq> DATA_BUF_NONE \<and> pv = DATA_BUF_NONE then
              upd_hash h (\<lambda>l. l\<lparr>headEntry := nx\<rparr>)
                (upd_buf nx (\<lambda>r. r\<lparr>hashPrevEntry := DATA_BUF_NONE\<rparr>) b)
            else upd_hash h (\<lambda>l. l\<lparr>headEntry := DATA_BUF_NONE, tailEntry := DATA_BUF_NONE\<rparr>) b)
      else b)"

definition lru_evict_tail :: "nat \<Rightarrow> data_buf \<Rightarrow> data_buf" where
  "lru_evict_tail e b =
     (let pv = prevEntry (dataBuf b e) in
      if pv \<noteq> DATA_BUF_NONE then
        (let b = upd_buf pv (\<lambda>r. r\<lparr>nextEntry := DATA_BUF_NONE\<rparr>) b;
             b = b\<lparr>lruList := (lruList b)\<lparr>tailEntry := pv\<rparr>\<rparr>;
             hd = headEntry (lruList b);
             b = upd_buf e (\<lambda>r. r\<lparr>prevEntry := DATA_BUF_NONE, nextEntry := hd\<rparr>) b;
             b = upd_buf hd (\<lambda>r. r\<lparr>prevEntry := e\<rparr>) b
         in b\<lparr>lruList := (lruList b)\<lparr>headEntry := e\<rparr>\<rparr>)
      else
        (let b = upd_buf e (\<lambda>r. r\<lparr>prevEntry := DATA_BUF_NONE, nextEntry := DATA_BUF_NONE\<rparr>) b
         in b\<lparr>lruList := \<lparr>headEntry = e, tailEntry = e\<rparr>\<rparr>))"

definition buf_allocate :: "nat \<Rightarrow> data_buf \<Rightarrow> (data_buf \<times> nat) option" where
  "buf_allocate n b =
     (let e = tailEntry (lruList b) in
      if e = DATA_BUF_NONE then None
      else Some (hash_sel n e (lru_evict_tail e b), e))"

subsection \<open>The data buffer\<close>

definition InitDataBuf :: "'a ftl_config_scheme \<Rightarrow> data_buf \<Rightarrow> data_buf" where
  "InitDataBuf c b = buf_init (AVAILABLE_DATA_BUFFER_ENTRY_COUNT c) b"

definition InitTempDataBuf :: "'a ftl_config_scheme \<Rightarrow> (nat \<Rightarrow> nat) \<Rightarrow> nat \<Rightarrow> nat" where
  "InitTempDataBuf c tails =
     array_for (AVAILABLE_TEMPORARY_DATA_BUFFER_ENTRY_COUNT c) (\<lambda>e r. REQ_SLOT_TAG_NONE) tails"

text \<open>
  Taking an entry out of the LRU list before it goes to the head. This body reads the links of the
  entry again after it has changed its neighbour.
\<close>

definition CheckDataBufHit_unlink :: "nat \<Rightarrow> data_buf \<Rightarrow> data_buf" where
  "CheckDataBufHit_unlink e b =
     (let nx = (\<lambda>b. nextEntry (dataBuf b e)); pv = (\<lambda>b. prevEntry (dataBuf b e)) in
      if nx b \<noteq> DATA_BUF_NONE \<and> pv b \<noteq> DATA_BUF_NONE then
        (let b = upd_buf (pv b) (\<lambda>r. r\<lparr>nextEntry := nx b\<rparr>) b
         in upd_buf (nx b) (\<lambda>r. r\<lparr>prevEntry := pv b\<rparr>) b)
      else if nx b = DATA_BUF_NONE \<and> pv b \<noteq> DATA_BUF_NONE then
        (let b = upd_buf (pv b) (\<lambda>r. r\<lparr>nextEntry := DATA_BUF_NONE\<rparr>) b
         in b\<lparr>lruList := (lruList b)\<lparr>tailEntry := pv b\<rparr>\<rparr>)
      else if nx b \<noteq> DATA_BUF_NONE \<and> pv b = DATA_BUF_NONE then
        (let b = upd_buf (nx b) (\<lambda>r. r\<lparr>prevEntry := DATA_BUF_NONE\<rparr>) b
         in b\<lparr>lruList := (lruList b)\<lparr>headEntry := nx b\<rparr>\<rparr>)
      else b\<lparr>lruList := \<lparr>headEntry = DATA_BUF_NONE, tailEntry = DATA_BUF_NONE\<rparr>\<rparr>)"

definition CheckDataBufHit ::
  "'a ftl_config_scheme \<Rightarrow> nat \<Rightarrow> data_buf \<Rightarrow> (data_buf \<times> nat) option" where
  "CheckDataBufHit c lsa b =
     do {
       e \<leftarrow> hash_find b lsa (headEntry (dataBufHash b (FindDataBufHashTableEntry c lsa)));
       if e = DATA_BUF_FAIL then Some (b, DATA_BUF_FAIL)
       else Some (lru_push_head e (CheckDataBufHit_unlink e b), e)
     }"

definition AllocateDataBuf :: "'a ftl_config_scheme \<Rightarrow> data_buf \<Rightarrow> (data_buf \<times> nat) option" where
  "AllocateDataBuf c b = buf_allocate (AVAILABLE_DATA_BUFFER_ENTRY_COUNT c) b"

definition PutToDataBufHashList :: "'a ftl_config_scheme \<Rightarrow> nat \<Rightarrow> data_buf \<Rightarrow> data_buf" where
  "PutToDataBufHashList c e b = hash_put (AVAILABLE_DATA_BUFFER_ENTRY_COUNT c) e b"

definition SelectiveGetFromDataBufHashList ::
  "'a ftl_config_scheme \<Rightarrow> nat \<Rightarrow> data_buf \<Rightarrow> data_buf" where
  "SelectiveGetFromDataBufHashList c e b = hash_sel (AVAILABLE_DATA_BUFFER_ENTRY_COUNT c) e b"

definition AllocateTempDataBuf :: "nat \<Rightarrow> nat" where
  "AllocateTempDataBuf dieNo = dieNo"

text \<open>
  Chaining a request behind the last request on the same entry: the part on the request pool,
  given the entry's blocking tail.
\<close>

definition UpdateBlockingReq :: "nat \<Rightarrow> nat \<Rightarrow> req_state \<Rightarrow> req_state" where
  "UpdateBlockingReq tail t s =
     (if tail \<noteq> REQ_SLOT_TAG_NONE then
        (let s = upd_req t (\<lambda>r. r\<lparr>prevBlockingReq := tail\<rparr>) s
         in upd_req (prevBlockingReq (reqPool s t)) (\<lambda>r. r\<lparr>nextBlockingReq := t\<rparr>) s)
      else s)"

section \<open>The abstraction\<close>

definition lru_view :: "data_buf \<Rightarrow> nat links" where
  "lru_view b = (\<lambda>e. prevEntry (dataBuf b e), \<lambda>e. nextEntry (dataBuf b e),
                 headEntry (lruList b), tailEntry (lruList b))"

definition hash_view :: "data_buf \<Rightarrow> nat \<Rightarrow> nat links" where
  "hash_view b h = (\<lambda>e. hashPrevEntry (dataBuf b e), \<lambda>e. hashNextEntry (dataBuf b e),
                    headEntry (dataBufHash b h), tailEntry (dataBufHash b h))"

abbreviation lsa_of :: "data_buf \<Rightarrow> nat \<Rightarrow> nat" where
  "lsa_of b e \<equiv> bufLogicalSliceAddr (dataBuf b e)"

text \<open>
  \<open>buf_inv n b L D\<close>: the LRU links spell \<open>L\<close>, a listing of all \<open>n\<close> entries; each hash chain spells
  the entries whose slice hashes to it, except the entries of \<open>D\<close>, which were taken out of the table and
  not put back yet; and no two entries in the table hold the same slice.
\<close>

definition listed :: "nat \<Rightarrow> data_buf \<Rightarrow> nat set \<Rightarrow> nat \<Rightarrow> bool" where
  "listed n b D e \<longleftrightarrow> e < n \<and> e \<notin> D \<and> lsa_of b e \<noteq> LSA_NONE"

definition hash_ok :: "nat \<Rightarrow> data_buf \<Rightarrow> nat set \<Rightarrow> (nat \<Rightarrow> nat list) \<Rightarrow> bool" where
  "hash_ok n b D H \<longleftrightarrow>
     (\<forall>h < n. dll DATA_BUF_NONE (hash_view b h) (H h) \<and>
        set (H h) = {e. listed n b D e \<and> lsa_of b e mod n = h})"

definition buf_inv :: "nat \<Rightarrow> data_buf \<Rightarrow> nat list \<Rightarrow> nat set \<Rightarrow> bool" where
  "buf_inv n b L D \<longleftrightarrow>
     0 < n \<and> dll DATA_BUF_NONE (lru_view b) L \<and> set L = {..<n} \<and>
     (\<exists>H. hash_ok n b D H) \<and> inj_on (lsa_of b) {e. listed n b D e}"

text \<open>The slices that a lookup finds.\<close>

definition cached :: "nat \<Rightarrow> data_buf \<Rightarrow> nat set \<Rightarrow> nat set" where
  "cached n b D = lsa_of b ` {e. listed n b D e}"

lemma dataBuf_upd_buf [simp]: "dataBuf (upd_buf e f b) = (dataBuf b)(e := f (dataBuf b e))"
  and lruList_upd_buf [simp]: "lruList (upd_buf e f b) = lruList b"
  and dataBufHash_upd_buf [simp]: "dataBufHash (upd_buf e f b) = dataBufHash b"
  by (simp_all add: upd_buf_def)

lemma dataBuf_upd_hash [simp]: "dataBuf (upd_hash h f b) = dataBuf b"
  and lruList_upd_hash [simp]: "lruList (upd_hash h f b) = lruList b"
  and dataBufHash_upd_hash [simp]:
    "dataBufHash (upd_hash h f b) = (dataBufHash b)(h := f (dataBufHash b h))"
  by (simp_all add: upd_hash_def)

lemma NONE_same [simp]: "REQ_SLOT_TAG_NONE = DATA_BUF_NONE" "DATA_BUF_FAIL = DATA_BUF_NONE"
  by (simp_all add: REQ_SLOT_TAG_NONE_def DATA_BUF_NONE_def DATA_BUF_FAIL_def)

subsection \<open>What each manipulation changes\<close>

lemma lru_push_head_view [simp]:
  "lru_view (lru_push_head e b) = push_links DATA_BUF_NONE e (lru_view b)"
  by (auto simp: lru_push_head_def lru_view_def Let_def fun_eq_iff)

lemma CheckDataBufHit_unlink_view:
  assumes "dll DATA_BUF_NONE (lru_view b) L" and "e \<in> set L"
  shows "lru_view (CheckDataBufHit_unlink e b) = unlink_links DATA_BUF_NONE e (lru_view b)"
proof -
  have "prevEntry (dataBuf b e) \<noteq> e" "nextEntry (dataBuf b e) \<noteq> e"
    using dll_no_self [OF assms(1) [unfolded lru_view_def] assms(2)] by simp_all
  then show ?thesis
    by (auto simp: CheckDataBufHit_unlink_def lru_view_def Let_def fun_eq_iff)
qed

lemma lru_evict_tail_view:
  assumes "dll DATA_BUF_NONE (lru_view b) (xs @ [e])"
  shows "lru_view (lru_evict_tail e b) =
    push_links DATA_BUF_NONE e (unlink_links DATA_BUF_NONE e (lru_view b))"
proof -
  have "nextEntry (dataBuf b e) = DATA_BUF_NONE"
    "prevEntry (dataBuf b e) = (if xs = [] then DATA_BUF_NONE else last xs)"
    "headEntry (lruList b) = (if xs = [] then e else hd xs)" "DATA_BUF_NONE \<notin> set xs"
    using assms by (auto simp: lru_view_def dseg_append hd_append)
  moreover from this have "xs \<noteq> [] \<Longrightarrow> hd xs \<noteq> DATA_BUF_NONE" "xs \<noteq> [] \<Longrightarrow> last xs \<noteq> DATA_BUF_NONE"
    using hd_in_set last_in_set by metis+
  ultimately show ?thesis
    by (auto simp: lru_evict_tail_def lru_view_def Let_def fun_eq_iff)
qed

lemma hash_view_lru [simp]:
  "hash_view (lru_push_head e b) h = hash_view b h"
  "hash_view (CheckDataBufHit_unlink e b) h = hash_view b h"
  "hash_view (lru_evict_tail e b) h = hash_view b h"
  by (auto simp: lru_push_head_def CheckDataBufHit_unlink_def lru_evict_tail_def hash_view_def
      Let_def fun_eq_iff)

lemma lru_view_hash [simp]:
  "lru_view (hash_put n e b) = lru_view b" "lru_view (hash_sel n e b) = lru_view b"
  by (auto simp: hash_put_def hash_sel_def lru_view_def Let_def fun_eq_iff)

lemma entry_fields_lru [simp]:
  "lsa_of (lru_push_head e b) x = lsa_of b x"
  "lsa_of (CheckDataBufHit_unlink e b) x = lsa_of b x"
  "lsa_of (lru_evict_tail e b) x = lsa_of b x"
  "dirty (dataBuf (lru_push_head e b) x) = dirty (dataBuf b x)"
  "dirty (dataBuf (CheckDataBufHit_unlink e b) x) = dirty (dataBuf b x)"
  "dirty (dataBuf (lru_evict_tail e b) x) = dirty (dataBuf b x)"
  "blockingReqTail (dataBuf (lru_push_head e b) x) = blockingReqTail (dataBuf b x)"
  "blockingReqTail (dataBuf (CheckDataBufHit_unlink e b) x) = blockingReqTail (dataBuf b x)"
  "blockingReqTail (dataBuf (lru_evict_tail e b) x) = blockingReqTail (dataBuf b x)"
  by (simp_all add: lru_push_head_def CheckDataBufHit_unlink_def lru_evict_tail_def Let_def)

lemma entry_fields_hash [simp]:
  "lsa_of (hash_put n e b) x = lsa_of b x" "lsa_of (hash_sel n e b) x = lsa_of b x"
  "dirty (dataBuf (hash_put n e b) x) = dirty (dataBuf b x)"
  "dirty (dataBuf (hash_sel n e b) x) = dirty (dataBuf b x)"
  "blockingReqTail (dataBuf (hash_put n e b) x) = blockingReqTail (dataBuf b x)"
  "blockingReqTail (dataBuf (hash_sel n e b) x) = blockingReqTail (dataBuf b x)"
  by (simp_all add: hash_put_def hash_sel_def Let_def)

lemma hash_put_view:
  assumes "h = lsa_of b e mod n"
  shows "hash_view (hash_put n e b) h = put_links DATA_BUF_NONE e (hash_view b h)"
  using assms by (auto simp: hash_put_def hash_view_def Let_def fun_eq_iff)

lemma hash_sel_view:
  assumes "lsa_of b e \<noteq> LSA_NONE" and "h = lsa_of b e mod n"
  shows "hash_view (hash_sel n e b) h = unlink_links DATA_BUF_NONE e (hash_view b h)"
  using assms by (auto simp: hash_sel_def hash_view_def Let_def fun_eq_iff)

lemma dataBufHash_other [simp]:
  "h \<noteq> lsa_of b e mod n \<Longrightarrow> dataBufHash (hash_put n e b) h = dataBufHash b h"
  "h \<noteq> lsa_of b e mod n \<Longrightarrow> dataBufHash (hash_sel n e b) h = dataBufHash b h"
  by (simp_all add: hash_put_def hash_sel_def Let_def)

lemma hash_view_agree:
  assumes "dll DATA_BUF_NONE (hash_view b h) ys" and "dataBufHash b' h = dataBufHash b h"
    and "agree_on (set ys) (hash_view b g) (hash_view b' g)"
  shows "dll DATA_BUF_NONE (hash_view b' h) ys"
  using assms dll_agree [of DATA_BUF_NONE _ _ _ _ ys] by (auto simp: hash_view_def)

text \<open>The payload of an entry: everything but its place in the LRU list and in the hash table.\<close>

definition same_payload :: "data_buf \<Rightarrow> data_buf \<Rightarrow> bool" where
  "same_payload b b' \<longleftrightarrow>
     (\<forall>e. lsa_of b' e = lsa_of b e \<and> dirty (dataBuf b' e) = dirty (dataBuf b e) \<and>
          blockingReqTail (dataBuf b' e) = blockingReqTail (dataBuf b e))"

lemma listed_payload: "same_payload b b' \<Longrightarrow> listed n b' D e = listed n b D e"
  by (simp add: same_payload_def listed_def)

lemma cached_payload: "same_payload b b' \<Longrightarrow> cached n b' D = cached n b D"
  by (auto simp: cached_def listed_payload) (auto simp: same_payload_def)

subsection \<open>Lookup\<close>

lemma hash_find_seg:
  assumes "dseg p (\<lambda>e. hashNextEntry (dataBuf b e)) a zs DATA_BUF_NONE"
    and "DATA_BUF_NONE \<notin> set zs"
  shows "hash_find b lsa (if zs = [] then DATA_BUF_NONE else hd zs) =
    Some (case find (\<lambda>e. lsa_of b e = lsa) zs of None \<Rightarrow> DATA_BUF_FAIL | Some e \<Rightarrow> e)"
  using assms
proof (induction zs arbitrary: a)
  case Nil
  then show ?case by (simp add: hash_find.simps)
next
  case (Cons z zs)
  have IH: "hash_find b lsa (if zs = [] then DATA_BUF_NONE else hd zs) =
      Some (case find (\<lambda>e. lsa_of b e = lsa) zs of None \<Rightarrow> DATA_BUF_FAIL | Some e \<Rightarrow> e)"
    by (rule Cons.IH [of z]) (use Cons.prems in auto)
  show ?case
    using Cons.prems IH by (subst hash_find.simps) auto
qed

lemma buf_inv_lookup:
  assumes "buf_inv n b L D" and "lsa \<noteq> LSA_NONE"
  shows "(\<exists>e. listed n b D e \<and> lsa_of b e = lsa \<and>
           hash_find b lsa (headEntry (dataBufHash b (lsa mod n))) = Some e) \<or>
         lsa \<notin> cached n b D \<and>
           hash_find b lsa (headEntry (dataBufHash b (lsa mod n))) = Some DATA_BUF_FAIL"
proof -
  obtain H where H: "hash_ok n b D H" "0 < n" using assms(1) by (auto simp: buf_inv_def)
  let ?h = "lsa mod n" and ?P = "\<lambda>e. lsa_of b e = lsa"
  have "?h < n" using H(2) by simp
  then have dll: "dll DATA_BUF_NONE (hash_view b ?h) (H ?h)"
    and mem: "set (H ?h) = {e. listed n b D e \<and> lsa_of b e mod n = ?h}"
    using H(1) by (auto simp: hash_ok_def)
  have head: "headEntry (dataBufHash b ?h) = (if H ?h = [] then DATA_BUF_NONE else hd (H ?h))"
    and seg: "dseg (\<lambda>e. hashPrevEntry (dataBuf b e)) (\<lambda>e. hashNextEntry (dataBuf b e))
      DATA_BUF_NONE (H ?h) DATA_BUF_NONE" "DATA_BUF_NONE \<notin> set (H ?h)"
    using dll by (simp_all add: hash_view_def)
  have find: "hash_find b lsa (headEntry (dataBufHash b ?h)) =
      Some (case find ?P (H ?h) of None \<Rightarrow> DATA_BUF_FAIL | Some e \<Rightarrow> e)"
    unfolding head by (rule hash_find_seg [OF seg])
  show ?thesis
  proof (cases "find ?P (H ?h)")
    case None
    then have "\<not> (\<exists>e. listed n b D e \<and> lsa_of b e = lsa)"
      using mem by (auto simp: find_None_iff)
    then show ?thesis using find None by (auto simp: cached_def)
  next
    case (Some e)
    then have "e \<in> set (H ?h)" "lsa_of b e = lsa" by (auto simp: find_Some_iff)
    then show ?thesis using find Some mem by auto
  qed
qed

lemma buf_inv_unique:
  assumes "buf_inv n b L D" and "listed n b D e" and "listed n b D e'" and "lsa_of b e = lsa_of b e'"
  shows "e = e'"
  using assms by (auto simp: buf_inv_def inj_on_def)

lemma buf_inv_lookup_hit:
  assumes "buf_inv n b L D" and "listed n b D e"
  shows "hash_find b (lsa_of b e) (headEntry (dataBufHash b (lsa_of b e mod n))) = Some e"
proof -
  have "lsa_of b e \<noteq> LSA_NONE" and "lsa_of b e \<in> cached n b D"
    using assms(2) by (auto simp: listed_def cached_def)
  then obtain x where "listed n b D x" "lsa_of b x = lsa_of b e"
    "hash_find b (lsa_of b e) (headEntry (dataBufHash b (lsa_of b e mod n))) = Some x"
    using buf_inv_lookup [OF assms(1)] by blast
  then show ?thesis using buf_inv_unique [OF assms(1) _ assms(2)] by simp
qed

lemma buf_inv_lookup_miss:
  assumes "buf_inv n b L D" and "lsa \<noteq> LSA_NONE" and "lsa \<notin> cached n b D"
  shows "hash_find b lsa (headEntry (dataBufHash b (lsa mod n))) = Some DATA_BUF_FAIL"
  using buf_inv_lookup [OF assms(1,2)] assms(3) by (auto simp: cached_def)

lemma buf_inv_entry_not_NONE:
  assumes "buf_inv n b L D" and "e < n"
  shows "e \<noteq> DATA_BUF_NONE" and "e \<in> set L"
  using assms dll_no_sentinel [of DATA_BUF_NONE "lru_view b" L] by (auto simp: buf_inv_def)

subsection \<open>Moving an entry to the front\<close>

lemma hash_ok_cong:
  assumes "\<And>h. hash_view b' h = hash_view b h" and "same_payload b b'"
  shows "hash_ok n b' D H = hash_ok n b D H"
  using assms by (simp add: hash_ok_def listed_payload [OF assms(2)] same_payload_def)

lemma buf_inv_touch:
  assumes inv: "buf_inv n b L D" and e: "e < n"
    and lru: "lru_view b' = push_links DATA_BUF_NONE e (unlink_links DATA_BUF_NONE e (lru_view b))"
    and hash: "\<And>h. hash_view b' h = hash_view b h" and pay: "same_payload b b'"
  shows "buf_inv n b' (e # remove1 e L) D"
proof -
  have L: "dll DATA_BUF_NONE (lru_view b) L" "set L = {..<n}" "e \<in> set L" "e \<noteq> DATA_BUF_NONE"
    using inv e buf_inv_entry_not_NONE [OF inv e] by (auto simp: buf_inv_def)
  have set: "set (remove1 e L) = {..<n} - {e}"
    using set_remove1_distinct [OF dll_distinct [OF L(1)]] L(2) by simp
  have "dll DATA_BUF_NONE (lru_view b') (e # remove1 e L)"
    unfolding lru using dll_unlink_links [OF L(1,3)] set L(4) by (intro dll_push_links) auto
  moreover have "set (e # remove1 e L) = {..<n}" using set e by auto
  moreover have "inj_on (lsa_of b') {x. listed n b' D x} = inj_on (lsa_of b) {x. listed n b D x}"
    using pay by (simp add: listed_payload [OF pay] inj_on_def same_payload_def)
  ultimately show ?thesis
    using inv hash_ok_cong [OF hash pay] by (auto simp: buf_inv_def)
qed

lemma same_payload_trans: "same_payload a b \<Longrightarrow> same_payload b c \<Longrightarrow> same_payload a c"
  by (simp add: same_payload_def)

lemma lru_payload:
  "same_payload b (lru_push_head e b)" "same_payload b (CheckDataBufHit_unlink e b)"
  "same_payload b (lru_evict_tail e b)" "same_payload b (hash_put n e b)"
  "same_payload b (hash_sel n e b)"
  by (simp_all add: same_payload_def)

subsection \<open>Taking an entry out of the table and putting it back\<close>

lemma buf_inv_payload:
  assumes "buf_inv n b L D" and "lru_view b' = lru_view b" and "\<And>h. hash_view b' h = hash_view b h"
    and "\<And>e. e \<notin> D \<Longrightarrow> lsa_of b' e = lsa_of b e"
  shows "buf_inv n b' L D"
proof -
  have listed: "listed n b' D e = listed n b D e" for e using assms(4) by (auto simp: listed_def)
  then have "hash_ok n b' D H = hash_ok n b D H" for H
    using assms(3,4) by (auto simp: hash_ok_def listed_def)
  moreover have "inj_on (lsa_of b') {x. listed n b' D x} = inj_on (lsa_of b) {x. listed n b D x}"
    unfolding listed using assms(4) by (intro inj_on_cong) (auto simp: listed_def)
  ultimately show ?thesis using assms(1,2) by (simp add: buf_inv_def listed)
qed

lemma hash_ok_agree:
  assumes "hash_ok n b D H" and "h < n" and "h \<noteq> g" and "g < n"
    and "agree_on (set (H h)) (hash_view b g) (hash_view b' g)"
    and "dataBufHash b' h = dataBufHash b h"
  shows "dll DATA_BUF_NONE (hash_view b' h) (H h)"
  using assms hash_view_agree [of b h "H h" b' g] by (simp add: hash_ok_def)

lemma hash_ok_disjoint:
  assumes "hash_ok n b D H" and "h < n" and "g < n" and "h \<noteq> g"
  shows "set (H h) \<inter> set (H g) = {}"
  using assms by (auto simp: hash_ok_def)

lemma hash_ok_sel:
  assumes ok: "hash_ok n b D H" and e: "listed n b D e"
  shows "hash_ok n (hash_sel n e b) (insert e D) (H(lsa_of b e mod n := remove1 e (H (lsa_of b e mod n))))"
proof -
  let ?g = "lsa_of b e mod n" and ?b = "hash_sel n e b"
  have g: "?g < n" "lsa_of b e \<noteq> LSA_NONE" using e by (auto simp: listed_def)
  have Hg: "dll DATA_BUF_NONE (hash_view b ?g) (H ?g)" "e \<in> set (H ?g)"
    using ok g(1) e by (auto simp: hash_ok_def)
  have "dll DATA_BUF_NONE (hash_view ?b ?g) (remove1 e (H ?g))"
    using dll_unlink_links [OF Hg] hash_sel_view [OF g(2) refl] by simp
  moreover have "set (remove1 e (H ?g)) = set (H ?g) - {e}"
    using set_remove1_distinct [OF dll_distinct [OF Hg(1)]] .
  moreover have "dll DATA_BUF_NONE (hash_view ?b h) (H h)" if "h < n" "h \<noteq> ?g" for h
    using hash_ok_agree [OF ok that g(1), of ?b] that(2)
      unlink_links_agree [OF Hg hash_ok_disjoint [OF ok that(1) g(1) that(2)]]
      hash_sel_view [OF g(2) refl, of n] by simp
  ultimately show ?thesis
    using ok e by (auto simp: hash_ok_def listed_def)
qed

lemma hash_ok_put:
  assumes ok: "hash_ok n b D H" and e: "e \<in> D" "e < n" "lsa_of b e \<noteq> LSA_NONE" "e \<noteq> DATA_BUF_NONE"
  shows "hash_ok n (hash_put n e b) (D - {e}) (H(lsa_of b e mod n := H (lsa_of b e mod n) @ [e]))"
proof -
  let ?g = "lsa_of b e mod n" and ?b = "hash_put n e b"
  have g: "?g < n" using e(2) by simp
  have Hg: "dll DATA_BUF_NONE (hash_view b ?g) (H ?g)" using ok g by (auto simp: hash_ok_def)
  have fresh: "e \<notin> set (H h)" if "h < n" for h using ok e(1) that by (auto simp: hash_ok_def listed_def)
  have "dll DATA_BUF_NONE (hash_view ?b ?g) (H ?g @ [e])"
    using dll_put_links [OF Hg fresh [OF g] e(4)] hash_put_view [OF refl, of n e b] by simp
  moreover have "dll DATA_BUF_NONE (hash_view ?b h) (H h)" if "h < n" "h \<noteq> ?g" for h
    using hash_ok_agree [OF ok that g(1), of ?b] that(2)
      put_links_agree [OF Hg fresh [OF that(1)] hash_ok_disjoint [OF ok that(1) g(1) that(2)]]
      hash_put_view [OF refl, of n e b] by simp
  ultimately show ?thesis
    using ok e by (auto simp: hash_ok_def listed_def)
qed

lemma hash_ok_unlisted:
  assumes "hash_ok n b D H" and "lsa_of b e = LSA_NONE"
  shows "hash_ok n b (insert e D) H"
proof -
  have "listed n b (insert e D) x = listed n b D x" for x using assms(2) by (auto simp: listed_def)
  then show ?thesis using assms(1) by (simp add: hash_ok_def)
qed

lemma hash_sel_unlisted: "lsa_of b e = LSA_NONE \<Longrightarrow> hash_sel n e b = b"
  by (simp add: hash_sel_def)

lemma buf_inv_allocate:
  assumes inv: "buf_inv n b (xs @ [e]) D" and eD: "e \<notin> D"
  shows "\<exists>b'. buf_allocate n b = Some (b', e) \<and> buf_inv n b' (e # xs) (insert e D) \<and> same_payload b b'"
proof -
  let ?b1 = "lru_evict_tail e b" and ?b2 = "hash_sel n e (lru_evict_tail e b)"
  have dll: "dll DATA_BUF_NONE (lru_view b) (xs @ [e])" and e: "e < n"
    using inv by (auto simp: buf_inv_def)
  have rm: "remove1 e (xs @ [e]) = xs" using dll_distinct [OF dll] by (simp add: remove1_append)
  have inv1: "buf_inv n ?b1 (e # xs) D"
    using buf_inv_touch [OF inv e lru_evict_tail_view [OF dll]] rm lru_payload(3) by simp
  then obtain H where H: "hash_ok n ?b1 D H" by (auto simp: buf_inv_def)
  have "\<exists>H. hash_ok n ?b2 (insert e D) H"
  proof (cases "listed n ?b1 D e")
    case True
    then show ?thesis using hash_ok_sel [OF H] by blast
  next
    case False
    then have none: "lsa_of ?b1 e = LSA_NONE" using e eD by (simp add: listed_def)
    show ?thesis using hash_sel_unlisted [OF none] hash_ok_unlisted [OF H none] by auto
  qed
  moreover have "inj_on (lsa_of ?b2) {x. listed n ?b2 (insert e D) x}"
    using inv1 by (auto simp: buf_inv_def inj_on_def listed_def)
  ultimately have "buf_inv n ?b2 (e # xs) (insert e D)" using inv1 by (simp add: buf_inv_def)
  moreover have "buf_allocate n b = Some (?b2, e)"
    using dll buf_inv_entry_not_NONE [OF inv e] by (simp add: buf_allocate_def lru_view_def Let_def)
  moreover have "same_payload b ?b2" by (simp add: same_payload_def)
  ultimately show ?thesis by blast
qed

lemma buf_inv_put:
  assumes inv: "buf_inv n b L D" and e: "e \<in> D" "e < n"
    and lsa: "lsa_of b e \<noteq> LSA_NONE" "lsa_of b e \<notin> cached n b D"
  shows "buf_inv n (hash_put n e b) L (D - {e})"
proof -
  obtain H where H: "hash_ok n b D H" using inv by (auto simp: buf_inv_def)
  have "\<exists>H. hash_ok n (hash_put n e b) (D - {e}) H"
    using hash_ok_put [OF H e lsa(1)] buf_inv_entry_not_NONE [OF inv e(2)] by blast
  moreover have "inj_on (lsa_of (hash_put n e b)) {x. listed n (hash_put n e b) (D - {e}) x}"
  proof -
    have set: "{x. listed n (hash_put n e b) (D - {e}) x} = insert e {x. listed n b D x}"
      using e lsa(1) by (auto simp: listed_def)
    have "inj_on (lsa_of b) (insert e {x. listed n b D x})"
      using inv lsa(2) e(1) by (auto simp: buf_inv_def cached_def listed_def)
    then show ?thesis unfolding set by (simp add: inj_on_def)
  qed
  ultimately show ?thesis using inv by (simp add: buf_inv_def)
qed

text \<open>The start-up state: every entry is empty, in order.\<close>

lemma buf_init_inv:
  assumes "0 < n" and "n < DATA_BUF_NONE"
  shows "buf_inv n (buf_init n b) [0..<n] {}" and "cached n (buf_init n b) {} = {}"
proof -
  have fields: "lsa_of (buf_init n b) e = LSA_NONE" "hashPrevEntry (dataBuf (buf_init n b) e) = DATA_BUF_NONE"
    "prevEntry (dataBuf (buf_init n b) e) = (if e = 0 then DATA_BUF_NONE else e - 1)"
    "nextEntry (dataBuf (buf_init n b) e) = (if Suc e = n then DATA_BUF_NONE else Suc e)"
    if "e < n" for e
  proof -
    have "u16 (e + 65535) = (if e = 0 then 65535 else e - 1)" "u16 (Suc e) = Suc e"
      using that assms(2) by (auto simp: u16_def mod_if DATA_BUF_NONE_def)
    then show "lsa_of (buf_init n b) e = LSA_NONE" "hashPrevEntry (dataBuf (buf_init n b) e) = DATA_BUF_NONE"
      "prevEntry (dataBuf (buf_init n b) e) = (if e = 0 then DATA_BUF_NONE else e - 1)"
      "nextEntry (dataBuf (buf_init n b) e) = (if Suc e = n then DATA_BUF_NONE else Suc e)"
      using that by (auto simp: buf_init_def Let_def)
  qed
  have unlisted: "\<not> listed n (buf_init n b) {} e" for e using fields(1) by (auto simp: listed_def)
  have "dll DATA_BUF_NONE (lru_view (buf_init n b)) [0..<n]"
    unfolding lru_view_def using assms fields(3,4)
    by (intro dll_upt) (auto simp: buf_init_def Let_def DATA_BUF_NONE_def)
  moreover have "dataBufHash (buf_init n b) h = \<lparr>headEntry = DATA_BUF_NONE, tailEntry = DATA_BUF_NONE\<rparr>"
    if "h < n" for h using that by (simp add: buf_init_def Let_def)
  then have "hash_ok n (buf_init n b) {} (\<lambda>h. [])"
    by (simp add: hash_ok_def hash_view_def unlisted)
  ultimately show "buf_inv n (buf_init n b) [0..<n] {}"
    using assms(1) unlisted by (auto simp: buf_inv_def)
  show "cached n (buf_init n b) {} = {}" using unlisted by (simp add: cached_def)
qed

section \<open>The interface of a slice cache\<close>

text \<open>
  What the request transformation expects of each of the two buffers: a lookup finds exactly the
  cached slices and moves the hit to the front; an allocation takes the least recently used
  entry; an entry whose slice address was set can be put into the table. The lemmas of the
  locale are about the sequence the transformation performs on a miss.
\<close>

definition set_lsa :: "nat \<Rightarrow> nat \<Rightarrow> data_buf \<Rightarrow> data_buf" where
  "set_lsa e lsa b = upd_buf e (\<lambda>r. r\<lparr>bufLogicalSliceAddr := lsa\<rparr>) b"

lemma set_lsa_views [simp]:
  "lru_view (set_lsa e lsa b) = lru_view b" "hash_view (set_lsa e lsa b) h = hash_view b h"
  "lsa_of (set_lsa e lsa b) x = (if x = e then lsa else lsa_of b x)"
  by (auto simp: set_lsa_def lru_view_def hash_view_def fun_eq_iff)

lemma buf_inv_set_lsa: "buf_inv n b L D \<Longrightarrow> e \<in> D \<Longrightarrow> buf_inv n (set_lsa e lsa b) L D"
  by (rule buf_inv_payload) auto

lemma cached_set_lsa: "e \<in> D \<Longrightarrow> cached n (set_lsa e lsa b) D = cached n b D"
  by (force simp: cached_def listed_def image_iff)

locale slice_cache =
  fixes n :: nat
    and check :: "nat \<Rightarrow> data_buf \<Rightarrow> (data_buf \<times> nat) option"
    and alloc :: "data_buf \<Rightarrow> (data_buf \<times> nat) option"
    and put :: "nat \<Rightarrow> data_buf \<Rightarrow> data_buf"
  assumes check_hit: "\<lbrakk>buf_inv n b L D; listed n b D e\<rbrakk> \<Longrightarrow>
      \<exists>b'. check (lsa_of b e) b = Some (b', e) \<and> buf_inv n b' (e # remove1 e L) D \<and> same_payload b b'"
    and check_miss: "\<lbrakk>buf_inv n b L D; lsa \<noteq> LSA_NONE; lsa \<notin> cached n b D\<rbrakk> \<Longrightarrow>
      check lsa b = Some (b, DATA_BUF_FAIL)"
    and alloc_tail: "\<lbrakk>buf_inv n b (xs @ [e]) D; e \<notin> D\<rbrakk> \<Longrightarrow>
      \<exists>b'. alloc b = Some (b', e) \<and> buf_inv n b' (e # xs) (insert e D) \<and> same_payload b b'"
    and put_entry: "\<lbrakk>buf_inv n b L D; e \<in> D; e < n; lsa_of b e \<noteq> LSA_NONE; lsa_of b e \<notin> cached n b D\<rbrakk> \<Longrightarrow>
      buf_inv n (put e b) L (D - {e})"
    and put_payload: "same_payload b (put e b)"
begin

lemma check_total:
  assumes "buf_inv n b L D" and "lsa \<noteq> LSA_NONE"
  shows "\<exists>b' e. check lsa b = Some (b', e) \<and> same_payload b b' \<and>
    (if lsa \<in> cached n b D then listed n b D e \<and> lsa_of b e = lsa \<and> buf_inv n b' (e # remove1 e L) D
     else e = DATA_BUF_FAIL \<and> b' = b)"
proof (cases "lsa \<in> cached n b D")
  case True
  then obtain e where "listed n b D e" "lsa_of b e = lsa" by (auto simp: cached_def)
  then show ?thesis using check_hit [OF assms(1), of e] True by auto
next
  case False
  then show ?thesis using check_miss [OF assms] by (simp add: same_payload_def)
qed

text \<open>On a miss: allocate, set the slice address, put into the table.\<close>

lemma install:
  assumes "buf_inv n b (xs @ [e]) {}" and "lsa \<noteq> LSA_NONE" and "lsa \<notin> cached n b {}"
  shows "\<exists>b'. alloc b = Some (b', e) \<and>
    buf_inv n (put e (set_lsa e lsa b')) (e # xs) {} \<and>
    cached n (put e (set_lsa e lsa b')) {} = insert lsa (cached n b {} - {lsa_of b e})"
proof -
  obtain b' where b': "alloc b = Some (b', e)" "buf_inv n b' (e # xs) {e}" "same_payload b b'"
    using alloc_tail [OF assms(1)] by auto
  let ?b = "set_lsa e lsa b'"
  have e: "e < n" using assms(1) by (auto simp: buf_inv_def)
  have miss: "lsa \<notin> cached n ?b {e}"
    using assms(3) b'(3) cached_payload [OF b'(3), of n "{e}"]
    by (auto simp: cached_set_lsa cached_def listed_def same_payload_def)
  have inv: "buf_inv n (put e ?b) (e # xs) {}"
    using put_entry [OF buf_inv_set_lsa [OF b'(2), of e lsa], of e] e assms(2) miss by simp
  have lsas: "lsa_of (put e ?b) x = (if x = e then lsa else lsa_of b x)" for x
    using put_payload [of ?b e] b'(3) by (simp add: same_payload_def)
  have uniq: "lsa_of b x \<noteq> lsa_of b e" if "listed n b {} x" "x \<noteq> e" for x
    using that buf_inv_unique [OF assms(1), of x e] e by (auto simp: listed_def)
  have "cached n (put e ?b) {} = insert lsa (lsa_of b ` {x. listed n b {} x \<and> x \<noteq> e})"
    using e assms(2) lsas by (fastforce simp: cached_def listed_def image_iff)
  also have "lsa_of b ` {x. listed n b {} x \<and> x \<noteq> e} = cached n b {} - {lsa_of b e}"
    using uniq by (auto simp: cached_def)
  finally show ?thesis using b'(1) inv by blast
qed

text \<open>A slice that was just installed is found, in the entry that was allocated for it.\<close>

lemma install_then_check:
  assumes "buf_inv n b (xs @ [e]) {}" and "lsa \<noteq> LSA_NONE" and "lsa \<notin> cached n b {}"
    and "alloc b = Some (b', e)"
  shows "\<exists>b''. check lsa (put e (set_lsa e lsa b')) = Some (b'', e)"
proof -
  let ?b = "put e (set_lsa e lsa b')"
  have inv: "buf_inv n ?b (e # xs) {}" using install [OF assms(1-3)] assms(4) by simp
  have "lsa_of ?b e = lsa" using put_payload [of "set_lsa e lsa b'" e] by (simp add: same_payload_def)
  moreover have "e < n" using assms(1) by (auto simp: buf_inv_def)
  ultimately show ?thesis
    using check_hit [OF inv, of e] assms(2) by (auto simp: listed_def)
qed

end

section \<open>The data buffer is a slice cache\<close>

lemma AVAILABLE_DATA_BUFFER_bounds:
  "wf_config c \<Longrightarrow> 0 < AVAILABLE_DATA_BUFFER_ENTRY_COUNT c \<and>
    AVAILABLE_DATA_BUFFER_ENTRY_COUNT c < DATA_BUF_NONE"
  using USER_DIES_bounds [of c] by (auto simp: AVAILABLE_DATA_BUFFER_ENTRY_COUNT_def DATA_BUF_NONE_def)

interpretation dbuf: slice_cache "AVAILABLE_DATA_BUFFER_ENTRY_COUNT c" "CheckDataBufHit c"
  "AllocateDataBuf c" "PutToDataBufHashList c" for c
proof unfold_locales
  fix b L D e xs lsa
  let ?n = "AVAILABLE_DATA_BUFFER_ENTRY_COUNT c"
  assume inv: "buf_inv ?n b L D"
  show "\<exists>b'. CheckDataBufHit c (lsa_of b e) b = Some (b', e) \<and> buf_inv ?n b' (e # remove1 e L) D \<and>
      same_payload b b'" if e: "listed ?n b D e"
  proof -
    have ne: "lsa_of b e \<noteq> LSA_NONE" "e < ?n" using e by (auto simp: listed_def)
    have "CheckDataBufHit c (lsa_of b e) b =
        Some (lru_push_head e (CheckDataBufHit_unlink e b), e)"
      using buf_inv_lookup_hit [OF inv e] buf_inv_entry_not_NONE [OF inv ne(2)]
      by (simp add: CheckDataBufHit_def FindDataBufHashTableEntry_def)
    moreover have "lru_view (CheckDataBufHit_unlink e b) = unlink_links DATA_BUF_NONE e (lru_view b)"
      using CheckDataBufHit_unlink_view [of b L e] inv ne(2) by (simp add: buf_inv_def)
    ultimately show ?thesis
      using buf_inv_touch [OF inv ne(2), of "lru_push_head e (CheckDataBufHit_unlink e b)"]
      by (simp add: same_payload_def)
  qed
  show "CheckDataBufHit c lsa b = Some (b, DATA_BUF_FAIL)"
    if "lsa \<noteq> LSA_NONE" "lsa \<notin> cached ?n b D"
    using buf_inv_lookup_miss [OF inv that]
    by (simp add: CheckDataBufHit_def FindDataBufHashTableEntry_def)
  show "buf_inv ?n (PutToDataBufHashList c e b) L (D - {e})"
    if "e \<in> D" "e < ?n" "lsa_of b e \<noteq> LSA_NONE" "lsa_of b e \<notin> cached ?n b D"
    using buf_inv_put [OF inv that] by (simp add: PutToDataBufHashList_def)
next
  fix b xs e D
  assume "buf_inv (AVAILABLE_DATA_BUFFER_ENTRY_COUNT c) b (xs @ [e]) D" "e \<notin> D"
  then show "\<exists>b'. AllocateDataBuf c b = Some (b', e) \<and>
      buf_inv (AVAILABLE_DATA_BUFFER_ENTRY_COUNT c) b' (e # xs) (insert e D) \<and> same_payload b b'"
    unfolding AllocateDataBuf_def by (rule buf_inv_allocate)
qed (simp add: PutToDataBufHashList_def lru_payload)

lemma InitDataBuf_inv:
  assumes "wf_config c"
  shows "buf_inv (AVAILABLE_DATA_BUFFER_ENTRY_COUNT c) (InitDataBuf c b)
      [0..<AVAILABLE_DATA_BUFFER_ENTRY_COUNT c] {}"
    and "cached (AVAILABLE_DATA_BUFFER_ENTRY_COUNT c) (InitDataBuf c b) {} = {}"
  using buf_init_inv AVAILABLE_DATA_BUFFER_bounds [OF assms] by (simp_all add: InitDataBuf_def)

section \<open>Properties\<close>

text \<open>A zeroed buffer memory, and the buffer after the first slice was installed in it.\<close>

definition blank_data_buf :: data_buf where
  "blank_data_buf =
     \<lparr>dataBuf = (\<lambda>e. \<lparr>bufLogicalSliceAddr = 0, prevEntry = 0, nextEntry = 0, blockingReqTail = 0,
                     hashPrevEntry = 0, hashNextEntry = 0, dirty = False\<rparr>),
      lruList = \<lparr>headEntry = 0, tailEntry = 0\<rparr>,
      dataBufHash = (\<lambda>h. \<lparr>headEntry = 0, tailEntry = 0\<rparr>)\<rparr>"

definition first_install :: "'a ftl_config_scheme \<Rightarrow> nat \<Rightarrow> data_buf" where
  "first_install c lsa =
     (let (b, e) = the (AllocateDataBuf c (InitDataBuf c blank_data_buf))
      in PutToDataBufHashList c e (set_lsa e lsa b))"

lemma upt_snoc: "0 < n \<Longrightarrow> [0..<n] = [0..<n - 1] @ [n - 1]"
  by (metis Suc_diff_1 upt_Suc_append zero_le)

lemma first_install_inv:
  assumes "wf_config c" and "lsa \<noteq> LSA_NONE"
  defines "n \<equiv> AVAILABLE_DATA_BUFFER_ENTRY_COUNT c"
  shows "buf_inv n (first_install c lsa) ((n - 1) # [0..<n - 1]) {}"
    and "cached n (first_install c lsa) {} = {lsa}"
proof -
  have n: "0 < n" using AVAILABLE_DATA_BUFFER_bounds [OF assms(1)] by (simp add: n_def)
  have inv: "buf_inv n (InitDataBuf c blank_data_buf) ([0..<n - 1] @ [n - 1]) {}"
    and none: "cached n (InitDataBuf c blank_data_buf) {} = {}"
    using InitDataBuf_inv [OF assms(1), of blank_data_buf] upt_snoc [OF n] by (simp_all add: n_def)
  obtain b where "AllocateDataBuf c (InitDataBuf c blank_data_buf) = Some (b, n - 1)"
    "buf_inv n (PutToDataBufHashList c (n - 1) (set_lsa (n - 1) lsa b)) ((n - 1) # [0..<n - 1]) {}"
    "cached n (PutToDataBufHashList c (n - 1) (set_lsa (n - 1) lsa b)) {} = {lsa}"
    using dbuf.install [of c, folded n_def, OF inv assms(2)] none by auto
  then show "buf_inv n (first_install c lsa) ((n - 1) # [0..<n - 1]) {}"
    and "cached n (first_install c lsa) {} = {lsa}"
    by (simp_all add: first_install_def)
qed

text \<open>
  C8. Lookup in the data buffer is total and exact. In a well-formed buffer \<open>CheckDataBufHit\<close> returns
  for every slice address: the one entry that holds the slice when it is cached, after moving it
  to the front of the LRU list and leaving every payload alone; the failure value otherwise, with the buffer
  unchanged.
\<close>

theorem CheckDataBufHit_correct:
  assumes "buf_inv (AVAILABLE_DATA_BUFFER_ENTRY_COUNT c) b L {}" and "lsa \<noteq> LSA_NONE"
  shows "\<exists>b' e. CheckDataBufHit c lsa b = Some (b', e) \<and> same_payload b b' \<and>
    (if lsa \<in> cached (AVAILABLE_DATA_BUFFER_ENTRY_COUNT c) b {}
     then listed (AVAILABLE_DATA_BUFFER_ENTRY_COUNT c) b {} e \<and> lsa_of b e = lsa \<and>
       buf_inv (AVAILABLE_DATA_BUFFER_ENTRY_COUNT c) b' (e # remove1 e L) {}
     else e = DATA_BUF_FAIL \<and> b' = b)"
  using dbuf.check_total [OF assms] .

theorem CheckDataBufHit_correct_witness:
  "\<exists>b' e. CheckDataBufHit (cosmos_config 1) 7 (first_install (cosmos_config 1) 7) = Some (b', e) \<and>
     lsa_of (first_install (cosmos_config 1) 7) e = 7"
proof -
  have wf: "wf_config (cosmos_config 1)" by (rule wf_config_cosmos) simp_all
  have ne: "7 \<noteq> LSA_NONE" by (simp add: LSA_NONE_def)
  show ?thesis
    using CheckDataBufHit_correct [OF first_install_inv(1) [OF wf ne] ne] first_install_inv(2) [OF wf ne]
    by auto
qed

text \<open>
  C24. Replacement in the data buffer. On a miss \<open>AllocateDataBuf\<close> takes the least recently used entry; once
  the slice address is stored and the entry is put into the hash table, the buffer is well formed,
  the entry is the most recently used one, the cached slices are the old ones without the one that the
  entry held plus the new one, and the next lookup of that slice hits that entry.
\<close>

theorem AllocateDataBuf_installs:
  assumes "buf_inv (AVAILABLE_DATA_BUFFER_ENTRY_COUNT c) b (xs @ [e]) {}" and "lsa \<noteq> LSA_NONE"
    and "lsa \<notin> cached (AVAILABLE_DATA_BUFFER_ENTRY_COUNT c) b {}"
  shows "\<exists>b' b''. AllocateDataBuf c b = Some (b', e) \<and>
    buf_inv (AVAILABLE_DATA_BUFFER_ENTRY_COUNT c) (PutToDataBufHashList c e (set_lsa e lsa b')) (e # xs) {} \<and>
    cached (AVAILABLE_DATA_BUFFER_ENTRY_COUNT c) (PutToDataBufHashList c e (set_lsa e lsa b')) {} =
      insert lsa (cached (AVAILABLE_DATA_BUFFER_ENTRY_COUNT c) b {} - {lsa_of b e}) \<and>
    CheckDataBufHit c lsa (PutToDataBufHashList c e (set_lsa e lsa b')) = Some (b'', e)"
  using dbuf.install [OF assms] dbuf.install_then_check [OF assms] by blast

theorem AllocateDataBuf_installs_witness:
  "\<exists>b'. AllocateDataBuf (cosmos_config 1) (first_install (cosmos_config 1) 7) = Some (b', 374)"
proof -
  have wf: "wf_config (cosmos_config 1)" by (rule wf_config_cosmos) simp_all
  have n: "AVAILABLE_DATA_BUFFER_ENTRY_COUNT (cosmos_config 1) = 376"
    by (simp add: AVAILABLE_DATA_BUFFER_ENTRY_COUNT_def USER_DIES_def cosmos_config_def)
  have ne: "7 \<noteq> LSA_NONE" "8 \<noteq> LSA_NONE" by (simp_all add: LSA_NONE_def)
  have "[0..<375] = [0..<374] @ [374::nat]" using upt_snoc [of 375] by simp
  then have inv: "buf_inv (AVAILABLE_DATA_BUFFER_ENTRY_COUNT (cosmos_config 1))
      (first_install (cosmos_config 1) 7) ((375 # [0..<374]) @ [374]) {}"
    using first_install_inv(1) [OF wf ne(1)] n by simp
  have "8 \<notin> cached (AVAILABLE_DATA_BUFFER_ENTRY_COUNT (cosmos_config 1)) (first_install (cosmos_config 1) 7) {}"
    using first_install_inv(2) [OF wf ne(1)] by simp
  from AllocateDataBuf_installs [OF inv ne(2) this] show ?thesis by blast
qed

end
