(* ===== verification/Address_Map.thy ===== *)
theory Address_Map
  imports Data_Buffer
begin

text \<open>
  The address translation tables of \<^verbatim>\<open>address_translation.[ch]\<close> and the victim lists of
  \<^verbatim>\<open>garbage_collection.[ch]\<close>: logical to virtual slices and back, the blocks of each die
  (their free list, their victim lists ordered by the number of invalid slices, the block being filled), and
  the round-robin choice of the next die. Every function here touches these tables
  only; the functions that also issue flash requests (garbage collection, erase) are in
  \<open>Ftl_Ops\<close>, which refines the table part given here.
\<close>

section \<open>Address arithmetic\<close>

definition VSA_NONE :: nat where
  "VSA_NONE = 0xffffffff"

definition VSA_FAIL :: nat where
  "VSA_FAIL = 0xffffffff"

definition BLOCK_NONE :: nat where
  "BLOCK_NONE = 0xffff"

definition BLOCK_FAIL :: nat where
  "BLOCK_FAIL = 0xffff"

definition RESERVED_FREE_BLOCK_COUNT :: nat where
  "RESERVED_FREE_BLOCK_COUNT = 1"

datatype get_free_block = GET_FREE_BLOCK_NORMAL | GET_FREE_BLOCK_GC

definition Vsa2VdieTranslation :: "'a ftl_config_scheme \<Rightarrow> nat \<Rightarrow> nat" where
  "Vsa2VdieTranslation c vsa = vsa mod USER_DIES c"

definition Vsa2VblockTranslation :: "'a ftl_config_scheme \<Rightarrow> nat \<Rightarrow> nat" where
  "Vsa2VblockTranslation c vsa = (vsa div USER_DIES c) div SLICES_PER_BLOCK c"

definition Vsa2VpageTranslation :: "'a ftl_config_scheme \<Rightarrow> nat \<Rightarrow> nat" where
  "Vsa2VpageTranslation c vsa = (vsa div USER_DIES c) mod SLICES_PER_BLOCK c"

definition Vorg2VsaTranslation :: "'a ftl_config_scheme \<Rightarrow> nat \<Rightarrow> nat \<Rightarrow> nat \<Rightarrow> nat" where
  "Vorg2VsaTranslation c dieNo blockNo pageNo =
     u32 (dieNo + USER_DIES c * (blockNo * SLICES_PER_BLOCK c + pageNo))"

definition Vdie2PchTranslation :: "'a ftl_config_scheme \<Rightarrow> nat \<Rightarrow> nat" where
  "Vdie2PchTranslation c dieNo = dieNo mod USER_CHANNELS c"

definition Vdie2PwayTranslation :: "'a ftl_config_scheme \<Rightarrow> nat \<Rightarrow> nat" where
  "Vdie2PwayTranslation c dieNo = dieNo div USER_CHANNELS c"

definition Vblock2PblockOfTbsTranslation :: "'a ftl_config_scheme \<Rightarrow> nat \<Rightarrow> nat" where
  "Vblock2PblockOfTbsTranslation c blockNo =
     (blockNo div USER_BLOCKS_PER_LUN c) * TOTAL_BLOCKS_PER_LUN + blockNo mod USER_BLOCKS_PER_LUN c"

definition Vblock2PblockOfMbsTranslation :: "'a ftl_config_scheme \<Rightarrow> nat \<Rightarrow> nat" where
  "Vblock2PblockOfMbsTranslation c blockNo =
     (blockNo div USER_BLOCKS_PER_LUN c) * MAIN_BLOCKS_PER_LUN + blockNo mod USER_BLOCKS_PER_LUN c"

definition Vpage2PlsbPageTranslation :: "nat \<Rightarrow> nat" where
  "Vpage2PlsbPageTranslation pageNo = (if pageNo > 0 then 2 * pageNo - 1 else 0)"

definition Pcw2VdieTranslation :: "'a ftl_config_scheme \<Rightarrow> nat \<Rightarrow> nat \<Rightarrow> nat" where
  "Pcw2VdieTranslation c chNo wayNo = chNo + wayNo * USER_CHANNELS c"

definition PlsbPage2VpageTranslation :: "nat \<Rightarrow> nat" where
  "PlsbPage2VpageTranslation pageNo = (if pageNo > 0 then (pageNo + 1) div 2 else 0)"

section \<open>Tables\<close>

record vblock =
  bad :: bool
  free :: bool
  invalidSliceCnt :: nat
  currentPage :: nat
  eraseCnt :: nat
  prevBlock :: nat
  nextBlock :: nat

record vdie =
  currentBlock :: nat
  headFreeBlock :: nat
  tailFreeBlock :: nat
  freeBlockCnt :: nat

record victim_list =
  headBlock :: nat
  tailBlock :: nat

record addr_map =
  logicalSlice :: "nat \<Rightarrow> nat"
  virtualSlice :: "nat \<Rightarrow> nat"
  block :: "nat \<Rightarrow> nat \<Rightarrow> vblock"
  die :: "nat \<Rightarrow> vdie"
  gcVictimList :: "nat \<Rightarrow> nat \<Rightarrow> victim_list"
  sliceAllocationTargetDie :: nat
  targetCh :: nat
  targetWay :: nat

definition upd_block :: "nat \<Rightarrow> nat \<Rightarrow> (vblock \<Rightarrow> vblock) \<Rightarrow> addr_map \<Rightarrow> addr_map" where
  "upd_block d b f m = m\<lparr>block := (block m)(d := (block m d)(b := f (block m d b)))\<rparr>"

definition upd_die :: "nat \<Rightarrow> (vdie \<Rightarrow> vdie) \<Rightarrow> addr_map \<Rightarrow> addr_map" where
  "upd_die d f m = m\<lparr>die := (die m)(d := f (die m d))\<rparr>"

definition upd_victims :: "nat \<Rightarrow> nat \<Rightarrow> (victim_list \<Rightarrow> victim_list) \<Rightarrow> addr_map \<Rightarrow> addr_map" where
  "upd_victims d k f m =
     m\<lparr>gcVictimList := (gcVictimList m)(d := (gcVictimList m d)(k := f (gcVictimList m d k)))\<rparr>"

section \<open>Operations\<close>

definition InitSliceMap :: "'a ftl_config_scheme \<Rightarrow> addr_map \<Rightarrow> addr_map" where
  "InitSliceMap c m =
     m\<lparr>logicalSlice := array_for (SLICES_PER_SSD c) (\<lambda>a r. VSA_NONE) (logicalSlice m),
       virtualSlice := array_for (SLICES_PER_SSD c) (\<lambda>a r. LSA_NONE) (virtualSlice m)\<rparr>"

definition InitDieMap :: "'a ftl_config_scheme \<Rightarrow> addr_map \<Rightarrow> addr_map" where
  "InitDieMap c m =
     m\<lparr>die := array_for (USER_DIES c)
         (\<lambda>d r. r\<lparr>headFreeBlock := BLOCK_NONE, tailFreeBlock := BLOCK_NONE, freeBlockCnt := 0\<rparr>) (die m)\<rparr>"

definition InitGcVictimMap :: "'a ftl_config_scheme \<Rightarrow> addr_map \<Rightarrow> addr_map" where
  "InitGcVictimMap c m =
     m\<lparr>gcVictimList := array_for (USER_DIES c)
         (\<lambda>d. array_for (SLICES_PER_BLOCK c + 1)
            (\<lambda>k r. \<lparr>headBlock = BLOCK_NONE, tailBlock = BLOCK_NONE\<rparr>)) (gcVictimList m)\<rparr>"

definition PutToFbList :: "nat \<Rightarrow> nat \<Rightarrow> addr_map \<Rightarrow> addr_map" where
  "PutToFbList d b m =
     (let tl = tailFreeBlock (die m d);
          m = (if tl \<noteq> BLOCK_NONE then
                 upd_die d (\<lambda>r. r\<lparr>tailFreeBlock := b\<rparr>)
                   (upd_block d tl (\<lambda>r. r\<lparr>nextBlock := b\<rparr>)
                     (upd_block d b (\<lambda>r. r\<lparr>prevBlock := tl, nextBlock := BLOCK_NONE\<rparr>) m))
               else
                 upd_die d (\<lambda>r. r\<lparr>headFreeBlock := b, tailFreeBlock := b\<rparr>)
                   (upd_block d b (\<lambda>r. r\<lparr>prevBlock := BLOCK_NONE, nextBlock := BLOCK_NONE\<rparr>) m))
      in upd_die d (\<lambda>r. r\<lparr>freeBlockCnt := u16 (freeBlockCnt r + 1)\<rparr>) m)"

definition GetFromFbList :: "nat \<Rightarrow> get_free_block \<Rightarrow> addr_map \<Rightarrow> addr_map \<times> nat" where
  "GetFromFbList d opt m =
     (let b = headFreeBlock (die m d) in
      if (case opt of GET_FREE_BLOCK_NORMAL \<Rightarrow> freeBlockCnt (die m d) \<le> RESERVED_FREE_BLOCK_COUNT
          | GET_FREE_BLOCK_GC \<Rightarrow> b = BLOCK_NONE)
      then (m, BLOCK_FAIL)
      else
        (let nx = nextBlock (block m d b);
             m = (if nx \<noteq> BLOCK_NONE then
                    upd_block d nx (\<lambda>r. r\<lparr>prevBlock := BLOCK_NONE\<rparr>)
                      (upd_die d (\<lambda>r. r\<lparr>headFreeBlock := nx\<rparr>) m)
                  else
                    upd_die d (\<lambda>r. r\<lparr>headFreeBlock := BLOCK_NONE, tailFreeBlock := BLOCK_NONE\<rparr>) m);
             m = upd_block d b (\<lambda>r. r\<lparr>free := False\<rparr>) m;
             m = upd_die d (\<lambda>r. r\<lparr>freeBlockCnt := u16 (freeBlockCnt r + 65535)\<rparr>) m
         in (upd_block d b (\<lambda>r. r\<lparr>nextBlock := BLOCK_NONE, prevBlock := BLOCK_NONE\<rparr>) m, b)))"

definition PutToGcVictimList :: "nat \<Rightarrow> nat \<Rightarrow> nat \<Rightarrow> addr_map \<Rightarrow> addr_map" where
  "PutToGcVictimList d b k m =
     (let tl = tailBlock (gcVictimList m d k) in
      if tl \<noteq> BLOCK_NONE then
        upd_victims d k (\<lambda>r. r\<lparr>tailBlock := b\<rparr>)
          (upd_block d tl (\<lambda>r. r\<lparr>nextBlock := b\<rparr>)
            (upd_block d b (\<lambda>r. r\<lparr>prevBlock := tl, nextBlock := BLOCK_NONE\<rparr>) m))
      else
        upd_victims d k (\<lambda>r. r\<lparr>headBlock := b, tailBlock := b\<rparr>)
          (upd_block d b (\<lambda>r. r\<lparr>prevBlock := BLOCK_NONE, nextBlock := BLOCK_NONE\<rparr>) m))"

text \<open>The search goes down from the fullest list; a failed search stops the device.\<close>

fun GetFromGcVictimList_from :: "nat \<Rightarrow> nat \<Rightarrow> addr_map \<Rightarrow> (addr_map \<times> nat) option" where
  "GetFromGcVictimList_from d 0 m = None"
| "GetFromGcVictimList_from d (Suc k) m =
     (let b = headBlock (gcVictimList m d (Suc k)) in
      if b \<noteq> BLOCK_NONE then
        (let nx = nextBlock (block m d b) in
         if nx \<noteq> BLOCK_NONE then
           Some (upd_victims d (Suc k) (\<lambda>r. r\<lparr>headBlock := nx\<rparr>)
                  (upd_block d nx (\<lambda>r. r\<lparr>prevBlock := BLOCK_NONE\<rparr>) m), b)
         else
           Some (upd_victims d (Suc k) (\<lambda>r. r\<lparr>headBlock := BLOCK_NONE, tailBlock := BLOCK_NONE\<rparr>) m, b))
      else GetFromGcVictimList_from d k m)"

definition GetFromGcVictimList :: "'a ftl_config_scheme \<Rightarrow> nat \<Rightarrow> addr_map \<Rightarrow> (addr_map \<times> nat) option" where
  "GetFromGcVictimList c d m = GetFromGcVictimList_from d (SLICES_PER_BLOCK c) m"

definition SelectiveGetFromGcVictimList :: "nat \<Rightarrow> nat \<Rightarrow> addr_map \<Rightarrow> addr_map" where
  "SelectiveGetFromGcVictimList d b m =
     (let nx = nextBlock (block m d b); pv = prevBlock (block m d b);
          k = invalidSliceCnt (block m d b)
      in if nx \<noteq> BLOCK_NONE \<and> pv \<noteq> BLOCK_NONE then
           upd_block d nx (\<lambda>r. r\<lparr>prevBlock := pv\<rparr>) (upd_block d pv (\<lambda>r. r\<lparr>nextBlock := nx\<rparr>) m)
         else if nx = BLOCK_NONE \<and> pv \<noteq> BLOCK_NONE then
           upd_victims d k (\<lambda>r. r\<lparr>tailBlock := pv\<rparr>)
             (upd_block d pv (\<lambda>r. r\<lparr>nextBlock := BLOCK_NONE\<rparr>) m)
         else if nx \<noteq> BLOCK_NONE \<and> pv = BLOCK_NONE then
           upd_victims d k (\<lambda>r. r\<lparr>headBlock := nx\<rparr>)
             (upd_block d nx (\<lambda>r. r\<lparr>prevBlock := BLOCK_NONE\<rparr>) m)
         else upd_victims d k (\<lambda>r. r\<lparr>headBlock := BLOCK_NONE, tailBlock := BLOCK_NONE\<rparr>) m)"

definition FindDieForFreeSliceAllocation :: "'a ftl_config_scheme \<Rightarrow> addr_map \<Rightarrow> addr_map \<times> nat" where
  "FindDieForFreeSliceAllocation c m =
     (let targetDie = Pcw2VdieTranslation c (targetCh m) (targetWay m);
          m = (if targetCh m \<noteq> USER_CHANNELS c - 1 then m\<lparr>targetCh := u8 (targetCh m + 1)\<rparr>
               else m\<lparr>targetCh := 0, targetWay := (targetWay m + 1) mod USER_WAYS c\<rparr>)
      in (m, targetDie))"

definition InvalidateOldVsa :: "'a ftl_config_scheme \<Rightarrow> nat \<Rightarrow> addr_map \<Rightarrow> addr_map" where
  "InvalidateOldVsa c lsa m =
     (let vsa = logicalSlice m lsa in
      if vsa \<noteq> VSA_NONE then
        if virtualSlice m vsa \<noteq> lsa then m
        else
          (let d = Vsa2VdieTranslation c vsa; b = Vsa2VblockTranslation c vsa;
               m = SelectiveGetFromGcVictimList d b m;
               m = upd_block d b (\<lambda>r. r\<lparr>invalidSliceCnt := u16 (invalidSliceCnt r + 1)\<rparr>) m;
               m = m\<lparr>logicalSlice := (logicalSlice m)(lsa := VSA_NONE)\<rparr>
           in PutToGcVictimList d b (invalidSliceCnt (block m d b)) m)
      else m)"

definition AddrTransRead :: "'a ftl_config_scheme \<Rightarrow> nat \<Rightarrow> addr_map \<Rightarrow> nat option" where
  "AddrTransRead c lsa m =
     (if lsa < SLICES_PER_SSD c then
        (let vsa = logicalSlice m lsa in if vsa \<noteq> VSA_NONE then Some vsa else Some VSA_FAIL)
      else None)"

text \<open>The page that a die hands out next, when its current block has room.\<close>

definition take_page :: "'a ftl_config_scheme \<Rightarrow> nat \<Rightarrow> nat \<Rightarrow> addr_map \<Rightarrow> addr_map \<times> nat" where
  "take_page c d b m =
     (upd_block d b (\<lambda>r. r\<lparr>currentPage := u16 (currentPage r + 1)\<rparr>) m,
      Vorg2VsaTranslation c d b (currentPage (block m d b)))"

definition FindFreeVirtualSliceForGc ::
  "'a ftl_config_scheme \<Rightarrow> nat \<Rightarrow> nat \<Rightarrow> addr_map \<Rightarrow> (addr_map \<times> nat) option" where
  "FindFreeVirtualSliceForGc c d victim m =
     do {
       m \<leftarrow> (if victim = currentBlock (die m d) then
               (let (m, b) = GetFromFbList d GET_FREE_BLOCK_GC m;
                    m = upd_die d (\<lambda>r. r\<lparr>currentBlock := b\<rparr>) m
                in if b = BLOCK_FAIL then None else Some m)
             else Some m);
       let b = currentBlock (die m d);
       (m, b) \<leftarrow> (if currentPage (block m d b) = USER_PAGES_PER_BLOCK c then
                    (let (m, b) = GetFromFbList d GET_FREE_BLOCK_GC m
                     in if b \<noteq> BLOCK_FAIL then Some (upd_die d (\<lambda>r. r\<lparr>currentBlock := b\<rparr>) m, b)
                        else None)
                  else if currentPage (block m d b) > USER_PAGES_PER_BLOCK c then None
                  else Some (m, b));
       Some (take_page c d b m)
     }"

definition unmap_page :: "nat \<Rightarrow> addr_map \<Rightarrow> addr_map" where
  "unmap_page vsa m = m\<lparr>virtualSlice := (virtualSlice m)(vsa := LSA_NONE)\<rparr>"

text \<open>The tables after an erase was requested.\<close>

definition EraseBlock_map :: "'a ftl_config_scheme \<Rightarrow> nat \<Rightarrow> nat \<Rightarrow> addr_map \<Rightarrow> addr_map" where
  "EraseBlock_map c d b m =
     (let m = upd_block d b (\<lambda>r. r\<lparr>free := True, eraseCnt := u16 (eraseCnt r + 1),
                                 invalidSliceCnt := 0, currentPage := 0\<rparr>) m;
          m = PutToFbList d b m
      in fold (\<lambda>pageNo. unmap_page (Vorg2VsaTranslation c d b pageNo)) [0..<USER_PAGES_PER_BLOCK c] m)"

text \<open>Whether a page of the victim still holds the current version of its slice.\<close>

definition page_valid :: "addr_map \<Rightarrow> nat \<Rightarrow> bool" where
  "page_valid m vsa \<longleftrightarrow>
     virtualSlice m vsa \<noteq> LSA_NONE \<and> logicalSlice m (virtualSlice m vsa) = vsa"

definition remap_slice :: "nat \<Rightarrow> nat \<Rightarrow> addr_map \<Rightarrow> addr_map" where
  "remap_slice lsa vsa m =
     m\<lparr>logicalSlice := (logicalSlice m)(lsa := vsa), virtualSlice := (virtualSlice m)(vsa := lsa)\<rparr>"

section \<open>The address arithmetic is a bijection\<close>

lemma mult_add_less:
  fixes a b p q :: nat
  assumes "b < p" and "q < n"
  shows "b * n + q < p * n"
proof -
  have "b * n + q < b * n + n" using assms(2) by simp
  also have "\<dots> = Suc b * n" by simp
  also have "\<dots> \<le> p * n" using assms(1) by (intro mult_le_mono1) simp
  finally show ?thesis .
qed

text \<open>A virtual address in range: a die, a block and a page that exist.\<close>

definition vorg_ok :: "'a ftl_config_scheme \<Rightarrow> nat \<Rightarrow> nat \<Rightarrow> nat \<Rightarrow> bool" where
  "vorg_ok c d b pg \<longleftrightarrow> d < USER_DIES c \<and> b < USER_BLOCKS_PER_DIE c \<and> pg < USER_PAGES_PER_BLOCK c"

lemma Vorg2Vsa_less:
  assumes "vorg_ok c d b pg"
  shows "d + USER_DIES c * (b * USER_PAGES_PER_BLOCK c + pg) < SLICES_PER_SSD c"
proof -
  have "b * USER_PAGES_PER_BLOCK c + pg < USER_BLOCKS_PER_DIE c * USER_PAGES_PER_BLOCK c"
    using assms mult_add_less by (simp add: vorg_ok_def)
  then have "(b * USER_PAGES_PER_BLOCK c + pg) * USER_DIES c + d
      < USER_BLOCKS_PER_DIE c * USER_PAGES_PER_BLOCK c * USER_DIES c"
    using assms mult_add_less by (simp add: vorg_ok_def)
  then show ?thesis by (simp add: SLICES_PER_SSD_product mult.commute add.commute)
qed

lemma Vorg2Vsa_eq:
  assumes "wf_config c" and "vorg_ok c d b pg"
  shows "Vorg2VsaTranslation c d b pg = d + USER_DIES c * (b * USER_PAGES_PER_BLOCK c + pg)"
  using Vorg2Vsa_less [OF assms(2)] SLICES_PER_SSD_bound [OF assms(1)]
  by (simp add: Vorg2VsaTranslation_def)

lemma Vorg2Vsa_parts:
  assumes "wf_config c" and "vorg_ok c d b pg"
  shows "Vorg2VsaTranslation c d b pg < SLICES_PER_SSD c"
    and "Vsa2VdieTranslation c (Vorg2VsaTranslation c d b pg) = d"
    and "Vsa2VblockTranslation c (Vorg2VsaTranslation c d b pg) = b"
    and "Vsa2VpageTranslation c (Vorg2VsaTranslation c d b pg) = pg"
  using assms(2) Vorg2Vsa_less [OF assms(2)]
  by (simp_all add: Vorg2Vsa_eq [OF assms] Vsa2VdieTranslation_def Vsa2VblockTranslation_def
      Vsa2VpageTranslation_def vorg_ok_def)

lemma Vsa_parts_ok:
  assumes "wf_config c" and "vsa < SLICES_PER_SSD c"
  shows "vorg_ok c (Vsa2VdieTranslation c vsa) (Vsa2VblockTranslation c vsa) (Vsa2VpageTranslation c vsa)"
proof -
  have pos: "0 < USER_DIES c" "0 < USER_PAGES_PER_BLOCK c"
    using USER_DIES_bounds USER_PAGES_PER_BLOCK_pos assms(1) by fastforce+
  have "vsa div USER_DIES c < USER_BLOCKS_PER_DIE c * USER_PAGES_PER_BLOCK c"
    using assms(2) pos(1) by (simp add: SLICES_PER_SSD_product div_less_iff_less_mult mult.commute)
  then have "vsa div USER_DIES c div USER_PAGES_PER_BLOCK c < USER_BLOCKS_PER_DIE c"
    using pos(2) by (simp add: div_less_iff_less_mult)
  then show ?thesis
    using pos by (simp add: vorg_ok_def Vsa2VdieTranslation_def Vsa2VblockTranslation_def
        Vsa2VpageTranslation_def)
qed

lemma Vsa_roundtrip:
  assumes "wf_config c" and "vsa < SLICES_PER_SSD c"
  shows "Vorg2VsaTranslation c (Vsa2VdieTranslation c vsa) (Vsa2VblockTranslation c vsa)
    (Vsa2VpageTranslation c vsa) = vsa"
  unfolding Vorg2Vsa_eq [OF assms(1) Vsa_parts_ok [OF assms]]
  by (simp add: Vsa2VdieTranslation_def Vsa2VblockTranslation_def Vsa2VpageTranslation_def)

lemma Vorg2Vsa_inj:
  assumes "wf_config c" and "vorg_ok c d b pg" and "vorg_ok c d' b' pg'"
  shows "Vorg2VsaTranslation c d b pg = Vorg2VsaTranslation c d' b' pg' \<longleftrightarrow> d = d' \<and> b = b' \<and> pg = pg'"
  using Vorg2Vsa_parts [OF assms(1,2)] Vorg2Vsa_parts [OF assms(1,3)] by metis

lemma Vorg2Vsa_not_NONE:
  assumes "wf_config c" and "vorg_ok c d b pg"
  shows "Vorg2VsaTranslation c d b pg \<noteq> VSA_NONE"
  using Vorg2Vsa_parts(1) [OF assms] SLICES_PER_SSD_bound [OF assms(1)] by (simp add: VSA_NONE_def)

text \<open>
  C26. Virtual slice addresses and positions correspond one to one: composing a die, block and page of
  the configuration gives an address below the number of slices, from which the three translations read
  the same die, block and page back, and every address is composed of its parts.
\<close>

theorem vsa_translation_bijective:
  assumes "wf_config c"
  shows "(vorg_ok c d b pg \<longrightarrow>
      Vorg2VsaTranslation c d b pg < SLICES_PER_SSD c \<and>
      Vsa2VdieTranslation c (Vorg2VsaTranslation c d b pg) = d \<and>
      Vsa2VblockTranslation c (Vorg2VsaTranslation c d b pg) = b \<and>
      Vsa2VpageTranslation c (Vorg2VsaTranslation c d b pg) = pg) \<and>
    (vsa < SLICES_PER_SSD c \<longrightarrow>
      vorg_ok c (Vsa2VdieTranslation c vsa) (Vsa2VblockTranslation c vsa) (Vsa2VpageTranslation c vsa) \<and>
      Vorg2VsaTranslation c (Vsa2VdieTranslation c vsa) (Vsa2VblockTranslation c vsa)
        (Vsa2VpageTranslation c vsa) = vsa)"
  using Vorg2Vsa_parts [OF assms] Vsa_roundtrip [OF assms] Vsa_parts_ok [OF assms] by simp

theorem vsa_translation_bijective_witness:
  "Vsa2VblockTranslation (cosmos_config 1) (Vorg2VsaTranslation (cosmos_config 1) 3 283 127) = 283 \<and>
   Vorg2VsaTranslation (cosmos_config 1) (Vsa2VdieTranslation (cosmos_config 1) 290815)
     (Vsa2VblockTranslation (cosmos_config 1) 290815) (Vsa2VpageTranslation (cosmos_config 1) 290815) = 290815"
proof -
  have wf: "wf_config (cosmos_config 1)" by (rule wf_config_cosmos) simp_all
  have ok: "vorg_ok (cosmos_config 1) 3 283 127" and lt: "290815 < SLICES_PER_SSD (cosmos_config 1)"
    by (simp_all add: vorg_ok_def SLICES_PER_SSD_product cosmos_config_def USER_DIES_def
        USER_BLOCKS_PER_DIE_def USER_PAGES_PER_BLOCK_def nand_consts)
  show ?thesis using vsa_translation_bijective [OF wf, of 3 283 127 290815] ok lt by simp
qed

lemma Pcw2Vdie_parts:
  assumes "ch < USER_CHANNELS c" and "way < USER_WAYS c"
  shows "Pcw2VdieTranslation c ch way < USER_DIES c"
    and "Vdie2PchTranslation c (Pcw2VdieTranslation c ch way) = ch"
    and "Vdie2PwayTranslation c (Pcw2VdieTranslation c ch way) = way"
  using assms mult_add_less [OF assms(2,1)]
  by (simp_all add: Pcw2VdieTranslation_def Vdie2PchTranslation_def Vdie2PwayTranslation_def
      USER_DIES_def mult.commute add.commute)

lemma Vdie_parts:
  assumes "d < USER_DIES c"
  shows "Vdie2PchTranslation c d < USER_CHANNELS c" and "Vdie2PwayTranslation c d < USER_WAYS c"
    and "Pcw2VdieTranslation c (Vdie2PchTranslation c d) (Vdie2PwayTranslation c d) = d"
proof -
  have "0 < USER_CHANNELS c" using assms by (cases "USER_CHANNELS c") (auto simp: USER_DIES_def)
  then show "Vdie2PchTranslation c d < USER_CHANNELS c" "Vdie2PwayTranslation c d < USER_WAYS c"
    "Pcw2VdieTranslation c (Vdie2PchTranslation c d) (Vdie2PwayTranslation c d) = d"
    using assms by (simp_all add: Pcw2VdieTranslation_def Vdie2PchTranslation_def
        Vdie2PwayTranslation_def USER_DIES_def div_less_iff_less_mult mult.commute)
qed

lemma block_space_parts:
  fixes b n m :: nat
  assumes "0 < n" and "n \<le> m"
  shows "(b div n * m + b mod n) div m = b div n" and "(b div n * m + b mod n) mod m = b mod n"
proof -
  have "b mod n < m" using assms by (meson less_le_trans mod_less_divisor)
  then show "(b div n * m + b mod n) div m = b div n" and "(b div n * m + b mod n) mod m = b mod n"
    by simp_all
qed

lemma block_space_inj:
  fixes n m :: nat
  assumes "0 < n" and "n \<le> m"
  shows "inj_on (\<lambda>b. b div n * m + b mod n) A"
proof (rule inj_onI)
  fix x y assume "x div n * m + x mod n = y div n * m + y mod n"
  then have "x div n = y div n" "x mod n = y mod n" using block_space_parts [OF assms] by metis+
  then show "x = y" by (metis div_mult_mod_eq)
qed

lemma block_space_less:
  fixes b n m :: nat
  assumes "0 < n" and "n \<le> m" and "b < n * l"
  shows "b div n * m + b mod n < m * l"
proof -
  have "b div n < l" using assms(1,3) by (simp add: div_less_iff_less_mult mult.commute)
  moreover have "b mod n < m" using assms(1,2) by (meson less_le_trans mod_less_divisor)
  ultimately show ?thesis using mult_add_less [of "b div n" l "b mod n" m] by (simp add: mult.commute)
qed

lemma Vblock2Pblock_range:
  assumes "wf_config c" and "b < USER_BLOCKS_PER_DIE c"
  shows "Vblock2PblockOfTbsTranslation c b < TOTAL_BLOCKS_PER_DIE"
    and "Vblock2PblockOfMbsTranslation c b < MAIN_BLOCKS_PER_DIE"
proof -
  have n: "0 < USER_BLOCKS_PER_LUN c" "USER_BLOCKS_PER_LUN c \<le> MAIN_BLOCKS_PER_LUN"
    "USER_BLOCKS_PER_LUN c \<le> TOTAL_BLOCKS_PER_LUN"
    using assms(1) by (auto simp: wf_config_def nand_consts)
  show "Vblock2PblockOfTbsTranslation c b < TOTAL_BLOCKS_PER_DIE"
    "Vblock2PblockOfMbsTranslation c b < MAIN_BLOCKS_PER_DIE"
    using block_space_less [OF n(1,3), of b LUNS_PER_DIE] block_space_less [OF n(1,2), of b LUNS_PER_DIE]
      assms(2)
    by (simp_all add: Vblock2PblockOfTbsTranslation_def Vblock2PblockOfMbsTranslation_def
        TOTAL_BLOCKS_PER_DIE_def MAIN_BLOCKS_PER_DIE_def USER_BLOCKS_PER_DIE_def)
qed

lemma Vblock2Pblock_inj:
  assumes "wf_config c"
  shows "inj_on (Vblock2PblockOfTbsTranslation c) A" and "inj_on (Vblock2PblockOfMbsTranslation c) A"
proof -
  have n: "0 < USER_BLOCKS_PER_LUN c" "USER_BLOCKS_PER_LUN c \<le> MAIN_BLOCKS_PER_LUN"
    "USER_BLOCKS_PER_LUN c \<le> TOTAL_BLOCKS_PER_LUN"
    using assms(1) by (auto simp: wf_config_def nand_consts)
  show "inj_on (Vblock2PblockOfTbsTranslation c) A" "inj_on (Vblock2PblockOfMbsTranslation c) A"
    using block_space_inj [OF n(1,3), of A] block_space_inj [OF n(1,2), of A]
    by (simp_all add: inj_on_def Vblock2PblockOfTbsTranslation_def Vblock2PblockOfMbsTranslation_def)
qed

lemma lsb_page_roundtrip: "PlsbPage2VpageTranslation (Vpage2PlsbPageTranslation pg) = pg"
  by (cases pg) (simp_all add: PlsbPage2VpageTranslation_def Vpage2PlsbPageTranslation_def)

text \<open>
  C27. The virtual die number and the channel and way of a die correspond one to one, the
  page numbering of the fast pages of a block is undone by its inverse, and different user blocks of a
  die are different physical blocks, in the main block space and in the total block space.
\<close>

theorem die_and_block_translation:
  assumes "wf_config c"
  shows "(ch < USER_CHANNELS c \<and> way < USER_WAYS c \<longrightarrow>
      Pcw2VdieTranslation c ch way < USER_DIES c \<and>
      Vdie2PchTranslation c (Pcw2VdieTranslation c ch way) = ch \<and>
      Vdie2PwayTranslation c (Pcw2VdieTranslation c ch way) = way) \<and>
    (d < USER_DIES c \<longrightarrow>
      Vdie2PchTranslation c d < USER_CHANNELS c \<and> Vdie2PwayTranslation c d < USER_WAYS c \<and>
      Pcw2VdieTranslation c (Vdie2PchTranslation c d) (Vdie2PwayTranslation c d) = d) \<and>
    PlsbPage2VpageTranslation (Vpage2PlsbPageTranslation pg) = pg \<and>
    (b < USER_BLOCKS_PER_DIE c \<longrightarrow> Vblock2PblockOfTbsTranslation c b < TOTAL_BLOCKS_PER_DIE \<and>
      Vblock2PblockOfMbsTranslation c b < MAIN_BLOCKS_PER_DIE) \<and>
    inj_on (Vblock2PblockOfTbsTranslation c) {..<USER_BLOCKS_PER_DIE c} \<and>
    inj_on (Vblock2PblockOfMbsTranslation c) {..<USER_BLOCKS_PER_DIE c}"
  using Pcw2Vdie_parts [of ch c way] Vdie_parts [of d c] lsb_page_roundtrip
    Vblock2Pblock_range [OF assms, of b] Vblock2Pblock_inj [OF assms] by blast

theorem die_and_block_translation_witness:
  "Vdie2PwayTranslation (cosmos_config 4) (Pcw2VdieTranslation (cosmos_config 4) 3 7) = 7 \<and>
   Pcw2VdieTranslation (cosmos_config 4) (Vdie2PchTranslation (cosmos_config 4) 30)
     (Vdie2PwayTranslation (cosmos_config 4) 30) = 30 \<and>
   Vblock2PblockOfTbsTranslation (cosmos_config 4) 283 < TOTAL_BLOCKS_PER_DIE"
proof -
  have wf: "wf_config (cosmos_config 4)" by (rule wf_config_cosmos) simp_all
  have "3 < USER_CHANNELS (cosmos_config 4)" "7 < USER_WAYS (cosmos_config 4)"
    "30 < USER_DIES (cosmos_config 4)" "283 < USER_BLOCKS_PER_DIE (cosmos_config 4)"
    by (simp_all add: cosmos_config_def USER_DIES_def USER_BLOCKS_PER_DIE_def nand_consts)
  then show ?thesis using die_and_block_translation [OF wf, of 3 7 30 0 283] by simp
qed

section \<open>The next die\<close>

text \<open>The position of the round robin, as a die number.\<close>

definition rr_ok :: "'a ftl_config_scheme \<Rightarrow> addr_map \<Rightarrow> bool" where
  "rr_ok c m \<longleftrightarrow> targetCh m < USER_CHANNELS c \<and> targetWay m < USER_WAYS c"

definition rr_pos :: "'a ftl_config_scheme \<Rightarrow> addr_map \<Rightarrow> nat" where
  "rr_pos c m = Pcw2VdieTranslation c (targetCh m) (targetWay m)"

fun dies_handed_out :: "'a ftl_config_scheme \<Rightarrow> nat \<Rightarrow> addr_map \<Rightarrow> nat list" where
  "dies_handed_out c 0 m = []"
| "dies_handed_out c (Suc n) m =
     (let (m, d) = FindDieForFreeSliceAllocation c m in d # dies_handed_out c n m)"

lemma FindDie_step:
  assumes "wf_config c" and "rr_ok c m"
  shows "snd (FindDieForFreeSliceAllocation c m) = rr_pos c m"
    and "rr_ok c (fst (FindDieForFreeSliceAllocation c m))"
    and "rr_pos c (fst (FindDieForFreeSliceAllocation c m)) = (rr_pos c m + 1) mod USER_DIES c"
proof -
  have ch: "targetCh m < USER_CHANNELS c" "USER_CHANNELS c \<le> 8" and way: "targetWay m < USER_WAYS c"
    using assms by (auto simp: rr_ok_def wf_config_def)
  show "snd (FindDieForFreeSliceAllocation c m) = rr_pos c m"
    by (simp add: FindDieForFreeSliceAllocation_def rr_pos_def Let_def)
  show "rr_ok c (fst (FindDieForFreeSliceAllocation c m))"
    using ch way by (auto simp: FindDieForFreeSliceAllocation_def rr_ok_def Let_def)
  show "rr_pos c (fst (FindDieForFreeSliceAllocation c m)) = (rr_pos c m + 1) mod USER_DIES c"
  proof (cases "targetCh m = USER_CHANNELS c - 1")
    case False
    then have nx: "targetCh m + 1 < USER_CHANNELS c" using ch by simp
    then have "(targetCh m + 1) + targetWay m * USER_CHANNELS c < USER_DIES c"
      using mult_add_less [OF way nx] by (simp add: USER_DIES_def mult.commute add.commute)
    then show ?thesis
      using False ch by (simp add: FindDieForFreeSliceAllocation_def rr_pos_def Pcw2VdieTranslation_def Let_def)
  next
    case True
    then have pos: "rr_pos c m + 1 = (targetWay m + 1) * USER_CHANNELS c"
      using ch by (simp add: rr_pos_def Pcw2VdieTranslation_def)
    have "((targetWay m + 1) * USER_CHANNELS c) mod (USER_WAYS c * USER_CHANNELS c)
        = ((targetWay m + 1) mod USER_WAYS c) * USER_CHANNELS c"
      by (rule mod_mult_mult2)
    then show ?thesis
      unfolding pos using True
      by (simp add: FindDieForFreeSliceAllocation_def rr_pos_def Pcw2VdieTranslation_def Let_def
          USER_DIES_def mult.commute)
  qed
qed

lemma dies_handed_out_eq:
  assumes "wf_config c" and "rr_ok c m"
  shows "dies_handed_out c n m = map (\<lambda>k. (rr_pos c m + k) mod USER_DIES c) [0..<n]"
  using assms(2)
proof (induction n arbitrary: m)
  case 0
  then show ?case by simp
next
  case (Suc n)
  obtain m' d where find: "FindDieForFreeSliceAllocation c m = (m', d)" by fastforce
  note step = FindDie_step [OF assms(1) Suc.prems, unfolded find, simplified]
  have "rr_pos c m < USER_DIES c"
    using Suc.prems by (simp add: rr_pos_def rr_ok_def Pcw2Vdie_parts(1))
  then have "d = rr_pos c m mod USER_DIES c" using step(1) by simp
  moreover have "(rr_pos c m' + k) mod USER_DIES c = (rr_pos c m + Suc k) mod USER_DIES c" for k
    using step(3) by (simp add: mod_add_left_eq)
  ultimately show ?case
    using Suc.IH [OF step(2)] find by (simp add: map_upt_Suc del: upt_Suc)
qed

lemma mod_add_inj_le:
  fixes n :: nat
  assumes "x \<le> y" and "y < n" and "(r + y) mod n = (r + x) mod n"
  shows "x = y"
proof -
  have "n dvd y - x" using assms(1,3) mod_eq_dvd_iff_nat [of "r + x" "r + y" n] by simp
  then show ?thesis using assms(1,2) dvd_imp_le [of n "y - x"] by (cases "x = y") auto
qed

lemma mod_add_inj:
  fixes n :: nat
  assumes "(r + x) mod n = (r + y) mod n" and "x < n" and "y < n"
  shows "x = y"
proof (cases "x \<le> y")
  case True
  then show ?thesis by (rule mod_add_inj_le [OF _ assms(3) assms(1) [symmetric]])
next
  case False
  then have "y \<le> x" by simp
  then show ?thesis by (rule mod_add_inj_le [OF _ assms(2,1), symmetric])
qed

text \<open>
  Slices are allocated over the dies in turn: from any position of the round robin the dies that
  successive calls of \<open>FindDieForFreeSliceAllocation\<close> return are the following ones in
  order, wrapping at the last, so as many calls as there are dies visit each die once.
\<close>

theorem FindDie_round_robin:
  assumes "wf_config c" and "rr_ok c m"
  shows "dies_handed_out c n m = map (\<lambda>k. (rr_pos c m + k) mod USER_DIES c) [0..<n] \<and>
    distinct (dies_handed_out c (USER_DIES c) m) \<and>
    set (dies_handed_out c (USER_DIES c) m) = {..<USER_DIES c}"
proof -
  let ?N = "USER_DIES c" and ?f = "\<lambda>k. (rr_pos c m + k) mod USER_DIES c"
  have inj: "inj_on ?f {..<?N}"
  proof (rule inj_onI)
    fix x y assume "x \<in> {..<?N}" "y \<in> {..<?N}" "?f x = ?f y"
    then show "x = y" by (intro mod_add_inj [of "rr_pos c m" x ?N y]) simp_all
  qed
  have "?f ` {..<?N} \<subseteq> {..<?N}" using USER_DIES_bounds [OF assms(1)] by auto
  then have "?f ` {..<?N} = {..<?N}" using endo_inj_surj [OF finite_lessThan _ inj] by simp
  then show ?thesis
    using dies_handed_out_eq [OF assms] inj by (simp add: distinct_map atLeast0LessThan)
qed

text \<open>Zeroed tables, with the round robin at a given position.\<close>

definition blank_addr_map :: "nat \<Rightarrow> nat \<Rightarrow> addr_map" where
  "blank_addr_map ch way =
     \<lparr>logicalSlice = (\<lambda>_. 0), virtualSlice = (\<lambda>_. 0),
      block = (\<lambda>_ _. \<lparr>bad = False, free = False, invalidSliceCnt = 0, currentPage = 0, eraseCnt = 0,
                     prevBlock = 0, nextBlock = 0\<rparr>),
      die = (\<lambda>_. \<lparr>currentBlock = 0, headFreeBlock = 0, tailFreeBlock = 0, freeBlockCnt = 0\<rparr>),
      gcVictimList = (\<lambda>_ _. \<lparr>headBlock = 0, tailBlock = 0\<rparr>),
      sliceAllocationTargetDie = 0, targetCh = ch, targetWay = way\<rparr>"

theorem FindDie_round_robin_witness:
  "dies_handed_out (cosmos_config 4) 3 (blank_addr_map 3 7) = [31, 0, 1]"
proof -
  have wf: "wf_config (cosmos_config 4)" by (rule wf_config_cosmos) simp_all
  have ok: "rr_ok (cosmos_config 4) (blank_addr_map 3 7)" "rr_pos (cosmos_config 4) (blank_addr_map 3 7) = 31"
    "USER_DIES (cosmos_config 4) = 32"
    by (simp_all add: rr_ok_def rr_pos_def Pcw2VdieTranslation_def cosmos_config_def blank_addr_map_def
        USER_DIES_def)
  have up: "[0..<3] = [0, 1, 2::nat]" by (simp add: upt_rec)
  show ?thesis
    using FindDie_round_robin [OF wf ok(1), of 3] by (simp add: ok(2,3) up)
qed

section \<open>The lists of a die\<close>

datatype block_list = LFree | LVictim nat

fun valid_l :: "'a ftl_config_scheme \<Rightarrow> block_list \<Rightarrow> bool" where
  "valid_l c LFree = True"
| "valid_l c (LVictim k) = (k \<le> SLICES_PER_BLOCK c)"

fun lhead :: "addr_map \<Rightarrow> nat \<Rightarrow> block_list \<Rightarrow> nat" where
  "lhead m d LFree = headFreeBlock (die m d)"
| "lhead m d (LVictim k) = headBlock (gcVictimList m d k)"

fun ltail :: "addr_map \<Rightarrow> nat \<Rightarrow> block_list \<Rightarrow> nat" where
  "ltail m d LFree = tailFreeBlock (die m d)"
| "ltail m d (LVictim k) = tailBlock (gcVictimList m d k)"

definition lview :: "addr_map \<Rightarrow> nat \<Rightarrow> block_list \<Rightarrow> nat links" where
  "lview m d l = (\<lambda>b. prevBlock (block m d b), \<lambda>b. nextBlock (block m d b), lhead m d l, ltail m d l)"

text \<open>The free list and the victim lists of a die share the links of its blocks.\<close>

definition lists_ok :: "'a ftl_config_scheme \<Rightarrow> addr_map \<Rightarrow> nat \<Rightarrow> (block_list \<Rightarrow> nat list) \<Rightarrow> bool" where
  "lists_ok c m d Ls \<longleftrightarrow>
     (\<forall>l. valid_l c l \<longrightarrow> dll BLOCK_NONE (lview m d l) (Ls l)) \<and>
     (\<forall>l. \<not> valid_l c l \<longrightarrow> Ls l = []) \<and>
     (\<forall>l l'. l \<noteq> l' \<longrightarrow> set (Ls l) \<inter> set (Ls l') = {})"

lemma upd_block_simps [simp]:
  "block (upd_block d b f m) = (block m)(d := (block m d)(b := f (block m d b)))"
  "die (upd_block d b f m) = die m" "gcVictimList (upd_block d b f m) = gcVictimList m"
  "logicalSlice (upd_block d b f m) = logicalSlice m" "virtualSlice (upd_block d b f m) = virtualSlice m"
  "targetCh (upd_block d b f m) = targetCh m" "targetWay (upd_block d b f m) = targetWay m"
  "sliceAllocationTargetDie (upd_block d b f m) = sliceAllocationTargetDie m"
  by (simp_all add: upd_block_def)

lemma upd_die_simps [simp]:
  "die (upd_die d f m) = (die m)(d := f (die m d))"
  "block (upd_die d f m) = block m" "gcVictimList (upd_die d f m) = gcVictimList m"
  "logicalSlice (upd_die d f m) = logicalSlice m" "virtualSlice (upd_die d f m) = virtualSlice m"
  "targetCh (upd_die d f m) = targetCh m" "targetWay (upd_die d f m) = targetWay m"
  "sliceAllocationTargetDie (upd_die d f m) = sliceAllocationTargetDie m"
  by (simp_all add: upd_die_def)

lemma upd_victims_simps [simp]:
  "gcVictimList (upd_victims d k f m) =
     (gcVictimList m)(d := (gcVictimList m d)(k := f (gcVictimList m d k)))"
  "block (upd_victims d k f m) = block m" "die (upd_victims d k f m) = die m"
  "logicalSlice (upd_victims d k f m) = logicalSlice m" "virtualSlice (upd_victims d k f m) = virtualSlice m"
  "targetCh (upd_victims d k f m) = targetCh m" "targetWay (upd_victims d k f m) = targetWay m"
  "sliceAllocationTargetDie (upd_victims d k f m) = sliceAllocationTargetDie m"
  by (simp_all add: upd_victims_def)

lemma BLOCK_FAIL_NONE [simp]: "BLOCK_FAIL = BLOCK_NONE"
  by (simp add: BLOCK_FAIL_def BLOCK_NONE_def)

lemma lists_ok_dll: "lists_ok c m d Ls \<Longrightarrow> valid_l c l \<Longrightarrow> dll BLOCK_NONE (lview m d l) (Ls l)"
  by (simp add: lists_ok_def)

lemma lists_ok_disjoint: "lists_ok c m d Ls \<Longrightarrow> l \<noteq> l' \<Longrightarrow> set (Ls l) \<inter> set (Ls l') = {}"
  by (simp add: lists_ok_def)

lemma lists_ok_head:
  assumes "lists_ok c m d Ls" and "valid_l c l"
  shows "lhead m d l = (if Ls l = [] then BLOCK_NONE else hd (Ls l))"
  using lists_ok_dll [OF assms] by (simp add: lview_def)

lemma lists_ok_change:
  assumes ok: "lists_ok c m d Ls" and l: "valid_l c l" and xs: "dll BLOCK_NONE (lview m' d l) xs"
    and heads: "\<And>l'. l' \<noteq> l \<Longrightarrow> lhead m' d l' = lhead m d l' \<and> ltail m' d l' = ltail m d l'"
    and agree: "\<And>l'. l' \<noteq> l \<Longrightarrow> agree_on (set (Ls l')) (lview m d l) (lview m' d l)"
    and disj: "\<And>l'. l' \<noteq> l \<Longrightarrow> set xs \<inter> set (Ls l') = {}"
  shows "lists_ok c m' d (Ls(l := xs))"
proof -
  have "dll BLOCK_NONE (lview m' d l') (Ls l')" if "l' \<noteq> l" "valid_l c l'" for l'
    using dll_agree [of BLOCK_NONE _ _ _ _ "Ls l'"] lists_ok_dll [OF ok that(2)]
      heads [OF that(1)] agree [OF that(1)] by (auto simp: lview_def)
  then show ?thesis
    using ok l xs disj unfolding lists_ok_def by (auto simp: Int_commute)
qed

lemma lists_ok_same:
  assumes "lists_ok c m d Ls" and "\<And>l. lview m' d l = lview m d l"
  shows "lists_ok c m' d Ls"
  using assms by (simp add: lists_ok_def)

subsection \<open>The list operations\<close>

interpretation fblist: dlist_put BLOCK_NONE "\<lambda>m. lview m d LFree" "PutToFbList d" for d
  by unfold_locales (auto simp: lview_def PutToFbList_def Let_def fun_eq_iff)

interpretation gclist: dlist_put BLOCK_NONE "\<lambda>m. lview m d (LVictim k)" "\<lambda>b. PutToGcVictimList d b k" for d k
  by unfold_locales (auto simp: lview_def PutToGcVictimList_def Let_def fun_eq_iff)

lemma PutToFbList_ok:
  assumes "lists_ok c m d Ls" and "\<And>l. b \<notin> set (Ls l)" and "b \<noteq> BLOCK_NONE"
  shows "lists_ok c (PutToFbList d b m) d (Ls(LFree := Ls LFree @ [b]))"
proof (rule lists_ok_change [OF assms(1)])
  have dll: "dll BLOCK_NONE (lview m d LFree) (Ls LFree)" using lists_ok_dll [OF assms(1)] by simp
  then show "dll BLOCK_NONE (lview (PutToFbList d b m) d LFree) (Ls LFree @ [b])"
    using fblist.spells_put assms(2,3) by blast
  fix l' assume l': "l' \<noteq> LFree"
  then show "lhead (PutToFbList d b m) d l' = lhead m d l' \<and> ltail (PutToFbList d b m) d l' = ltail m d l'"
    by (cases l') (auto simp: PutToFbList_def Let_def)
  show "agree_on (set (Ls l')) (lview m d LFree) (lview (PutToFbList d b m) d LFree)"
    unfolding fblist.view_put using put_links_agree [OF dll] assms(2) lists_ok_disjoint [OF assms(1) l'] by blast
  show "set (Ls LFree @ [b]) \<inter> set (Ls l') = {}"
    using assms(2) lists_ok_disjoint [OF assms(1) l'] by auto
qed simp

lemma PutToGcVictimList_ok:
  assumes "lists_ok c m d Ls" and "\<And>l. b \<notin> set (Ls l)" and "b \<noteq> BLOCK_NONE" and "k \<le> SLICES_PER_BLOCK c"
  shows "lists_ok c (PutToGcVictimList d b k m) d (Ls(LVictim k := Ls (LVictim k) @ [b]))"
proof (rule lists_ok_change [OF assms(1)])
  have dll: "dll BLOCK_NONE (lview m d (LVictim k)) (Ls (LVictim k))"
    using lists_ok_dll [OF assms(1)] assms(4) by simp
  then show "dll BLOCK_NONE (lview (PutToGcVictimList d b k m) d (LVictim k)) (Ls (LVictim k) @ [b])"
    using gclist.spells_put assms(2,3) by blast
  fix l' assume l': "l' \<noteq> LVictim k"
  then show "lhead (PutToGcVictimList d b k m) d l' = lhead m d l' \<and>
      ltail (PutToGcVictimList d b k m) d l' = ltail m d l'"
    by (cases l') (auto simp: PutToGcVictimList_def Let_def)
  show "agree_on (set (Ls l')) (lview m d (LVictim k)) (lview (PutToGcVictimList d b k m) d (LVictim k))"
    unfolding gclist.view_put using put_links_agree [OF dll] assms(2) lists_ok_disjoint [OF assms(1) l'] by blast
  show "set (Ls (LVictim k) @ [b]) \<inter> set (Ls l') = {}"
    using assms(2) lists_ok_disjoint [OF assms(1) l'] by auto
qed (use assms(4) in simp)

text \<open>The links of a block that was just taken from a list are not looked at by the lists that remain.\<close>

lemma lists_ok_clear_links:
  assumes "lists_ok c m d Ls" and "\<And>l. b \<notin> set (Ls l)"
  shows "lists_ok c (upd_block d b f m) d Ls"
proof -
  have "dll BLOCK_NONE (lview (upd_block d b f m) d l) (Ls l)" if "valid_l c l" for l
  proof -
    have "lhead (upd_block d b f m) d l = lhead m d l" "ltail (upd_block d b f m) d l = ltail m d l"
      by (cases l; simp)+
    then show ?thesis
      using lists_ok_dll [OF assms(1) that] assms(2) [of l] unfolding lview_def
      by (subst dll_cong [of "Ls l" _ "\<lambda>b. prevBlock (block m d b)" _ "\<lambda>b. nextBlock (block m d b)"]) auto
  qed
  then show ?thesis using assms(1) by (simp add: lists_ok_def)
qed

lemma lists_ok_pop:
  assumes ok: "lists_ok c m d Ls" and l: "valid_l c l" and xs: "Ls l = b # xs"
    and view: "lview m' d l = pop_links BLOCK_NONE (lview m d l)"
    and heads: "\<And>l'. l' \<noteq> l \<Longrightarrow> lhead m' d l' = lhead m d l' \<and> ltail m' d l' = ltail m d l'"
  shows "lists_ok c m' d (Ls(l := xs))" and "\<And>l'. b \<notin> set ((Ls(l := xs)) l')"
proof -
  have dll: "dll BLOCK_NONE (lview m d l) (b # xs)" using lists_ok_dll [OF ok l] xs by simp
  have disj: "set (Ls l') \<inter> set (b # xs) = {}" if "l' \<noteq> l" for l'
    using lists_ok_disjoint [OF ok that] xs by simp
  show "lists_ok c m' d (Ls(l := xs))"
  proof (rule lists_ok_change [OF ok l _ heads])
    show "dll BLOCK_NONE (lview m' d l) xs" unfolding view by (rule dll_pop_links [OF dll])
    fix l' assume l': "l' \<noteq> l"
    show "agree_on (set (Ls l')) (lview m d l) (lview m' d l)"
      unfolding view by (rule pop_links_agree [OF dll disj [OF l']])
    show "set xs \<inter> set (Ls l') = {}" using disj [OF l'] by auto
  qed
  show "b \<notin> set ((Ls(l := xs)) l')" for l'
    using disj [of l'] dll_distinct [OF dll] by auto
qed

definition fb_unlink :: "nat \<Rightarrow> addr_map \<Rightarrow> addr_map" where
  "fb_unlink d m =
     (let nx = nextBlock (block m d (headFreeBlock (die m d))) in
      if nx \<noteq> BLOCK_NONE then
        upd_block d nx (\<lambda>r. r\<lparr>prevBlock := BLOCK_NONE\<rparr>) (upd_die d (\<lambda>r. r\<lparr>headFreeBlock := nx\<rparr>) m)
      else upd_die d (\<lambda>r. r\<lparr>headFreeBlock := BLOCK_NONE, tailFreeBlock := BLOCK_NONE\<rparr>) m)"

interpretation fbpop: dlist_pop BLOCK_NONE "\<lambda>m. lview m d LFree" "fb_unlink d" for d
  by unfold_locales (auto simp: lview_def fb_unlink_def Let_def fun_eq_iff)

lemma fb_unlink_ok:
  assumes "lists_ok c m d Ls" and "Ls LFree = b # xs"
  shows "lists_ok c (fb_unlink d m) d (Ls(LFree := xs))" and "\<And>l'. b \<notin> set ((Ls(LFree := xs)) l')"
proof -
  have "lhead (fb_unlink d m) d l' = lhead m d l' \<and> ltail (fb_unlink d m) d l' = ltail m d l'"
    if "l' \<noteq> LFree" for l' using that by (cases l') (auto simp: fb_unlink_def Let_def)
  from lists_ok_pop [OF assms(1) _ assms(2) fbpop.view_pop this]
  show "lists_ok c (fb_unlink d m) d (Ls(LFree := xs))" "\<And>l'. b \<notin> set ((Ls(LFree := xs)) l')"
    by simp_all
qed

text \<open>Taking a free block: the head of the list, with its links cleared; a normal request leaves the reserve.\<close>

definition fb_take :: "nat \<Rightarrow> nat \<Rightarrow> addr_map \<Rightarrow> addr_map" where
  "fb_take d b m =
     upd_block d b (\<lambda>r. r\<lparr>free := False, nextBlock := BLOCK_NONE, prevBlock := BLOCK_NONE\<rparr>)
       (upd_die d (\<lambda>r. r\<lparr>freeBlockCnt := u16 (freeBlockCnt r + 65535)\<rparr>) (fb_unlink d m))"

lemma GetFromFbList_eq:
  "GetFromFbList d opt m =
     (let b = headFreeBlock (die m d) in
      if (case opt of GET_FREE_BLOCK_NORMAL \<Rightarrow> freeBlockCnt (die m d) \<le> RESERVED_FREE_BLOCK_COUNT
          | GET_FREE_BLOCK_GC \<Rightarrow> b = BLOCK_NONE)
      then (m, BLOCK_NONE) else (fb_take d b m, b))"
  by (auto simp: GetFromFbList_def fb_take_def fb_unlink_def Let_def upd_block_def upd_die_def
      split: get_free_block.splits)

lemma fb_take_ok:
  assumes "lists_ok c m d Ls" and "Ls LFree = b # xs"
  shows "lists_ok c (fb_take d b m) d (Ls(LFree := xs))"
proof -
  let ?m = "upd_die d (\<lambda>r. r\<lparr>freeBlockCnt := u16 (freeBlockCnt r + 65535)\<rparr>) (fb_unlink d m)"
  have "lview ?m d l = lview (fb_unlink d m) d l" for l by (cases l) (simp_all add: lview_def)
  then have "lists_ok c ?m d (Ls(LFree := xs))"
    using lists_ok_same fb_unlink_ok(1) [OF assms] by blast
  then show ?thesis
    unfolding fb_take_def using lists_ok_clear_links fb_unlink_ok(2) [OF assms] by blast
qed

text \<open>Unlinking a block from the victim list of its count.\<close>

lemma SelectiveGet_view:
  "k = invalidSliceCnt (block m d b) \<Longrightarrow>
   lview (SelectiveGetFromGcVictimList d b m) d (LVictim k) = unlink_links BLOCK_NONE b (lview m d (LVictim k))"
  by (auto simp: lview_def SelectiveGetFromGcVictimList_def Let_def fun_eq_iff)

lemma SelectiveGet_heads:
  "l \<noteq> LVictim (invalidSliceCnt (block m d b)) \<Longrightarrow>
   lhead (SelectiveGetFromGcVictimList d b m) d l = lhead m d l \<and>
   ltail (SelectiveGetFromGcVictimList d b m) d l = ltail m d l"
  by (cases l) (auto simp: SelectiveGetFromGcVictimList_def Let_def)

lemma SelectiveGet_ok:
  assumes "lists_ok c m d Ls" and "k = invalidSliceCnt (block m d b)" and "b \<in> set (Ls (LVictim k))"
  shows "lists_ok c (SelectiveGetFromGcVictimList d b m) d (Ls(LVictim k := remove1 b (Ls (LVictim k))))"
    and "\<And>l. b \<notin> set ((Ls(LVictim k := remove1 b (Ls (LVictim k)))) l)"
proof -
  let ?m = "SelectiveGetFromGcVictimList d b m"
  have l: "valid_l c (LVictim k)"
    using assms(1,3) by (metis empty_iff empty_set lists_ok_def)
  note dll = lists_ok_dll [OF assms(1) l]
  have set: "set (remove1 b (Ls (LVictim k))) = set (Ls (LVictim k)) - {b}"
    using dll_distinct [OF dll] by (rule set_remove1_distinct)
  show "lists_ok c ?m d (Ls(LVictim k := remove1 b (Ls (LVictim k))))"
  proof (rule lists_ok_change [OF assms(1) l])
    show "dll BLOCK_NONE (lview ?m d (LVictim k)) (remove1 b (Ls (LVictim k)))"
      unfolding SelectiveGet_view [OF assms(2)] by (rule dll_unlink_links [OF dll assms(3)])
    fix l' assume l': "l' \<noteq> LVictim k"
    note disj = lists_ok_disjoint [OF assms(1) l']
    show "lhead ?m d l' = lhead m d l' \<and> ltail ?m d l' = ltail m d l'"
      using SelectiveGet_heads l' assms(2) by blast
    show "agree_on (set (Ls l')) (lview m d (LVictim k)) (lview ?m d (LVictim k))"
      unfolding SelectiveGet_view [OF assms(2)] by (rule unlink_links_agree [OF dll assms(3) disj])
    show "set (remove1 b (Ls (LVictim k))) \<inter> set (Ls l') = {}" using disj set by auto
  qed
  show "b \<notin> set ((Ls(LVictim k := remove1 b (Ls (LVictim k)))) l)" for l
    using set assms(3) lists_ok_disjoint [OF assms(1), of l "LVictim k"] by auto
qed

text \<open>A block in no list has no links; unlinking it only empties the empty list of its count.\<close>

lemma SelectiveGet_absent:
  assumes "lists_ok c m d Ls" and "k = invalidSliceCnt (block m d b)" and "k \<le> SLICES_PER_BLOCK c"
    and "Ls (LVictim k) = []" and "prevBlock (block m d b) = BLOCK_NONE" and "nextBlock (block m d b) = BLOCK_NONE"
  shows "SelectiveGetFromGcVictimList d b m = m"
proof -
  have "headBlock (gcVictimList m d k) = BLOCK_NONE" "tailBlock (gcVictimList m d k) = BLOCK_NONE"
    using lists_ok_dll [OF assms(1), of "LVictim k"] assms(3,4) by (simp_all add: lview_def)
  then have none: "gcVictimList m d k = \<lparr>headBlock = BLOCK_NONE, tailBlock = BLOCK_NONE\<rparr>" by simp
  then have "(gcVictimList m)(d := (gcVictimList m d)
      (k := \<lparr>headBlock = BLOCK_NONE, tailBlock = BLOCK_NONE\<rparr>)) = gcVictimList m"
    by (auto simp: fun_eq_iff)
  then show ?thesis
    using assms(2,5,6) none by (simp add: SelectiveGetFromGcVictimList_def Let_def upd_victims_def)
qed

end
