(* ===== verification/Slice_Allocation.thy ===== *)
theory Slice_Allocation
  imports Address_Map
begin

text \<open>
  The tables under writes and garbage collection. The first part gives, for the functions that
  issue flash requests on their way, what they do to the tables (the whole functions are in
  \<open>Ftl_Ops\<close>). The second part is the invariant of the tables and its preservation by each step: the
  two directions of the slice map agree, pages past the write pointer are unmapped, the counter of
  invalid slices of a block counts its invalid pages, a block with invalid slices is in the victim
  list of its count, the free list holds erased blocks. The third part draws the conclusions on a
  complete slice write.
\<close>

section \<open>Table part of garbage collection and of a slice write\<close>

definition gc_copy_map ::
  "'a ftl_config_scheme \<Rightarrow> nat \<Rightarrow> nat \<Rightarrow> nat \<Rightarrow> addr_map \<Rightarrow> addr_map option" where
  "gc_copy_map c d victim pageNo m =
     (let vsa = Vorg2VsaTranslation c d victim pageNo in
      if page_valid m vsa then
        do {
          (m', vsa') \<leftarrow> FindFreeVirtualSliceForGc c d victim m;
          Some (remap_slice (virtualSlice m vsa) vsa' m')
        }
      else Some m)"

definition GarbageCollection_map :: "'a ftl_config_scheme \<Rightarrow> nat \<Rightarrow> addr_map \<Rightarrow> addr_map option" where
  "GarbageCollection_map c d m =
     do {
       (m, victim) \<leftarrow> GetFromGcVictimList c d m;
       m \<leftarrow> (if invalidSliceCnt (block m d victim) \<noteq> SLICES_PER_BLOCK c
             then ofold (gc_copy_map c d victim) [0..<USER_PAGES_PER_BLOCK c] m
             else Some m);
       Some (EraseBlock_map c d victim m)
     }"

text \<open>Making sure that the current block of the die has a free page.\<close>

definition ready_block_map :: "'a ftl_config_scheme \<Rightarrow> nat \<Rightarrow> addr_map \<Rightarrow> addr_map option" where
  "ready_block_map c d m =
     (let b = currentBlock (die m d) in
      if currentPage (block m d b) = USER_PAGES_PER_BLOCK c then
        (let (m1, b1) = GetFromFbList d GET_FREE_BLOCK_NORMAL m in
         if b1 \<noteq> BLOCK_FAIL then Some (upd_die d (\<lambda>r. r\<lparr>currentBlock := b1\<rparr>) m1)
         else
           do {
             m \<leftarrow> GarbageCollection_map c d m1;
             let b = currentBlock (die m d);
             if currentPage (block m d b) = USER_PAGES_PER_BLOCK c then
               (let (m2, b2) = GetFromFbList d GET_FREE_BLOCK_NORMAL m in
                if b2 \<noteq> BLOCK_FAIL then Some (upd_die d (\<lambda>r. r\<lparr>currentBlock := b2\<rparr>) m2) else None)
             else if currentPage (block m d b) > USER_PAGES_PER_BLOCK c then None
             else Some m
           })
      else if currentPage (block m d b) > USER_PAGES_PER_BLOCK c then None
      else Some m)"

definition FindFreeVirtualSlice_map :: "'a ftl_config_scheme \<Rightarrow> addr_map \<Rightarrow> (addr_map \<times> nat) option" where
  "FindFreeVirtualSlice_map c m =
     do {
       let d = sliceAllocationTargetDie m;
       m \<leftarrow> ready_block_map c d m;
       let (m, vsa) = take_page c d (currentBlock (die m d)) m;
       let (m, next) = FindDieForFreeSliceAllocation c m;
       Some (m\<lparr>sliceAllocationTargetDie := next\<rparr>, vsa)
     }"

definition AddrTransWrite_map ::
  "'a ftl_config_scheme \<Rightarrow> nat \<Rightarrow> addr_map \<Rightarrow> (addr_map \<times> nat) option" where
  "AddrTransWrite_map c lsa m =
     (if lsa < SLICES_PER_SSD c then
        do {
          (m, vsa) \<leftarrow> FindFreeVirtualSlice_map c (InvalidateOldVsa c lsa m);
          Some (remap_slice lsa vsa m, vsa)
        }
      else None)"

section \<open>The slice map\<close>

definition inv_pages :: "'a ftl_config_scheme \<Rightarrow> addr_map \<Rightarrow> nat \<Rightarrow> nat \<Rightarrow> nat set" where
  "inv_pages c m d b =
     {pg. pg < currentPage (block m d b) \<and> \<not> page_valid m (Vorg2VsaTranslation c d b pg)}"

text \<open>
  \<open>map_ok c m hand\<close>: the slice maps are consistent. The blocks of \<open>hand\<close> (by die) are under collection: their
  counter is not maintained.
\<close>

definition map_ok :: "'a ftl_config_scheme \<Rightarrow> addr_map \<Rightarrow> (nat \<Rightarrow> nat set) \<Rightarrow> bool" where
  "map_ok c m hand \<longleftrightarrow>
     (\<forall>l < SLICES_PER_SSD c. logicalSlice m l \<noteq> VSA_NONE \<longrightarrow>
        logicalSlice m l < SLICES_PER_SSD c \<and> virtualSlice m (logicalSlice m l) = l) \<and>
     (\<forall>d b pg. vorg_ok c d b pg \<longrightarrow> currentPage (block m d b) \<le> pg \<longrightarrow>
        virtualSlice m (Vorg2VsaTranslation c d b pg) = LSA_NONE) \<and>
     (\<forall>v < SLICES_PER_SSD c. virtualSlice m v = LSA_NONE \<or> virtualSlice m v < SLICES_PER_SSD c) \<and>
     (\<forall>d < USER_DIES c. \<forall>b < USER_BLOCKS_PER_DIE c. currentPage (block m d b) \<le> USER_PAGES_PER_BLOCK c \<and>
        (b \<notin> hand d \<longrightarrow> invalidSliceCnt (block m d b) = card (inv_pages c m d b)))"

lemma map_okD:
  assumes "map_ok c m hand"
  shows "\<lbrakk>l < SLICES_PER_SSD c; logicalSlice m l \<noteq> VSA_NONE\<rbrakk> \<Longrightarrow> logicalSlice m l < SLICES_PER_SSD c"
    and "\<lbrakk>l < SLICES_PER_SSD c; logicalSlice m l \<noteq> VSA_NONE\<rbrakk> \<Longrightarrow> virtualSlice m (logicalSlice m l) = l"
    and "\<lbrakk>vorg_ok c d b pg; currentPage (block m d b) \<le> pg\<rbrakk> \<Longrightarrow>
      virtualSlice m (Vorg2VsaTranslation c d b pg) = LSA_NONE"
    and "v < SLICES_PER_SSD c \<Longrightarrow> virtualSlice m v = LSA_NONE \<or> virtualSlice m v < SLICES_PER_SSD c"
    and "\<lbrakk>d < USER_DIES c; b < USER_BLOCKS_PER_DIE c\<rbrakk> \<Longrightarrow> currentPage (block m d b) \<le> USER_PAGES_PER_BLOCK c"
    and "\<lbrakk>d < USER_DIES c; b < USER_BLOCKS_PER_DIE c; b \<notin> hand d\<rbrakk> \<Longrightarrow>
      invalidSliceCnt (block m d b) = card (inv_pages c m d b)"
  using assms by (auto simp: map_ok_def)

lemma slice_bound_NONE:
  assumes "wf_config c" and "v < SLICES_PER_SSD c"
  shows "v \<noteq> VSA_NONE" and "v \<noteq> LSA_NONE"
  using assms SLICES_PER_SSD_bound [OF assms(1)] by (simp_all add: VSA_NONE_def LSA_NONE_def)

lemma finite_inv_pages [simp]: "finite (inv_pages c m d b)"
  by (rule finite_subset [of _ "{..<currentPage (block m d b)}"]) (auto simp: inv_pages_def)

lemma inv_pages_le:
  "card (inv_pages c m d b) \<le> currentPage (block m d b)"
  using card_mono [of "{..<currentPage (block m d b)}" "inv_pages c m d b"] by (auto simp: inv_pages_def)

text \<open>Two valid pages never hold the same slice: a slice is mapped to one page.\<close>

lemma page_valid_unique:
  "page_valid m v \<Longrightarrow> page_valid m w \<Longrightarrow> virtualSlice m v = virtualSlice m w \<Longrightarrow> v = w"
  by (metis page_valid_def)

lemma page_valid_mapped:
  assumes "map_ok c m hand" and "wf_config c" and "l < SLICES_PER_SSD c" and "logicalSlice m l \<noteq> VSA_NONE"
  shows "page_valid m (logicalSlice m l)"
  using map_okD(1,2) [OF assms(1,3,4)] slice_bound_NONE(2) [OF assms(2,3)] by (simp add: page_valid_def)

text \<open>A page that holds a slice lies below the write pointer of its block.\<close>

lemma page_valid_written:
  assumes "map_ok c m hand" and "vorg_ok c d b pg" and "page_valid m (Vorg2VsaTranslation c d b pg)"
  shows "pg < currentPage (block m d b)"
  using map_okD(3) [OF assms(1,2)] assms(3) by (auto simp: page_valid_def not_less [symmetric])

lemma vsa_in_block:
  assumes "wf_config c" and "map_ok c m hand" and "d < USER_DIES c" and "b < USER_BLOCKS_PER_DIE c"
    and "pg < currentPage (block m d b)"
  shows "vorg_ok c d b pg"
  using assms map_okD(5) [OF assms(2-4)] by (simp add: vorg_ok_def)

lemma block_of_page:
  assumes "wf_config c" and "vorg_ok c d b pg"
  shows "Vsa2VblockTranslation c (Vorg2VsaTranslation c d b pg) = b"
    and "Vsa2VdieTranslation c (Vorg2VsaTranslation c d b pg) = d"
  using Vorg2Vsa_parts [OF assms] by simp_all

subsection \<open>Writing a slice to a fresh page\<close>

lemma page_valid_remap:
  assumes "l \<noteq> LSA_NONE"
  shows "page_valid (remap_slice l v m) x = (x = v \<or> page_valid m x \<and> virtualSlice m x \<noteq> l)"
  using assms by (auto simp: page_valid_def remap_slice_def)

lemma remap_slice_simps [simp]:
  "block (remap_slice l v m) = block m" "die (remap_slice l v m) = die m"
  "gcVictimList (remap_slice l v m) = gcVictimList m" "targetCh (remap_slice l v m) = targetCh m"
  "targetWay (remap_slice l v m) = targetWay m"
  "sliceAllocationTargetDie (remap_slice l v m) = sliceAllocationTargetDie m"
  "logicalSlice (remap_slice l v m) = (logicalSlice m)(l := v)"
  "virtualSlice (remap_slice l v m) = (virtualSlice m)(v := l)"
  by (simp_all add: remap_slice_def)

definition place_slice :: "'a ftl_config_scheme \<Rightarrow> nat \<Rightarrow> nat \<Rightarrow> nat \<Rightarrow> addr_map \<Rightarrow> addr_map" where
  "place_slice c l d b m =
     remap_slice l (Vorg2VsaTranslation c d b (currentPage (block m d b))) (fst (take_page c d b m))"

lemma place_slice_simps [simp]:
  "logicalSlice (place_slice c l d b m) =
     (logicalSlice m)(l := Vorg2VsaTranslation c d b (currentPage (block m d b)))"
  "virtualSlice (place_slice c l d b m) =
     (virtualSlice m)(Vorg2VsaTranslation c d b (currentPage (block m d b)) := l)"
  "die (place_slice c l d b m) = die m" "gcVictimList (place_slice c l d b m) = gcVictimList m"
  "block (place_slice c l d b m) = (block m)(d := (block m d)
     (b := (block m d b)\<lparr>currentPage := u16 (currentPage (block m d b) + 1)\<rparr>))"
  "targetCh (place_slice c l d b m) = targetCh m" "targetWay (place_slice c l d b m) = targetWay m"
  "sliceAllocationTargetDie (place_slice c l d b m) = sliceAllocationTargetDie m"
  by (simp_all add: place_slice_def take_page_def)

lemma page_valid_place:
  assumes "l \<noteq> LSA_NONE"
  shows "page_valid (place_slice c l d b m) x =
    (x = Vorg2VsaTranslation c d b (currentPage (block m d b)) \<or> page_valid m x \<and> virtualSlice m x \<noteq> l)"
  using assms by (auto simp: page_valid_def)

lemma currentPage_Suc:
  assumes "wf_config c" and "vorg_ok c d b p"
  shows "u16 (p + 1) = p + 1"
  using assms USER_PAGES_PER_BLOCK_values [OF assms(1)] by (auto simp: vorg_ok_def)

lemma inv_pages_place:
  assumes wf: "wf_config c" and ok: "map_ok c m hand"
    and p: "vorg_ok c d b (currentPage (block m d b))" and l: "l < SLICES_PER_SSD c"
    and away: "logicalSlice m l \<noteq> VSA_NONE \<Longrightarrow>
      Vsa2VblockTranslation c (logicalSlice m l) \<in> hand (Vsa2VdieTranslation c (logicalSlice m l))"
    and db: "d' < USER_DIES c" "b' < USER_BLOCKS_PER_DIE c" "b' \<notin> hand d'"
  shows "inv_pages c (place_slice c l d b m) d' b' = inv_pages c m d' b'"
proof -
  let ?m = "place_slice c l d b m" and ?p = "currentPage (block m d b)"
  have lN: "l \<noteq> LSA_NONE" using slice_bound_NONE [OF wf l] by simp
  have other: "page_valid ?m (Vorg2VsaTranslation c d' b' pg) = page_valid m (Vorg2VsaTranslation c d' b' pg)"
    if pg: "pg < currentPage (block m d' b')" for pg
  proof -
    have v: "vorg_ok c d' b' pg" using vsa_in_block [OF wf ok db(1,2) pg] .
    have "Vorg2VsaTranslation c d' b' pg \<noteq> Vorg2VsaTranslation c d b ?p"
      using Vorg2Vsa_inj [OF wf v p] pg by auto
    moreover have "virtualSlice m (Vorg2VsaTranslation c d' b' pg) \<noteq> l"
      if "page_valid m (Vorg2VsaTranslation c d' b' pg)"
    proof
      assume "virtualSlice m (Vorg2VsaTranslation c d' b' pg) = l"
      then have eq: "logicalSlice m l = Vorg2VsaTranslation c d' b' pg"
        using that by (simp add: page_valid_def)
      then show False
        using away Vorg2Vsa_not_NONE [OF wf v] block_of_page [OF wf v] db(3) by simp
    qed
    ultimately show ?thesis by (auto simp: page_valid_place [OF lN])
  qed
  have fresh: "page_valid ?m (Vorg2VsaTranslation c d b ?p)" by (simp add: page_valid_place [OF lN])
  have "currentPage (block ?m d' b') = (if d' = d \<and> b' = b then Suc ?p else currentPage (block m d' b'))"
    using currentPage_Suc [OF wf p] by simp
  then show ?thesis
    using other fresh by (auto simp: inv_pages_def less_Suc_eq split: if_splits)
qed

lemma map_ok_place:
  assumes wf: "wf_config c" and ok: "map_ok c m hand"
    and p: "vorg_ok c d b (currentPage (block m d b))" and l: "l < SLICES_PER_SSD c"
    and away: "logicalSlice m l \<noteq> VSA_NONE \<Longrightarrow>
      Vsa2VblockTranslation c (logicalSlice m l) \<in> hand (Vsa2VdieTranslation c (logicalSlice m l))"
  shows "map_ok c (place_slice c l d b m) hand"
proof -
  let ?m = "place_slice c l d b m" and ?v = "Vorg2VsaTranslation c d b (currentPage (block m d b))"
  note D = map_okD [OF ok]
  have v: "?v < SLICES_PER_SSD c" "virtualSlice m ?v = LSA_NONE" "?v \<noteq> VSA_NONE"
    using Vorg2Vsa_parts(1) [OF wf p] D(3) [OF p] Vorg2Vsa_not_NONE [OF wf p] by simp_all
  have "logicalSlice ?m x < SLICES_PER_SSD c \<and> virtualSlice ?m (logicalSlice ?m x) = x"
    if x: "x < SLICES_PER_SSD c" "logicalSlice ?m x \<noteq> VSA_NONE" for x
  proof (cases "x = l")
    case False
    then have "logicalSlice m x \<noteq> VSA_NONE" using x(2) by simp
    moreover from this have "logicalSlice m x \<noteq> ?v"
      using D(2) [OF x(1)] v(2) slice_bound_NONE(2) [OF wf x(1)] by auto
    ultimately show ?thesis using D(1,2) [OF x(1)] False by simp
  qed (use v(1) in simp)
  moreover have "virtualSlice ?m (Vorg2VsaTranslation c d' b' pg) = LSA_NONE"
    if v': "vorg_ok c d' b' pg" and pg: "currentPage (block ?m d' b') \<le> pg" for d' b' pg
  proof -
    have "Vorg2VsaTranslation c d' b' pg \<noteq> ?v"
      using Vorg2Vsa_inj [OF wf v' p] pg currentPage_Suc [OF wf p] by auto
    moreover have "currentPage (block m d' b') \<le> pg"
      using pg currentPage_Suc [OF wf p] by (auto split: if_splits)
    ultimately show ?thesis using D(3) [OF v'] by simp
  qed
  moreover have "virtualSlice ?m x = LSA_NONE \<or> virtualSlice ?m x < SLICES_PER_SSD c"
    if "x < SLICES_PER_SSD c" for x using D(4) [OF that] l by simp
  moreover have "currentPage (block ?m d' b') \<le> USER_PAGES_PER_BLOCK c"
    if "d' < USER_DIES c" "b' < USER_BLOCKS_PER_DIE c" for d' b'
    using D(5) [OF that] p currentPage_Suc [OF wf p] by (auto simp: vorg_ok_def)
  moreover have "invalidSliceCnt (block ?m d' b') = card (inv_pages c ?m d' b')"
    if "d' < USER_DIES c" "b' < USER_BLOCKS_PER_DIE c" "b' \<notin> hand d'" for d' b'
    using D(6) [OF that] inv_pages_place [OF wf ok p l away that] by auto
  ultimately show ?thesis unfolding map_ok_def by blast
qed

lemma map_ok_cong:
  assumes "map_ok c m hand" and "logicalSlice m' = logicalSlice m" and "virtualSlice m' = virtualSlice m"
    and "\<And>d b. currentPage (block m' d b) = currentPage (block m d b)"
    and "\<And>d b. invalidSliceCnt (block m' d b) = invalidSliceCnt (block m d b)"
    and "\<And>d. hand d \<subseteq> hand' d"
  shows "map_ok c m' hand'"
proof -
  have "inv_pages c m' d b = inv_pages c m d b" for d b
    using assms(2-4) by (simp add: inv_pages_def page_valid_def)
  then show ?thesis using assms unfolding map_ok_def by (simp add: subset_iff) blast
qed

subsection \<open>Invalidating the old page of a slice\<close>

lemma map_ok_invalidate:
  assumes wf: "wf_config c" and ok: "map_ok c m hand" and l: "l < SLICES_PER_SSD c"
    and vsa: "logicalSlice m l = Vorg2VsaTranslation c d b pg" "vorg_ok c d b pg"
    and m': "logicalSlice m' = (logicalSlice m)(l := VSA_NONE)" "virtualSlice m' = virtualSlice m"
    and cur: "\<And>d' b'. currentPage (block m' d' b') = currentPage (block m d' b')"
    and cnt: "\<And>d' b'. invalidSliceCnt (block m' d' b') =
      (if d' = d \<and> b' = b then Suc (invalidSliceCnt (block m d b)) else invalidSliceCnt (block m d' b'))"
  shows "map_ok c m' hand"
proof -
  note D = map_okD [OF ok]
  have ne: "logicalSlice m l \<noteq> VSA_NONE" using vsa Vorg2Vsa_not_NONE [OF wf vsa(2)] by simp
  have valid: "page_valid m (logicalSlice m l)" by (rule page_valid_mapped [OF ok wf l ne])
  have valid': "page_valid m' x = (page_valid m x \<and> x \<noteq> logicalSlice m l)" if "x < SLICES_PER_SSD c" for x
    using that slice_bound_NONE(1) [OF wf that] D(2) [OF l ne]
    by (auto simp: page_valid_def m')
  have pages: "inv_pages c m' d' b' =
      (if d' = d \<and> b' = b then insert pg (inv_pages c m d' b') else inv_pages c m d' b')"
    if db: "d' < USER_DIES c" "b' < USER_BLOCKS_PER_DIE c" for d' b'
  proof -
    have "page_valid m' (Vorg2VsaTranslation c d' b' p) =
        (page_valid m (Vorg2VsaTranslation c d' b' p) \<and> \<not> (d' = d \<and> b' = b \<and> p = pg))"
      if "p < currentPage (block m d' b')" for p
    proof -
      have v: "vorg_ok c d' b' p" using vsa_in_block [OF wf ok db that] .
      show ?thesis
        using valid' [OF Vorg2Vsa_parts(1) [OF wf v]] Vorg2Vsa_inj [OF wf v vsa(2)] vsa(1) by auto
    qed
    moreover have "pg < currentPage (block m d b)"
      using page_valid_written [OF ok vsa(2)] valid vsa(1) by simp
    ultimately show ?thesis by (auto simp: inv_pages_def cur)
  qed
  have "pg \<notin> inv_pages c m d b" using valid vsa(1) by (simp add: inv_pages_def)
  then have "invalidSliceCnt (block m' d' b') = card (inv_pages c m' d' b')"
    if "d' < USER_DIES c" "b' < USER_BLOCKS_PER_DIE c" "b' \<notin> hand d'" for d' b'
    using D(6) [OF that] pages [OF that(1,2)] by (auto simp: cnt)
  moreover have "logicalSlice m' x < SLICES_PER_SSD c \<and> virtualSlice m' (logicalSlice m' x) = x"
    if "x < SLICES_PER_SSD c" "logicalSlice m' x \<noteq> VSA_NONE" for x
    using that D(1,2) [OF that(1)] by (auto simp: m' split: if_splits)
  ultimately show ?thesis
    using ok unfolding map_ok_def by (simp add: m' cur)
qed

subsection \<open>Erasing a block without valid pages\<close>

lemma fold_unmap_pages:
  "fold (\<lambda>pg. unmap_page (f pg)) pgs m =
     m\<lparr>virtualSlice := (\<lambda>x. if x \<in> f ` set pgs then LSA_NONE else virtualSlice m x)\<rparr>"
proof (induction pgs arbitrary: m)
  case (Cons pg pgs)
  have "fold (\<lambda>pg. unmap_page (f pg)) (pg # pgs) m = (unmap_page (f pg) m)
      \<lparr>virtualSlice := (\<lambda>x. if x \<in> f ` set pgs then LSA_NONE else virtualSlice (unmap_page (f pg) m) x)\<rparr>"
    by (simp add: Cons.IH)
  also have "\<dots> = m\<lparr>virtualSlice := (\<lambda>x. if x \<in> f ` set pgs then LSA_NONE else virtualSlice (unmap_page (f pg) m) x)\<rparr>"
    by (simp add: unmap_page_def)
  also have "\<dots> = m\<lparr>virtualSlice := (\<lambda>x. if x \<in> f ` set (pg # pgs) then LSA_NONE else virtualSlice m x)\<rparr>"
    by (rule arg_cong [where f = "\<lambda>v. m\<lparr>virtualSlice := v\<rparr>"]) (auto simp: unmap_page_def)
  finally show ?case .
qed simp

lemma map_ok_erase:
  assumes wf: "wf_config c" and ok: "map_ok c m hand" and db: "d < USER_DIES c" "b < USER_BLOCKS_PER_DIE c"
    and dead: "\<And>pg. pg < USER_PAGES_PER_BLOCK c \<Longrightarrow> \<not> page_valid m (Vorg2VsaTranslation c d b pg)"
    and m': "logicalSlice m' = logicalSlice m"
      "virtualSlice m' = (\<lambda>x. if x \<in> Vorg2VsaTranslation c d b ` {..<USER_PAGES_PER_BLOCK c} then LSA_NONE
                           else virtualSlice m x)"
    and blk: "\<And>d' b'. currentPage (block m' d' b') = (if d' = d \<and> b' = b then 0 else currentPage (block m d' b'))"
      "\<And>d' b'. invalidSliceCnt (block m' d' b') = (if d' = d \<and> b' = b then 0 else invalidSliceCnt (block m d' b'))"
  shows "map_ok c m' (hand(d := hand d - {b}))"
proof -
  note D = map_okD [OF ok]
  let ?E = "Vorg2VsaTranslation c d b ` {..<USER_PAGES_PER_BLOCK c}"
  have ne: "x \<notin> ?E" if "page_valid m x" for x using dead that by auto
  have valid': "page_valid m' x = page_valid m x" for x
    using ne [of x] by (auto simp: page_valid_def m')
  have out: "Vorg2VsaTranslation c d' b' pg \<notin> ?E" if "vorg_ok c d' b' pg" "(d', b') \<noteq> (d, b)" for d' b' pg
    using Vorg2Vsa_inj [OF wf that(1), of d b] that(2) db by (auto simp: vorg_ok_def)
  have "virtualSlice m' (Vorg2VsaTranslation c d' b' pg) = LSA_NONE"
    if v: "vorg_ok c d' b' pg" and pg: "currentPage (block m' d' b') \<le> pg" for d' b' pg
  proof (cases "(d', b') = (d, b)")
    case True
    then show ?thesis using v by (auto simp: m' vorg_ok_def)
  next
    case False
    then show ?thesis using D(3) [OF v] pg by (auto simp: m' blk split: if_splits)
  qed
  moreover have "logicalSlice m' x < SLICES_PER_SSD c \<and> virtualSlice m' (logicalSlice m' x) = x"
    if x: "x < SLICES_PER_SSD c" "logicalSlice m' x \<noteq> VSA_NONE" for x
    using D(1,2) [OF x(1)] x(2) ne [OF page_valid_mapped [OF ok wf x(1)]] by (simp add: m')
  moreover have "virtualSlice m' x = LSA_NONE \<or> virtualSlice m' x < SLICES_PER_SSD c"
    if "x < SLICES_PER_SSD c" for x using D(4) [OF that] by (simp add: m')
  moreover have "inv_pages c m' d' b' = (if d' = d \<and> b' = b then {} else inv_pages c m d' b')" for d' b'
    by (simp add: inv_pages_def valid' blk)
  ultimately show ?thesis
    using D(5,6) by (simp add: map_ok_def blk)
qed

section \<open>The blocks of a die\<close>

text \<open>
  \<open>die_ok c m d Ls hand\<close>: the lists of die \<open>d\<close> are spelled, the victim lists hold exactly the blocks with invalid
  slices, each in the list of its count; free blocks are erased and counted; a block in no list has
  no links; the current block is not free. The blocks of \<open>hand\<close> are in no list.
\<close>

definition blocks_ok ::
  "'a ftl_config_scheme \<Rightarrow> addr_map \<Rightarrow> nat \<Rightarrow> (block_list \<Rightarrow> nat list) \<Rightarrow> nat set \<Rightarrow> bool" where
  "blocks_ok c m d Ls hand \<longleftrightarrow>
     lists_ok c m d Ls \<and>
     (\<forall>l. set (Ls l) \<subseteq> {..<USER_BLOCKS_PER_DIE c}) \<and>
     freeBlockCnt (die m d) = length (Ls LFree) \<and>
     (\<forall>b < USER_BLOCKS_PER_DIE c. b \<notin> hand \<longrightarrow>
        (\<forall>k. b \<in> set (Ls (LVictim k)) \<longleftrightarrow> 0 < k \<and> invalidSliceCnt (block m d b) = k)) \<and>
     (\<forall>b \<in> set (Ls LFree). invalidSliceCnt (block m d b) = 0 \<and> currentPage (block m d b) = 0) \<and>
     (\<forall>b < USER_BLOCKS_PER_DIE c. b \<notin> hand \<longrightarrow> (\<forall>l. b \<notin> set (Ls l)) \<longrightarrow>
        prevBlock (block m d b) = BLOCK_NONE \<and> nextBlock (block m d b) = BLOCK_NONE) \<and>
     (\<forall>b \<in> hand. b < USER_BLOCKS_PER_DIE c \<and> (\<forall>l. b \<notin> set (Ls l)))"

definition die_ok ::
  "'a ftl_config_scheme \<Rightarrow> addr_map \<Rightarrow> nat \<Rightarrow> (block_list \<Rightarrow> nat list) \<Rightarrow> nat set \<Rightarrow> bool" where
  "die_ok c m d Ls hand \<longleftrightarrow> blocks_ok c m d Ls hand \<and>
     currentBlock (die m d) < USER_BLOCKS_PER_DIE c \<and> currentBlock (die m d) \<notin> set (Ls LFree)"

lemma blocks_okD:
  assumes "blocks_ok c m d Ls hand"
  shows "lists_ok c m d Ls" and "b \<in> set (Ls l) \<Longrightarrow> b < USER_BLOCKS_PER_DIE c"
    and "freeBlockCnt (die m d) = length (Ls LFree)"
    and "\<lbrakk>b < USER_BLOCKS_PER_DIE c; b \<notin> hand\<rbrakk> \<Longrightarrow>
      b \<in> set (Ls (LVictim k)) \<longleftrightarrow> 0 < k \<and> invalidSliceCnt (block m d b) = k"
    and "b \<in> set (Ls LFree) \<Longrightarrow> invalidSliceCnt (block m d b) = 0 \<and> currentPage (block m d b) = 0"
    and "\<lbrakk>b < USER_BLOCKS_PER_DIE c; b \<notin> hand; \<And>l. b \<notin> set (Ls l)\<rbrakk> \<Longrightarrow>
      prevBlock (block m d b) = BLOCK_NONE \<and> nextBlock (block m d b) = BLOCK_NONE"
    and "b \<in> hand \<Longrightarrow> b < USER_BLOCKS_PER_DIE c" and "b \<in> hand \<Longrightarrow> b \<notin> set (Ls l)"
  using assms unfolding blocks_ok_def by blast+

lemma die_ok_blocks: "die_ok c m d Ls hand \<Longrightarrow> blocks_ok c m d Ls hand"
  by (simp add: die_ok_def)

lemma die_okD:
  assumes "die_ok c m d Ls hand"
  shows "lists_ok c m d Ls" and "b \<in> set (Ls l) \<Longrightarrow> b < USER_BLOCKS_PER_DIE c"
    and "freeBlockCnt (die m d) = length (Ls LFree)"
    and "\<lbrakk>b < USER_BLOCKS_PER_DIE c; b \<notin> hand\<rbrakk> \<Longrightarrow>
      b \<in> set (Ls (LVictim k)) \<longleftrightarrow> 0 < k \<and> invalidSliceCnt (block m d b) = k"
    and "b \<in> set (Ls LFree) \<Longrightarrow> invalidSliceCnt (block m d b) = 0 \<and> currentPage (block m d b) = 0"
    and "\<lbrakk>b < USER_BLOCKS_PER_DIE c; b \<notin> hand; \<And>l. b \<notin> set (Ls l)\<rbrakk> \<Longrightarrow>
      prevBlock (block m d b) = BLOCK_NONE \<and> nextBlock (block m d b) = BLOCK_NONE"
    and "currentBlock (die m d) < USER_BLOCKS_PER_DIE c" and "currentBlock (die m d) \<notin> set (Ls LFree)"
    and "b \<in> hand \<Longrightarrow> b < USER_BLOCKS_PER_DIE c" and "b \<in> hand \<Longrightarrow> b \<notin> set (Ls l)"
  using blocks_okD [OF die_ok_blocks [OF assms]] assms unfolding die_ok_def by blast+

lemma block_not_NONE: "wf_config c \<Longrightarrow> b < USER_BLOCKS_PER_DIE c \<Longrightarrow> b \<noteq> BLOCK_NONE"
  using USER_BLOCKS_PER_DIE_bounds [of c] by (simp add: BLOCK_NONE_def)

lemma free_list_short:
  assumes "wf_config c" and "blocks_ok c m d Ls hand"
  shows "length (Ls LFree) \<le> 8192"
proof -
  have "distinct (Ls LFree)" using lists_ok_dll [OF blocks_okD(1) [OF assms(2)], of LFree] dll_distinct by simp
  then have "length (Ls LFree) \<le> USER_BLOCKS_PER_DIE c"
    using blocks_okD(2) [OF assms(2)] by (intro finite_distinct_length_le) auto
  then show ?thesis using USER_BLOCKS_PER_DIE_bounds [OF assms(1)] by simp
qed

lemma lview_same_die:
  assumes "block m' d = block m d" and "die m' d = die m d" and "gcVictimList m' d = gcVictimList m d"
  shows "lview m' d l = lview m d l"
  using assms by (cases l) (simp_all add: lview_def)

lemma blocks_ok_other:
  assumes "blocks_ok c m d Ls hand"
    and "block m' d = block m d" and "die m' d = die m d" and "gcVictimList m' d = gcVictimList m d"
  shows "blocks_ok c m' d Ls hand"
  using assms lists_ok_same [of c m d Ls m'] lview_same_die [OF assms(2-4)] by (simp add: blocks_ok_def)

lemma die_ok_other:
  assumes "die_ok c m d Ls hand"
    and "block m' d = block m d" and "die m' d = die m d" and "gcVictimList m' d = gcVictimList m d"
  shows "die_ok c m' d Ls hand"
  using assms(1,3) blocks_ok_other [OF die_ok_blocks [OF assms(1)] assms(2-4)] by (simp add: die_ok_def)

text \<open>Advancing the write pointer of a block that is not free.\<close>

lemma die_ok_page:
  assumes "die_ok c m d Ls hand" and "b \<notin> set (Ls LFree)"
    and "die m' d = die m d" and "gcVictimList m' d = gcVictimList m d"
    and "block m' d = (block m d)(b := (block m d b)\<lparr>currentPage := p\<rparr>)"
  shows "die_ok c m' d Ls hand"
proof -
  have "lview m' d l = lview m d l" for l
    using assms(3-5) by (cases l) (simp_all add: lview_def fun_eq_iff)
  then have "lists_ok c m' d Ls" using lists_ok_same [OF die_okD(1) [OF assms(1)]] by blast
  then show ?thesis using assms unfolding die_ok_def blocks_ok_def by auto
qed

text \<open>Taking the head of the free list as the new current block.\<close>

lemma fb_unlink_fields [simp]:
  "invalidSliceCnt (block (fb_unlink d m) d' b) = invalidSliceCnt (block m d' b)"
  "currentPage (block (fb_unlink d m) d' b) = currentPage (block m d' b)"
  "freeBlockCnt (die (fb_unlink d m) d') = freeBlockCnt (die m d')"
  "currentBlock (die (fb_unlink d m) d') = currentBlock (die m d')"
  "logicalSlice (fb_unlink d m) = logicalSlice m" "virtualSlice (fb_unlink d m) = virtualSlice m"
  "gcVictimList (fb_unlink d m) = gcVictimList m"
  "sliceAllocationTargetDie (fb_unlink d m) = sliceAllocationTargetDie m"
  "targetCh (fb_unlink d m) = targetCh m" "targetWay (fb_unlink d m) = targetWay m"
  by (simp_all add: fb_unlink_def Let_def)

lemma fb_unlink_other:
  "d' \<noteq> d \<Longrightarrow> block (fb_unlink d m) d' = block m d'" "d' \<noteq> d \<Longrightarrow> die (fb_unlink d m) d' = die m d'"
  by (simp_all add: fb_unlink_def Let_def)

definition take_current :: "nat \<Rightarrow> nat \<Rightarrow> addr_map \<Rightarrow> addr_map" where
  "take_current d b m = upd_die d (\<lambda>r. r\<lparr>currentBlock := b\<rparr>) (fb_take d b m)"

lemma take_current_fields [simp]:
  "invalidSliceCnt (block (take_current d b m) d' x) = invalidSliceCnt (block m d' x)"
  "currentPage (block (take_current d b m) d' x) = currentPage (block m d' x)"
  "currentBlock (die (take_current d b m) d') = (if d' = d then b else currentBlock (die m d'))"
  "logicalSlice (take_current d b m) = logicalSlice m" "virtualSlice (take_current d b m) = virtualSlice m"
  "gcVictimList (take_current d b m) = gcVictimList m"
  "sliceAllocationTargetDie (take_current d b m) = sliceAllocationTargetDie m"
  "targetCh (take_current d b m) = targetCh m" "targetWay (take_current d b m) = targetWay m"
  by (simp_all add: take_current_def fb_take_def)

lemma take_current_other:
  "d' \<noteq> d \<Longrightarrow> block (take_current d b m) d' = block m d'" "d' \<noteq> d \<Longrightarrow> die (take_current d b m) d' = die m d'"
  by (simp_all add: take_current_def fb_take_def fb_unlink_other)

lemma fb_unlink_links_other:
  assumes "lists_ok c m d Ls" and "Ls LFree = b # xs" and "x \<notin> set (b # xs)"
  shows "prevBlock (block (fb_unlink d m) d x) = prevBlock (block m d x)"
    and "nextBlock (block (fb_unlink d m) d x) = nextBlock (block m d x)"
proof -
  have dll: "dll BLOCK_NONE (lview m d LFree) (b # xs)" using lists_ok_dll [OF assms(1), of LFree] assms(2) by simp
  have "agree_on {x} (lview m d LFree) (lview (fb_unlink d m) d LFree)"
    unfolding fbpop.view_pop using pop_links_agree [OF dll] assms(3) by simp
  then show "prevBlock (block (fb_unlink d m) d x) = prevBlock (block m d x)"
    "nextBlock (block (fb_unlink d m) d x) = nextBlock (block m d x)"
    by (simp_all add: lview_def)
qed

lemma die_ok_take_current:
  assumes wf: "wf_config c" and ok: "blocks_ok c m d Ls hand" and F: "Ls LFree = b # xs"
  shows "die_ok c (take_current d b m) d (Ls(LFree := xs)) hand"
proof -
  let ?m = "take_current d b m"
  note D = blocks_okD [OF ok]
  have lists: "lists_ok c ?m d (Ls(LFree := xs))"
  proof (rule lists_ok_same [OF fb_take_ok [OF D(1) F]])
    show "lview ?m d l = lview (fb_take d b m) d l" for l
      by (cases l) (simp_all add: lview_def take_current_def)
  qed
  have fresh: "b \<notin> set ((Ls(LFree := xs)) l)" for l using fb_unlink_ok(2) [OF D(1) F] .
  have b: "b < USER_BLOCKS_PER_DIE c" using D(2) [of b LFree] F by simp
  have "u16 (length (b # xs) + 65535) = length xs"
    using free_list_short [OF wf ok] F by (simp add: u16_def mod_if)
  then have cnt: "freeBlockCnt (die ?m d) = length xs"
    using D(3) F by (simp add: take_current_def fb_take_def)
  have links: "prevBlock (block ?m d x) = BLOCK_NONE \<and> nextBlock (block ?m d x) = BLOCK_NONE"
    if x: "x < USER_BLOCKS_PER_DIE c" "x \<notin> hand" "\<And>l. x \<notin> set ((Ls(LFree := xs)) l)" for x
  proof (cases "x = b")
    case False
    have no: "x \<notin> set (Ls l)" for l using x(3) [of l] x(3) [of LFree] F False by (cases "l = LFree") auto
    have "prevBlock (block (fb_unlink d m) d x) = prevBlock (block m d x)"
      "nextBlock (block (fb_unlink d m) d x) = nextBlock (block m d x)"
      using fb_unlink_links_other [OF D(1) F] no [of LFree] F by simp_all
    then show ?thesis using D(6) [OF x(1,2) no] False by (simp add: take_current_def fb_take_def)
  qed (simp add: take_current_def fb_take_def)
  have cur: "currentBlock (die ?m d) = b" by simp
  have xs: "x < USER_BLOCKS_PER_DIE c" "x \<notin> hand" if "x \<in> set xs" for x
    using D(2,8) [of x LFree] F that by auto
  show ?thesis
    unfolding die_ok_def blocks_ok_def
    using lists cnt links cur fresh [of LFree] b xs D(2,4,5,7,8) F by auto
qed

text \<open>Moving a block to the next victim list when one more of its slices becomes invalid.\<close>

lemma SelectiveGet_fields [simp]:
  "invalidSliceCnt (block (SelectiveGetFromGcVictimList d b m) d' x) = invalidSliceCnt (block m d' x)"
  "currentPage (block (SelectiveGetFromGcVictimList d b m) d' x) = currentPage (block m d' x)"
  "die (SelectiveGetFromGcVictimList d b m) = die m"
  "logicalSlice (SelectiveGetFromGcVictimList d b m) = logicalSlice m"
  "virtualSlice (SelectiveGetFromGcVictimList d b m) = virtualSlice m"
  "sliceAllocationTargetDie (SelectiveGetFromGcVictimList d b m) = sliceAllocationTargetDie m"
  "targetCh (SelectiveGetFromGcVictimList d b m) = targetCh m"
  "targetWay (SelectiveGetFromGcVictimList d b m) = targetWay m"
  by (simp_all add: SelectiveGetFromGcVictimList_def Let_def)

lemma SelectiveGet_other:
  "d' \<noteq> d \<Longrightarrow> block (SelectiveGetFromGcVictimList d b m) d' = block m d'"
  "d' \<noteq> d \<Longrightarrow> gcVictimList (SelectiveGetFromGcVictimList d b m) d' = gcVictimList m d'"
  by (simp_all add: SelectiveGetFromGcVictimList_def Let_def)

lemma PutToGc_fields [simp]:
  "invalidSliceCnt (block (PutToGcVictimList d b k m) d' x) = invalidSliceCnt (block m d' x)"
  "currentPage (block (PutToGcVictimList d b k m) d' x) = currentPage (block m d' x)"
  "die (PutToGcVictimList d b k m) = die m"
  "logicalSlice (PutToGcVictimList d b k m) = logicalSlice m"
  "virtualSlice (PutToGcVictimList d b k m) = virtualSlice m"
  "sliceAllocationTargetDie (PutToGcVictimList d b k m) = sliceAllocationTargetDie m"
  "targetCh (PutToGcVictimList d b k m) = targetCh m" "targetWay (PutToGcVictimList d b k m) = targetWay m"
  by (simp_all add: PutToGcVictimList_def Let_def)

lemma PutToGc_other:
  "d' \<noteq> d \<Longrightarrow> block (PutToGcVictimList d b k m) d' = block m d'"
  "d' \<noteq> d \<Longrightarrow> gcVictimList (PutToGcVictimList d b k m) d' = gcVictimList m d'"
  by (simp_all add: PutToGcVictimList_def Let_def)

text \<open>A block in no list keeps its links when the lists around it change.\<close>

lemma unlisted_links_put:
  assumes "dll BLOCK_NONE (lview m d (LVictim k)) ys" and "x \<noteq> b" and "x \<notin> set ys"
  shows "prevBlock (block (PutToGcVictimList d b k m) d x) = prevBlock (block m d x)"
    and "nextBlock (block (PutToGcVictimList d b k m) d x) = nextBlock (block m d x)"
proof -
  have "agree_on {x} (lview m d (LVictim k)) (lview (PutToGcVictimList d b k m) d (LVictim k))"
    unfolding gclist.view_put using put_links_agree [OF assms(1), of b "{x}"] assms(2,3) by simp
  then show "prevBlock (block (PutToGcVictimList d b k m) d x) = prevBlock (block m d x)"
    "nextBlock (block (PutToGcVictimList d b k m) d x) = nextBlock (block m d x)"
    by (simp_all add: lview_def)
qed

lemma unlisted_links_sel:
  assumes "dll BLOCK_NONE (lview m d (LVictim k)) ys" and "k = invalidSliceCnt (block m d b)"
    and "b \<in> set ys" and "x \<notin> set ys"
  shows "prevBlock (block (SelectiveGetFromGcVictimList d b m) d x) = prevBlock (block m d x)"
    and "nextBlock (block (SelectiveGetFromGcVictimList d b m) d x) = nextBlock (block m d x)"
proof -
  have "agree_on {x} (lview m d (LVictim k)) (lview (SelectiveGetFromGcVictimList d b m) d (LVictim k))"
    unfolding SelectiveGet_view [OF assms(2)] using unlink_links_agree [OF assms(1,3), of "{x}"] assms(4) by simp
  then show "prevBlock (block (SelectiveGetFromGcVictimList d b m) d x) = prevBlock (block m d x)"
    "nextBlock (block (SelectiveGetFromGcVictimList d b m) d x) = nextBlock (block m d x)"
    by (simp_all add: lview_def)
qed

definition bump_invalid :: "nat \<Rightarrow> nat \<Rightarrow> addr_map \<Rightarrow> addr_map" where
  "bump_invalid d b m =
     upd_block d b (\<lambda>r. r\<lparr>invalidSliceCnt := u16 (invalidSliceCnt r + 1)\<rparr>) (SelectiveGetFromGcVictimList d b m)"

text \<open>After the first half the block is in no list and its counter is one higher.\<close>

lemma victim_unlinked:
  assumes ok: "die_ok c m d Ls hand" and b: "b < USER_BLOCKS_PER_DIE c" "b \<notin> hand"
    and nf: "b \<notin> set (Ls LFree)" and k: "invalidSliceCnt (block m d b) = k" "k < SLICES_PER_BLOCK c"
  defines "Ls' \<equiv> Ls(LVictim k := remove1 b (Ls (LVictim k)))" and "m' \<equiv> SelectiveGetFromGcVictimList d b m"
  shows "lists_ok c m' d Ls' \<and> (\<forall>l. b \<notin> set (Ls' l)) \<and>
    (\<forall>x. x \<noteq> b \<longrightarrow> (\<forall>l. x \<notin> set (Ls l)) \<longrightarrow> prevBlock (block m' d x) = prevBlock (block m d x) \<and>
       nextBlock (block m' d x) = nextBlock (block m d x))"
proof (cases "k = 0")
  case True
  note D = die_okD [OF ok]
  have no: "b \<notin> set (Ls l)" for l using D(4) [OF b] nf k(1) True by (cases l) auto
  have "Ls (LVictim 0) = []"
  proof -
    have "x \<notin> set (Ls (LVictim 0))" for x using D(2,4,10) [of x] by (metis less_irrefl)
    then show ?thesis by (meson last_in_set)
  qed
  then have "m' = m" "Ls' = Ls"
    using SelectiveGet_absent [OF D(1), of k b] k D(6) [OF b no] True
    by (auto simp: Ls'_def m'_def fun_eq_iff)
  then show ?thesis using D(1) no by simp
next
  case False
  note D = die_okD [OF ok]
  have mem: "b \<in> set (Ls (LVictim k))" using False D(4) [OF b] k(1) by simp
  have kl: "valid_l c (LVictim k)" using k(2) by simp
  have l: "lists_ok c m' d Ls'" "\<And>l. b \<notin> set (Ls' l)"
    using SelectiveGet_ok [OF D(1) k(1) [symmetric] mem] by (simp_all add: Ls'_def m'_def)
  have "prevBlock (block m' d x) = prevBlock (block m d x) \<and> nextBlock (block m' d x) = nextBlock (block m d x)"
    if "\<forall>l. x \<notin> set (Ls l)" for x
    using unlisted_links_sel [OF lists_ok_dll [OF D(1) kl] k(1) [symmetric] mem] that by (simp add: m'_def)
  then show ?thesis using l by blast
qed

lemma die_ok_unlink:
  assumes wf: "wf_config c" and ok: "die_ok c m d Ls hand" and b: "b < USER_BLOCKS_PER_DIE c" "b \<notin> hand"
    and nf: "b \<notin> set (Ls LFree)" and k: "invalidSliceCnt (block m d b) = k" "k < SLICES_PER_BLOCK c"
  defines "Ls' \<equiv> Ls(LVictim k := remove1 b (Ls (LVictim k)))"
  shows "die_ok c (bump_invalid d b m) d Ls' (insert b hand)"
proof -
  note D = die_okD [OF ok]
  let ?m = "SelectiveGetFromGcVictimList d b m"
  note sel = victim_unlinked [OF ok b nf k, folded Ls'_def]
  have lists: "lists_ok c (bump_invalid d b m) d Ls'"
    unfolding bump_invalid_def using lists_ok_clear_links sel by blast
  have sub: "set (Ls' l) \<subseteq> set (Ls l)" for l by (simp add: Ls'_def set_remove1_subset)
  have mem: "x \<in> set (Ls' l) \<longleftrightarrow> x \<in> set (Ls l)" if "x \<noteq> b" for x l using that by (simp add: Ls'_def)
  have F: "Ls' LFree = Ls LFree" by (simp add: Ls'_def)
  have cnt: "invalidSliceCnt (block (bump_invalid d b m) d x) = invalidSliceCnt (block m d x)"
    "prevBlock (block (bump_invalid d b m) d x) = prevBlock (block ?m d x)"
    "nextBlock (block (bump_invalid d b m) d x) = nextBlock (block ?m d x)" if "x \<noteq> b" for x
    using that by (simp_all add: bump_invalid_def)
  have cp: "currentPage (block (bump_invalid d b m) d x) = currentPage (block m d x)"
    "die (bump_invalid d b m) = die m" for x by (simp_all add: bump_invalid_def)
  show ?thesis
    unfolding die_ok_def blocks_ok_def
  proof (intro conjI)
    show "\<forall>x<USER_BLOCKS_PER_DIE c. x \<notin> insert b hand \<longrightarrow>
        (\<forall>k. (x \<in> set (Ls' (LVictim k))) = (0 < k \<and> invalidSliceCnt (block (bump_invalid d b m) d x) = k))"
      using D(4) mem cnt(1) by simp
    show "\<forall>x<USER_BLOCKS_PER_DIE c. x \<notin> insert b hand \<longrightarrow> (\<forall>l. x \<notin> set (Ls' l)) \<longrightarrow>
        prevBlock (block (bump_invalid d b m) d x) = BLOCK_NONE \<and>
        nextBlock (block (bump_invalid d b m) d x) = BLOCK_NONE"
      using D(6) mem cnt(2,3) sel by simp
    show "\<forall>x\<in>set (Ls' LFree). invalidSliceCnt (block (bump_invalid d b m) d x) = 0 \<and>
        currentPage (block (bump_invalid d b m) d x) = 0"
      using D(5) F nf cnt(1) cp(1) by metis
    show "\<forall>x\<in>insert b hand. x < USER_BLOCKS_PER_DIE c \<and> (\<forall>l. x \<notin> set (Ls' l))"
      using b(1) sel D(9,10) sub by blast
  qed (use lists sub D(2,3,7,8) F cp(2) in auto)
qed

lemma die_ok_put_victim:
  assumes wf: "wf_config c" and ok: "die_ok c m d Ls (insert b hand)" and b: "b \<notin> hand"
    and k: "invalidSliceCnt (block m d b) = k" "0 < k" "k \<le> SLICES_PER_BLOCK c"
  shows "die_ok c (PutToGcVictimList d b k m) d (Ls(LVictim k := Ls (LVictim k) @ [b])) hand"
proof -
  note D = die_okD [OF ok]
  let ?m = "PutToGcVictimList d b k m" and ?Ls = "Ls(LVictim k := Ls (LVictim k) @ [b])"
  have bB: "b < USER_BLOCKS_PER_DIE c" "\<And>l. b \<notin> set (Ls l)" using D(9,10) by auto
  have lists: "lists_ok c ?m d ?Ls"
    using PutToGcVictimList_ok [OF D(1) bB(2) block_not_NONE [OF wf bB(1)] k(3)] .
  have links: "prevBlock (block ?m d x) = prevBlock (block m d x)" "nextBlock (block ?m d x) = nextBlock (block m d x)"
    if "x \<noteq> b" "\<forall>l. x \<notin> set (Ls l)" for x
    using unlisted_links_put [OF lists_ok_dll [OF D(1), of "LVictim k"]] that k(3) by simp_all
  have mem: "x \<in> set (?Ls l) \<longleftrightarrow> x \<in> set (Ls l) \<or> (x = b \<and> l = LVictim k)" for x l by auto
  show ?thesis
    unfolding die_ok_def blocks_ok_def
  proof (intro conjI)
    show "\<forall>x<USER_BLOCKS_PER_DIE c. x \<notin> hand \<longrightarrow>
        (\<forall>k'. (x \<in> set (?Ls (LVictim k'))) = (0 < k' \<and> invalidSliceCnt (block ?m d x) = k'))"
      unfolding mem using D(4) bB(2) k(1,2) by auto
    show "\<forall>x<USER_BLOCKS_PER_DIE c. x \<notin> hand \<longrightarrow> (\<forall>l. x \<notin> set (?Ls l)) \<longrightarrow>
        prevBlock (block ?m d x) = BLOCK_NONE \<and> nextBlock (block ?m d x) = BLOCK_NONE"
    proof (intro allI impI)
      fix x assume x: "x < USER_BLOCKS_PER_DIE c" "x \<notin> hand" "\<forall>l. x \<notin> set (?Ls l)"
      then have no: "x \<noteq> b" "\<forall>l. x \<notin> set (Ls l)" unfolding mem by auto
      then show "prevBlock (block ?m d x) = BLOCK_NONE \<and> nextBlock (block ?m d x) = BLOCK_NONE"
        using D(6) [of x] links [OF no] x(1,2) by simp
    qed
    show "\<forall>x\<in>hand. x < USER_BLOCKS_PER_DIE c \<and> (\<forall>l. x \<notin> set (?Ls l))"
      unfolding mem using D(9,10) b by auto
    show "\<forall>l. set (?Ls l) \<subseteq> {..<USER_BLOCKS_PER_DIE c}" using D(2) bB(1) by auto
  qed (use lists D(3,5,7,8) in auto)
qed

text \<open>Choosing the victim: the head of the fullest list of invalid blocks.\<close>

definition gc_pop :: "nat \<Rightarrow> nat \<Rightarrow> addr_map \<Rightarrow> addr_map" where
  "gc_pop d k m =
     (let nx = nextBlock (block m d (headBlock (gcVictimList m d k))) in
      if nx \<noteq> BLOCK_NONE then
        upd_victims d k (\<lambda>r. r\<lparr>headBlock := nx\<rparr>) (upd_block d nx (\<lambda>r. r\<lparr>prevBlock := BLOCK_NONE\<rparr>) m)
      else upd_victims d k (\<lambda>r. r\<lparr>headBlock := BLOCK_NONE, tailBlock := BLOCK_NONE\<rparr>) m)"

interpretation gcpop: dlist_pop BLOCK_NONE "\<lambda>m. lview m d (LVictim k)" "gc_pop d k" for d k
  by unfold_locales (auto simp: lview_def gc_pop_def Let_def fun_eq_iff)

lemma GetFromGc_Suc:
  "GetFromGcVictimList_from d (Suc k) m =
     (if headBlock (gcVictimList m d (Suc k)) \<noteq> BLOCK_NONE
      then Some (gc_pop d (Suc k) m, headBlock (gcVictimList m d (Suc k)))
      else GetFromGcVictimList_from d k m)"
  by (simp add: gc_pop_def Let_def)

lemma gc_pop_fields [simp]:
  "invalidSliceCnt (block (gc_pop d k m) d' x) = invalidSliceCnt (block m d' x)"
  "currentPage (block (gc_pop d k m) d' x) = currentPage (block m d' x)"
  "die (gc_pop d k m) = die m" "logicalSlice (gc_pop d k m) = logicalSlice m"
  "virtualSlice (gc_pop d k m) = virtualSlice m"
  "sliceAllocationTargetDie (gc_pop d k m) = sliceAllocationTargetDie m"
  "targetCh (gc_pop d k m) = targetCh m" "targetWay (gc_pop d k m) = targetWay m"
  by (simp_all add: gc_pop_def Let_def)

lemma gc_pop_other:
  "d' \<noteq> d \<Longrightarrow> block (gc_pop d k m) d' = block m d'" "d' \<noteq> d \<Longrightarrow> gcVictimList (gc_pop d k m) d' = gcVictimList m d'"
  by (simp_all add: gc_pop_def Let_def)

text \<open>The search finds the largest count with a block, or stops the device.\<close>

lemma GetFromGc_from_cases:
  assumes "lists_ok c m d Ls" and "n \<le> SLICES_PER_BLOCK c"
  shows "(\<forall>k. 0 < k \<and> k \<le> n \<longrightarrow> Ls (LVictim k) = []) \<and> GetFromGcVictimList_from d n m = None \<or>
    (\<exists>k b xs. 0 < k \<and> k \<le> n \<and> Ls (LVictim k) = b # xs \<and> (\<forall>j. k < j \<and> j \<le> n \<longrightarrow> Ls (LVictim j) = []) \<and>
       GetFromGcVictimList_from d n m = Some (gc_pop d k m, b))"
  using assms(2)
proof (induction n)
  case 0
  then show ?case by auto
next
  case (Suc n)
  have head: "headBlock (gcVictimList m d (Suc n)) =
      (if Ls (LVictim (Suc n)) = [] then BLOCK_NONE else hd (Ls (LVictim (Suc n))))"
    using lists_ok_head [OF assms(1), of "LVictim (Suc n)"] Suc.prems by simp
  show ?case
  proof (cases "Ls (LVictim (Suc n))")
    case Nil
    then have "GetFromGcVictimList_from d (Suc n) m = GetFromGcVictimList_from d n m"
      using head by (simp add: GetFromGc_Suc del: GetFromGcVictimList_from.simps)
    then show ?thesis
      using Suc.IH Suc.prems Nil by (metis Suc_leD le_Suc_eq)
  next
    case (Cons b xs)
    then have "b \<noteq> BLOCK_NONE"
      using dll_no_sentinel [OF lists_ok_dll [OF assms(1), of "LVictim (Suc n)"]] Suc.prems by auto
    then show ?thesis
      using head Cons by (intro disjI2) (auto simp: GetFromGc_Suc simp del: GetFromGcVictimList_from.simps)
  qed
qed

lemma die_ok_gc_pop:
  assumes ok: "die_ok c m d Ls {}" and k: "Ls (LVictim k) = b # xs" "0 < k" "k \<le> SLICES_PER_BLOCK c"
  shows "die_ok c (gc_pop d k m) d (Ls(LVictim k := xs)) {b}" and "invalidSliceCnt (block m d b) = k"
proof -
  note D = die_okD [OF ok]
  let ?m = "gc_pop d k m" and ?Ls = "Ls(LVictim k := xs)"
  have heads: "lhead ?m d l' = lhead m d l' \<and> ltail ?m d l' = ltail m d l'" if "l' \<noteq> LVictim k" for l'
    using that by (cases l') (auto simp: gc_pop_def Let_def)
  have v: "valid_l c (LVictim k)" using k(3) by simp
  note pop = lists_ok_pop [OF D(1) v k(1) gcpop.view_pop heads]
  have b: "b < USER_BLOCKS_PER_DIE c" using D(2) [of b "LVictim k"] k(1) by simp
  show "invalidSliceCnt (block m d b) = k" using D(4) [OF b, of k] k(1) by simp
  have mem: "x \<in> set (?Ls l) \<longleftrightarrow> x \<in> set (Ls l)" if "x \<noteq> b" for x l using that k(1) by auto
  have dll: "dll BLOCK_NONE (lview m d (LVictim k)) (b # xs)" using lists_ok_dll [OF D(1) v] k(1) by simp
  have links: "prevBlock (block ?m d x) = prevBlock (block m d x) \<and> nextBlock (block ?m d x) = nextBlock (block m d x)"
    if "\<And>l. x \<notin> set (Ls l)" for x
  proof -
    have "agree_on {x} (lview m d (LVictim k)) (lview ?m d (LVictim k))"
      unfolding gcpop.view_pop using pop_links_agree [OF dll, of "{x}"] that [of "LVictim k"] k(1) by simp
    then show ?thesis by (simp add: lview_def)
  qed
  show "die_ok c ?m d ?Ls {b}"
    unfolding die_ok_def blocks_ok_def
  proof (intro conjI)
    show "\<forall>x<USER_BLOCKS_PER_DIE c. x \<notin> {b} \<longrightarrow>
        (\<forall>k'. (x \<in> set (?Ls (LVictim k'))) = (0 < k' \<and> invalidSliceCnt (block ?m d x) = k'))"
    proof (intro allI impI)
      fix x k' assume "x < USER_BLOCKS_PER_DIE c" "x \<notin> {b}"
      then show "(x \<in> set (?Ls (LVictim k'))) = (0 < k' \<and> invalidSliceCnt (block ?m d x) = k')"
        using D(4) [of x k'] mem [of x "LVictim k'"] by simp
    qed
    show "\<forall>x<USER_BLOCKS_PER_DIE c. x \<notin> {b} \<longrightarrow> (\<forall>l. x \<notin> set (?Ls l)) \<longrightarrow>
        prevBlock (block ?m d x) = BLOCK_NONE \<and> nextBlock (block ?m d x) = BLOCK_NONE"
      using D(6) mem links by simp
    show "\<forall>l. set (?Ls l) \<subseteq> {..<USER_BLOCKS_PER_DIE c}"
    proof
      fix l
      have "set (?Ls l) \<subseteq> set (Ls l)" using k(1) by auto
      then show "set (?Ls l) \<subseteq> {..<USER_BLOCKS_PER_DIE c}" using D(2) by blast
    qed
    show "\<forall>x\<in>{b}. x < USER_BLOCKS_PER_DIE c \<and> (\<forall>l. x \<notin> set (?Ls l))" using b pop(2) by simp
  qed (use pop(1) D(3,5,7,8) in auto)
qed

text \<open>Returning an erased block to the free list.\<close>

lemma PutToFb_fields [simp]:
  "invalidSliceCnt (block (PutToFbList d b m) d' x) = invalidSliceCnt (block m d' x)"
  "currentPage (block (PutToFbList d b m) d' x) = currentPage (block m d' x)"
  "currentBlock (die (PutToFbList d b m) d') = currentBlock (die m d')"
  "freeBlockCnt (die (PutToFbList d b m) d) = u16 (freeBlockCnt (die m d) + 1)"
  "gcVictimList (PutToFbList d b m) = gcVictimList m"
  "logicalSlice (PutToFbList d b m) = logicalSlice m" "virtualSlice (PutToFbList d b m) = virtualSlice m"
  "sliceAllocationTargetDie (PutToFbList d b m) = sliceAllocationTargetDie m"
  "targetCh (PutToFbList d b m) = targetCh m" "targetWay (PutToFbList d b m) = targetWay m"
  by (simp_all add: PutToFbList_def Let_def)

lemma PutToFb_other:
  "d' \<noteq> d \<Longrightarrow> block (PutToFbList d b m) d' = block m d'" "d' \<noteq> d \<Longrightarrow> die (PutToFbList d b m) d' = die m d'"
  by (simp_all add: PutToFbList_def Let_def)

text \<open>A block under handling is put back on the free list, its entry reset.\<close>

lemma blocks_ok_put_free:
  assumes wf: "wf_config c" and ok: "blocks_ok c m d Ls hand" and hand: "b \<in> hand"
    and f: "\<And>r. invalidSliceCnt (f r) = 0 \<and> currentPage (f r) = 0"
  shows "blocks_ok c (PutToFbList d b (upd_block d b f m)) d (Ls(LFree := Ls LFree @ [b])) (hand - {b})"
proof -
  note D = blocks_okD [OF ok]
  let ?m1 = "upd_block d b f m"
  let ?m = "PutToFbList d b ?m1" and ?Ls = "Ls(LFree := Ls LFree @ [b])"
  have b: "b < USER_BLOCKS_PER_DIE c" "\<And>l. b \<notin> set (Ls l)" using D(7,8) hand by auto
  have l1: "lists_ok c ?m1 d Ls" by (rule lists_ok_clear_links [OF D(1) b(2)])
  have lists: "lists_ok c ?m d ?Ls" by (rule PutToFbList_ok [OF l1 b(2) block_not_NONE [OF wf b(1)]])
  have dll: "dll BLOCK_NONE (lview ?m1 d LFree) (Ls LFree)" using lists_ok_dll [OF l1] by simp
  have links: "prevBlock (block ?m d x) = prevBlock (block m d x) \<and> nextBlock (block ?m d x) = nextBlock (block m d x)"
    if "x \<noteq> b" "x \<notin> set (Ls LFree)" for x
  proof -
    have "agree_on {x} (lview ?m1 d LFree) (lview ?m d LFree)"
      unfolding fblist.view_put using put_links_agree [OF dll, of b "{x}"] that by simp
    then show ?thesis using that(1) by (simp add: lview_def)
  qed
  have "u16 (length (Ls LFree) + 1) = length (Ls LFree) + 1" using free_list_short [OF wf ok] by simp
  then have cnt: "freeBlockCnt (die ?m d) = length (?Ls LFree)" using D(3) by simp
  have flds: "invalidSliceCnt (block ?m d x) = (if x = b then 0 else invalidSliceCnt (block m d x))"
    "currentPage (block ?m d x) = (if x = b then 0 else currentPage (block m d x))" for x
    using f by simp_all
  show ?thesis
    unfolding blocks_ok_def
  proof (intro conjI)
    show "\<forall>x<USER_BLOCKS_PER_DIE c. x \<notin> hand - {b} \<longrightarrow>
        (\<forall>k'. (x \<in> set (?Ls (LVictim k'))) = (0 < k' \<and> invalidSliceCnt (block ?m d x) = k'))"
      using D(4) b(2) by (auto simp: flds f)
    show "\<forall>x<USER_BLOCKS_PER_DIE c. x \<notin> hand - {b} \<longrightarrow> (\<forall>l. x \<notin> set (?Ls l)) \<longrightarrow>
        prevBlock (block ?m d x) = BLOCK_NONE \<and> nextBlock (block ?m d x) = BLOCK_NONE"
    proof (intro allI impI)
      fix x assume x: "x < USER_BLOCKS_PER_DIE c" "x \<notin> hand - {b}" "\<forall>l. x \<notin> set (?Ls l)"
      then have no: "x \<noteq> b" "x \<notin> set (Ls l)" for l
        using x(3) [rule_format, of LFree] x(3) [rule_format, of l] by (cases "l = LFree"; simp)+
      show "prevBlock (block ?m d x) = BLOCK_NONE \<and> nextBlock (block ?m d x) = BLOCK_NONE"
        using D(6) [of x] links [of x] no x(1,2) by simp
    qed
  qed (use lists cnt D(2,5,7,8) b in \<open>auto simp: flds f\<close>)
qed

definition erase_entry :: "nat \<Rightarrow> nat \<Rightarrow> addr_map \<Rightarrow> addr_map" where
  "erase_entry d b m =
     PutToFbList d b (upd_block d b (\<lambda>r. r\<lparr>free := True, eraseCnt := u16 (eraseCnt r + 1),
                                          invalidSliceCnt := 0, currentPage := 0\<rparr>) m)"

lemma EraseBlock_map_eq:
  "EraseBlock_map c d b m = (erase_entry d b m)
     \<lparr>virtualSlice := (\<lambda>x. if x \<in> Vorg2VsaTranslation c d b ` {..<USER_PAGES_PER_BLOCK c} then LSA_NONE
                        else virtualSlice m x)\<rparr>"
  by (simp add: EraseBlock_map_def erase_entry_def fold_unmap_pages atLeast0LessThan Let_def
      cong: if_cong)

lemma die_ok_erase:
  assumes wf: "wf_config c" and ok: "die_ok c m d Ls {b}" and cur: "b \<noteq> currentBlock (die m d)"
  shows "die_ok c (erase_entry d b m) d (Ls(LFree := Ls LFree @ [b])) {}"
  using blocks_ok_put_free [OF wf die_ok_blocks [OF ok], of b
      "\<lambda>r. r\<lparr>free := True, eraseCnt := u16 (eraseCnt r + 1), invalidSliceCnt := 0, currentPage := 0\<rparr>"]
    die_okD(7,8) [OF ok] cur
  by (simp add: die_ok_def erase_entry_def)

section \<open>The invariant of the tables\<close>

definition ftl_inv ::
  "'a ftl_config_scheme \<Rightarrow> addr_map \<Rightarrow> (nat \<Rightarrow> block_list \<Rightarrow> nat list) \<Rightarrow> (nat \<Rightarrow> nat set) \<Rightarrow> bool" where
  "ftl_inv c m Ls hand \<longleftrightarrow> (\<forall>d < USER_DIES c. die_ok c m d (Ls d) (hand d)) \<and> map_ok c m hand"

abbreviation no_hand :: "nat \<Rightarrow> nat set" where
  "no_hand \<equiv> \<lambda>_. {}"

lemma no_hand_upd [simp]: "no_hand(d := {}) = no_hand"
  by (simp add: fun_eq_iff)

lemma ftl_invD:
  assumes "ftl_inv c m Ls hand"
  shows "d < USER_DIES c \<Longrightarrow> die_ok c m d (Ls d) (hand d)" and "map_ok c m hand"
  using assms by (simp_all add: ftl_inv_def)

text \<open>A step inside one die.\<close>

lemma ftl_inv_die_step:
  assumes "ftl_inv c m Ls hand" and "die_ok c m' d ls h" and "map_ok c m' (hand(d := h))"
    and "\<And>d'. d' \<noteq> d \<Longrightarrow> block m' d' = block m d'" and "\<And>d'. d' \<noteq> d \<Longrightarrow> die m' d' = die m d'"
    and "\<And>d'. d' \<noteq> d \<Longrightarrow> gcVictimList m' d' = gcVictimList m d'"
  shows "ftl_inv c m' (Ls(d := ls)) (hand(d := h))"
proof -
  have "die_ok c m' d' (Ls d') (hand d')" if "d' < USER_DIES c" "d' \<noteq> d" for d'
    using die_ok_other [OF ftl_invD(1) [OF assms(1) that(1)]] assms(4-6) [OF that(2)] by blast
  then show ?thesis using assms(2,3) by (simp add: ftl_inv_def)
qed

subsection \<open>Invalidation\<close>

lemma InvalidateOldVsa_unmapped: "logicalSlice m l = VSA_NONE \<Longrightarrow> InvalidateOldVsa c l m = m"
  by (simp add: InvalidateOldVsa_def)

lemma InvalidateOldVsa_mapped:
  assumes "logicalSlice m l \<noteq> VSA_NONE" and "virtualSlice m (logicalSlice m l) = l"
    and "d = Vsa2VdieTranslation c (logicalSlice m l)" and "b = Vsa2VblockTranslation c (logicalSlice m l)"
  shows "InvalidateOldVsa c l m =
    PutToGcVictimList d b (invalidSliceCnt (block (bump_invalid d b m) d b))
      ((bump_invalid d b m)\<lparr>logicalSlice := (logicalSlice m)(l := VSA_NONE)\<rparr>)"
  using assms by (simp add: InvalidateOldVsa_def bump_invalid_def Let_def)

lemma InvalidateOldVsa_inv:
  assumes wf: "wf_config c" and inv: "ftl_inv c m Ls no_hand" and l: "l < SLICES_PER_SSD c"
  shows "\<exists>Ls'. ftl_inv c (InvalidateOldVsa c l m) Ls' no_hand \<and> (\<forall>d. Ls' d LFree = Ls d LFree) \<and>
    logicalSlice (InvalidateOldVsa c l m) = (logicalSlice m)(l := VSA_NONE) \<and>
    virtualSlice (InvalidateOldVsa c l m) = virtualSlice m \<and>
    die (InvalidateOldVsa c l m) = die m \<and>
    (\<forall>d b. currentPage (block (InvalidateOldVsa c l m) d b) = currentPage (block m d b)) \<and>
    sliceAllocationTargetDie (InvalidateOldVsa c l m) = sliceAllocationTargetDie m \<and>
    targetCh (InvalidateOldVsa c l m) = targetCh m \<and> targetWay (InvalidateOldVsa c l m) = targetWay m"
proof (cases "logicalSlice m l = VSA_NONE")
  case True
  then have "InvalidateOldVsa c l m = m" "(logicalSlice m)(l := VSA_NONE) = logicalSlice m"
    by (auto simp: InvalidateOldVsa_unmapped)
  then show ?thesis using inv by metis
next
  case False
  note M = ftl_invD(2) [OF inv]
  let ?v = "logicalSlice m l"
  define d where "d = Vsa2VdieTranslation c ?v"
  define b where "b = Vsa2VblockTranslation c ?v"
  define pg where "pg = Vsa2VpageTranslation c ?v"
  define k where "k = invalidSliceCnt (block m d b)"
  let ?m1 = "(bump_invalid d b m)\<lparr>logicalSlice := (logicalSlice m)(l := VSA_NONE)\<rparr>"
  let ?m = "PutToGcVictimList d b (Suc k) ?m1"
  have v: "?v < SLICES_PER_SSD c" "virtualSlice m ?v = l" using map_okD(1,2) [OF M l False] .
  have vo: "vorg_ok c d b pg" "?v = Vorg2VsaTranslation c d b pg"
    using Vsa_parts_ok [OF wf v(1)] Vsa_roundtrip [OF wf v(1)] by (simp_all add: d_def b_def pg_def)
  have db: "d < USER_DIES c" "b < USER_BLOCKS_PER_DIE c" using vo(1) by (simp_all add: vorg_ok_def)
  note D = ftl_invD(1) [OF inv db(1)]
  have valid: "page_valid m (Vorg2VsaTranslation c d b pg)" using page_valid_mapped [OF M wf l False] vo(2) by simp
  have pg: "pg < currentPage (block m d b)" using page_valid_written [OF M vo(1) valid] .
  have "card (inv_pages c m d b) < currentPage (block m d b)"
  proof -
    have "inv_pages c m d b \<subset> {..<currentPage (block m d b)}" using valid pg by (auto simp: inv_pages_def)
    then show ?thesis using psubset_card_mono [of "{..<currentPage (block m d b)}"] by simp
  qed
  then have k: "k < USER_PAGES_PER_BLOCK c"
    using map_okD(5,6) [OF M db] by (simp add: k_def)
  have bumped: "invalidSliceCnt (block (bump_invalid d b m) d b) = Suc k"
    using k USER_PAGES_PER_BLOCK_values [OF wf] by (auto simp: bump_invalid_def k_def)
  have nf: "b \<notin> set (Ls d LFree)" using die_okD(5) [OF D] pg by fastforce
  define ls where "ls = (Ls d)(LVictim k := remove1 b (Ls d (LVictim k)))"
  have d1: "die_ok c (bump_invalid d b m) d ls {b}"
    unfolding ls_def using die_ok_unlink [OF wf D db(2) _ nf] k by (simp add: k_def)
  then have "die_ok c ?m1 d ls (insert b {})" by (rule die_ok_other) simp_all
  then have d2: "die_ok c ?m d (ls(LVictim (Suc k) := ls (LVictim (Suc k)) @ [b])) {}"
    by (rule die_ok_put_victim [OF wf]) (use k bumped in simp_all)
  have m2: "map_ok c ?m no_hand"
    by (rule map_ok_invalidate [OF wf M l vo(2,1)]) (use bumped in \<open>auto simp: k_def bump_invalid_def\<close>)
  have eq: "InvalidateOldVsa c l m = ?m"
    using InvalidateOldVsa_mapped [OF False v(2) d_def b_def] bumped by simp
  have "ftl_inv c ?m (Ls(d := ls(LVictim (Suc k) := ls (LVictim (Suc k)) @ [b]))) (no_hand(d := {}))"
    by (rule ftl_inv_die_step [OF inv d2])
      (use m2 in \<open>simp_all add: PutToGc_other bump_invalid_def SelectiveGet_other\<close>)
  then show ?thesis
    unfolding eq by (intro exI [of _ "Ls(d := ls(LVictim (Suc k) := ls (LVictim (Suc k)) @ [b]))"])
      (simp add: ls_def bump_invalid_def)
qed

subsection \<open>Fresh pages\<close>

lemma ftl_inv_take_current:
  assumes wf: "wf_config c" and inv: "ftl_inv c m Ls hand" and d: "d < USER_DIES c"
    and F: "Ls d LFree = b # xs"
  shows "ftl_inv c (take_current d b m) (Ls(d := (Ls d)(LFree := xs))) hand"
    and "b < USER_BLOCKS_PER_DIE c" and "b \<notin> hand d" and "currentPage (block m d b) = 0"
proof -
  note D = ftl_invD(1) [OF inv d]
  have "map_ok c (take_current d b m) (hand(d := hand d))"
    by (rule map_ok_cong [OF ftl_invD(2) [OF inv]]) simp_all
  then have "ftl_inv c (take_current d b m) (Ls(d := (Ls d)(LFree := xs))) (hand(d := hand d))"
    by (intro ftl_inv_die_step [OF inv die_ok_take_current [OF wf die_ok_blocks [OF D] F]]) (simp_all add: take_current_other)
  then show "ftl_inv c (take_current d b m) (Ls(d := (Ls d)(LFree := xs))) hand" by simp
  show "b < USER_BLOCKS_PER_DIE c" "b \<notin> hand d" "currentPage (block m d b) = 0"
    using die_okD(2) [OF D, of b LFree] die_okD(5) [OF D, of b] die_okD(10) [OF D, of b LFree] F by auto
qed

lemma ftl_inv_place:
  assumes wf: "wf_config c" and inv: "ftl_inv c m Ls hand" and l: "l < SLICES_PER_SSD c"
    and p: "vorg_ok c d b (currentPage (block m d b))" and nf: "b \<notin> set (Ls d LFree)"
    and away: "logicalSlice m l \<noteq> VSA_NONE \<Longrightarrow>
      Vsa2VblockTranslation c (logicalSlice m l) \<in> hand (Vsa2VdieTranslation c (logicalSlice m l))"
  shows "ftl_inv c (place_slice c l d b m) Ls hand"
proof -
  have d: "d < USER_DIES c" using p by (simp add: vorg_ok_def)
  have "die_ok c (place_slice c l d b m) d (Ls d) (hand d)"
    by (rule die_ok_page [OF ftl_invD(1) [OF inv d] nf]) simp_all
  moreover have "map_ok c (place_slice c l d b m) (hand(d := hand d))"
    using map_ok_place [OF wf ftl_invD(2) [OF inv] p l away] by simp
  ultimately have "ftl_inv c (place_slice c l d b m) (Ls(d := Ls d)) (hand(d := hand d))"
    by (intro ftl_inv_die_step [OF inv]) simp_all
  then show ?thesis by simp
qed

subsection \<open>Copying one page of the victim\<close>

text \<open>The pages that garbage collection can still fill in a die without the victim itself.\<close>

definition gc_room :: "'a ftl_config_scheme \<Rightarrow> nat \<Rightarrow> nat \<Rightarrow> addr_map \<Rightarrow> nat \<Rightarrow> nat" where
  "gc_room c d victim m frees =
     (if currentBlock (die m d) = victim then 0
      else USER_PAGES_PER_BLOCK c - currentPage (block m d (currentBlock (die m d)))) +
     USER_PAGES_PER_BLOCK c * frees"

lemma FindForGc_ready:
  assumes "victim \<noteq> currentBlock (die m d)"
    and "currentPage (block m d (currentBlock (die m d))) < USER_PAGES_PER_BLOCK c"
  shows "FindFreeVirtualSliceForGc c d victim m = Some (take_page c d (currentBlock (die m d)) m)"
  using assms by (simp add: FindFreeVirtualSliceForGc_def)

lemma FindForGc_new_block:
  assumes wf: "wf_config c" and ok: "die_ok c m d ls hand" and F: "ls LFree = b # xs"
    and need: "victim = currentBlock (die m d) \<or>
      currentPage (block m d (currentBlock (die m d))) = USER_PAGES_PER_BLOCK c"
  shows "FindFreeVirtualSliceForGc c d victim m = Some (take_page c d b (take_current d b m))"
proof -
  have head: "headFreeBlock (die m d) = b" using lists_ok_head [OF die_okD(1) [OF ok], of LFree] F by simp
  have b: "b \<noteq> BLOCK_NONE" using block_not_NONE [OF wf die_okD(2) [OF ok, of b LFree]] F by simp
  have get: "GetFromFbList d GET_FREE_BLOCK_GC m = (fb_take d b m, b)"
    using head b by (simp add: GetFromFbList_eq Let_def)
  have "currentPage (block m d b) = 0" using die_okD(5) [OF ok, of b] F by simp
  then show ?thesis
    using need get b USER_PAGES_PER_BLOCK_pos [OF wf]
    by (cases "victim = currentBlock (die m d)")
      (simp_all add: FindFreeVirtualSliceForGc_def take_current_def [symmetric])
qed

lemma gc_copy_step:
  assumes wf: "wf_config c" and inv: "ftl_inv c m Ls (no_hand(d := {victim}))" and d: "d < USER_DIES c"
    and pg: "pg < USER_PAGES_PER_BLOCK c" and valid: "page_valid m (Vorg2VsaTranslation c d victim pg)"
    and room: "0 < gc_room c d victim m (length (Ls d LFree))"
  defines "l \<equiv> virtualSlice m (Vorg2VsaTranslation c d victim pg)"
  shows "\<exists>m' ls b. gc_copy_map c d victim pg m = Some (place_slice c l d b m') \<and>
    ftl_inv c (place_slice c l d b m') (Ls(d := ls)) (no_hand(d := {victim})) \<and>
    currentBlock (die (place_slice c l d b m') d) = b \<and> b \<noteq> victim \<and> vorg_ok c d b (currentPage (block m' d b)) \<and>
    logicalSlice m' = logicalSlice m \<and> virtualSlice m' = virtualSlice m \<and>
    gc_room c d victim (place_slice c l d b m') (length (ls LFree)) + 1 = gc_room c d victim m (length (Ls d LFree)) \<and>
    targetCh m' = targetCh m \<and> targetWay m' = targetWay m \<and> sliceAllocationTargetDie m' = sliceAllocationTargetDie m"
proof -
  let ?hand = "no_hand(d := {victim})" and ?cur = "currentBlock (die m d)" and ?v = "Vorg2VsaTranslation c d victim pg"
  note D = ftl_invD(1) [OF inv d, simplified] and M = ftl_invD(2) [OF inv]
  have victim: "victim < USER_BLOCKS_PER_DIE c" using die_okD(9) [OF D] by simp
  have v: "vorg_ok c d victim pg" using d pg victim by (simp add: vorg_ok_def)
  have l: "l < SLICES_PER_SSD c" "logicalSlice m l = ?v"
    using map_okD(4) [OF M Vorg2Vsa_parts(1) [OF wf v]] valid by (auto simp: l_def page_valid_def)
  have away: "Vsa2VblockTranslation c (logicalSlice m l) \<in> ?hand (Vsa2VdieTranslation c (logicalSlice m l))"
    using block_of_page [OF wf v] l(2) by simp
  have curle: "currentPage (block m d ?cur) \<le> USER_PAGES_PER_BLOCK c"
    using map_okD(5) [OF M d die_okD(7) [OF D]] .
  have copy: "gc_copy_map c d victim pg m = Some (place_slice c l d b m')"
    if "FindFreeVirtualSliceForGc c d victim m = Some (take_page c d b m')" for b m'
    using valid that by (simp add: gc_copy_map_def Let_def place_slice_def take_page_def l_def)
  show ?thesis
  proof (cases "victim = ?cur \<or> currentPage (block m d ?cur) = USER_PAGES_PER_BLOCK c")
    case False
    then have lt: "currentPage (block m d ?cur) < USER_PAGES_PER_BLOCK c" "victim \<noteq> ?cur" using curle by auto
    have p: "vorg_ok c d ?cur (currentPage (block m d ?cur))" using d lt die_okD(7) [OF D] by (simp add: vorg_ok_def)
    have "ftl_inv c (place_slice c l d ?cur m) (Ls(d := Ls d)) ?hand"
      unfolding fun_upd_triv by (rule ftl_inv_place [OF wf inv l(1) p die_okD(8) [OF D]]) (rule away)
    moreover have "gc_room c d victim (place_slice c l d ?cur m) (length (Ls d LFree)) + 1 =
        gc_room c d victim m (length (Ls d LFree))"
      using lt currentPage_Suc [OF wf p] by (simp add: gc_room_def)
    ultimately show ?thesis
      using copy [OF FindForGc_ready [OF lt(2,1)]] lt(2) p
      by (intro exI [of _ m] exI [of _ "Ls d"] exI [of _ ?cur]) simp
  next
    case True
    then have "0 < length (Ls d LFree)" using room by (auto simp: gc_room_def split: if_splits)
    then obtain b xs where F: "Ls d LFree = b # xs" by (cases "Ls d LFree") auto
    note T = ftl_inv_take_current [OF wf inv d F]
    let ?m = "take_current d b m" and ?ls = "(Ls d)(LFree := xs)"
    have p: "vorg_ok c d b (currentPage (block ?m d b))"
      using d T(2,4) USER_PAGES_PER_BLOCK_pos [OF wf] by (simp add: vorg_ok_def)
    have nf: "b \<notin> set ((Ls(d := ?ls)) d LFree)"
      using die_okD(8) [OF ftl_invD(1) [OF T(1) d]] by simp
    have "ftl_inv c (place_slice c l d b ?m) (Ls(d := ?ls)) ?hand"
      by (rule ftl_inv_place [OF wf T(1) l(1) p nf]) (use away in simp)
    moreover have "gc_room c d victim (place_slice c l d b ?m) (length (?ls LFree)) + 1 =
        gc_room c d victim m (length (Ls d LFree))"
      using True T(3,4) F currentPage_Suc [OF wf p] USER_PAGES_PER_BLOCK_pos [OF wf]
      by (auto simp: gc_room_def)
    ultimately show ?thesis
      using copy [OF FindForGc_new_block [OF wf D F True]] T(3) p
      by (intro exI [of _ ?m] exI [of _ ?ls] exI [of _ b]) simp
  qed
qed

definition valid_pages :: "'a ftl_config_scheme \<Rightarrow> nat \<Rightarrow> nat \<Rightarrow> addr_map \<Rightarrow> nat list \<Rightarrow> nat" where
  "valid_pages c d b m pgs = length (filter (\<lambda>pg. page_valid m (Vorg2VsaTranslation c d b pg)) pgs)"

text \<open>
  What the copy loop achieves over a list of pages: it returns when there is room for the valid
  ones, the pages it went over are no longer valid, no slice loses its mapping, and each copy uses up one page of the
  room.
\<close>

definition gc_progress ::
  "'a ftl_config_scheme \<Rightarrow> nat \<Rightarrow> nat \<Rightarrow> nat list \<Rightarrow> addr_map \<Rightarrow> nat \<Rightarrow> addr_map \<Rightarrow> nat \<Rightarrow> bool" where
  "gc_progress c d victim pgs m frees m' frees' \<longleftrightarrow>
     (\<forall>pg < USER_PAGES_PER_BLOCK c. page_valid m' (Vorg2VsaTranslation c d victim pg) \<longleftrightarrow>
        page_valid m (Vorg2VsaTranslation c d victim pg) \<and> pg \<notin> set pgs) \<and>
     gc_room c d victim m' frees' + valid_pages c d victim m pgs = gc_room c d victim m frees \<and>
     (valid_pages c d victim m pgs = 0 \<longrightarrow> m' = m) \<and>
     (0 < valid_pages c d victim m pgs \<or> currentBlock (die m d) \<noteq> victim \<longrightarrow> currentBlock (die m' d) \<noteq> victim) \<and>
     (\<forall>l < SLICES_PER_SSD c. logicalSlice m' l = VSA_NONE \<longleftrightarrow> logicalSlice m l = VSA_NONE) \<and>
     targetCh m' = targetCh m \<and> targetWay m' = targetWay m \<and> sliceAllocationTargetDie m' = sliceAllocationTargetDie m"

lemma gc_progressD:
  assumes "gc_progress c d victim pgs m frees m' frees'"
  shows "pg < USER_PAGES_PER_BLOCK c \<Longrightarrow> page_valid m' (Vorg2VsaTranslation c d victim pg) \<Longrightarrow> pg \<notin> set pgs"
    and "gc_room c d victim m' frees' + valid_pages c d victim m pgs = gc_room c d victim m frees"
    and "0 < valid_pages c d victim m pgs \<or> currentBlock (die m d) \<noteq> victim \<Longrightarrow> currentBlock (die m' d) \<noteq> victim"
    and "l < SLICES_PER_SSD c \<Longrightarrow> logicalSlice m' l = VSA_NONE \<longleftrightarrow> logicalSlice m l = VSA_NONE"
    and "targetCh m' = targetCh m" and "targetWay m' = targetWay m"
    and "sliceAllocationTargetDie m' = sliceAllocationTargetDie m"
  using assms unfolding gc_progress_def by blast+

lemma gc_copy_valid:
  assumes wf: "wf_config c" and p: "vorg_ok c d b (currentPage (block m' d b))" and b: "b \<noteq> victim"
    and m': "logicalSlice m' = logicalSlice m" "virtualSlice m' = virtualSlice m"
    and v: "vorg_ok c d victim pg" "page_valid m (Vorg2VsaTranslation c d victim pg)" and pg': "pg' < USER_PAGES_PER_BLOCK c"
  shows "page_valid (place_slice c (virtualSlice m (Vorg2VsaTranslation c d victim pg)) d b m')
      (Vorg2VsaTranslation c d victim pg') \<longleftrightarrow> page_valid m (Vorg2VsaTranslation c d victim pg') \<and> pg' \<noteq> pg"
proof -
  let ?x = "Vorg2VsaTranslation c d victim pg" and ?y = "Vorg2VsaTranslation c d victim pg'"
  have v': "vorg_ok c d victim pg'" using v(1) pg' by (simp add: vorg_ok_def)
  have "virtualSlice m ?x \<noteq> LSA_NONE" using v(2) by (simp add: page_valid_def)
  moreover have "?y \<noteq> Vorg2VsaTranslation c d b (currentPage (block m' d b))"
    using Vorg2Vsa_inj [OF wf v' p] b by auto
  moreover have "page_valid m' ?y = page_valid m ?y" using m' by (simp add: page_valid_def)
  moreover have "page_valid m ?y \<Longrightarrow> virtualSlice m ?y = virtualSlice m ?x \<longleftrightarrow> pg' = pg"
    using page_valid_unique [OF _ v(2)] Vorg2Vsa_inj [OF wf v' v(1)] by auto
  ultimately show ?thesis by (auto simp: page_valid_place m'(2))
qed

lemma gc_copy_one:
  assumes wf: "wf_config c" and inv: "ftl_inv c m Ls (no_hand(d := {victim}))" and d: "d < USER_DIES c"
    and pg: "pg < USER_PAGES_PER_BLOCK c" and room: "valid_pages c d victim m [pg] \<le> gc_room c d victim m (length (Ls d LFree))"
  shows "\<exists>m' ls. gc_copy_map c d victim pg m = Some m' \<and> ftl_inv c m' (Ls(d := ls)) (no_hand(d := {victim})) \<and>
    gc_progress c d victim [pg] m (length (Ls d LFree)) m' (length (ls LFree))"
proof (cases "page_valid m (Vorg2VsaTranslation c d victim pg)")
  case False
  then have "gc_progress c d victim [pg] m (length (Ls d LFree)) m (length (Ls d LFree))"
    by (auto simp: gc_progress_def valid_pages_def)
  moreover have "gc_copy_map c d victim pg m = Some m" using False by (simp add: gc_copy_map_def Let_def)
  ultimately show ?thesis using inv by (intro exI [of _ m] exI [of _ "Ls d"]) simp
next
  case True
  let ?l = "virtualSlice m (Vorg2VsaTranslation c d victim pg)"
  have v: "vorg_ok c d victim pg" using die_okD(9) [OF ftl_invD(1) [OF inv d], of victim] d pg by (simp add: vorg_ok_def)
  obtain m1 ls1 b where copy: "gc_copy_map c d victim pg m = Some (place_slice c ?l d b m1)"
    and inv1: "ftl_inv c (place_slice c ?l d b m1) (Ls(d := ls1)) (no_hand(d := {victim}))"
    and b: "currentBlock (die (place_slice c ?l d b m1) d) = b" "b \<noteq> victim" "vorg_ok c d b (currentPage (block m1 d b))"
    and same: "logicalSlice m1 = logicalSlice m" "virtualSlice m1 = virtualSlice m"
    and room1: "gc_room c d victim (place_slice c ?l d b m1) (length (ls1 LFree)) + 1 = gc_room c d victim m (length (Ls d LFree))"
    and tgt: "targetCh m1 = targetCh m" "targetWay m1 = targetWay m" "sliceAllocationTargetDie m1 = sliceAllocationTargetDie m"
    using gc_copy_step [OF wf inv d pg True] room True by (fastforce simp: valid_pages_def)
  have "logicalSlice (place_slice c ?l d b m1) l = VSA_NONE \<longleftrightarrow> logicalSlice m l = VSA_NONE" for l
    using same(1) Vorg2Vsa_not_NONE [OF wf b(3)] Vorg2Vsa_not_NONE [OF wf v] True by (auto simp: page_valid_def)
  then have "gc_progress c d victim [pg] m (length (Ls d LFree)) (place_slice c ?l d b m1) (length (ls1 LFree))"
    using gc_copy_valid [OF wf b(3,2) same v True] True room1 b(1,2) tgt by (simp add: gc_progress_def valid_pages_def)
  then show ?thesis using copy inv1 by blast
qed

lemma gc_progress_valid:
  assumes "gc_progress c d victim [pg] m F m1 F1" and "pg \<notin> set pgs" and "set pgs \<subseteq> {..<USER_PAGES_PER_BLOCK c}"
  shows "valid_pages c d victim m1 pgs = valid_pages c d victim m pgs"
  using assms unfolding valid_pages_def gc_progress_def by (intro arg_cong [of _ _ length] filter_cong) auto

lemma gc_progress_Cons:
  assumes one: "gc_progress c d victim [pg] m F m1 F1" and rest: "gc_progress c d victim pgs m1 F1 m2 F2"
    and pgs: "pg \<notin> set pgs" "set pgs \<subseteq> {..<USER_PAGES_PER_BLOCK c}"
  shows "gc_progress c d victim (pg # pgs) m F m2 F2"
proof -
  have "valid_pages c d victim m (pg # pgs) = valid_pages c d victim m [pg] + valid_pages c d victim m pgs"
    by (simp add: valid_pages_def)
  then show ?thesis using one rest gc_progress_valid [OF one pgs] unfolding gc_progress_def by auto
qed

lemma gc_copy_loop:
  assumes wf: "wf_config c" and d: "d < USER_DIES c"
    and inv: "ftl_inv c m Ls (no_hand(d := {victim}))"
    and pgs: "distinct pgs" "set pgs \<subseteq> {..<USER_PAGES_PER_BLOCK c}"
    and room: "valid_pages c d victim m pgs \<le> gc_room c d victim m (length (Ls d LFree))"
  shows "\<exists>m' ls. ofold (gc_copy_map c d victim) pgs m = Some m' \<and>
    ftl_inv c m' (Ls(d := ls)) (no_hand(d := {victim})) \<and>
    gc_progress c d victim pgs m (length (Ls d LFree)) m' (length (ls LFree))"
  using inv pgs room
proof (induction pgs arbitrary: m Ls)
  case Nil
  then show ?case
    by (intro exI [of _ m] exI [of _ "Ls d"]) (simp add: gc_progress_def valid_pages_def)
next
  case (Cons pg pgs)
  have vp: "valid_pages c d victim m (pg # pgs) = valid_pages c d victim m [pg] + valid_pages c d victim m pgs"
    by (simp add: valid_pages_def)
  have pg: "pg < USER_PAGES_PER_BLOCK c" "pg \<notin> set pgs" "distinct pgs" "set pgs \<subseteq> {..<USER_PAGES_PER_BLOCK c}" using Cons.prems by auto
  have "valid_pages c d victim m [pg] \<le> gc_room c d victim m (length (Ls d LFree))" using Cons.prems(4) unfolding vp by linarith
  then obtain m1 ls1 where m1: "gc_copy_map c d victim pg m = Some m1" "ftl_inv c m1 (Ls(d := ls1)) (no_hand(d := {victim}))"
    "gc_progress c d victim [pg] m (length (Ls d LFree)) m1 (length (ls1 LFree))"
    using gc_copy_one [OF wf Cons.prems(1) d pg(1)] by blast
  have "gc_room c d victim m1 (length (ls1 LFree)) + valid_pages c d victim m [pg] = gc_room c d victim m (length (Ls d LFree))"
    using m1(3) by (simp add: gc_progress_def)
  then have "valid_pages c d victim m1 pgs \<le> gc_room c d victim m1 (length (ls1 LFree))"
    using Cons.prems(4) vp gc_progress_valid [OF m1(3) pg(2,4)] by simp
  then obtain m2 ls where m2: "ofold (gc_copy_map c d victim) pgs m1 = Some m2"
    "ftl_inv c m2 ((Ls(d := ls1))(d := ls)) (no_hand(d := {victim}))"
    "gc_progress c d victim pgs m1 (length (ls1 LFree)) m2 (length (ls LFree))"
    using Cons.IH [OF m1(2) pg(3,4), unfolded fun_upd_same] by blast
  have "ofold (gc_copy_map c d victim) (pg # pgs) m = Some m2" using m1(1) m2(1) by simp
  then show ?case using m2(2) gc_progress_Cons [OF m1(3) m2(3) pg(2,4)] unfolding fun_upd_upd by blast
qed

subsection \<open>A collection\<close>

lemma valid_pages_card:
  "valid_pages c d b m [0..<n] = card {pg. pg < n \<and> page_valid m (Vorg2VsaTranslation c d b pg)}"
proof -
  have "distinct (filter (\<lambda>pg. page_valid m (Vorg2VsaTranslation c d b pg)) [0..<n])" by simp
  from distinct_card [OF this] show ?thesis by (simp add: valid_pages_def)
qed

lemma valid_and_invalid_pages:
  assumes "map_ok c m hand" and "d < USER_DIES c" and "b < USER_BLOCKS_PER_DIE c"
  shows "valid_pages c d b m [0..<USER_PAGES_PER_BLOCK c] + card (inv_pages c m d b) = currentPage (block m d b)"
proof -
  let ?n = "USER_PAGES_PER_BLOCK c" and ?cp = "currentPage (block m d b)"
  let ?V = "{pg. pg < ?n \<and> page_valid m (Vorg2VsaTranslation c d b pg)}"
  have le: "?cp \<le> ?n" using map_okD(5) [OF assms] .
  have "vorg_ok c d b pg" if "pg < ?n" for pg using assms(2,3) that by (simp add: vorg_ok_def)
  then have "?V \<union> inv_pages c m d b = {..<?cp}"
    using page_valid_written [OF assms(1)] le by (fastforce simp: inv_pages_def)
  moreover have "?V \<inter> inv_pages c m d b = {}" by (auto simp: inv_pages_def)
  ultimately show ?thesis
    using card_Un_disjoint [of ?V "inv_pages c m d b"] by (simp add: valid_pages_card)
qed

lemma erase_entry_fields [simp]:
  "logicalSlice (erase_entry d b m) = logicalSlice m"
  "currentBlock (die (erase_entry d b m) d') = currentBlock (die m d')"
  "currentPage (block (erase_entry d b m) d' x) = (if d' = d \<and> x = b then 0 else currentPage (block m d' x))"
  "invalidSliceCnt (block (erase_entry d b m) d' x) = (if d' = d \<and> x = b then 0 else invalidSliceCnt (block m d' x))"
  "gcVictimList (erase_entry d b m) = gcVictimList m"
  "sliceAllocationTargetDie (erase_entry d b m) = sliceAllocationTargetDie m"
  "targetCh (erase_entry d b m) = targetCh m" "targetWay (erase_entry d b m) = targetWay m"
  by (auto simp: erase_entry_def)

lemma erase_entry_other:
  "d' \<noteq> d \<Longrightarrow> block (erase_entry d b m) d' = block m d'" "d' \<noteq> d \<Longrightarrow> die (erase_entry d b m) d' = die m d'"
  by (simp_all add: erase_entry_def PutToFb_other)

lemma ftl_inv_erase:
  assumes wf: "wf_config c" and inv: "ftl_inv c m Ls (no_hand(d := {b}))" and d: "d < USER_DIES c"
    and cur: "b \<noteq> currentBlock (die m d)"
    and dead: "\<And>pg. pg < USER_PAGES_PER_BLOCK c \<Longrightarrow> \<not> page_valid m (Vorg2VsaTranslation c d b pg)"
  shows "ftl_inv c (EraseBlock_map c d b m) (Ls(d := (Ls d)(LFree := Ls d LFree @ [b]))) no_hand"
proof -
  let ?m = "EraseBlock_map c d b m"
  have D: "die_ok c m d (Ls d) {b}" using ftl_invD(1) [OF inv d] by simp
  have b: "b < USER_BLOCKS_PER_DIE c" using die_okD(9) [OF D] by simp
  have "map_ok c ?m ((no_hand(d := {b}))(d := (no_hand(d := {b})) d - {b}))"
    by (rule map_ok_erase [OF wf ftl_invD(2) [OF inv] d b dead]) (simp_all add: EraseBlock_map_eq)
  then have M: "map_ok c ?m ((no_hand(d := {b}))(d := {}))" by simp
  have "die_ok c ?m d ((Ls d)(LFree := Ls d LFree @ [b])) {}"
    by (rule die_ok_other [OF die_ok_erase [OF wf D cur]]) (simp_all add: EraseBlock_map_eq)
  from ftl_inv_die_step [OF inv this M]
  have "ftl_inv c ?m (Ls(d := (Ls d)(LFree := Ls d LFree @ [b]))) ((no_hand(d := {b}))(d := {}))"
    by (simp add: EraseBlock_map_eq erase_entry_other)
  then show ?thesis by simp
qed

lemma GetFromGc_some:
  assumes ok: "lists_ok c m d Ls" and some: "GetFromGcVictimList c d m \<noteq> None"
  obtains j where "0 < j" and "j \<le> SLICES_PER_BLOCK c" and "Ls (LVictim j) \<noteq> []"
proof -
  have "GetFromGcVictimList_from d (SLICES_PER_BLOCK c) m \<noteq> None" using some by (simp add: GetFromGcVictimList_def)
  then obtain k b xs where "0 < k" "k \<le> SLICES_PER_BLOCK c" "Ls (LVictim k) = b # xs"
    using GetFromGc_from_cases [OF ok le_refl] by (elim disjE exE conjE) simp_all
  then show thesis using that [of k] by simp
qed

lemma GetFromGc_inv:
  assumes inv: "ftl_inv c m Ls no_hand" and d: "d < USER_DIES c"
    and some: "0 < j" "j \<le> SLICES_PER_BLOCK c" "Ls d (LVictim j) \<noteq> []"
  shows "\<exists>k b xs. GetFromGcVictimList c d m = Some (gc_pop d k m, b) \<and> 0 < k \<and> k \<le> SLICES_PER_BLOCK c \<and>
    Ls d (LVictim k) = b # xs \<and> (\<forall>i. k < i \<and> i \<le> SLICES_PER_BLOCK c \<longrightarrow> Ls d (LVictim i) = []) \<and>
    invalidSliceCnt (block m d b) = k \<and> b < USER_BLOCKS_PER_DIE c \<and>
    ftl_inv c (gc_pop d k m) (Ls(d := (Ls d)(LVictim k := xs))) (no_hand(d := {b}))"
proof -
  have D: "die_ok c m d (Ls d) {}" using ftl_invD(1) [OF inv d] .
  obtain k b xs where get: "GetFromGcVictimList c d m = Some (gc_pop d k m, b)"
    and k: "0 < k" "k \<le> SLICES_PER_BLOCK c" "Ls d (LVictim k) = b # xs"
    and max: "\<forall>i. k < i \<and> i \<le> SLICES_PER_BLOCK c \<longrightarrow> Ls d (LVictim i) = []"
    using GetFromGc_from_cases [OF die_okD(1) [OF D] le_refl] some unfolding GetFromGcVictimList_def by blast
  note pop = die_ok_gc_pop [OF D k(3,1,2)]
  have M: "map_ok c (gc_pop d k m) (no_hand(d := {b}))"
    by (rule map_ok_cong [OF ftl_invD(2) [OF inv]]) simp_all
  have "ftl_inv c (gc_pop d k m) (Ls(d := (Ls d)(LVictim k := xs))) (no_hand(d := {b}))"
    by (rule ftl_inv_die_step [OF inv pop(1) M]) (simp_all add: gc_pop_other)
  then show ?thesis using get k max pop(2) die_okD(2) [OF D, of b "LVictim k"] by auto
qed

text \<open>What a collection promises to the writer that triggered it.\<close>

definition gc_done :: "'a ftl_config_scheme \<Rightarrow> nat \<Rightarrow> addr_map \<Rightarrow> addr_map \<Rightarrow> nat \<Rightarrow> bool" where
  "gc_done c d m m' frees \<longleftrightarrow>
     (\<forall>l < SLICES_PER_SSD c. logicalSlice m' l = VSA_NONE \<longleftrightarrow> logicalSlice m l = VSA_NONE) \<and> 0 < frees \<and>
     (currentPage (block m' d (currentBlock (die m' d))) < USER_PAGES_PER_BLOCK c \<or>
      currentPage (block m' d (currentBlock (die m' d))) = USER_PAGES_PER_BLOCK c \<and> 2 \<le> frees) \<and>
     targetCh m' = targetCh m \<and> targetWay m' = targetWay m \<and> sliceAllocationTargetDie m' = sliceAllocationTargetDie m"

text \<open>
  The victim is the block being filled and holds no valid slice. The code erases it and
  leaves it the current block.
\<close>

definition gc_hits_current :: "'a ftl_config_scheme \<Rightarrow> nat \<Rightarrow> addr_map \<Rightarrow> bool" where
  "gc_hits_current c d m \<longleftrightarrow>
     (case GetFromGcVictimList c d m of None \<Rightarrow> False
      | Some (m1, b) \<Rightarrow> b = currentBlock (die m d) \<and> invalidSliceCnt (block m d b) = SLICES_PER_BLOCK c)"

lemma erase_after_copies:
  assumes wf: "wf_config c" and d: "d < USER_DIES c"
    and inv: "ftl_inv c m1 Ls (no_hand(d := {b}))"
    and cur: "b \<noteq> currentBlock (die m1 d)"
    and dead: "\<And>pg. pg < USER_PAGES_PER_BLOCK c \<Longrightarrow> \<not> page_valid m1 (Vorg2VsaTranslation c d b pg)"
    and maps: "\<And>l. l < SLICES_PER_SSD c \<Longrightarrow> logicalSlice m1 l = VSA_NONE \<longleftrightarrow> logicalSlice m l = VSA_NONE"
    and room: "currentPage (block m1 d (currentBlock (die m1 d))) < USER_PAGES_PER_BLOCK c \<or>
      currentPage (block m1 d (currentBlock (die m1 d))) = USER_PAGES_PER_BLOCK c \<and> 1 \<le> length (Ls d LFree)"
    and tgt: "targetCh m1 = targetCh m" "targetWay m1 = targetWay m"
      "sliceAllocationTargetDie m1 = sliceAllocationTargetDie m"
  shows "\<exists>Ls'. ftl_inv c (EraseBlock_map c d b m1) Ls' no_hand \<and>
    gc_done c d m (EraseBlock_map c d b m1) (length (Ls' d LFree)) \<and> (\<forall>d'. d' \<noteq> d \<longrightarrow> Ls' d' = Ls d')"
proof (intro exI conjI)
  let ?Ls = "Ls(d := (Ls d)(LFree := Ls d LFree @ [b]))"
  show "ftl_inv c (EraseBlock_map c d b m1) ?Ls no_hand"
    by (rule ftl_inv_erase [OF wf inv d cur dead])
  show "gc_done c d m (EraseBlock_map c d b m1) (length (?Ls d LFree))"
    using maps room tgt cur by (auto simp: gc_done_def EraseBlock_map_eq)
qed simp

text \<open>Copying the valid pages of a victim, with a full current block and a block in reserve: room is left, and the victim is not the current block.\<close>

lemma gc_copies_done:
  assumes wf: "wf_config c" and d: "d < USER_DIES c" and inv: "ftl_inv c m Ls (no_hand(d := {b}))"
    and full: "currentPage (block m d (currentBlock (die m d))) = USER_PAGES_PER_BLOCK c" and reserve: "Ls d LFree \<noteq> []"
    and lt: "valid_pages c d b m [0..<USER_PAGES_PER_BLOCK c] < USER_PAGES_PER_BLOCK c"
    and copied: "b = currentBlock (die m d) \<Longrightarrow> 0 < valid_pages c d b m [0..<USER_PAGES_PER_BLOCK c]"
  shows "\<exists>m' ls. ofold (gc_copy_map c d b) [0..<USER_PAGES_PER_BLOCK c] m = Some m' \<and>
    ftl_inv c m' (Ls(d := ls)) (no_hand(d := {b})) \<and>
    gc_progress c d b [0..<USER_PAGES_PER_BLOCK c] m (length (Ls d LFree)) m' (length (ls LFree)) \<and>
    b \<noteq> currentBlock (die m' d) \<and>
    (currentPage (block m' d (currentBlock (die m' d))) < USER_PAGES_PER_BLOCK c \<or>
     currentPage (block m' d (currentBlock (die m' d))) = USER_PAGES_PER_BLOCK c \<and> 1 \<le> length (ls LFree))"
proof -
  let ?n = "USER_PAGES_PER_BLOCK c"
  have room: "gc_room c d b m (length (Ls d LFree)) = ?n * length (Ls d LFree)" using full by (simp add: gc_room_def)
  have pgs: "distinct [0..<?n]" "set [0..<?n] \<subseteq> {..<?n}" by auto
  have reserve': "?n \<le> ?n * length (Ls d LFree)" using reserve by (cases "Ls d LFree") auto
  then have "valid_pages c d b m [0..<?n] \<le> gc_room c d b m (length (Ls d LFree))" unfolding room using lt by linarith
  from gc_copy_loop [OF wf d inv pgs this] obtain m2 ls
    where loop: "ofold (gc_copy_map c d b) [0..<?n] m = Some m2"
      and inv2: "ftl_inv c m2 (Ls(d := ls)) (no_hand(d := {b}))"
      and prog: "gc_progress c d b [0..<?n] m (length (Ls d LFree)) m2 (length (ls LFree))"
    by blast
  have cur2: "b \<noteq> currentBlock (die m2 d)"
    using gc_progressD(3) [OF prog] copied by (cases "b = currentBlock (die m d)") auto
  have le2: "currentPage (block m2 d (currentBlock (die m2 d))) \<le> ?n"
    using map_okD(5) [OF ftl_invD(2) [OF inv2] d die_okD(7) [OF ftl_invD(1) [OF inv2 d]]] .
  have "1 \<le> length (ls LFree)" if "currentPage (block m2 d (currentBlock (die m2 d))) = ?n"
  proof -
    have "?n * length (ls LFree) + valid_pages c d b m [0..<?n] = ?n * length (Ls d LFree)"
      using gc_progressD(2) [OF prog] room that cur2 by (simp add: gc_room_def)
    then show ?thesis using lt reserve' by (cases "length (ls LFree)") auto
  qed
  then show ?thesis using loop inv2 prog cur2 le2 by (intro exI [of _ m2] exI [of _ ls]) auto
qed

lemma GarbageCollection_map_inv:
  assumes wf: "wf_config c" and inv: "ftl_inv c m Ls no_hand" and d: "d < USER_DIES c"
    and full: "currentPage (block m d (currentBlock (die m d))) = USER_PAGES_PER_BLOCK c"
    and reserve: "Ls d LFree \<noteq> []"
    and some: "0 < j" "j \<le> SLICES_PER_BLOCK c" "Ls d (LVictim j) \<noteq> []"
    and safe: "\<not> gc_hits_current c d m"
  shows "\<exists>m' Ls'. GarbageCollection_map c d m = Some m' \<and> ftl_inv c m' Ls' no_hand \<and>
    gc_done c d m m' (length (Ls' d LFree)) \<and> (\<forall>d'. d' \<noteq> d \<longrightarrow> Ls' d' = Ls d')"
proof -
  let ?n = "USER_PAGES_PER_BLOCK c"
  obtain k b xs where get: "GetFromGcVictimList c d m = Some (gc_pop d k m, b)"
    and k: "0 < k" "k \<le> ?n" "invalidSliceCnt (block m d b) = k" and b: "b < USER_BLOCKS_PER_DIE c"
    and inv1: "ftl_inv c (gc_pop d k m) (Ls(d := (Ls d)(LVictim k := xs))) (no_hand(d := {b}))"
    using GetFromGc_inv [OF inv d some] unfolding SLICES_PER_BLOCK_pages by blast
  let ?m1 = "gc_pop d k m" and ?L1 = "Ls(d := (Ls d)(LVictim k := xs))"
  note M = ftl_invD(2) [OF inv]
  have valid1: "page_valid ?m1 = page_valid m" by (simp add: page_valid_def fun_eq_iff)
  have cnt: "valid_pages c d b m [0..<?n] + k = currentPage (block m d b)"
    using valid_and_invalid_pages [OF M d b] map_okD(6) [OF M d b] k(3) by simp
  have vp: "valid_pages c d b ?m1 [0..<?n] = valid_pages c d b m [0..<?n]"
    unfolding valid_pages_def valid1 ..
  have cple: "currentPage (block m d b) \<le> ?n" using map_okD(5) [OF M d b] .
  show ?thesis
  proof (cases "k = ?n")
    case True
    then have ne: "b \<noteq> currentBlock (die m d)" using safe get k(3) by (simp add: gc_hits_current_def)
    have "valid_pages c d b m [0..<?n] = 0" using cnt cple True by simp
    then have "\<not> page_valid ?m1 (Vorg2VsaTranslation c d b pg)" if "pg < ?n" for pg
      using that unfolding valid1 by (simp add: valid_pages_card)
    from erase_after_copies [OF wf d inv1 _ this, of m] ne full reserve
    obtain Ls' where "ftl_inv c (EraseBlock_map c d b ?m1) Ls' no_hand"
      "gc_done c d m (EraseBlock_map c d b ?m1) (length (Ls' d LFree))" "\<forall>d'. d' \<noteq> d \<longrightarrow> Ls' d' = ?L1 d'"
      by (auto simp: Suc_le_eq)
    moreover have "GarbageCollection_map c d m = Some (EraseBlock_map c d b ?m1)"
      using get k(3) True by (simp add: GarbageCollection_map_def)
    ultimately show ?thesis by (intro exI [of _ "EraseBlock_map c d b ?m1"] exI [of _ Ls']) simp
  next
    case False
    have lt: "valid_pages c d b ?m1 [0..<?n] < ?n" using vp cnt cple k(1) by simp
    have copied: "0 < valid_pages c d b ?m1 [0..<?n]" if "b = currentBlock (die ?m1 d)"
      using vp cnt full that False k(2) by simp
    obtain m2 ls where loop: "ofold (gc_copy_map c d b) [0..<?n] ?m1 = Some m2"
      and inv2: "ftl_inv c m2 (?L1(d := ls)) (no_hand(d := {b}))"
      and prog: "gc_progress c d b [0..<?n] ?m1 (length (?L1 d LFree)) m2 (length (ls LFree))"
      and cur2: "b \<noteq> currentBlock (die m2 d)"
      and full2: "currentPage (block m2 d (currentBlock (die m2 d))) < ?n \<or>
        currentPage (block m2 d (currentBlock (die m2 d))) = ?n \<and> 1 \<le> length ((?L1(d := ls)) d LFree)"
      using gc_copies_done [OF wf d inv1 _ _ lt copied] full reserve by auto
    have dead2: "\<not> page_valid m2 (Vorg2VsaTranslation c d b pg)" if "pg < ?n" for pg
      using gc_progressD(1) [OF prog that] that by auto
    have maps2: "logicalSlice m2 l = VSA_NONE \<longleftrightarrow> logicalSlice m l = VSA_NONE" if "l < SLICES_PER_SSD c" for l
      using gc_progressD(4) [OF prog that] by simp
    have tgt2: "targetCh m2 = targetCh m" "targetWay m2 = targetWay m"
      "sliceAllocationTargetDie m2 = sliceAllocationTargetDie m"
      using gc_progressD(5-7) [OF prog] by simp_all
    obtain Ls' where "ftl_inv c (EraseBlock_map c d b m2) Ls' no_hand"
      "gc_done c d m (EraseBlock_map c d b m2) (length (Ls' d LFree))" "\<forall>d'. d' \<noteq> d \<longrightarrow> Ls' d' = (?L1(d := ls)) d'"
      using erase_after_copies [OF wf d inv2 cur2 dead2 maps2 full2 tgt2] by blast
    moreover have "GarbageCollection_map c d m = Some (EraseBlock_map c d b m2)"
      using get k(3) False loop by (simp add: GarbageCollection_map_def)
    ultimately show ?thesis by (intro exI [of _ "EraseBlock_map c d b m2"] exI [of _ Ls']) simp
  qed
qed

subsection \<open>A slice write\<close>

text \<open>
  The state between two host writes: the tables are consistent, every die keeps its reserve of one
  free block for garbage collection, and the round robin points at a die.
\<close>

definition ftl_ok :: "'a ftl_config_scheme \<Rightarrow> addr_map \<Rightarrow> (nat \<Rightarrow> block_list \<Rightarrow> nat list) \<Rightarrow> bool" where
  "ftl_ok c m Ls \<longleftrightarrow>
     ftl_inv c m Ls no_hand \<and> (\<forall>d < USER_DIES c. Ls d LFree \<noteq> []) \<and> rr_ok c m \<and>
     sliceAllocationTargetDie m < USER_DIES c"

text \<open>The die has neither a free page nor a free block beyond the reserve.\<close>

definition gc_needed :: "'a ftl_config_scheme \<Rightarrow> nat \<Rightarrow> addr_map \<Rightarrow> bool" where
  "gc_needed c d m \<longleftrightarrow>
     currentPage (block m d (currentBlock (die m d))) = USER_PAGES_PER_BLOCK c \<and>
     freeBlockCnt (die m d) \<le> RESERVED_FREE_BLOCK_COUNT"

definition ready_done :: "'a ftl_config_scheme \<Rightarrow> nat \<Rightarrow> addr_map \<Rightarrow> addr_map \<Rightarrow> bool" where
  "ready_done c d m m' \<longleftrightarrow>
     currentPage (block m' d (currentBlock (die m' d))) < USER_PAGES_PER_BLOCK c \<and>
     (\<forall>l < SLICES_PER_SSD c. logicalSlice m' l = VSA_NONE \<longleftrightarrow> logicalSlice m l = VSA_NONE) \<and>
     targetCh m' = targetCh m \<and> targetWay m' = targetWay m \<and> sliceAllocationTargetDie m' = sliceAllocationTargetDie m"

lemma GetFromFb_normal:
  assumes wf: "wf_config c" and ok: "die_ok c m d ls hand"
  shows "length (ls LFree) \<le> 1 \<Longrightarrow> GetFromFbList d GET_FREE_BLOCK_NORMAL m = (m, BLOCK_NONE)"
    and "\<lbrakk>ls LFree = b # xs; 2 \<le> length (ls LFree)\<rbrakk> \<Longrightarrow>
      GetFromFbList d GET_FREE_BLOCK_NORMAL m = (fb_take d b m, b) \<and> b \<noteq> BLOCK_NONE \<and> xs \<noteq> []"
proof -
  show "length (ls LFree) \<le> 1 \<Longrightarrow> GetFromFbList d GET_FREE_BLOCK_NORMAL m = (m, BLOCK_NONE)"
    using die_okD(3) [OF ok] by (simp add: GetFromFbList_eq RESERVED_FREE_BLOCK_COUNT_def)
  assume F: "ls LFree = b # xs" "2 \<le> length (ls LFree)"
  have "headFreeBlock (die m d) = b" using lists_ok_head [OF die_okD(1) [OF ok], of LFree] F(1) by simp
  moreover have "b \<noteq> BLOCK_NONE" using block_not_NONE [OF wf die_okD(2) [OF ok, of b LFree]] F(1) by simp
  ultimately show "GetFromFbList d GET_FREE_BLOCK_NORMAL m = (fb_take d b m, b) \<and> b \<noteq> BLOCK_NONE \<and> xs \<noteq> []"
    using die_okD(3) [OF ok] F by (auto simp: GetFromFbList_eq RESERVED_FREE_BLOCK_COUNT_def)
qed

text \<open>Taking the next free block when there is one beyond the reserve.\<close>

lemma ready_take:
  assumes wf: "wf_config c" and inv: "ftl_inv c m Ls no_hand" and d: "d < USER_DIES c"
    and two: "2 \<le> length (Ls d LFree)"
  shows "\<exists>b Ls'. GetFromFbList d GET_FREE_BLOCK_NORMAL m = (fb_take d b m, b) \<and> b \<noteq> BLOCK_NONE \<and>
    ftl_inv c (take_current d b m) Ls' no_hand \<and> Ls' d LFree \<noteq> [] \<and> (\<forall>d'. d' \<noteq> d \<longrightarrow> Ls' d' = Ls d') \<and>
    ready_done c d m (take_current d b m)"
proof -
  have D: "die_ok c m d (Ls d) {}" using ftl_invD(1) [OF inv d] .
  obtain b xs where F: "Ls d LFree = b # xs" using two by (cases "Ls d LFree") auto
  note G = GetFromFb_normal(2) [OF wf D F two] and T = ftl_inv_take_current [OF wf inv d F]
  have "ready_done c d m (take_current d b m)"
    using T(4) USER_PAGES_PER_BLOCK_pos [OF wf] by (simp add: ready_done_def)
  then show ?thesis
    using G T(1) by (intro exI [of _ b] exI [of _ "Ls(d := (Ls d)(LFree := xs))"]) simp
qed

lemma ready_block_map_inv:
  assumes wf: "wf_config c" and inv: "ftl_inv c m Ls no_hand" and d: "d < USER_DIES c"
    and reserve: "Ls d LFree \<noteq> []"
    and gc: "gc_needed c d m \<Longrightarrow> GetFromGcVictimList c d m \<noteq> None \<and> \<not> gc_hits_current c d m"
  shows "\<exists>m' Ls'. ready_block_map c d m = Some m' \<and> ftl_inv c m' Ls' no_hand \<and> Ls' d LFree \<noteq> [] \<and>
    (\<forall>d'. d' \<noteq> d \<longrightarrow> Ls' d' = Ls d') \<and> ready_done c d m m'"
proof -
  let ?n = "USER_PAGES_PER_BLOCK c" and ?cp = "currentPage (block m d (currentBlock (die m d)))"
  have D: "die_ok c m d (Ls d) {}" using ftl_invD(1) [OF inv d] .
  have le: "?cp \<le> ?n" using map_okD(5) [OF ftl_invD(2) [OF inv] d die_okD(7) [OF D]] .
  consider "?cp < ?n" | "?cp = ?n" "2 \<le> length (Ls d LFree)" | "?cp = ?n" "length (Ls d LFree) \<le> 1"
    using le by linarith
  then show ?thesis
  proof cases
    case 1
    then have "ready_block_map c d m = Some m" by (simp add: ready_block_map_def Let_def)
    then show ?thesis using 1 inv reserve by (intro exI [of _ m] exI [of _ Ls]) (simp add: ready_done_def)
  next
    case 2
    obtain b Ls' where G: "GetFromFbList d GET_FREE_BLOCK_NORMAL m = (fb_take d b m, b)" "b \<noteq> BLOCK_NONE"
      and T: "ftl_inv c (take_current d b m) Ls' no_hand \<and> Ls' d LFree \<noteq> [] \<and> (\<forall>d'. d' \<noteq> d \<longrightarrow> Ls' d' = Ls d') \<and>
        ready_done c d m (take_current d b m)"
      using ready_take [OF wf inv d 2(2)] by blast
    have "ready_block_map c d m = Some (take_current d b m)"
      using G 2(1) by (simp add: ready_block_map_def Let_def take_current_def)
    then show ?thesis using T by blast
  next
    case 3
    note fail = GetFromFb_normal(1) [OF wf D 3(2)]
    have "gc_needed c d m" using 3 die_okD(3) [OF D] by (simp add: gc_needed_def RESERVED_FREE_BLOCK_COUNT_def)
    then have some: "GetFromGcVictimList c d m \<noteq> None" and safe: "\<not> gc_hits_current c d m" using gc by auto
    obtain j where j: "0 < j" "j \<le> SLICES_PER_BLOCK c" "Ls d (LVictim j) \<noteq> []"
      using GetFromGc_some [OF die_okD(1) [OF D] some] .
    obtain m1 L1 where gc1: "GarbageCollection_map c d m = Some m1" "ftl_inv c m1 L1 no_hand"
      "gc_done c d m m1 (length (L1 d LFree))" "\<forall>d'. d' \<noteq> d \<longrightarrow> L1 d' = Ls d'"
      using GarbageCollection_map_inv [OF wf inv d 3(1) reserve j safe] by blast
    show ?thesis
    proof (cases "currentPage (block m1 d (currentBlock (die m1 d))) < ?n")
      case True
      then have "ready_block_map c d m = Some m1"
        using fail gc1(1) 3(1) by (simp add: ready_block_map_def Let_def)
      moreover have "ready_done c d m m1" "L1 d LFree \<noteq> []"
        using True gc1(3) by (auto simp: ready_done_def gc_done_def)
      ultimately show ?thesis using gc1(2,4) by blast
    next
      case False
      then have full: "currentPage (block m1 d (currentBlock (die m1 d))) = ?n" "2 \<le> length (L1 d LFree)"
        using gc1(3) by (auto simp: gc_done_def)
      obtain b Ls' where G: "GetFromFbList d GET_FREE_BLOCK_NORMAL m1 = (fb_take d b m1, b)" "b \<noteq> BLOCK_NONE"
        and T: "ftl_inv c (take_current d b m1) Ls' no_hand" "Ls' d LFree \<noteq> []" "\<forall>d'. d' \<noteq> d \<longrightarrow> Ls' d' = L1 d'"
          "ready_done c d m1 (take_current d b m1)"
        using ready_take [OF wf gc1(2) d full(2)] by blast
      have "ready_block_map c d m = Some (take_current d b m1)"
        using fail gc1(1) 3(1) full(1) G by (simp add: ready_block_map_def Let_def take_current_def)
      moreover have "ready_done c d m (take_current d b m1)"
        using T(4) gc1(3) by (simp add: ready_done_def gc_done_def)
      ultimately show ?thesis using T(1-3) gc1(4) by auto
    qed
  qed
qed

text \<open>
  The whole write: the slice gets a page, no other slice loses its page, and the invariant with
  the reserve is kept. The hypothesis on garbage collection is about the tables after the old
  page was invalidated.
\<close>

lemma AddrTransWrite_map_inv:
  assumes wf: "wf_config c" and ok: "ftl_ok c m Ls" and l: "l < SLICES_PER_SSD c"
    and gc: "gc_needed c (sliceAllocationTargetDie m) (InvalidateOldVsa c l m) \<Longrightarrow>
      GetFromGcVictimList c (sliceAllocationTargetDie m) (InvalidateOldVsa c l m) \<noteq> None \<and>
      \<not> gc_hits_current c (sliceAllocationTargetDie m) (InvalidateOldVsa c l m)"
  shows "\<exists>m' v Ls'. AddrTransWrite_map c l m = Some (m', v) \<and> ftl_ok c m' Ls' \<and>
    logicalSlice m' l = v \<and> v < SLICES_PER_SSD c \<and> Vsa2VdieTranslation c v = sliceAllocationTargetDie m \<and>
    (\<forall>x < SLICES_PER_SSD c. x \<noteq> l \<longrightarrow> (logicalSlice m' x = VSA_NONE \<longleftrightarrow> logicalSlice m x = VSA_NONE)) \<and>
    sliceAllocationTargetDie m' = rr_pos c m"
proof -
  let ?d = "sliceAllocationTargetDie m" and ?m1 = "InvalidateOldVsa c l m"
  have inv: "ftl_inv c m Ls no_hand" and F: "\<And>d. d < USER_DIES c \<Longrightarrow> Ls d LFree \<noteq> []" and rr: "rr_ok c m"
    and d: "?d < USER_DIES c" using ok by (auto simp: ftl_ok_def)
  obtain L1 where inv1: "ftl_inv c ?m1 L1 no_hand" and F1: "\<And>d. L1 d LFree = Ls d LFree"
    and map1: "logicalSlice ?m1 = (logicalSlice m)(l := VSA_NONE)"
    and tgt1: "sliceAllocationTargetDie ?m1 = ?d" "targetCh ?m1 = targetCh m" "targetWay ?m1 = targetWay m"
    using InvalidateOldVsa_inv [OF wf inv l] by blast
  obtain m2 L2 where ready: "ready_block_map c ?d ?m1 = Some m2" and inv2: "ftl_inv c m2 L2 no_hand"
    and F2: "L2 ?d LFree \<noteq> []" "\<And>d'. d' \<noteq> ?d \<Longrightarrow> L2 d' = L1 d'" and rd: "ready_done c ?d ?m1 m2"
    using ready_block_map_inv [OF wf inv1 d _ gc] F [OF d] F1 by auto
  let ?b = "currentBlock (die m2 ?d)"
  let ?v = "Vorg2VsaTranslation c ?d ?b (currentPage (block m2 ?d ?b))"
  have D2: "die_ok c m2 ?d (L2 ?d) {}" using ftl_invD(1) [OF inv2 d] .
  have p: "vorg_ok c ?d ?b (currentPage (block m2 ?d ?b))"
    using rd d die_okD(7) [OF D2] by (simp add: vorg_ok_def ready_done_def)
  have none: "logicalSlice m2 l = VSA_NONE" using rd map1 l by (simp add: ready_done_def)
  let ?p = "place_slice c l ?d ?b m2"
  have inv3: "ftl_inv c ?p L2 no_hand"
    by (rule ftl_inv_place [OF wf inv2 l p die_okD(8) [OF D2]]) (simp add: none)
  obtain m3 nd where find: "FindDieForFreeSliceAllocation c (fst (take_page c ?d ?b m2)) = (m3, nd)" by fastforce
  let ?m = "remap_slice l ?v (m3\<lparr>sliceAllocationTargetDie := nd\<rparr>)"
  have rr2: "rr_ok c (fst (take_page c ?d ?b m2))" "rr_pos c (fst (take_page c ?d ?b m2)) = rr_pos c m"
    using rr rd tgt1 by (simp_all add: rr_ok_def rr_pos_def take_page_def ready_done_def)
  note step = FindDie_step [OF wf rr2(1), unfolded find, simplified]
  have m3: "logicalSlice m3 = logicalSlice m2" "virtualSlice m3 = virtualSlice m2" "die m3 = die m2"
    "gcVictimList m3 = gcVictimList m2" "block m3 = block ?p"
    using find by (auto simp: FindDieForFreeSliceAllocation_def take_page_def Let_def split: if_splits)
  have "map_ok c ?m no_hand" by (rule map_ok_cong [OF ftl_invD(2) [OF inv3]]) (simp_all add: m3)
  moreover have "die_ok c ?m d' (L2 d') {}" if "d' < USER_DIES c" for d'
    by (rule die_ok_other [OF ftl_invD(1) [OF inv3 that]]) (simp_all add: m3)
  ultimately have "ftl_inv c ?m L2 no_hand" by (simp add: ftl_inv_def)
  moreover have "rr_ok c ?m" using step(2) by (simp add: rr_ok_def)
  moreover have "nd = rr_pos c m" using step(1) rr2(2) by simp
  moreover from this have "nd < USER_DIES c" using rr by (simp add: rr_pos_def rr_ok_def Pcw2Vdie_parts(1))
  moreover have "L2 d' LFree \<noteq> []" if "d' < USER_DIES c" for d'
    using F2 F1 F [OF that] by (cases "d' = ?d") simp_all
  ultimately have ok': "ftl_ok c ?m L2" by (simp add: ftl_ok_def)
  have wr: "AddrTransWrite_map c l m = Some (?m, ?v)"
    using l ready find tgt1(1)
    by (simp add: AddrTransWrite_map_def FindFreeVirtualSlice_map_def Let_def take_page_def split_beta)
  have keep: "logicalSlice ?m x = VSA_NONE \<longleftrightarrow> logicalSlice m x = VSA_NONE" if "x < SLICES_PER_SSD c" "x \<noteq> l" for x
    using rd that map1 by (simp add: ready_done_def m3)
  show ?thesis
    using wr ok' keep Vorg2Vsa_parts(1,2) [OF wf p] \<open>nd = rr_pos c m\<close>
    by (intro exI [of _ ?m] exI [of _ ?v] exI [of _ L2]) simp
qed

text \<open>Two slices never share a page.\<close>

lemma ftl_inv_injective:
  assumes "ftl_inv c m Ls hand" and "x < SLICES_PER_SSD c" and "y < SLICES_PER_SSD c"
    and "logicalSlice m x \<noteq> VSA_NONE" and "logicalSlice m x = logicalSlice m y"
  shows "x = y"
  using map_okD(2) [OF ftl_invD(2) [OF assms(1)]] assms(2-5) by metis

end
