(* ===== verification/Block_Remap.thy ===== *)
theory Block_Remap
  imports Slice_Allocation
begin

text \<open>
  The physical block tables of \<^verbatim>\<open>address_translation.c\<close>: replacing the bad blocks of the user area by
  blocks of the reserved area of the same LUN, and building the block and die tables on top. The
  theorems are that the replacement never gives two user blocks the same physical block nor a bad
  one, and that the tables at start-up satisfy the invariant of \<open>Slice_Allocation\<close>.
\<close>

section \<open>Tables and operations\<close>

record phy_block =
  remappedPhyBlock :: nat
  phyBad :: bool

record bbt_info =
  bbtPhyBlock :: nat
  grownBadUpdate :: bool

record phy_map =
  phyBlock :: "nat \<Rightarrow> nat \<Rightarrow> phy_block"
  bbtInfo :: "nat \<Rightarrow> bbt_info"
  mbPerbadBlockSpace :: nat

definition upd_phy :: "nat \<Rightarrow> nat \<Rightarrow> (phy_block \<Rightarrow> phy_block) \<Rightarrow> phy_map \<Rightarrow> phy_map" where
  "upd_phy d b f pm = pm\<lparr>phyBlock := (phyBlock pm)(d := (phyBlock pm d)(b := f (phyBlock pm d b)))\<rparr>"

text \<open>The first loop of \<^verbatim>\<open>InitAddressMap\<close>.\<close>

definition InitPhyBlockMap :: "'a ftl_config_scheme \<Rightarrow> phy_map \<Rightarrow> phy_map" where
  "InitPhyBlockMap c pm =
     pm\<lparr>phyBlock := array_for (USER_DIES c)
          (\<lambda>d. array_for TOTAL_BLOCKS_PER_DIE (\<lambda>b r. r\<lparr>remappedPhyBlock := u16 b\<rparr>)) (phyBlock pm),
        bbtInfo := array_for (USER_DIES c) (\<lambda>d r. r\<lparr>bbtPhyBlock := 0, grownBadUpdate := False\<rparr>) (bbtInfo pm)\<rparr>"

text \<open>The loop of \<^verbatim>\<open>InitBlockDieMap\<close> that hides the block holding the bad block table.\<close>

definition hide_bbt_blocks :: "'a ftl_config_scheme \<Rightarrow> phy_map \<Rightarrow> phy_map" where
  "hide_bbt_blocks c pm =
     fold (\<lambda>d pm. upd_phy d (bbtPhyBlock (bbtInfo pm d)) (\<lambda>r. r\<lparr>phyBad := True\<rparr>) pm) [0..<USER_DIES c] pm"

text \<open>The search for a good reserved block below \<open>hi\<close>: where it stops, and whether it found one.\<close>

function find_reserved :: "(nat \<Rightarrow> phy_block) \<Rightarrow> nat \<Rightarrow> nat \<Rightarrow> nat \<times> bool" where
  "find_reserved t hi r =
     (if phyBad (t r) then if r + 1 \<ge> hi then (r + 1, False) else find_reserved t hi (r + 1)
      else (r, True))"
  by pat_completeness auto
termination
  by (relation "measure (\<lambda>(t, hi, r). hi - r)") auto

text \<open>One block of one LUN: the table of the die, the next reserved block and the count of the die.\<close>

definition remap_lun_block ::
  "nat \<Rightarrow> nat \<Rightarrow> (nat \<Rightarrow> phy_block) \<times> nat \<times> nat \<Rightarrow> (nat \<Rightarrow> phy_block) \<times> nat \<times> nat" where
  "remap_lun_block hi p = (\<lambda>(t, r, n).
     if phyBad (t p) then
       if r < hi then
         (let (r', remapFlag) = find_reserved t hi r in
          if remapFlag then (t(p := (t p)\<lparr>remappedPhyBlock := u16 r'\<rparr>), r' + 1, n)
          else (t, r', n + 1))
       else (t, r, n + 1)
     else (t, r, n))"

record remap_die =
  dieBlocks :: "nat \<Rightarrow> phy_block"
  reservedBlockOfLun0 :: nat
  reservedBlockOfLun1 :: nat
  badBlockCount :: nat

definition remap_die_block :: "nat \<Rightarrow> remap_die \<Rightarrow> remap_die" where
  "remap_die_block blockNo s =
     (let (t, r0, n) = remap_lun_block TOTAL_BLOCKS_PER_LUN blockNo
                         (dieBlocks s, reservedBlockOfLun0 s, badBlockCount s);
          (t, r1, n) = remap_lun_block TOTAL_BLOCKS_PER_DIE (blockNo + TOTAL_BLOCKS_PER_LUN)
                         (t, reservedBlockOfLun1 s, n)
      in \<lparr>dieBlocks = t, reservedBlockOfLun0 = r0, reservedBlockOfLun1 = r1, badBlockCount = n\<rparr>)"

definition remap_start :: "'a ftl_config_scheme \<Rightarrow> (nat \<Rightarrow> phy_block) \<Rightarrow> remap_die" where
  "remap_start c t =
     \<lparr>dieBlocks = t, reservedBlockOfLun0 = USER_BLOCKS_PER_LUN c,
      reservedBlockOfLun1 = TOTAL_BLOCKS_PER_LUN + USER_BLOCKS_PER_LUN c, badBlockCount = 0\<rparr>"

definition RemapBadBlock :: "'a ftl_config_scheme \<Rightarrow> phy_map \<Rightarrow> phy_map" where
  "RemapBadBlock c pm =
     (let s = fold (\<lambda>blockNo. array_for (USER_DIES c) (\<lambda>d. remap_die_block blockNo))
                [0..<USER_BLOCKS_PER_LUN c] (\<lambda>d. remap_start c (phyBlock pm d));
          maxBadBlockCount = fold (\<lambda>d mx. if mx < badBlockCount (s d) then badBlockCount (s d) else mx)
                               [0..<USER_DIES c] 0
      in pm\<lparr>phyBlock := array_for (USER_DIES c) (\<lambda>d t. dieBlocks (s d)) (phyBlock pm),
            mbPerbadBlockSpace := u32 (maxBadBlockCount * USER_DIES c * MB_PER_BLOCK c)\<rparr>)"

definition init_vblock :: "'a ftl_config_scheme \<Rightarrow> phy_map \<Rightarrow> nat \<Rightarrow> nat \<Rightarrow> addr_map \<Rightarrow> addr_map" where
  "init_vblock c pm d b m =
     (let phyBlockNo = Vblock2PblockOfTbsTranslation c b;
          remapped = remappedPhyBlock (phyBlock pm d phyBlockNo);
          isBad = phyBad (phyBlock pm d remapped);
          m = upd_block d b (\<lambda>r. r\<lparr>bad := isBad, free := True, invalidSliceCnt := 0, currentPage := 0,
                eraseCnt := 0\<rparr>) m
      in if isBad then upd_block d b (\<lambda>r. r\<lparr>prevBlock := BLOCK_NONE, nextBlock := BLOCK_NONE\<rparr>) m
         else PutToFbList d b m)"

definition InitBlockMap :: "'a ftl_config_scheme \<Rightarrow> phy_map \<Rightarrow> addr_map \<Rightarrow> addr_map" where
  "InitBlockMap c pm m =
     fold (\<lambda>d. fold (init_vblock c pm d) [0..<USER_BLOCKS_PER_DIE c]) [0..<USER_DIES c] m"

definition init_current_block :: "nat \<Rightarrow> addr_map \<Rightarrow> addr_map option" where
  "init_current_block d m =
     (let (m, b) = GetFromFbList d GET_FREE_BLOCK_NORMAL m;
          m = upd_die d (\<lambda>r. r\<lparr>currentBlock := b\<rparr>) m
      in if currentBlock (die m d) = BLOCK_FAIL then None else Some m)"

definition InitCurrentBlockOfDieMap :: "'a ftl_config_scheme \<Rightarrow> addr_map \<Rightarrow> addr_map option" where
  "InitCurrentBlockOfDieMap c m = ofold init_current_block [0..<USER_DIES c] m"

definition UpdatePhyBlockMapForGrownBadBlock :: "nat \<Rightarrow> nat \<Rightarrow> phy_map \<Rightarrow> phy_map" where
  "UpdatePhyBlockMapForGrownBadBlock d b pm =
     (let pm = upd_phy d b (\<lambda>r. r\<lparr>phyBad := True\<rparr>) pm
      in pm\<lparr>bbtInfo := (bbtInfo pm)(d := (bbtInfo pm d)\<lparr>grownBadUpdate := True\<rparr>)\<rparr>)"

section \<open>Replacing bad blocks\<close>

declare find_reserved.simps [simp del]

lemma find_reserved_sound:
  assumes "find_reserved t hi r = (r', ok)" and "r < hi"
  shows "r \<le> r'" and "r' \<le> hi" and "ok \<Longrightarrow> r' < hi \<and> \<not> phyBad (t r')"
    and "\<not> ok \<Longrightarrow> r' = hi" and "\<And>q. r \<le> q \<Longrightarrow> q < r' \<Longrightarrow> phyBad (t q)"
proof -
  have "r \<le> r' \<and> r' \<le> hi \<and> (ok \<longrightarrow> r' < hi \<and> \<not> phyBad (t r')) \<and>
      (\<not> ok \<longrightarrow> r' = hi) \<and> (\<forall>q. r \<le> q \<and> q < r' \<longrightarrow> phyBad (t q))"
    using assms
  proof (induction t hi r rule: find_reserved.induct)
    case (1 t hi r)
    consider "\<not> phyBad (t r)" | "phyBad (t r)" "hi \<le> r + 1" | "phyBad (t r)" "r + 1 < hi" by linarith
    then show ?case
    proof cases
      case 3
      then have "find_reserved t hi (r + 1) = (r', ok)" using "1.prems"(1) by (subst (asm) find_reserved.simps) simp
      from "1.IH" [OF 3(1) _ this] 3 show ?thesis
        by (auto simp: not_less_eq_eq) (metis Suc_leI le_antisym not_less)+
    qed (use "1.prems" in \<open>auto simp: find_reserved.simps [of t hi r] le_less_Suc_eq\<close>)
  qed
  then show "r \<le> r'" "r' \<le> hi" "ok \<Longrightarrow> r' < hi \<and> \<not> phyBad (t r')" "\<not> ok \<Longrightarrow> r' = hi"
    "\<And>q. r \<le> q \<Longrightarrow> q < r' \<Longrightarrow> phyBad (t q)" by auto
qed

text \<open>
  The state of a LUN whose user blocks are \<open>lo ..< lo + u\<close> and whose reserved blocks end at \<open>hi\<close>, when
  the first \<open>n\<close> user blocks were handled: \<open>r\<close> is the next reserved block and \<open>k\<close> counts the bad
  blocks that were left.
\<close>

definition lun_inv :: "(nat \<Rightarrow> phy_block) \<Rightarrow> nat \<Rightarrow> nat \<Rightarrow> nat \<Rightarrow> nat \<Rightarrow> nat \<Rightarrow> nat \<Rightarrow> bool" where
  "lun_inv t lo u hi n r k \<longleftrightarrow>
     lo + u \<le> r \<and> r \<le> hi \<and>
     (\<forall>p. lo \<le> p \<and> p < lo + u \<longrightarrow> remappedPhyBlock (t p) = p \<or>
        p < lo + n \<and> phyBad (t p) \<and> lo + u \<le> remappedPhyBlock (t p) \<and> remappedPhyBlock (t p) < r \<and>
        \<not> phyBad (t (remappedPhyBlock (t p)))) \<and>
     inj_on (\<lambda>p. remappedPhyBlock (t p)) {lo..<lo + u} \<and>
     k = card {p \<in> {lo..<lo + n}. phyBad (t p) \<and> remappedPhyBlock (t p) = p} \<and>
     (0 < k \<longrightarrow> r = hi) \<and>
     (\<forall>q. lo + u \<le> q \<and> q < r \<and> \<not> phyBad (t q) \<longrightarrow>
        (\<exists>p. lo \<le> p \<and> p < lo + u \<and> remappedPhyBlock (t p) = q))"

lemma remap_lun_block_bad:
  "remap_lun_block hi p (t, r, n) = (t', r', n') \<Longrightarrow> phyBad (t' q) = phyBad (t q)"
  by (auto simp: remap_lun_block_def Let_def split: if_splits prod.splits)

lemma remap_lun_block_elsewhere:
  "remap_lun_block hi p (t, r, n) = (t', r', n') \<Longrightarrow> q \<noteq> p \<Longrightarrow> t' q = t q"
  by (auto simp: remap_lun_block_def Let_def split: if_splits prod.splits)

lemma lun_inv_cong:
  assumes "\<And>q. lo \<le> q \<Longrightarrow> q < hi \<Longrightarrow> t' q = t q" and "lo + u \<le> hi" and "n \<le> u"
  shows "lun_inv t' lo u hi n r k = lun_inv t lo u hi n r k"
proof -
  have same: "t' q = t q" if "q \<in> {lo..<lo + u}" for q using assms that by simp
  have "inj_on (\<lambda>p. remappedPhyBlock (t' p)) {lo..<lo + u} = inj_on (\<lambda>p. remappedPhyBlock (t p)) {lo..<lo + u}"
    by (rule inj_on_cong) (simp add: same)
  moreover have "{p \<in> {lo..<lo + n}. phyBad (t' p) \<and> remappedPhyBlock (t' p) = p} =
      {p \<in> {lo..<lo + n}. phyBad (t p) \<and> remappedPhyBlock (t p) = p}"
    using same assms(3) by auto
  ultimately show ?thesis
    using assms same unfolding lun_inv_def by (simp cong: conj_cong)
qed

lemma lun_invD:
  assumes "lun_inv t lo u hi n r k"
  shows "lo + u \<le> r" and "r \<le> hi"
    and "\<lbrakk>lo \<le> p; p < lo + u\<rbrakk> \<Longrightarrow> remappedPhyBlock (t p) = p \<or>
        p < lo + n \<and> phyBad (t p) \<and> lo + u \<le> remappedPhyBlock (t p) \<and> remappedPhyBlock (t p) < r \<and>
        \<not> phyBad (t (remappedPhyBlock (t p)))"
    and "inj_on (\<lambda>p. remappedPhyBlock (t p)) {lo..<lo + u}"
    and "k = card {p \<in> {lo..<lo + n}. phyBad (t p) \<and> remappedPhyBlock (t p) = p}"
    and "0 < k \<Longrightarrow> r = hi"
    and "\<lbrakk>lo + u \<le> q; q < r; \<not> phyBad (t q)\<rbrakk> \<Longrightarrow> \<exists>p. lo \<le> p \<and> p < lo + u \<and> remappedPhyBlock (t p) = q"
  using assms unfolding lun_inv_def by blast+

lemma lun_invI:
  assumes "lo + u \<le> r" and "r \<le> hi"
    and "\<And>p. \<lbrakk>lo \<le> p; p < lo + u\<rbrakk> \<Longrightarrow> remappedPhyBlock (t p) = p \<or>
        p < lo + n \<and> phyBad (t p) \<and> lo + u \<le> remappedPhyBlock (t p) \<and> remappedPhyBlock (t p) < r \<and>
        \<not> phyBad (t (remappedPhyBlock (t p)))"
    and "inj_on (\<lambda>p. remappedPhyBlock (t p)) {lo..<lo + u}"
    and "k = card {p \<in> {lo..<lo + n}. phyBad (t p) \<and> remappedPhyBlock (t p) = p}"
    and "0 < k \<Longrightarrow> r = hi"
    and "\<And>q. \<lbrakk>lo + u \<le> q; q < r; \<not> phyBad (t q)\<rbrakk> \<Longrightarrow> \<exists>p. lo \<le> p \<and> p < lo + u \<and> remappedPhyBlock (t p) = q"
  shows "lun_inv t lo u hi n r k"
  using assms unfolding lun_inv_def by blast

text \<open>The blocks of the user area up to \<open>n\<close> that are bad and not replaced.\<close>

abbreviation left_bad :: "(nat \<Rightarrow> phy_block) \<Rightarrow> nat \<Rightarrow> nat \<Rightarrow> nat set" where
  "left_bad t lo n \<equiv> {p \<in> {lo..<lo + n}. phyBad (t p) \<and> remappedPhyBlock (t p) = p}"

lemma lun_inv_stays:
  assumes inv: "lun_inv t lo u hi n r k" and q: "r \<le> q" "q \<le> hi" and k': "k' = card (left_bad t lo (Suc n))"
    and none: "0 < k' \<Longrightarrow> q = hi" and skip: "\<And>x. r \<le> x \<Longrightarrow> x < q \<Longrightarrow> phyBad (t x)"
  shows "lun_inv t lo u hi (Suc n) q k'"
proof (rule lun_invI)
  note I = lun_invD [OF inv]
  show "lo + u \<le> q" "q \<le> hi" using I(1) q by simp_all
  show "remappedPhyBlock (t p) = p \<or> p < lo + Suc n \<and> phyBad (t p) \<and> lo + u \<le> remappedPhyBlock (t p) \<and>
      remappedPhyBlock (t p) < q \<and> \<not> phyBad (t (remappedPhyBlock (t p)))" if "lo \<le> p" "p < lo + u" for p
    using I(3) [OF that] q(1) by auto
  show "\<exists>p. lo \<le> p \<and> p < lo + u \<and> remappedPhyBlock (t p) = x"
    if "lo + u \<le> x" "x < q" "\<not> phyBad (t x)" for x
    using I(7) [of x] skip [of x] that by (cases "r \<le> x") auto
qed (use lun_invD(4) [OF inv] k' none in blast)+

lemma lun_inv_moves:
  assumes inv: "lun_inv t lo u hi n r k" and n: "n < u" and bad: "phyBad (t (lo + n))" and r: "r < hi"
    and found: "find_reserved t hi r = (q, True)" and t': "t' = t(lo + n := (t (lo + n))\<lparr>remappedPhyBlock := q\<rparr>)"
  shows "lun_inv t' lo u hi (Suc n) (Suc q) k"
proof (rule lun_invI)
  note I = lun_invD [OF inv] and F = find_reserved_sound [OF found r]
  have self: "remappedPhyBlock (t (lo + n)) = lo + n" using I(3) [of "lo + n"] n by simp
  have qu: "lo + u \<le> q" "q < hi" "\<not> phyBad (t q)" using I(1) F by auto
  have badt: "phyBad (t' x) = phyBad (t x)" for x by (simp add: t')
  show "lo + u \<le> Suc q" "Suc q \<le> hi" using qu by auto
  have "remappedPhyBlock (t p) < q" if "p \<in> {lo..<lo + u} - {lo + n}" for p
    using I(3) [of p] that F(1) qu(1) by auto
  then show "inj_on (\<lambda>p. remappedPhyBlock (t' p)) {lo..<lo + u}"
    using I(4) by (auto simp: t' inj_on_def) (metis less_irrefl)+
  have "left_bad t' lo (Suc n) = left_bad t lo n" using self qu(1) n by (auto simp: t' less_Suc_eq)
  then show "k = card (left_bad t' lo (Suc n))" using I(5) by simp
  show "remappedPhyBlock (t' p) = p \<or> p < lo + Suc n \<and> phyBad (t' p) \<and> lo + u \<le> remappedPhyBlock (t' p) \<and>
      remappedPhyBlock (t' p) < Suc q \<and> \<not> phyBad (t' (remappedPhyBlock (t' p)))"
    if "lo \<le> p" "p < lo + u" for p
    using I(3) [OF that] F(1) qu bad unfolding badt by (auto simp: t')
  show "0 < k \<Longrightarrow> Suc q = hi" using I(6) r by simp
  show "\<exists>p. lo \<le> p \<and> p < lo + u \<and> remappedPhyBlock (t' p) = x"
    if x: "lo + u \<le> x" "x < Suc q" "\<not> phyBad (t' x)" for x
  proof (cases "x = q")
    case True
    then show ?thesis using n by (intro exI [of _ "lo + n"]) (simp add: t')
  next
    case False
    then have "x < r" using x F(5) [of x] badt by force
    then obtain p where "lo \<le> p" "p < lo + u" "remappedPhyBlock (t p) = x" using I(7) [of x] x badt by auto
    moreover from this have "p \<noteq> lo + n" using self x(1) by auto
    ultimately show ?thesis by (auto simp: t')
  qed
qed

lemma remap_lun_block_inv:
  assumes inv: "lun_inv t lo u hi n r k" and n: "n < u" and hi: "hi < 65536"
    and step: "remap_lun_block hi (lo + n) (t, r, N) = (t', r', N')"
  shows "\<exists>k'. lun_inv t' lo u hi (Suc n) r' k' \<and> N' + k = N + k'"
proof -
  note I = lun_invD [OF inv]
  have self: "remappedPhyBlock (t (lo + n)) = lo + n" using I(3) [of "lo + n"] n by simp
  have "left_bad t lo (Suc n) = (if phyBad (t (lo + n)) then insert (lo + n) (left_bad t lo n) else left_bad t lo n)"
    using self by (auto simp: less_Suc_eq)
  then have count: "card (left_bad t lo (Suc n)) = (if phyBad (t (lo + n)) then Suc k else k)" unfolding I(5) by simp
  consider (good) "\<not> phyBad (t (lo + n))"
    | (moved) q where "phyBad (t (lo + n))" "r < hi" "find_reserved t hi r = (q, True)"
    | (stuck) q where "phyBad (t (lo + n))" "r < hi" "find_reserved t hi r = (q, False)"
    | (full) "phyBad (t (lo + n))" "hi \<le> r"
    by (cases "phyBad (t (lo + n))"; cases "r < hi"; cases "find_reserved t hi r"; cases "snd (find_reserved t hi r)") auto
  then show ?thesis
  proof cases
    case good
    then have t: "t' = t" "r' = r" "N' = N" using step by (simp_all add: remap_lun_block_def)
    have "lun_inv t lo u hi (Suc n) r k" by (rule lun_inv_stays [OF inv]) (use I(2,6) count good in auto)
    then show ?thesis using t by auto
  next
    case full
    then have t: "t' = t" "r' = r" "N' = N + 1" using step by (simp_all add: remap_lun_block_def)
    have "lun_inv t lo u hi (Suc n) r (Suc k)" by (rule lun_inv_stays [OF inv]) (use I(2) count full in auto)
    then show ?thesis using t by auto
  next
    case stuck
    then have t: "t' = t" "r' = q" "N' = N + 1" using step by (simp_all add: remap_lun_block_def)
    have "lun_inv t lo u hi (Suc n) q (Suc k)"
      by (rule lun_inv_stays [OF inv]) (use find_reserved_sound(1,2,4,5) [OF stuck(3,2)] count stuck(1) in auto)
    then show ?thesis using t by auto
  next
    case moved
    have "u16 q = q" using find_reserved_sound(3) [OF moved(3,2)] hi by simp
    then have t: "t' = t(lo + n := (t (lo + n))\<lparr>remappedPhyBlock := q\<rparr>)" "r' = Suc q" "N' = N"
      using step moved by (simp_all add: remap_lun_block_def)
    then show ?thesis using lun_inv_moves [OF inv n moved t(1)] by auto
  qed
qed

text \<open>Both LUNs of a die.\<close>

lemma lun_inv_start:
  assumes "lo + u \<le> hi" and "\<And>p. p < hi \<Longrightarrow> remappedPhyBlock (t p) = p"
  shows "lun_inv t lo u hi 0 (lo + u) 0"
  by (rule lun_invI) (use assms in \<open>auto simp: inj_on_def\<close>)

definition die_inv :: "'a ftl_config_scheme \<Rightarrow> nat \<Rightarrow> remap_die \<Rightarrow> bool" where
  "die_inv c n s \<longleftrightarrow> (\<exists>k0 k1.
     lun_inv (dieBlocks s) 0 (USER_BLOCKS_PER_LUN c) TOTAL_BLOCKS_PER_LUN n (reservedBlockOfLun0 s) k0 \<and>
     lun_inv (dieBlocks s) TOTAL_BLOCKS_PER_LUN (USER_BLOCKS_PER_LUN c) TOTAL_BLOCKS_PER_DIE n
       (reservedBlockOfLun1 s) k1 \<and>
     badBlockCount s = k0 + k1)"

lemma remap_die_block_inv:
  assumes wf: "wf_config c" and inv: "die_inv c n s" and n: "n < USER_BLOCKS_PER_LUN c"
  shows "die_inv c (Suc n) (remap_die_block n s)"
proof -
  let ?L = TOTAL_BLOCKS_PER_LUN and ?D = TOTAL_BLOCKS_PER_DIE and ?u = "USER_BLOCKS_PER_LUN c"
  have bounds: "?u \<le> ?L" "?L + ?u \<le> ?D" "?D < 65536" "?L < 65536"
    using wf by (auto simp: wf_config_def nand_consts)
  obtain k0 k1 where i0: "lun_inv (dieBlocks s) 0 ?u ?L n (reservedBlockOfLun0 s) k0"
    and i1: "lun_inv (dieBlocks s) ?L ?u ?D n (reservedBlockOfLun1 s) k1"
    and k: "badBlockCount s = k0 + k1" using inv unfolding die_inv_def by blast
  obtain t r0 m where s0: "remap_lun_block ?L n (dieBlocks s, reservedBlockOfLun0 s, badBlockCount s) = (t, r0, m)"
    by (metis prod_cases3)
  obtain t' r1 m' where s1: "remap_lun_block ?D (n + ?L) (t, reservedBlockOfLun1 s, m) = (t', r1, m')"
    by (metis prod_cases3)
  obtain k0' where j0: "lun_inv t 0 ?u ?L (Suc n) r0 k0'" "m + k0 = badBlockCount s + k0'"
    using remap_lun_block_inv [OF i0 n bounds(4), of "badBlockCount s"] s0 by auto
  have "lun_inv t ?L ?u ?D n (reservedBlockOfLun1 s) k1"
    using i1 lun_inv_cong [of ?L ?D t "dieBlocks s" ?u n] remap_lun_block_elsewhere [OF s0] n bounds by auto
  then obtain k1' where j1: "lun_inv t' ?L ?u ?D (Suc n) r1 k1'" "m' + k1 = m + k1'"
    using remap_lun_block_inv [OF _ n bounds(3), of t ?L "reservedBlockOfLun1 s" k1 m t' r1 m'] s1
    by (auto simp: add.commute)
  have "lun_inv t' 0 ?u ?L (Suc n) r0 k0'"
    using j0(1) lun_inv_cong [of 0 ?L t' t ?u "Suc n"] remap_lun_block_elsewhere [OF s1] n bounds by auto
  moreover have "remap_die_block n s =
      \<lparr>dieBlocks = t', reservedBlockOfLun0 = r0, reservedBlockOfLun1 = r1, badBlockCount = m'\<rparr>"
    by (simp add: remap_die_block_def s0 s1)
  moreover have "m' = k0' + k1'" using j0(2) j1(2) k by simp
  ultimately show ?thesis using j1(1) unfolding die_inv_def by auto
qed

lemma remap_die_inv:
  assumes wf: "wf_config c" and fresh: "\<And>p. p < TOTAL_BLOCKS_PER_DIE \<Longrightarrow> remappedPhyBlock (t p) = p"
    and "n \<le> USER_BLOCKS_PER_LUN c"
  shows "die_inv c n (fold remap_die_block [0..<n] (remap_start c t))"
  using assms(3)
proof (induction n)
  case 0
  have "USER_BLOCKS_PER_LUN c \<le> TOTAL_BLOCKS_PER_LUN" "TOTAL_BLOCKS_PER_LUN \<le> TOTAL_BLOCKS_PER_DIE"
    "TOTAL_BLOCKS_PER_LUN + USER_BLOCKS_PER_LUN c \<le> TOTAL_BLOCKS_PER_DIE"
    using wf by (auto simp: wf_config_def nand_consts)
  then show ?case
    using lun_inv_start [of 0 "USER_BLOCKS_PER_LUN c" TOTAL_BLOCKS_PER_LUN t]
      lun_inv_start [of TOTAL_BLOCKS_PER_LUN "USER_BLOCKS_PER_LUN c" TOTAL_BLOCKS_PER_DIE t] fresh
    by (auto simp: die_inv_def remap_start_def)
next
  case (Suc n)
  then show ?case using remap_die_block_inv [OF wf, of n] by simp
qed

lemma fold_array_for:
  "d < D \<Longrightarrow> fold (\<lambda>b. array_for D (\<lambda>d. g b)) bs st d = fold g bs (st d)"
  by (induction bs arbitrary: st) simp_all

lemma remap_die_bad: "phyBad (dieBlocks (fold remap_die_block bs s) p) = phyBad (dieBlocks s p)"
proof (induction bs arbitrary: s)
  case (Cons b bs)
  have "phyBad (dieBlocks (remap_die_block b s) p) = phyBad (dieBlocks s p)"
    by (auto simp: remap_die_block_def Let_def split: prod.splits dest: remap_lun_block_bad)
  then show ?case using Cons by simp
qed simp

lemma RemapBadBlock_die:
  assumes "d < USER_DIES c"
  shows "phyBlock (RemapBadBlock c pm) d =
    dieBlocks (fold remap_die_block [0..<USER_BLOCKS_PER_LUN c] (remap_start c (phyBlock pm d)))"
  using assms by (simp add: RemapBadBlock_def Let_def fold_array_for)

text \<open>The physical block that serves a block of the total block space.\<close>

definition user_phys :: "'a ftl_config_scheme \<Rightarrow> nat set" where
  "user_phys c = {0..<USER_BLOCKS_PER_LUN c} \<union>
     {TOTAL_BLOCKS_PER_LUN..<TOTAL_BLOCKS_PER_LUN + USER_BLOCKS_PER_LUN c}"

lemma die_inv_remap:
  assumes "die_inv c (USER_BLOCKS_PER_LUN c) s"
  shows "inj_on (\<lambda>p. remappedPhyBlock (dieBlocks s p)) (user_phys c)"
    and "p \<in> user_phys c \<Longrightarrow> remappedPhyBlock (dieBlocks s p) = p \<or>
      phyBad (dieBlocks s p) \<and> \<not> phyBad (dieBlocks s (remappedPhyBlock (dieBlocks s p))) \<and>
      remappedPhyBlock (dieBlocks s p) \<notin> user_phys c"
    and "p \<in> user_phys c \<Longrightarrow>
      remappedPhyBlock (dieBlocks s p) div TOTAL_BLOCKS_PER_LUN = p div TOTAL_BLOCKS_PER_LUN"
    and "\<lbrakk>p \<in> user_phys c; phyBad (dieBlocks s p); remappedPhyBlock (dieBlocks s p) = p;
      q < TOTAL_BLOCKS_PER_DIE; q div TOTAL_BLOCKS_PER_LUN = p div TOTAL_BLOCKS_PER_LUN; q \<notin> user_phys c;
      \<not> phyBad (dieBlocks s q)\<rbrakk> \<Longrightarrow> \<exists>p' \<in> user_phys c. remappedPhyBlock (dieBlocks s p') = q"
proof -
  let ?R = "\<lambda>p. remappedPhyBlock (dieBlocks s p)" and ?L = TOTAL_BLOCKS_PER_LUN and ?D = TOTAL_BLOCKS_PER_DIE
  let ?u = "USER_BLOCKS_PER_LUN c"
  obtain k0 k1 where i0: "lun_inv (dieBlocks s) 0 ?u ?L ?u (reservedBlockOfLun0 s) k0"
    and i1: "lun_inv (dieBlocks s) ?L ?u ?D ?u (reservedBlockOfLun1 s) k1"
    using assms unfolding die_inv_def by blast
  note I0 = lun_invD [OF i0] and I1 = lun_invD [OF i1]
  have D: "?D = 2 * ?L" "0 < ?L" by (simp_all add: nand_consts)
  have low: "?R p < ?L \<and> (?R p = p \<or> ?u \<le> ?R p \<and> phyBad (dieBlocks s p) \<and> \<not> phyBad (dieBlocks s (?R p)))"
    if "p < ?u" for p using I0(3) [of p] I0(1,2) that by auto
  have high: "?L \<le> ?R p \<and> ?R p < ?D \<and>
      (?R p = p \<or> ?L + ?u \<le> ?R p \<and> phyBad (dieBlocks s p) \<and> \<not> phyBad (dieBlocks s (?R p)))"
    if "?L \<le> p" "p < ?L + ?u" for p using I1(3) [of p] I1(1,2) that by auto
  have u: "?u \<le> ?L" using I0(1,2) by simp
  have split: "p \<in> user_phys c \<longleftrightarrow> p < ?u \<or> ?L \<le> p \<and> p < ?L + ?u" for p by (auto simp: user_phys_def)
  show "inj_on ?R (user_phys c)"
    unfolding user_phys_def
  proof (subst inj_on_Un, intro conjI)
    show "?R ` ({0..<?u} - {?L..<?L + ?u}) \<inter> ?R ` ({?L..<?L + ?u} - {0..<?u}) = {}"
      using low high by (fastforce simp: not_le [symmetric])
  qed (use I0(4) I1(4) in auto)
  show "?R p = p \<or> phyBad (dieBlocks s p) \<and> \<not> phyBad (dieBlocks s (?R p)) \<and> ?R p \<notin> user_phys c"
    if "p \<in> user_phys c" for p
    using that low [of p] high [of p] u unfolding split by auto
  have one: "x div ?L = 1" if "?L \<le> x" "x < 2 * ?L" for x
    using that D(2) by (simp add: div_nat_eqI)
  then show "?R p div ?L = p div ?L" if "p \<in> user_phys c" for p
    using that low [of p] high [of p] u D unfolding split by auto
  show "\<exists>p' \<in> user_phys c. ?R p' = q"
    if p: "p \<in> user_phys c" "phyBad (dieBlocks s p)" "?R p = p" and q: "q < ?D" "q div ?L = p div ?L"
      "q \<notin> user_phys c" "\<not> phyBad (dieBlocks s q)"
  proof (cases "p < ?u")
    case True
    then have "q < ?L" using q(2) u D by (metis div_eq_0_iff less_le_trans not_less0)
    moreover have "0 < k0"
      unfolding I0(5) using True p by (subst card_gt_0_iff) auto
    ultimately show ?thesis using I0(6) I0(7) [of q] q split by force
  next
    case False
    then have p': "?L \<le> p" "p < ?L + ?u" using p(1) split by auto
    then have "q div ?L = 1" using q(2) one [of p] u by simp
    then have "?L \<le> q" using D(2) by (metis div_less not_less zero_neq_one)
    moreover have "0 < k1"
      unfolding I1(5) using p p' by (subst card_gt_0_iff) auto
    ultimately show ?thesis using I1(6) I1(7) [of q] q split by force
  qed
qed

definition serving_block :: "'a ftl_config_scheme \<Rightarrow> phy_map \<Rightarrow> nat \<Rightarrow> nat \<Rightarrow> nat" where
  "serving_block c pm d b = remappedPhyBlock (phyBlock pm d (Vblock2PblockOfTbsTranslation c b))"

lemma Vblock2Pblock_user_phys:
  assumes "wf_config c"
  shows "Vblock2PblockOfTbsTranslation c ` {..<USER_BLOCKS_PER_DIE c} = user_phys c"
proof -
  let ?u = "USER_BLOCKS_PER_LUN c" and ?V = "Vblock2PblockOfTbsTranslation c"
  have u: "0 < ?u" and D: "USER_BLOCKS_PER_DIE c = ?u + ?u"
    using assms by (auto simp: wf_config_def USER_BLOCKS_PER_DIE_def nand_consts)
  have low: "?V b = b" if "b < ?u" for b using that by (simp add: Vblock2PblockOfTbsTranslation_def)
  have high: "?V (?u + b) = TOTAL_BLOCKS_PER_LUN + b" if "b < ?u" for b
    using that u by (simp add: Vblock2PblockOfTbsTranslation_def div_add_self1)
  have "{..<?u + ?u} = {0..<?u} \<union> (\<lambda>b. ?u + b) ` {0..<?u}"
    using lessThan_atLeast0 [of "?u + ?u"] ivl_disj_un_two(3) [of 0 ?u "?u + ?u"]
    by (simp add: image_add_atLeastLessThan)
  moreover have "?V ` {0..<?u} = {0..<?u}" using low by (auto simp: image_iff)
  moreover have "?V ` (\<lambda>b. ?u + b) ` {0..<?u} = (\<lambda>b. TOTAL_BLOCKS_PER_LUN + b) ` {0..<?u}"
    unfolding image_image by (rule image_cong) (simp_all add: high)
  ultimately show ?thesis
    unfolding user_phys_def D by (simp add: image_Un image_add_atLeastLessThan add.commute)
qed

lemma RemapBadBlock_facts:
  assumes wf: "wf_config c" and d: "d < USER_DIES c"
    and fresh: "\<And>p. p < TOTAL_BLOCKS_PER_DIE \<Longrightarrow> remappedPhyBlock (phyBlock pm d p) = p"
  shows "inj_on (\<lambda>p. remappedPhyBlock (phyBlock (RemapBadBlock c pm) d p)) (user_phys c)"
    and "phyBad (phyBlock (RemapBadBlock c pm) d p) = phyBad (phyBlock pm d p)"
    and "p \<in> user_phys c \<Longrightarrow> remappedPhyBlock (phyBlock (RemapBadBlock c pm) d p) = p \<or>
      phyBad (phyBlock pm d p) \<and> \<not> phyBad (phyBlock pm d (remappedPhyBlock (phyBlock (RemapBadBlock c pm) d p)))"
    and "\<lbrakk>p \<in> user_phys c; phyBad (phyBlock pm d p); remappedPhyBlock (phyBlock (RemapBadBlock c pm) d p) = p;
      q < TOTAL_BLOCKS_PER_DIE; q div TOTAL_BLOCKS_PER_LUN = p div TOTAL_BLOCKS_PER_LUN; q \<notin> user_phys c;
      \<not> phyBad (phyBlock pm d q)\<rbrakk> \<Longrightarrow>
      \<exists>p' \<in> user_phys c. remappedPhyBlock (phyBlock (RemapBadBlock c pm) d p') = q"
    and "p \<in> user_phys c \<Longrightarrow>
      remappedPhyBlock (phyBlock (RemapBadBlock c pm) d p) div TOTAL_BLOCKS_PER_LUN = p div TOTAL_BLOCKS_PER_LUN"
proof -
  let ?s = "fold remap_die_block [0..<USER_BLOCKS_PER_LUN c] (remap_start c (phyBlock pm d))"
  note D = die_inv_remap [OF remap_die_inv [OF wf, of "phyBlock pm d" "USER_BLOCKS_PER_LUN c"]]
  have bad: "phyBad (dieBlocks ?s p) = phyBad (phyBlock pm d p)" for p
    by (simp add: remap_die_bad remap_start_def)
  note eqs = RemapBadBlock_die [OF d] bad
  show "inj_on (\<lambda>p. remappedPhyBlock (phyBlock (RemapBadBlock c pm) d p)) (user_phys c)"
    using D(1) fresh by (simp add: eqs)
  show "phyBad (phyBlock (RemapBadBlock c pm) d p) = phyBad (phyBlock pm d p)" by (simp add: eqs)
  show "p \<in> user_phys c \<Longrightarrow> remappedPhyBlock (phyBlock (RemapBadBlock c pm) d p) = p \<or>
      phyBad (phyBlock pm d p) \<and> \<not> phyBad (phyBlock pm d (remappedPhyBlock (phyBlock (RemapBadBlock c pm) d p)))"
    using D(2) [of p] fresh by (auto simp: eqs)
  show "\<exists>p' \<in> user_phys c. remappedPhyBlock (phyBlock (RemapBadBlock c pm) d p') = q"
    if "p \<in> user_phys c" "phyBad (phyBlock pm d p)" "remappedPhyBlock (phyBlock (RemapBadBlock c pm) d p) = p"
      "q < TOTAL_BLOCKS_PER_DIE" "q div TOTAL_BLOCKS_PER_LUN = p div TOTAL_BLOCKS_PER_LUN" "q \<notin> user_phys c"
      "\<not> phyBad (phyBlock pm d q)"
    using D(4) [of p q] fresh that by (simp add: eqs)
  show "p \<in> user_phys c \<Longrightarrow>
      remappedPhyBlock (phyBlock (RemapBadBlock c pm) d p) div TOTAL_BLOCKS_PER_LUN = p div TOTAL_BLOCKS_PER_LUN"
    using D(3) [of p] fresh by (simp add: eqs)
qed

lemma serving_block_inj:
  assumes "wf_config c" and "d < USER_DIES c"
    and "\<And>p. p < TOTAL_BLOCKS_PER_DIE \<Longrightarrow> remappedPhyBlock (phyBlock pm d p) = p"
  shows "inj_on (serving_block c (RemapBadBlock c pm) d) {..<USER_BLOCKS_PER_DIE c}"
proof -
  let ?V = "Vblock2PblockOfTbsTranslation c" and ?B = "{..<USER_BLOCKS_PER_DIE c}"
  have "inj_on ((\<lambda>p. remappedPhyBlock (phyBlock (RemapBadBlock c pm) d p)) \<circ> ?V) ?B"
    by (rule comp_inj_on [OF Vblock2Pblock_inj(1) [OF assms(1)]])
      (use RemapBadBlock_facts(1) [OF assms] Vblock2Pblock_user_phys [OF assms(1)] in simp)
  then show ?thesis by (simp add: serving_block_def comp_def inj_on_def)
qed

text \<open>
  C17. Replacing bad blocks: afterwards no two user blocks of a die are served by the same physical
  block, a good block serves itself, and a user block is left with a bad physical block only when
  every good reserved block of its LUN already serves another one.
\<close>

theorem RemapBadBlock_sound:
  assumes "wf_config c" and "d < USER_DIES c"
    and "\<forall>p < TOTAL_BLOCKS_PER_DIE. remappedPhyBlock (phyBlock pm d p) = p"
  shows "inj_on (serving_block c (RemapBadBlock c pm) d) {..<USER_BLOCKS_PER_DIE c} \<and>
    (\<forall>b < USER_BLOCKS_PER_DIE c. \<forall>p. p = Vblock2PblockOfTbsTranslation c b \<longrightarrow>
       (\<not> phyBad (phyBlock pm d p) \<longrightarrow> serving_block c (RemapBadBlock c pm) d b = p) \<and>
       (phyBad (phyBlock pm d (serving_block c (RemapBadBlock c pm) d b)) \<longrightarrow>
          (\<forall>q < TOTAL_BLOCKS_PER_DIE. q \<notin> user_phys c \<and> \<not> phyBad (phyBlock pm d q) \<and>
             q div TOTAL_BLOCKS_PER_LUN = p div TOTAL_BLOCKS_PER_LUN \<longrightarrow>
             (\<exists>b' < USER_BLOCKS_PER_DIE c. serving_block c (RemapBadBlock c pm) d b' = q))))"
proof -
  let ?V = "Vblock2PblockOfTbsTranslation c" and ?B = "{..<USER_BLOCKS_PER_DIE c}"
  note F = RemapBadBlock_facts [OF assms(1,2), of pm] and img = Vblock2Pblock_user_phys [OF assms(1)]
  have fresh: "\<And>p. p < TOTAL_BLOCKS_PER_DIE \<Longrightarrow> remappedPhyBlock (phyBlock pm d p) = p" using assms(3) by simp
  have "inj_on (serving_block c (RemapBadBlock c pm) d) ?B"
    using serving_block_inj [OF assms(1,2) fresh] .
  moreover have mem: "?V b \<in> user_phys c" if "b < USER_BLOCKS_PER_DIE c" for b using that img by auto
  moreover have "\<exists>b' < USER_BLOCKS_PER_DIE c. serving_block c (RemapBadBlock c pm) d b' = q"
    if b: "b < USER_BLOCKS_PER_DIE c" "phyBad (phyBlock pm d (serving_block c (RemapBadBlock c pm) d b))"
      and q: "q < TOTAL_BLOCKS_PER_DIE" "q \<notin> user_phys c" "\<not> phyBad (phyBlock pm d q)"
      "q div TOTAL_BLOCKS_PER_LUN = ?V b div TOTAL_BLOCKS_PER_LUN" for b q
  proof -
    have "remappedPhyBlock (phyBlock (RemapBadBlock c pm) d (?V b)) = ?V b" "phyBad (phyBlock pm d (?V b))"
      using F(3) [OF fresh mem [OF b(1)]] b(2) unfolding serving_block_def by auto
    from F(4) [OF fresh mem [OF b(1)] this(2,1) q(1,4,2,3)]
    show ?thesis unfolding serving_block_def img [symmetric] by auto
  qed
  moreover have "serving_block c (RemapBadBlock c pm) d b = ?V b"
    if "b < USER_BLOCKS_PER_DIE c" "\<not> phyBad (phyBlock pm d (?V b))" for b
    using F(3) [OF fresh mem [OF that(1)]] that(2) unfolding serving_block_def by auto
  ultimately show ?thesis by blast
qed

definition one_bad_block :: phy_map where
  "one_bad_block = \<lparr>phyBlock = (\<lambda>d p. \<lparr>remappedPhyBlock = p, phyBad = (p = 0)\<rparr>),
     bbtInfo = (\<lambda>d. \<lparr>bbtPhyBlock = 0, grownBadUpdate = False\<rparr>), mbPerbadBlockSpace = 0\<rparr>"

theorem RemapBadBlock_sound_witness:
  "wf_config (cosmos_config 2) \<and>
   inj_on (serving_block (cosmos_config 2) (RemapBadBlock (cosmos_config 2) one_bad_block) 3)
     {..<USER_BLOCKS_PER_DIE (cosmos_config 2)} \<and>
   serving_block (cosmos_config 2) (RemapBadBlock (cosmos_config 2) one_bad_block) 3 5 = 5"
  using RemapBadBlock_sound [of "cosmos_config 2" 3 one_bad_block] wf_config_cosmos [of 2]
  by (simp add: one_bad_block_def cosmos_config_def USER_DIES_def USER_BLOCKS_PER_DIE_def nand_consts
      Vblock2PblockOfTbsTranslation_def)

section \<open>The tables at start-up\<close>

text \<open>
  The table part of \<^verbatim>\<open>InitAddressMap\<close> and \<^verbatim>\<open>InitGcVictimMap\<close> in the order of \<^verbatim>\<open>InitFTL\<close>, for the physical
  block table that bad block management left.
\<close>

definition startup_map :: "'a ftl_config_scheme \<Rightarrow> phy_map \<Rightarrow> addr_map \<Rightarrow> addr_map option" where
  "startup_map c pm m =
     do {
       let (m, d) = FindDieForFreeSliceAllocation c m;
       let m = InitDieMap c (InitSliceMap c (m\<lparr>sliceAllocationTargetDie := d\<rparr>));
       m \<leftarrow> InitCurrentBlockOfDieMap c (InitBlockMap c pm m);
       Some (InitGcVictimMap c m)
     }"

text \<open>The victim lists play no role until garbage collection starts, so they can be thought of as cleared first.\<close>

lemma InitGc_commute:
  "init_vblock c pm d b (InitGcVictimMap c m) = InitGcVictimMap c (init_vblock c pm d b m)"
  "InitDieMap c (InitGcVictimMap c m) = InitGcVictimMap c (InitDieMap c m)"
  "InitSliceMap c (InitGcVictimMap c m) = InitGcVictimMap c (InitSliceMap c m)"
  "init_current_block d (InitGcVictimMap c m) = map_option (InitGcVictimMap c) (init_current_block d m)"
proof -
  have upd: "upd_block d b f (InitGcVictimMap c m) = InitGcVictimMap c (upd_block d b f m)"
    "upd_die d g (InitGcVictimMap c m) = InitGcVictimMap c (upd_die d g m)"
    "block (InitGcVictimMap c m) = block m" "die (InitGcVictimMap c m) = die m" for d b f g m
    by (simp_all add: InitGcVictimMap_def upd_block_def upd_die_def)
  show "init_vblock c pm d b (InitGcVictimMap c m) = InitGcVictimMap c (init_vblock c pm d b m)"
    by (simp add: init_vblock_def PutToFbList_def Let_def upd if_distrib)
  show "init_current_block d (InitGcVictimMap c m) = map_option (InitGcVictimMap c) (init_current_block d m)"
    by (auto simp: init_current_block_def GetFromFbList_def Let_def upd split: get_free_block.splits)
  show "InitDieMap c (InitGcVictimMap c m) = InitGcVictimMap c (InitDieMap c m)"
    "InitSliceMap c (InitGcVictimMap c m) = InitGcVictimMap c (InitSliceMap c m)"
    by (simp_all add: InitGcVictimMap_def InitDieMap_def InitSliceMap_def)
qed

lemma blocks_ok_retire:
  assumes ok: "blocks_ok c m d Ls hand" and hand: "b \<in> hand"
    and f: "\<And>r. invalidSliceCnt (f r) = 0 \<and> prevBlock (f r) = BLOCK_NONE \<and> nextBlock (f r) = BLOCK_NONE"
  shows "blocks_ok c (upd_block d b f m) d Ls (hand - {b})"
proof -
  note D = blocks_okD [OF ok]
  have b: "b \<notin> set (Ls l)" for l using D(8) hand by auto
  have "lists_ok c (upd_block d b f m) d Ls" by (rule lists_ok_clear_links [OF D(1) b])
  moreover have "\<forall>x<USER_BLOCKS_PER_DIE c. x \<notin> hand - {b} \<longrightarrow>
      (\<forall>k. (x \<in> set (Ls (LVictim k))) = (0 < k \<and> invalidSliceCnt (block (upd_block d b f m) d x) = k))"
    using D(4) b f by auto
  moreover have "\<forall>x<USER_BLOCKS_PER_DIE c. x \<notin> hand - {b} \<longrightarrow> (\<forall>l. x \<notin> set (Ls l)) \<longrightarrow>
      prevBlock (block (upd_block d b f m) d x) = BLOCK_NONE \<and> nextBlock (block (upd_block d b f m) d x) = BLOCK_NONE"
    using D(6) f by auto
  ultimately show ?thesis using D(2,3,5,7,8) b unfolding blocks_ok_def by auto
qed

definition good_blocks :: "'a ftl_config_scheme \<Rightarrow> phy_map \<Rightarrow> nat \<Rightarrow> nat \<Rightarrow> nat list" where
  "good_blocks c pm d n = filter (\<lambda>b. \<not> phyBad (phyBlock pm d (serving_block c pm d b))) [0..<n]"

abbreviation free_only :: "nat list \<Rightarrow> block_list \<Rightarrow> nat list" where
  "free_only xs \<equiv> (\<lambda>l. [])(LFree := xs)"

text \<open>The first \<open>n\<close> blocks of a die are done, the others not yet looked at.\<close>

definition die_init_inv :: "'a ftl_config_scheme \<Rightarrow> phy_map \<Rightarrow> nat \<Rightarrow> nat \<Rightarrow> addr_map \<Rightarrow> bool" where
  "die_init_inv c pm d n m \<longleftrightarrow>
     blocks_ok c m d (free_only (good_blocks c pm d n)) {n..<USER_BLOCKS_PER_DIE c} \<and>
     (\<forall>b < n. currentPage (block m d b) = 0 \<and> invalidSliceCnt (block m d b) = 0)"

lemma init_vblock_inv:
  assumes wf: "wf_config c" and inv: "die_init_inv c pm d n m" and n: "n < USER_BLOCKS_PER_DIE c"
  shows "die_init_inv c pm d (Suc n) (init_vblock c pm d n m)"
proof -
  let ?isBad = "phyBad (phyBlock pm d (serving_block c pm d n))"
  let ?f = "\<lambda>r. r\<lparr>bad := ?isBad, free := True, invalidSliceCnt := 0, currentPage := 0, eraseCnt := 0\<rparr>"
  let ?g = "\<lambda>r. (?f r)\<lparr>prevBlock := BLOCK_NONE, nextBlock := BLOCK_NONE\<rparr>"
  have ok: "blocks_ok c m d (free_only (good_blocks c pm d n)) {n..<USER_BLOCKS_PER_DIE c}"
    using inv by (simp add: die_init_inv_def)
  have hand: "n \<in> {n..<USER_BLOCKS_PER_DIE c}" "{n..<USER_BLOCKS_PER_DIE c} - {n} = {Suc n..<USER_BLOCKS_PER_DIE c}"
    using n by auto
  have eq: "init_vblock c pm d n m = (if ?isBad then upd_block d n ?g m else PutToFbList d n (upd_block d n ?f m))"
    by (simp add: init_vblock_def serving_block_def Let_def upd_block_def)
  have "blocks_ok c (init_vblock c pm d n m) d (free_only (good_blocks c pm d (Suc n))) {Suc n..<USER_BLOCKS_PER_DIE c}"
  proof (cases ?isBad)
    case True
    then show ?thesis
      using blocks_ok_retire [OF ok hand(1), of ?g, unfolded hand(2)] by (simp add: eq good_blocks_def)
  next
    case False
    then show ?thesis
      using blocks_ok_put_free [OF wf ok hand(1), of ?f, unfolded hand(2)] by (simp add: eq good_blocks_def)
  qed
  then show ?thesis using inv unfolding die_init_inv_def eq by (auto simp: less_Suc_eq)
qed

lemma init_vblock_frame:
  "logicalSlice (init_vblock c pm d b m) = logicalSlice m" "virtualSlice (init_vblock c pm d b m) = virtualSlice m"
  "gcVictimList (init_vblock c pm d b m) = gcVictimList m" "targetCh (init_vblock c pm d b m) = targetCh m"
  "targetWay (init_vblock c pm d b m) = targetWay m"
  "sliceAllocationTargetDie (init_vblock c pm d b m) = sliceAllocationTargetDie m"
  "d' \<noteq> d \<Longrightarrow> block (init_vblock c pm d b m) d' = block m d'"
  "d' \<noteq> d \<Longrightarrow> die (init_vblock c pm d b m) d' = die m d'"
  by (simp_all add: init_vblock_def Let_def PutToFb_other)

lemma die_init_start:
  assumes "headFreeBlock (die m d) = BLOCK_NONE" "tailFreeBlock (die m d) = BLOCK_NONE" "freeBlockCnt (die m d) = 0"
    and "\<And>k. k \<le> SLICES_PER_BLOCK c \<Longrightarrow> gcVictimList m d k = \<lparr>headBlock = BLOCK_NONE, tailBlock = BLOCK_NONE\<rparr>"
  shows "die_init_inv c pm d 0 m"
proof -
  have "dll BLOCK_NONE (lview m d l) []" if "valid_l c l" for l
    using that assms by (cases l) (simp_all add: lview_def)
  then have "lists_ok c m d (free_only [])" by (simp add: lists_ok_def)
  then show ?thesis using assms(3) by (auto simp: die_init_inv_def blocks_ok_def good_blocks_def)
qed

lemma die_init_inv_cong:
  assumes "die_init_inv c pm d n m" and "block m' d = block m d" and "die m' d = die m d"
    and "gcVictimList m' d = gcVictimList m d"
  shows "die_init_inv c pm d n m'"
  using assms(1,2) blocks_ok_other [OF _ assms(2-4)] by (auto simp: die_init_inv_def)

text \<open>The loop over the blocks of one die, and over the dies.\<close>

lemma init_die_loop:
  assumes wf: "wf_config c" and inv: "die_init_inv c pm d 0 m" and n: "n \<le> USER_BLOCKS_PER_DIE c"
  shows "die_init_inv c pm d n (fold (init_vblock c pm d) [0..<n] m)"
  using n by (induction n) (simp_all add: inv init_vblock_inv [OF wf])

definition init_frame :: "addr_map \<Rightarrow> addr_map \<Rightarrow> bool" where
  "init_frame m m' \<longleftrightarrow> logicalSlice m' = logicalSlice m \<and> virtualSlice m' = virtualSlice m \<and>
     gcVictimList m' = gcVictimList m \<and> targetCh m' = targetCh m \<and> targetWay m' = targetWay m \<and>
     sliceAllocationTargetDie m' = sliceAllocationTargetDie m"

lemma init_die_frame:
  "init_frame m (fold (init_vblock c pm d) bs m)"
  "d' \<noteq> d \<Longrightarrow> block (fold (init_vblock c pm d) bs m) d' = block m d'"
  "d' \<noteq> d \<Longrightarrow> die (fold (init_vblock c pm d) bs m) d' = die m d'"
  by (induction bs arbitrary: m) (simp_all add: init_frame_def init_vblock_frame)

lemma InitBlockMap_dies:
  assumes wf: "wf_config c" and inv: "\<And>d. d < USER_DIES c \<Longrightarrow> die_init_inv c pm d 0 m" and "n \<le> USER_DIES c"
  defines "loop \<equiv> \<lambda>n. fold (\<lambda>d. fold (init_vblock c pm d) [0..<USER_BLOCKS_PER_DIE c]) [0..<n] m"
  shows "init_frame m (loop n) \<and> (\<forall>d < n. die_init_inv c pm d (USER_BLOCKS_PER_DIE c) (loop n)) \<and>
    (\<forall>d. n \<le> d \<longrightarrow> block (loop n) d = block m d \<and> die (loop n) d = die m d)"
  using assms(3)
proof (induction n)
  case 0
  show ?case by (simp add: loop_def init_frame_def)
next
  case (Suc n)
  let ?m = "loop n" and ?m' = "fold (init_vblock c pm n) [0..<USER_BLOCKS_PER_DIE c] (loop n)"
  have loop: "loop (Suc n) = ?m'" by (simp add: loop_def)
  have IH: "init_frame m ?m" "\<And>d. d < n \<Longrightarrow> die_init_inv c pm d (USER_BLOCKS_PER_DIE c) ?m"
    "\<And>d. n \<le> d \<Longrightarrow> block ?m d = block m d \<and> die ?m d = die m d" using Suc by auto
  have "die_init_inv c pm n 0 ?m"
    by (rule die_init_inv_cong [OF inv]) (use Suc.prems IH in \<open>auto simp: init_frame_def\<close>)
  then have "die_init_inv c pm n (USER_BLOCKS_PER_DIE c) ?m'" by (rule init_die_loop [OF wf]) simp
  moreover have "die_init_inv c pm d (USER_BLOCKS_PER_DIE c) ?m'" if "d < n" for d
    using die_init_inv_cong [OF IH(2) [OF that], of ?m'] init_die_frame(1) [of ?m c pm n] that
    by (auto simp: init_frame_def init_die_frame(2,3))
  moreover have "init_frame m ?m'" using IH(1) init_die_frame(1) [of ?m c pm n] by (auto simp: init_frame_def)
  ultimately show ?case using IH(3) unfolding loop by (auto simp: less_Suc_eq init_die_frame(2,3))
qed

text \<open>Every die then takes its first good block as the current block.\<close>

lemma init_current_block_ok:
  assumes wf: "wf_config c" and inv: "die_init_inv c pm d (USER_BLOCKS_PER_DIE c) m"
    and good: "2 \<le> length (good_blocks c pm d (USER_BLOCKS_PER_DIE c))"
  shows "\<exists>b. init_current_block d m = Some (take_current d b m) \<and>
    die_ok c (take_current d b m) d (free_only (tl (good_blocks c pm d (USER_BLOCKS_PER_DIE c)))) {}"
proof -
  let ?g = "good_blocks c pm d (USER_BLOCKS_PER_DIE c)"
  obtain b xs where F: "?g = b # xs" using good by (cases ?g) auto
  have ok: "blocks_ok c m d (free_only ?g) {}" using inv by (simp add: die_init_inv_def)
  note D = blocks_okD [OF ok]
  have "headFreeBlock (die m d) = b" using lists_ok_head [OF D(1), of LFree] F by simp
  moreover have "b \<noteq> BLOCK_NONE" using block_not_NONE [OF wf D(2) [of b LFree]] F by simp
  ultimately have "init_current_block d m = Some (take_current d b m)"
    using D(3) good by (simp add: init_current_block_def GetFromFbList_eq RESERVED_FREE_BLOCK_COUNT_def take_current_def)
  then show ?thesis using die_ok_take_current [OF wf ok, of b xs] F by auto
qed

definition die_started :: "'a ftl_config_scheme \<Rightarrow> phy_map \<Rightarrow> nat \<Rightarrow> addr_map \<Rightarrow> bool" where
  "die_started c pm d m \<longleftrightarrow>
     die_ok c m d (free_only (tl (good_blocks c pm d (USER_BLOCKS_PER_DIE c)))) {} \<and>
     (\<forall>b < USER_BLOCKS_PER_DIE c. currentPage (block m d b) = 0 \<and> invalidSliceCnt (block m d b) = 0)"

lemma InitCurrentBlock_dies:
  assumes wf: "wf_config c" and inv: "\<And>d. d < USER_DIES c \<Longrightarrow> die_init_inv c pm d (USER_BLOCKS_PER_DIE c) m"
    and good: "\<And>d. d < USER_DIES c \<Longrightarrow> 2 \<le> length (good_blocks c pm d (USER_BLOCKS_PER_DIE c))"
    and "n \<le> USER_DIES c"
  shows "\<exists>m'. ofold init_current_block [0..<n] m = Some m' \<and> init_frame m m' \<and>
    (\<forall>d < n. die_started c pm d m') \<and> (\<forall>d. n \<le> d \<longrightarrow> block m' d = block m d \<and> die m' d = die m d)"
  using assms(4)
proof (induction n)
  case 0
  show ?case by (simp add: init_frame_def)
next
  case (Suc n)
  then obtain m1 where IH: "ofold init_current_block [0..<n] m = Some m1" "init_frame m m1"
    "\<And>d. d < n \<Longrightarrow> die_started c pm d m1"
    "\<And>d. n \<le> d \<Longrightarrow> block m1 d = block m d \<and> die m1 d = die m d" by auto
  have inv1: "die_init_inv c pm n (USER_BLOCKS_PER_DIE c) m1"
    by (rule die_init_inv_cong [OF inv]) (use Suc.prems IH in \<open>auto simp: init_frame_def\<close>)
  then obtain b where b: "init_current_block n m1 = Some (take_current n b m1)"
    "die_ok c (take_current n b m1) n (free_only (tl (good_blocks c pm n (USER_BLOCKS_PER_DIE c)))) {}"
    using init_current_block_ok [OF wf inv1] good Suc.prems by auto
  have "die_started c pm n (take_current n b m1)"
    using b(2) inv1 by (simp add: die_started_def die_init_inv_def)
  moreover have "die_started c pm d (take_current n b m1)" if "d < n" for d
    using IH(3) [OF that] that die_ok_other [of c m1 d _ _ "take_current n b m1"]
    by (simp add: die_started_def take_current_other)
  moreover have "init_frame m (take_current n b m1)" using IH(2) by (simp add: init_frame_def)
  ultimately show ?case
    using IH(1,4) b(1) by (auto simp: ofold_append less_Suc_eq take_current_other)
qed

lemma ofold_InitGc:
  "ofold init_current_block ds (InitGcVictimMap c m) = map_option (InitGcVictimMap c) (ofold init_current_block ds m)"
proof (induction ds arbitrary: m)
  case (Cons d ds)
  then show ?case by (cases "init_current_block d m") (simp_all add: InitGc_commute)
qed simp

lemma startup_map_eq:
  "startup_map c pm m =
     (let (m1, d) = FindDieForFreeSliceAllocation c m in
      InitCurrentBlockOfDieMap c (InitBlockMap c pm
        (InitDieMap c (InitSliceMap c (InitGcVictimMap c (m1\<lparr>sliceAllocationTargetDie := d\<rparr>))))))"
proof -
  have inner: "fold (init_vblock c pm d) bs (InitGcVictimMap c x) = InitGcVictimMap c (fold (init_vblock c pm d) bs x)"
    for d bs x by (induction bs arbitrary: x) (simp_all add: InitGc_commute)
  have outer: "fold (\<lambda>d. fold (init_vblock c pm d) bs) ds (InitGcVictimMap c x) =
      InitGcVictimMap c (fold (\<lambda>d. fold (init_vblock c pm d) bs) ds x)" for bs ds x
    by (induction ds arbitrary: x) (simp_all add: inner)
  show ?thesis
    by (simp add: startup_map_def InitBlockMap_def InitCurrentBlockOfDieMap_def InitGc_commute outer ofold_InitGc
        split_beta Let_def map_option_case split: option.splits)
qed

lemma startup_map_inv:
  assumes wf: "wf_config c" and rr: "rr_ok c m"
    and good: "\<And>d. d < USER_DIES c \<Longrightarrow> 2 \<le> length (good_blocks c pm d (USER_BLOCKS_PER_DIE c))"
  shows "\<exists>m'. startup_map c pm m = Some m' \<and>
    ftl_ok c m' (\<lambda>d. free_only (tl (good_blocks c pm d (USER_BLOCKS_PER_DIE c)))) \<and>
    (\<forall>l < SLICES_PER_SSD c. logicalSlice m' l = VSA_NONE) \<and>
    (\<forall>d < USER_DIES c. \<forall>b < USER_BLOCKS_PER_DIE c. currentPage (block m' d b) = 0)"
proof -
  let ?g = "\<lambda>d. good_blocks c pm d (USER_BLOCKS_PER_DIE c)"
  obtain m1 t where find: "FindDieForFreeSliceAllocation c m = (m1, t)" by fastforce
  note step = FindDie_step [OF wf rr, unfolded find, simplified]
  let ?m2 = "InitDieMap c (InitSliceMap c (InitGcVictimMap c (m1\<lparr>sliceAllocationTargetDie := t\<rparr>)))"
  let ?m3 = "InitBlockMap c pm ?m2"
  have "die_init_inv c pm d 0 ?m2" if "d < USER_DIES c" for d
    by (rule die_init_start) (use that in \<open>simp_all add: InitDieMap_def InitSliceMap_def InitGcVictimMap_def\<close>)
  from InitBlockMap_dies [OF wf this le_refl]
  have b: "init_frame ?m2 ?m3" "\<And>d. d < USER_DIES c \<Longrightarrow> die_init_inv c pm d (USER_BLOCKS_PER_DIE c) ?m3"
    by (simp_all add: InitBlockMap_def)
  from InitCurrentBlock_dies [OF wf b(2) good le_refl]
  obtain m' where m': "InitCurrentBlockOfDieMap c ?m3 = Some m'" "init_frame ?m3 m'"
    "\<And>d. d < USER_DIES c \<Longrightarrow> die_started c pm d m'" by (auto simp: InitCurrentBlockOfDieMap_def)
  have run: "startup_map c pm m = Some m'" by (simp add: startup_map_eq find m'(1))
  have fr: "logicalSlice m' = logicalSlice ?m2" "virtualSlice m' = virtualSlice ?m2" "targetCh m' = targetCh m1"
    "targetWay m' = targetWay m1" "sliceAllocationTargetDie m' = t"
    using b(1) m'(2) by (simp_all add: init_frame_def InitDieMap_def InitSliceMap_def InitGcVictimMap_def)
  have L: "logicalSlice m' l = VSA_NONE" "virtualSlice m' l = LSA_NONE" if "l < SLICES_PER_SSD c" for l
    using that by (simp_all add: fr InitDieMap_def InitSliceMap_def)
  have z: "currentPage (block m' d x) = 0 \<and> invalidSliceCnt (block m' d x) = 0"
    if "d < USER_DIES c" "x < USER_BLOCKS_PER_DIE c" for d x
    using m'(3) that by (simp add: die_started_def)
  have "map_ok c m' no_hand"
    unfolding map_ok_def using L z Vorg2Vsa_parts(1) [OF wf] by (simp add: inv_pages_def)
  then have "ftl_inv c m' (\<lambda>d. free_only (tl (?g d))) no_hand"
    using m'(3) by (simp add: ftl_inv_def die_started_def)
  moreover have "tl (?g d) \<noteq> []" if "d < USER_DIES c" for d using good [OF that] by (cases "?g d") auto
  moreover have "rr_ok c m'" using step(2) by (simp add: rr_ok_def fr)
  moreover have "t < USER_DIES c" using step(1) rr by (simp add: rr_pos_def rr_ok_def Pcw2Vdie_parts(1))
  ultimately have "ftl_ok c m' (\<lambda>d. free_only (tl (?g d)))" by (simp add: ftl_ok_def fr(5))
  then show ?thesis using run L z by blast
qed

end
