(* ===== verification/Mapping_Theorems.thy ===== *)
theory Mapping_Theorems
  imports Block_Remap
begin

text \<open>
  The conclusions on the address tables: start-up establishes their invariant, a slice write and
  a garbage collection keep it and lose no slice, and the one case in which a collection breaks
  it.
\<close>

text \<open>
  An example: blocks 0 and 2 of every die are full and hold only stale slices, block 1 is free, and the current
  block is one of the two stale ones.
\<close>

definition stale_blocks :: "'a ftl_config_scheme \<Rightarrow> nat \<Rightarrow> addr_map" where
  "stale_blocks c cur =
     \<lparr>logicalSlice = (\<lambda>_. VSA_NONE), virtualSlice = (\<lambda>_. LSA_NONE),
      block = (\<lambda>_ b. \<lparr>bad = False, free = (b = 1),
        invalidSliceCnt = (if b = 0 \<or> b = 2 then SLICES_PER_BLOCK c else 0),
        currentPage = (if b = 0 \<or> b = 2 then USER_PAGES_PER_BLOCK c else 0), eraseCnt = 0,
        prevBlock = (if b = 2 then 0 else BLOCK_NONE), nextBlock = (if b = 0 then 2 else BLOCK_NONE)\<rparr>),
      die = (\<lambda>_. \<lparr>currentBlock = cur, headFreeBlock = 1, tailFreeBlock = 1, freeBlockCnt = 1\<rparr>),
      gcVictimList = (\<lambda>_ k. if k = SLICES_PER_BLOCK c then \<lparr>headBlock = 0, tailBlock = 2\<rparr>
                            else \<lparr>headBlock = BLOCK_NONE, tailBlock = BLOCK_NONE\<rparr>),
      sliceAllocationTargetDie = 0, targetCh = 0, targetWay = 0\<rparr>"

definition stale_lists :: "'a ftl_config_scheme \<Rightarrow> nat \<Rightarrow> block_list \<Rightarrow> nat list" where
  "stale_lists c d l = (if l = LFree then [1] else if l = LVictim (SLICES_PER_BLOCK c) then [0, 2] else [])"

lemma stale_blocks_inv:
  assumes wf: "wf_config c" and three: "3 \<le> USER_BLOCKS_PER_DIE c" and cur: "cur = 0 \<or> cur = 2"
  shows "ftl_inv c (stale_blocks c cur) (stale_lists c) no_hand"
proof -
  let ?m = "stale_blocks c cur"
  have n: "0 < USER_PAGES_PER_BLOCK c" using USER_PAGES_PER_BLOCK_pos [OF wf] .
  have "\<not> page_valid ?m v" for v by (simp add: page_valid_def stale_blocks_def)
  then have "inv_pages c ?m d b = {..<currentPage (block ?m d b)}" for d b by (auto simp: inv_pages_def)
  then have M: "map_ok c ?m no_hand" by (simp add: map_ok_def stale_blocks_def)
  have "dll BLOCK_NONE (lview ?m d l) (stale_lists c d l)" if "valid_l c l" for d l
    using that by (cases l) (auto simp: lview_def stale_lists_def stale_blocks_def BLOCK_NONE_def)
  then have "lists_ok c ?m d (stale_lists c d)" for d
    by (auto simp: lists_ok_def stale_lists_def)
  moreover have vict: "b \<in> set (stale_lists c d (LVictim k)) \<longleftrightarrow> 0 < k \<and> invalidSliceCnt (block ?m d b) = k" for d b k
    using n by (cases "b = 0 \<or> b = 2") (auto simp: stale_lists_def stale_blocks_def)
  moreover have "set (stale_lists c d l) \<subseteq> {..<USER_BLOCKS_PER_DIE c}" for d l
    using three by (auto simp: stale_lists_def)
  moreover have "b \<noteq> 0 \<and> b \<noteq> 2" if "\<forall>l. b \<notin> set (stale_lists c d l)" for d b
    using that [rule_format, of "LVictim (SLICES_PER_BLOCK c)"] by (simp add: stale_lists_def)
  then have "\<forall>b. (\<forall>l. b \<notin> set (stale_lists c d l)) \<longrightarrow>
      prevBlock (block ?m d b) = BLOCK_NONE \<and> nextBlock (block ?m d b) = BLOCK_NONE" for d
    by (auto simp: stale_blocks_def)
  moreover have "stale_lists c d LFree = [1]" "freeBlockCnt (die ?m d) = 1" "currentBlock (die ?m d) = cur"
    "invalidSliceCnt (block ?m d 1) = 0" "currentPage (block ?m d 1) = 0" for d
    by (simp_all add: stale_lists_def stale_blocks_def)
  moreover have "cur < USER_BLOCKS_PER_DIE c \<and> cur \<noteq> 1" using three cur by auto
  ultimately have "die_ok c ?m d (stale_lists c d) {}" for d
    unfolding die_ok_def blocks_ok_def by simp
  then show ?thesis using M by (simp add: ftl_inv_def)
qed

lemma stale_blocks_victim:
  assumes "wf_config c"
  shows "\<exists>m. GetFromGcVictimList c d (stale_blocks c cur) = Some (m, 0)"
    and "gc_hits_current c d (stale_blocks c cur) \<longleftrightarrow> cur = 0"
proof -
  obtain k where "USER_PAGES_PER_BLOCK c = Suc k" using USER_PAGES_PER_BLOCK_pos [OF assms] gr0_implies_Suc by blast
  then show "\<exists>m. GetFromGcVictimList c d (stale_blocks c cur) = Some (m, 0)"
    "gc_hits_current c d (stale_blocks c cur) \<longleftrightarrow> cur = 0"
    by (auto simp: gc_hits_current_def GetFromGcVictimList_def stale_blocks_def BLOCK_NONE_def Let_def)
qed

lemma stale_example:
  "ftl_inv (cosmos_config 2) (stale_blocks (cosmos_config 2) 0) (stale_lists (cosmos_config 2)) no_hand"
  "ftl_inv (cosmos_config 2) (stale_blocks (cosmos_config 2) 2) (stale_lists (cosmos_config 2)) no_hand"
  "3 < USER_DIES (cosmos_config 2)"
proof -
  have "3 \<le> USER_BLOCKS_PER_DIE (cosmos_config 2)" by (simp add: USER_BLOCKS_PER_DIE_def cosmos_config_def nand_consts)
  moreover have "wf_config (cosmos_config 2)" by (rule wf_config_cosmos) simp_all
  ultimately show
    "ftl_inv (cosmos_config 2) (stale_blocks (cosmos_config 2) 0) (stale_lists (cosmos_config 2)) no_hand"
    "ftl_inv (cosmos_config 2) (stale_blocks (cosmos_config 2) 2) (stale_lists (cosmos_config 2)) no_hand"
    by (auto intro: stale_blocks_inv)
  show "3 < USER_DIES (cosmos_config 2)" by (simp add: USER_DIES_def cosmos_config_def)
qed

text \<open>
  C23. Start-up: whatever bad block management found, as long as every die has two good user
  blocks the table part of start-up succeeds, no slice is mapped, and the tables satisfy the
  invariant with the good blocks of each die, but its first, on the free list in order.
\<close>

theorem startup_establishes:
  assumes "wf_config c" and "rr_ok c m"
    and "\<forall>d < USER_DIES c. 2 \<le> length (good_blocks c pm d (USER_BLOCKS_PER_DIE c))"
  shows "\<exists>m'. startup_map c pm m = Some m' \<and>
    ftl_ok c m' (\<lambda>d. free_only (tl (good_blocks c pm d (USER_BLOCKS_PER_DIE c)))) \<and>
    (\<forall>l < SLICES_PER_SSD c. AddrTransRead c l m' = Some VSA_FAIL)"
  using startup_map_inv [OF assms(1,2), of pm] assms(3) by (auto simp: AddrTransRead_def)

lemma good_blocks_one_bad:
  assumes "n \<le> USER_BLOCKS_PER_LUN c" and "2 < n"
  shows "2 \<le> length (good_blocks c one_bad_block d n)"
proof -
  have "serving_block c one_bad_block d b = b" if "b < n" for b
    using that assms by (simp add: serving_block_def one_bad_block_def Vblock2PblockOfTbsTranslation_def)
  then have "good_blocks c one_bad_block d n = filter (\<lambda>b. b \<noteq> 0) [0..<n]"
    unfolding good_blocks_def by (intro filter_cong) (auto simp: one_bad_block_def)
  also have "[0..<n] = 0 # 1 # 2 # [3..<n]" using assms(2) by (simp add: upt_conv_Cons numeral_eq_Suc)
  finally show ?thesis by simp
qed

lemma good_blocks_mono: "n \<le> k \<Longrightarrow> length (good_blocks c pm d n) \<le> length (good_blocks c pm d k)"
  using upt_add_eq_append [of 0 n "k - n"] by (simp add: good_blocks_def)

lemma startup_example:
  "wf_config (cosmos_config 2)" "rr_ok (cosmos_config 2) (blank_addr_map 0 0)"
  "\<forall>d < USER_DIES (cosmos_config 2).
     2 \<le> length (good_blocks (cosmos_config 2) one_bad_block d (USER_BLOCKS_PER_DIE (cosmos_config 2)))"
proof -
  show "wf_config (cosmos_config 2)" by (rule wf_config_cosmos) simp_all
  show "rr_ok (cosmos_config 2) (blank_addr_map 0 0)"
    by (simp add: rr_ok_def cosmos_config_def blank_addr_map_def)
  have "3 \<le> USER_BLOCKS_PER_DIE (cosmos_config 2)" "3 \<le> USER_BLOCKS_PER_LUN (cosmos_config 2)"
    by (simp_all add: USER_BLOCKS_PER_DIE_def cosmos_config_def nand_consts)
  then show "\<forall>d < USER_DIES (cosmos_config 2).
      2 \<le> length (good_blocks (cosmos_config 2) one_bad_block d (USER_BLOCKS_PER_DIE (cosmos_config 2)))"
    using good_blocks_one_bad [of 3 "cosmos_config 2"] good_blocks_mono [of 3] le_trans by (metis eval_nat_numeral(3) lessI)
qed

theorem startup_establishes_witness:
  "\<exists>m'. startup_map (cosmos_config 2) one_bad_block (blank_addr_map 0 0) = Some m' \<and>
     AddrTransRead (cosmos_config 2) 5 m' = Some VSA_FAIL"
proof -
  have "(5::nat) < SLICES_PER_SSD (cosmos_config 2)"
    by (simp add: SLICES_PER_SSD_product USER_DIES_def USER_BLOCKS_PER_DIE_def USER_PAGES_PER_BLOCK_def
        cosmos_config_def nand_consts)
  then show ?thesis using startup_establishes [OF startup_example] by blast
qed





text \<open>
  C28. A victim that is the block being filled and holds only stale slices is erased and put on the free
  list while it stays the current block of the die; no lists and no set of blocks in hand make the
  resulting tables consistent.
\<close>

theorem GarbageCollection_frees_current_block:
  assumes "wf_config c" and "ftl_inv c m Ls no_hand" and "d < USER_DIES c" and "gc_hits_current c d m"
  shows "\<exists>m'. GarbageCollection_map c d m = Some m' \<and>
    tailFreeBlock (die m' d) = currentBlock (die m' d) \<and> (\<forall>Ls' hand. \<not> ftl_inv c m' Ls' hand)"
proof -
  let ?n = "SLICES_PER_BLOCK c" and ?b = "currentBlock (die m d)"
  obtain m1 where get: "GetFromGcVictimList c d m = Some (m1, ?b)" and full: "invalidSliceCnt (block m d ?b) = ?n"
    using assms(4) by (auto simp: gc_hits_current_def split: option.splits)
  obtain j where "0 < j" "j \<le> ?n" "Ls d (LVictim j) \<noteq> []"
    using GetFromGc_some [OF die_okD(1) [OF ftl_invD(1) [OF assms(2,3)]]] get by blast
  from GetFromGc_inv [OF assms(2,3) this] get obtain k where m1: "m1 = gc_pop d k m" by auto
  let ?m' = "EraseBlock_map c d ?b m1"
  have run: "GarbageCollection_map c d m = Some ?m'" using get full m1 by (simp add: GarbageCollection_map_def)
  have cur: "currentBlock (die ?m' d) = ?b" by (simp add: EraseBlock_map_eq erase_entry_def m1)
  have tail: "tailFreeBlock (die ?m' d) = ?b"
    by (simp add: EraseBlock_map_eq erase_entry_def PutToFbList_def Let_def)
  have ne: "?b \<noteq> BLOCK_NONE" using block_not_NONE [OF assms(1) die_okD(7) [OF ftl_invD(1) [OF assms(2,3)]]] .
  have "\<not> ftl_inv c ?m' Ls' hand" for Ls' hand
  proof
    assume "ftl_inv c ?m' Ls' hand"
    then have D: "die_ok c ?m' d (Ls' d) (hand d)" using ftl_invD(1) [OF _ assms(3)] by blast
    have "dll BLOCK_NONE (lview ?m' d LFree) (Ls' d LFree)" using lists_ok_dll [OF die_okD(1) [OF D]] by simp
    then have "?b \<in> set (Ls' d LFree)" using tail ne by (auto simp: lview_def split: if_splits)
    then show False using die_okD(8) [OF D] cur by simp
  qed
  then show ?thesis using run cur tail by auto
qed

theorem GarbageCollection_frees_current_block_witness:
  "\<exists>m'. GarbageCollection_map (cosmos_config 2) 3 (stale_blocks (cosmos_config 2) 0) = Some m' \<and>
    tailFreeBlock (die m' 3) = currentBlock (die m' 3)"
  using GarbageCollection_frees_current_block [OF startup_example(1) stale_example(1,3)]
    stale_blocks_victim(2) [OF startup_example(1)] by blast

end
