(* ===== verification/Data_Buffer_Ccmd.thy ===== *)
theory Data_Buffer_Ccmd
  imports Data_Buffer
begin

text \<open>
  The read buffer (R-Buf) of \<^verbatim>\<open>data_buffer_ccmd.[ch]\<close>: a second, much smaller buffer with the
  structure of the data buffer, which receives the slices that miss on a read. Its lookup
  keeps the neighbours of the entry in local variables; that this makes no difference to the
  data buffer's own lookup is proved here, and the buffer is shown to be a slice cache.
\<close>

definition AVAILABLE_CCMD_DATA_BUFFER_ENTRY_COUNT :: "'a ftl_config_scheme \<Rightarrow> nat" where
  "AVAILABLE_CCMD_DATA_BUFFER_ENTRY_COUNT c = 1 * USER_DIES c"

definition FindCcmdDataBufHashTableEntry :: "'a ftl_config_scheme \<Rightarrow> nat \<Rightarrow> nat" where
  "FindCcmdDataBufHashTableEntry c lsa = lsa mod AVAILABLE_CCMD_DATA_BUFFER_ENTRY_COUNT c"

definition InitCcmdDataBuf :: "'a ftl_config_scheme \<Rightarrow> data_buf \<Rightarrow> data_buf" where
  "InitCcmdDataBuf c b = buf_init (AVAILABLE_CCMD_DATA_BUFFER_ENTRY_COUNT c) b"

definition CheckCcmdDataBufHit_unlink :: "nat \<Rightarrow> data_buf \<Rightarrow> data_buf" where
  "CheckCcmdDataBufHit_unlink e b =
     (let prevBufEntry = prevEntry (dataBuf b e);
          nextBufEntry = nextEntry (dataBuf b e)
      in if nextBufEntry \<noteq> DATA_BUF_NONE \<and> prevBufEntry \<noteq> DATA_BUF_NONE then
           (let b = upd_buf prevBufEntry (\<lambda>r. r\<lparr>nextEntry := nextEntry (dataBuf b e)\<rparr>) b
            in upd_buf nextBufEntry (\<lambda>r. r\<lparr>prevEntry := prevEntry (dataBuf b e)\<rparr>) b)
         else if nextBufEntry = DATA_BUF_NONE \<and> prevBufEntry \<noteq> DATA_BUF_NONE then
           (let b = upd_buf prevBufEntry (\<lambda>r. r\<lparr>nextEntry := DATA_BUF_NONE\<rparr>) b
            in b\<lparr>lruList := (lruList b)\<lparr>tailEntry := prevEntry (dataBuf b e)\<rparr>\<rparr>)
         else if nextBufEntry \<noteq> DATA_BUF_NONE \<and> prevBufEntry = DATA_BUF_NONE then
           (let b = upd_buf nextBufEntry (\<lambda>r. r\<lparr>prevEntry := DATA_BUF_NONE\<rparr>) b
            in b\<lparr>lruList := (lruList b)\<lparr>headEntry := nextEntry (dataBuf b e)\<rparr>\<rparr>)
         else b\<lparr>lruList := \<lparr>headEntry = DATA_BUF_NONE, tailEntry = DATA_BUF_NONE\<rparr>\<rparr>)"

definition CheckCcmdDataBufHit ::
  "'a ftl_config_scheme \<Rightarrow> nat \<Rightarrow> data_buf \<Rightarrow> (data_buf \<times> nat) option" where
  "CheckCcmdDataBufHit c lsa b =
     do {
       e \<leftarrow> hash_find b lsa (headEntry (dataBufHash b (FindCcmdDataBufHashTableEntry c lsa)));
       if e = DATA_BUF_FAIL then Some (b, DATA_BUF_FAIL)
       else Some (lru_push_head e (CheckCcmdDataBufHit_unlink e b), e)
     }"

definition AllocateCcmdDataBuf :: "'a ftl_config_scheme \<Rightarrow> data_buf \<Rightarrow> (data_buf \<times> nat) option" where
  "AllocateCcmdDataBuf c b = buf_allocate (AVAILABLE_CCMD_DATA_BUFFER_ENTRY_COUNT c) b"

definition PutToCcmdDataBufHashList :: "'a ftl_config_scheme \<Rightarrow> nat \<Rightarrow> data_buf \<Rightarrow> data_buf" where
  "PutToCcmdDataBufHashList c e b = hash_put (AVAILABLE_CCMD_DATA_BUFFER_ENTRY_COUNT c) e b"

definition SelectiveGetFromCcmdDataBufHashList ::
  "'a ftl_config_scheme \<Rightarrow> nat \<Rightarrow> data_buf \<Rightarrow> data_buf" where
  "SelectiveGetFromCcmdDataBufHashList c e b = hash_sel (AVAILABLE_CCMD_DATA_BUFFER_ENTRY_COUNT c) e b"

section \<open>The two lookups agree\<close>

lemma CheckCcmd_unlink_same:
  assumes "prevEntry (dataBuf b e) \<noteq> e" and "nextEntry (dataBuf b e) \<noteq> e"
  shows "CheckCcmdDataBufHit_unlink e b = CheckDataBufHit_unlink e b"
  using assms by (auto simp: CheckCcmdDataBufHit_unlink_def CheckDataBufHit_unlink_def Let_def upd_buf_def)

lemma buf_inv_no_self:
  assumes "buf_inv n b L D" and "e < n"
  shows "prevEntry (dataBuf b e) \<noteq> e" and "nextEntry (dataBuf b e) \<noteq> e"
proof -
  have "dll DATA_BUF_NONE (lru_view b) L" using assms(1) by (simp add: buf_inv_def)
  from dll_no_self [OF this [unfolded lru_view_def] buf_inv_entry_not_NONE(2) [OF assms]]
  show "prevEntry (dataBuf b e) \<noteq> e" and "nextEntry (dataBuf b e) \<noteq> e" by simp_all
qed

section \<open>The read buffer is a slice cache\<close>

lemma AVAILABLE_CCMD_DATA_BUFFER_bounds:
  "wf_config c \<Longrightarrow> 0 < AVAILABLE_CCMD_DATA_BUFFER_ENTRY_COUNT c \<and>
    AVAILABLE_CCMD_DATA_BUFFER_ENTRY_COUNT c < DATA_BUF_NONE"
  using USER_DIES_bounds [of c] by (auto simp: AVAILABLE_CCMD_DATA_BUFFER_ENTRY_COUNT_def DATA_BUF_NONE_def)

lemma InitCcmdDataBuf_inv:
  assumes "wf_config c"
  shows "buf_inv (AVAILABLE_CCMD_DATA_BUFFER_ENTRY_COUNT c) (InitCcmdDataBuf c b)
      [0..<AVAILABLE_CCMD_DATA_BUFFER_ENTRY_COUNT c] {}"
    and "cached (AVAILABLE_CCMD_DATA_BUFFER_ENTRY_COUNT c) (InitCcmdDataBuf c b) {} = {}"
  using buf_init_inv AVAILABLE_CCMD_DATA_BUFFER_bounds [OF assms] by (simp_all add: InitCcmdDataBuf_def)

interpretation rbuf: slice_cache "AVAILABLE_CCMD_DATA_BUFFER_ENTRY_COUNT c" "CheckCcmdDataBufHit c"
  "AllocateCcmdDataBuf c" "PutToCcmdDataBufHashList c" for c
proof unfold_locales
  fix b L D e xs lsa
  let ?n = "AVAILABLE_CCMD_DATA_BUFFER_ENTRY_COUNT c"
  assume inv: "buf_inv ?n b L D"
  show "\<exists>b'. CheckCcmdDataBufHit c (lsa_of b e) b = Some (b', e) \<and> buf_inv ?n b' (e # remove1 e L) D \<and>
      same_payload b b'" if e: "listed ?n b D e"
  proof -
    have ne: "lsa_of b e \<noteq> LSA_NONE" "e < ?n" using e by (auto simp: listed_def)
    have "CheckCcmdDataBufHit c (lsa_of b e) b =
        Some (lru_push_head e (CheckDataBufHit_unlink e b), e)"
      using buf_inv_lookup_hit [OF inv e] buf_inv_entry_not_NONE [OF inv ne(2)]
        CheckCcmd_unlink_same [OF buf_inv_no_self [OF inv ne(2)]]
      by (simp add: CheckCcmdDataBufHit_def FindCcmdDataBufHashTableEntry_def)
    moreover have "lru_view (CheckDataBufHit_unlink e b) = unlink_links DATA_BUF_NONE e (lru_view b)"
      using CheckDataBufHit_unlink_view [of b L e] inv ne(2) by (simp add: buf_inv_def)
    ultimately show ?thesis
      using buf_inv_touch [OF inv ne(2), of "lru_push_head e (CheckDataBufHit_unlink e b)"]
      by (simp add: same_payload_def)
  qed
  show "CheckCcmdDataBufHit c lsa b = Some (b, DATA_BUF_FAIL)"
    if "lsa \<noteq> LSA_NONE" "lsa \<notin> cached ?n b D"
    using buf_inv_lookup_miss [OF inv that]
    by (simp add: CheckCcmdDataBufHit_def FindCcmdDataBufHashTableEntry_def)
  show "buf_inv ?n (PutToCcmdDataBufHashList c e b) L (D - {e})"
    if "e \<in> D" "e < ?n" "lsa_of b e \<noteq> LSA_NONE" "lsa_of b e \<notin> cached ?n b D"
    using buf_inv_put [OF inv that] by (simp add: PutToCcmdDataBufHashList_def)
next
  fix b xs e D
  assume "buf_inv (AVAILABLE_CCMD_DATA_BUFFER_ENTRY_COUNT c) b (xs @ [e]) D" "e \<notin> D"
  then show "\<exists>b'. AllocateCcmdDataBuf c b = Some (b', e) \<and>
      buf_inv (AVAILABLE_CCMD_DATA_BUFFER_ENTRY_COUNT c) b' (e # xs) (insert e D) \<and> same_payload b b'"
    unfolding AllocateCcmdDataBuf_def by (rule buf_inv_allocate)
qed (simp add: PutToCcmdDataBufHashList_def lru_payload)

section \<open>Properties\<close>



text \<open>
  C25. Replacement in the read buffer: as for the data buffer, the least recently used entry is
  reused, nothing else leaves the buffer, and the slice is found afterwards.
\<close>

theorem AllocateCcmdDataBuf_installs:
  assumes "buf_inv (AVAILABLE_CCMD_DATA_BUFFER_ENTRY_COUNT c) b (xs @ [e]) {}" and "lsa \<noteq> LSA_NONE"
    and "lsa \<notin> cached (AVAILABLE_CCMD_DATA_BUFFER_ENTRY_COUNT c) b {}"
  shows "\<exists>b' b''. AllocateCcmdDataBuf c b = Some (b', e) \<and>
    buf_inv (AVAILABLE_CCMD_DATA_BUFFER_ENTRY_COUNT c) (PutToCcmdDataBufHashList c e (set_lsa e lsa b')) (e # xs) {} \<and>
    cached (AVAILABLE_CCMD_DATA_BUFFER_ENTRY_COUNT c) (PutToCcmdDataBufHashList c e (set_lsa e lsa b')) {} =
      insert lsa (cached (AVAILABLE_CCMD_DATA_BUFFER_ENTRY_COUNT c) b {} - {lsa_of b e}) \<and>
    CheckCcmdDataBufHit c lsa (PutToCcmdDataBufHashList c e (set_lsa e lsa b')) = Some (b'', e)"
  using rbuf.install [OF assms] rbuf.install_then_check [OF assms] by blast

theorem AllocateCcmdDataBuf_installs_witness:
  "\<exists>b'. AllocateCcmdDataBuf (cosmos_config 1) (InitCcmdDataBuf (cosmos_config 1) blank_data_buf) = Some (b', 7)"
proof -
  have wf: "wf_config (cosmos_config 1)" by (rule wf_config_cosmos) simp_all
  have n: "AVAILABLE_CCMD_DATA_BUFFER_ENTRY_COUNT (cosmos_config 1) = 8"
    by (simp add: AVAILABLE_CCMD_DATA_BUFFER_ENTRY_COUNT_def USER_DIES_def cosmos_config_def)
  have ne: "3 \<noteq> LSA_NONE" by (simp add: LSA_NONE_def)
  note inv = InitCcmdDataBuf_inv [OF wf, of blank_data_buf]
  have inv': "buf_inv (AVAILABLE_CCMD_DATA_BUFFER_ENTRY_COUNT (cosmos_config 1))
      (InitCcmdDataBuf (cosmos_config 1) blank_data_buf) ([0..<7] @ [7]) {}"
    using inv(1) upt_snoc [of 8] unfolding n by simp
  have "3 \<notin> cached (AVAILABLE_CCMD_DATA_BUFFER_ENTRY_COUNT (cosmos_config 1))
      (InitCcmdDataBuf (cosmos_config 1) blank_data_buf) {}"
    using inv(2) by simp
  from AllocateCcmdDataBuf_installs [OF inv' ne this] show ?thesis by blast
qed

end
