(* ===== verification/Way_Lists.thy ===== *)
theory Way_Lists
  imports Ftl_Config Dll
begin

text \<open>
  The tables of the NAND scheduler, \<^verbatim>\<open>request_schedule.h\<close>, and the operations of
  \<^verbatim>\<open>request_schedule.c\<close> on the way lists: each channel threads its ways through seven lists, named
  by what the way is waiting for. The seven pairs of head and tail fields of
  \<^verbatim>\<open>WAY_PRIORITY_ENTRY\<close> are indexed by the kind of the list.
\<close>

section \<open>The tables\<close>

definition WAY_NONE :: nat where
  "WAY_NONE = 0xF"

definition LUN_0_BASE_ADDR :: nat where
  "LUN_0_BASE_ADDR = 0x00000000"

definition LUN_1_BASE_ADDR :: nat where
  "LUN_1_BASE_ADDR = 0x00200000"

definition PSEUDO_BAD_BLOCK_MARK :: nat where
  "PSEUDO_BAD_BLOCK_MARK = 0"

definition RETRY_LIMIT :: int where
  "RETRY_LIMIT = 5"

datatype die_state = DIE_STATE_IDLE | DIE_STATE_EXE

datatype status_check_opt =
  REQ_STATUS_CHECK_OPT_NONE | REQ_STATUS_CHECK_OPT_CHECK | REQ_STATUS_CHECK_OPT_REPORT
| REQ_STATUS_CHECK_OPT_COMPLETION_FLAG

datatype req_status =
  REQ_STATUS_RUNNING | REQ_STATUS_DONE | REQ_STATUS_FAIL | REQ_STATUS_WARNING

datatype error_info = ERROR_INFO_FAIL | ERROR_INFO_PASS | ERROR_INFO_WARNING

record die_entry =
  dieState :: die_state
  reqStatusCheckOpt :: status_check_opt
  prevWay :: nat
  nextWay :: nat

datatype way_kind =
  Idle | Status_Report | Read_Trigger | Write_List | Read_Transfer | Erase_List | Status_Check

record way_list =
  headWay :: nat
  tailWay :: nat

record way_tables =
  dieTable :: "nat \<Rightarrow> nat \<Rightarrow> die_entry"
  wayPriority :: "nat \<Rightarrow> way_kind \<Rightarrow> way_list"
  retryLimit :: "nat \<Rightarrow> nat \<Rightarrow> int"

definition upd_way :: "nat \<Rightarrow> nat \<Rightarrow> (die_entry \<Rightarrow> die_entry) \<Rightarrow> way_tables \<Rightarrow> way_tables" where
  "upd_way ch way f s =
     s\<lparr>dieTable := (dieTable s)(ch := (dieTable s ch)(way := f (dieTable s ch way)))\<rparr>"

definition upd_list ::
  "nat \<Rightarrow> way_kind \<Rightarrow> (way_list \<Rightarrow> way_list) \<Rightarrow> way_tables \<Rightarrow> way_tables" where
  "upd_list ch k f s =
     s\<lparr>wayPriority := (wayPriority s)(ch := (wayPriority s ch)(k := f (wayPriority s ch k)))\<rparr>"

definition set_retry :: "nat \<Rightarrow> nat \<Rightarrow> int \<Rightarrow> way_tables \<Rightarrow> way_tables" where
  "set_retry ch way n s =
     s\<lparr>retryLimit := (retryLimit s)(ch := (retryLimit s ch)(way := n))\<rparr>"

text \<open>The loop over the channels of \<^verbatim>\<open>InitReqScheduler\<close>.\<close>

definition InitReqScheduler_die :: "'a ftl_config_scheme \<Rightarrow> (nat \<Rightarrow> die_entry) \<Rightarrow> nat \<Rightarrow> die_entry" where
  "InitReqScheduler_die c dies =
     (let dies = array_for (USER_WAYS c)
                   (\<lambda>way e. \<lparr>dieState = DIE_STATE_IDLE, reqStatusCheckOpt = REQ_STATUS_CHECK_OPT_NONE,
                            prevWay = (way + 15) mod 16, nextWay = (way + 1) mod 16\<rparr>) dies;
          dies = dies(0 := (dies 0)\<lparr>prevWay := WAY_NONE\<rparr>)
      in dies(USER_WAYS c - 1 := (dies (USER_WAYS c - 1))\<lparr>nextWay := WAY_NONE\<rparr>))"

definition InitReqScheduler :: "'a ftl_config_scheme \<Rightarrow> way_tables \<Rightarrow> way_tables" where
  "InitReqScheduler c s =
     s\<lparr>wayPriority := array_for (USER_CHANNELS c)
          (\<lambda>ch ls k. if k = Idle then \<lparr>headWay = 0, tailWay = (USER_WAYS c - 1) mod 16\<rparr>
                     else \<lparr>headWay = WAY_NONE, tailWay = WAY_NONE\<rparr>) (wayPriority s),
       dieTable := array_for (USER_CHANNELS c) (\<lambda>ch. InitReqScheduler_die c) (dieTable s),
       retryLimit := array_for (USER_CHANNELS c)
          (\<lambda>ch. array_for (USER_WAYS c) (\<lambda>way n. RETRY_LIMIT)) (retryLimit s)\<rparr>"

section \<open>Operations on the lists\<close>

text \<open>
  The source repeats two bodies for its seven lists: append a way at the tail, and unlink a given
  way.
\<close>

definition way_put :: "way_kind \<Rightarrow> nat \<Rightarrow> nat \<Rightarrow> way_tables \<Rightarrow> way_tables" where
  "way_put k ch way s =
     (let tl = tailWay (wayPriority s ch k) in
      if tl \<noteq> WAY_NONE
      then upd_list ch k (\<lambda>l. l\<lparr>tailWay := way\<rparr>)
             (upd_way ch tl (\<lambda>e. e\<lparr>nextWay := way\<rparr>)
               (upd_way ch way (\<lambda>e. e\<lparr>prevWay := tl, nextWay := WAY_NONE\<rparr>) s))
      else upd_list ch k (\<lambda>l. l\<lparr>headWay := way, tailWay := way\<rparr>)
             (upd_way ch way (\<lambda>e. e\<lparr>prevWay := WAY_NONE, nextWay := WAY_NONE\<rparr>) s))"

definition way_unlink :: "way_kind \<Rightarrow> nat \<Rightarrow> nat \<Rightarrow> way_tables \<Rightarrow> way_tables" where
  "way_unlink k ch way s =
     (let pv = prevWay (dieTable s ch way); nx = nextWay (dieTable s ch way) in
      if nx \<noteq> WAY_NONE \<and> pv \<noteq> WAY_NONE then
        upd_way ch nx (\<lambda>e. e\<lparr>prevWay := pv\<rparr>) (upd_way ch pv (\<lambda>e. e\<lparr>nextWay := nx\<rparr>) s)
      else if nx = WAY_NONE \<and> pv \<noteq> WAY_NONE then
        upd_list ch k (\<lambda>l. l\<lparr>tailWay := pv\<rparr>) (upd_way ch pv (\<lambda>e. e\<lparr>nextWay := WAY_NONE\<rparr>) s)
      else if nx \<noteq> WAY_NONE \<and> pv = WAY_NONE then
        upd_list ch k (\<lambda>l. l\<lparr>headWay := nx\<rparr>) (upd_way ch nx (\<lambda>e. e\<lparr>prevWay := WAY_NONE\<rparr>) s)
      else
        upd_list ch k (\<lambda>l. l\<lparr>headWay := WAY_NONE, tailWay := WAY_NONE\<rparr>) s)"

definition PutToNandIdleList :: "nat \<Rightarrow> nat \<Rightarrow> way_tables \<Rightarrow> way_tables" where
  "PutToNandIdleList = way_put Idle"

definition SelectivGetFromNandIdleList :: "nat \<Rightarrow> nat \<Rightarrow> way_tables \<Rightarrow> way_tables" where
  "SelectivGetFromNandIdleList = way_unlink Idle"

definition PutToNandStatusReportList :: "nat \<Rightarrow> nat \<Rightarrow> way_tables \<Rightarrow> way_tables" where
  "PutToNandStatusReportList = way_put Status_Report"

definition SelectivGetFromNandStatusReportList :: "nat \<Rightarrow> nat \<Rightarrow> way_tables \<Rightarrow> way_tables" where
  "SelectivGetFromNandStatusReportList = way_unlink Status_Report"

definition PutToNandReadTriggerList :: "nat \<Rightarrow> nat \<Rightarrow> way_tables \<Rightarrow> way_tables" where
  "PutToNandReadTriggerList = way_put Read_Trigger"

definition SelectiveGetFromNandReadTriggerList :: "nat \<Rightarrow> nat \<Rightarrow> way_tables \<Rightarrow> way_tables" where
  "SelectiveGetFromNandReadTriggerList = way_unlink Read_Trigger"

definition PutToNandWriteList :: "nat \<Rightarrow> nat \<Rightarrow> way_tables \<Rightarrow> way_tables" where
  "PutToNandWriteList = way_put Write_List"

definition SelectiveGetFromNandWriteList :: "nat \<Rightarrow> nat \<Rightarrow> way_tables \<Rightarrow> way_tables" where
  "SelectiveGetFromNandWriteList = way_unlink Write_List"

definition PutToNandReadTransferList :: "nat \<Rightarrow> nat \<Rightarrow> way_tables \<Rightarrow> way_tables" where
  "PutToNandReadTransferList = way_put Read_Transfer"

definition SelectiveGetFromNandReadTransferList :: "nat \<Rightarrow> nat \<Rightarrow> way_tables \<Rightarrow> way_tables" where
  "SelectiveGetFromNandReadTransferList = way_unlink Read_Transfer"

definition PutToNandEraseList :: "nat \<Rightarrow> nat \<Rightarrow> way_tables \<Rightarrow> way_tables" where
  "PutToNandEraseList = way_put Erase_List"

definition SelectiveGetFromNandEraseList :: "nat \<Rightarrow> nat \<Rightarrow> way_tables \<Rightarrow> way_tables" where
  "SelectiveGetFromNandEraseList = way_unlink Erase_List"

definition PutToNandStatusCheckList :: "nat \<Rightarrow> nat \<Rightarrow> way_tables \<Rightarrow> way_tables" where
  "PutToNandStatusCheckList = way_put Status_Check"

definition SelectiveGetFromNandStatusCheckList :: "nat \<Rightarrow> nat \<Rightarrow> way_tables \<Rightarrow> way_tables" where
  "SelectiveGetFromNandStatusCheckList = way_unlink Status_Check"

lemmas way_list_ops =
  PutToNandIdleList_def SelectivGetFromNandIdleList_def PutToNandStatusReportList_def
  SelectivGetFromNandStatusReportList_def PutToNandReadTriggerList_def
  SelectiveGetFromNandReadTriggerList_def PutToNandWriteList_def SelectiveGetFromNandWriteList_def
  PutToNandReadTransferList_def SelectiveGetFromNandReadTransferList_def PutToNandEraseList_def
  SelectiveGetFromNandEraseList_def PutToNandStatusCheckList_def
  SelectiveGetFromNandStatusCheckList_def

section \<open>The lists of a channel\<close>

definition wview :: "nat \<Rightarrow> way_kind \<Rightarrow> way_tables \<Rightarrow> nat links" where
  "wview ch k s = (\<lambda>w. prevWay (dieTable s ch w), \<lambda>w. nextWay (dieTable s ch w),
                   headWay (wayPriority s ch k), tailWay (wayPriority s ch k))"

lemma dieTable_upd [simp]:
  "dieTable (upd_way ch w f s) = (dieTable s)(ch := (dieTable s ch)(w := f (dieTable s ch w)))"
  "dieTable (upd_list ch k g s) = dieTable s"
  "dieTable (set_retry ch w n s) = dieTable s"
  by (simp_all add: upd_way_def upd_list_def set_retry_def)

lemma wayPriority_upd [simp]:
  "wayPriority (upd_list ch k g s) =
     (wayPriority s)(ch := (wayPriority s ch)(k := g (wayPriority s ch k)))"
  "wayPriority (upd_way ch w f s) = wayPriority s"
  "wayPriority (set_retry ch w n s) = wayPriority s"
  by (simp_all add: upd_way_def upd_list_def set_retry_def)

lemma wview_put: "wview ch k (way_put k ch w s) = put_links WAY_NONE w (wview ch k s)"
  by (auto simp: wview_def way_put_def Let_def fun_eq_iff)

lemma wview_unlink: "wview ch k (way_unlink k ch w s) = unlink_links WAY_NONE w (wview ch k s)"
  by (auto simp: wview_def way_unlink_def Let_def fun_eq_iff)

interpretation wsel: dlist_sel WAY_NONE "wview ch k" "way_put k ch" "way_unlink k ch" for ch k
  by unfold_locales (simp_all add: wview_put wview_unlink)

text \<open>What an operation on one list does to the heads and tails of the others: nothing.\<close>

lemma wview_other_ends:
  assumes "k' \<noteq> k"
  shows "wayPriority (way_put k ch w s) ch k' = wayPriority s ch k'"
    and "wayPriority (way_unlink k ch w s) ch k' = wayPriority s ch k'"
  using assms by (simp_all add: way_put_def way_unlink_def Let_def)

lemma way_ops_other_channel:
  assumes "ch' \<noteq> ch"
  shows "wview ch' k' (way_put k ch w s) = wview ch' k' s"
    and "wview ch' k' (way_unlink k ch w s) = wview ch' k' s"
  using assms by (simp_all add: wview_def way_put_def way_unlink_def Let_def)

lemma links_of_view:
  "wview ch k' s = (fst (wview ch k s), fst (snd (wview ch k s)),
     headWay (wayPriority s ch k'), tailWay (wayPriority s ch k'))"
  by (simp add: wview_def)

lemma spells_put_other:
  assumes "dll WAY_NONE (wview ch k s) xs" and "dll WAY_NONE (wview ch k' s) ys" and "k' \<noteq> k"
    and "w \<notin> set ys" and "set ys \<inter> set xs = {}"
  shows "dll WAY_NONE (wview ch k' (way_put k ch w s)) ys"
proof -
  have "agree_on (set ys) (wview ch k s) (wview ch k (way_put k ch w s))"
    unfolding wview_put using assms by (intro put_links_agree)
  then show ?thesis
    using dll_agree assms(2) wview_other_ends(1) [OF assms(3)]
    by (metis wview_def)
qed

lemma spells_unlink_other:
  assumes "dll WAY_NONE (wview ch k s) xs" and "dll WAY_NONE (wview ch k' s) ys" and "k' \<noteq> k"
    and "w \<in> set xs" and "set ys \<inter> set xs = {}"
  shows "dll WAY_NONE (wview ch k' (way_unlink k ch w s)) ys"
proof -
  have "agree_on (set ys) (wview ch k s) (wview ch k (way_unlink k ch w s))"
    unfolding wview_unlink using assms by (intro unlink_links_agree)
  then show ?thesis
    using dll_agree assms(2) wview_other_ends(2) [OF assms(3)]
    by (metis wview_def)
qed

text \<open>
  \<open>ways_ok c s W hand\<close>: the links of each channel spell the lists \<open>W\<close>; a way of the channel is in
  exactly one of them, the ways in \<open>hand\<close> excepted, which are in none.
\<close>

definition ways_ok ::
  "'a ftl_config_scheme \<Rightarrow> way_tables \<Rightarrow> (nat \<Rightarrow> way_kind \<Rightarrow> nat list) \<Rightarrow> (nat \<Rightarrow> nat set) \<Rightarrow> bool"
where
  "ways_ok c s W hand \<longleftrightarrow>
     (\<forall>ch < USER_CHANNELS c.
        (\<forall>k. dll WAY_NONE (wview ch k s) (W ch k)) \<and>
        (\<forall>k k'. k \<noteq> k' \<longrightarrow> set (W ch k) \<inter> set (W ch k') = {}) \<and>
        (\<Union>k. set (W ch k)) = {..<USER_WAYS c} - hand ch)"

lemma ways_okD:
  assumes "ways_ok c s W hand" and "ch < USER_CHANNELS c"
  shows "dll WAY_NONE (wview ch k s) (W ch k)"
    and "k \<noteq> k' \<Longrightarrow> set (W ch k) \<inter> set (W ch k') = {}"
    and "(\<Union>k. set (W ch k)) = {..<USER_WAYS c} - hand ch"
  using assms by (simp_all add: ways_ok_def)

lemma ways_ok_not_in:
  "ways_ok c s W hand \<Longrightarrow> ch < USER_CHANNELS c \<Longrightarrow> w \<in> hand ch \<Longrightarrow> w \<notin> set (W ch k)"
  using ways_okD(3) by blast

text \<open>A change of one channel that keeps the links of the others.\<close>

lemma ways_ok_channel:
  assumes "ways_ok c s W hand"
    and "\<And>ch' k. ch' \<noteq> ch \<Longrightarrow> wview ch' k s' = wview ch' k s \<and> W' ch' k = W ch' k"
    and "\<And>ch'. ch' \<noteq> ch \<Longrightarrow> hand' ch' = hand ch'"
    and "\<And>k. dll WAY_NONE (wview ch k s') (W' ch k)"
    and "\<And>k k'. k \<noteq> k' \<Longrightarrow> set (W' ch k) \<inter> set (W' ch k') = {}"
    and "(\<Union>k. set (W' ch k)) = {..<USER_WAYS c} - hand' ch"
  shows "ways_ok c s' W' hand'"
  unfolding ways_ok_def
proof (intro allI impI)
  fix i assume "i < USER_CHANNELS c"
  then show "(\<forall>k. dll WAY_NONE (wview i k s') (W' i k)) \<and>
      (\<forall>k k'. k \<noteq> k' \<longrightarrow> set (W' i k) \<inter> set (W' i k') = {}) \<and>
      (\<Union>k. set (W' i k)) = {..<USER_WAYS c} - hand' i"
    using ways_okD [OF assms(1)] assms(2-6) by (cases "i = ch") simp_all
qed

definition upd2 :: "'a \<Rightarrow> 'b \<Rightarrow> 'c \<Rightarrow> ('a \<Rightarrow> 'b \<Rightarrow> 'c) \<Rightarrow> 'a \<Rightarrow> 'b \<Rightarrow> 'c" where
  "upd2 a b v f = f(a := (f a)(b := v))"

lemma upd2_apply: "upd2 a b v f x y = (if x = a \<and> y = b then v else f x y)"
  by (simp add: upd2_def)

lemma ways_ok_put:
  assumes "ways_ok c s W hand" and "ch < USER_CHANNELS c" and "w < USER_WAYS c" and "wf_config c"
    and "w \<in> hand ch"
  shows "ways_ok c (way_put k ch w s) (upd2 ch k (W ch k @ [w]) W) (hand(ch := hand ch - {w}))"
proof (rule ways_ok_channel [OF assms(1), where ch = ch])
  note d = ways_okD(1) [OF assms(1,2)] and disj = ways_okD(2) [OF assms(1,2)]
    and un = ways_okD(3) [OF assms(1,2)] and not_in = ways_ok_not_in [OF assms(1,2,5)]
  have ne: "w \<noteq> WAY_NONE" using assms(3,4) by (auto simp: wf_config_def nand_consts WAY_NONE_def)
  show "dll WAY_NONE (wview ch j (way_put k ch w s)) (upd2 ch k (W ch k @ [w]) W ch j)" for j
    using wsel.spells_put [OF d not_in ne] spells_put_other [OF d d _ not_in disj]
    by (cases "j = k") (auto simp: upd2_apply)
  show "set (upd2 ch k (W ch k @ [w]) W ch i) \<inter> set (upd2 ch k (W ch k @ [w]) W ch j) = {}"
    if "i \<noteq> j" for i j
    using disj [OF that] not_in that by (auto simp: upd2_apply)
  have "(\<Union>j. set (upd2 ch k (W ch k @ [w]) W ch j)) = (\<Union>j. set (W ch j)) \<union> {w}"
    by (auto simp: upd2_apply split: if_splits)
  then show "(\<Union>j. set (upd2 ch k (W ch k @ [w]) W ch j)) =
      {..<USER_WAYS c} - (hand(ch := hand ch - {w})) ch"
    using un assms(3,5) by auto
qed (simp_all add: way_ops_other_channel upd2_apply)

lemma ways_ok_unlink:
  assumes "ways_ok c s W hand" and "ch < USER_CHANNELS c" and "w \<in> set (W ch k)"
  shows "ways_ok c (way_unlink k ch w s) (upd2 ch k (remove1 w (W ch k)) W)
           (hand(ch := insert w (hand ch)))"
proof (rule ways_ok_channel [OF assms(1), where ch = ch])
  note d = ways_okD(1) [OF assms(1,2)] and disj = ways_okD(2) [OF assms(1,2)]
    and un = ways_okD(3) [OF assms(1,2)]
  have dist: "set (remove1 w (W ch k)) = set (W ch k) - {w}"
    using dll_distinct [OF d] by (simp add: set_remove1_distinct)
  have out: "w \<notin> set (W ch j)" if "j \<noteq> k" for j using disj [OF that] assms(3) by auto
  show "dll WAY_NONE (wview ch j (way_unlink k ch w s)) (upd2 ch k (remove1 w (W ch k)) W ch j)" for j
    using wsel.spells_unlink [OF d assms(3)] spells_unlink_other [OF d d _ assms(3) disj]
    by (cases "j = k") (auto simp: upd2_apply)
  show "set (upd2 ch k (remove1 w (W ch k)) W ch i) \<inter>
      set (upd2 ch k (remove1 w (W ch k)) W ch j) = {}" if "i \<noteq> j" for i j
    using disj [OF that] that dist by (auto simp: upd2_apply)
  have "(\<Union>j. set (upd2 ch k (remove1 w (W ch k)) W ch j)) = (\<Union>j. set (W ch j)) - {w}"
    using out dist by (auto simp: upd2_apply split: if_splits)
  then show "(\<Union>j. set (upd2 ch k (remove1 w (W ch k)) W ch j)) =
      {..<USER_WAYS c} - (hand(ch := insert w (hand ch))) ch"
    using un by auto
qed (simp_all add: way_ops_other_channel upd2_apply)

text \<open>
  Moving a way from one list of its channel to another: a way is never lost and never in two
  lists.
\<close>

lemma ways_ok_move:
  assumes "ways_ok c s W (\<lambda>ch. {})" and "wf_config c" and "ch < USER_CHANNELS c"
    and "w \<in> set (W ch k)" and "k' \<noteq> k"
  shows "ways_ok c (way_put k' ch w (way_unlink k ch w s))
           (upd2 ch k' (W ch k' @ [w]) (upd2 ch k (remove1 w (W ch k)) W)) (\<lambda>ch. {})"
proof -
  have w: "w < USER_WAYS c" using ways_okD(3) [OF assms(1,3)] assms(4) by auto
  show ?thesis
    using ways_ok_put [OF ways_ok_unlink [OF assms(1,3,4)] assms(3) w assms(2), of k'] assms(5)
    by (simp add: upd2_apply fun_upd_idem)
qed

lemma init_way_links:
  assumes "wf_config c" and "ch < USER_CHANNELS c"
  shows "dll WAY_NONE (wview ch k (InitReqScheduler c s)) (if k = Idle then [0..<USER_WAYS c] else [])"
proof -
  have n: "0 < USER_WAYS c" "USER_WAYS c \<le> 8" "USER_WAYS c \<le> WAY_NONE"
    using assms(1) by (auto simp: wf_config_def nand_consts WAY_NONE_def)
  have "dll WAY_NONE (wview ch Idle (InitReqScheduler c s)) [0..<USER_WAYS c]"
    unfolding wview_def using assms(2) n
    by (intro dll_upt)
      (auto simp: InitReqScheduler_def InitReqScheduler_die_def Let_def mod_if)
  then show ?thesis
    using assms(2) by (auto simp: wview_def InitReqScheduler_def)
qed

text \<open>
  C35. The way lists. After start-up the ways of each channel are all idle, in order. Taking a way
  out of the list it is in and appending it to another list of its channel, which is how the
  scheduler changes lists, keeps the lists well linked with each way of the channel in exactly one
  of them, and changes only these two lists.
\<close>

theorem way_lists_partition:
  assumes "wf_config c"
  shows "ways_ok c (InitReqScheduler c s0) (\<lambda>ch k. if k = Idle then [0..<USER_WAYS c] else [])
           (\<lambda>ch. {}) \<and>
         (\<forall>s W ch k k' w. ways_ok c s W (\<lambda>ch. {}) \<and> ch < USER_CHANNELS c \<and> w \<in> set (W ch k) \<and>
            k' \<noteq> k \<longrightarrow>
            ways_ok c (way_put k' ch w (way_unlink k ch w s))
              (upd2 ch k' (W ch k' @ [w]) (upd2 ch k (remove1 w (W ch k)) W)) (\<lambda>ch. {}))"
proof (intro conjI allI impI)
  show "ways_ok c (InitReqScheduler c s0) (\<lambda>ch k. if k = Idle then [0..<USER_WAYS c] else [])
          (\<lambda>ch. {})"
    using init_way_links [OF assms] by (auto simp: ways_ok_def split: if_splits)
qed (use ways_ok_move [OF _ assms] in blast)

definition two_ways_idle :: way_tables where
  "two_ways_idle = InitReqScheduler ((cosmos_config 1)\<lparr>USER_WAYS := 2\<rparr>)
     \<lparr>dieTable = (\<lambda>ch w. \<lparr>dieState = DIE_STATE_EXE, reqStatusCheckOpt = REQ_STATUS_CHECK_OPT_NONE,
        prevWay = 3, nextWay = 3\<rparr>), wayPriority = (\<lambda>ch k. \<lparr>headWay = 3, tailWay = 3\<rparr>),
      retryLimit = (\<lambda>ch w. 0)\<rparr>"

theorem way_lists_partition_witness:
  "headWay (wayPriority (way_put Write_List 0 0 (way_unlink Idle 0 0 two_ways_idle)) 0 Idle) = 1 \<and>
   headWay (wayPriority (way_put Write_List 0 0 (way_unlink Idle 0 0 two_ways_idle)) 0 Write_List) = 0"
proof -
  let ?c = "(cosmos_config 1)\<lparr>USER_WAYS := 2\<rparr>"
  let ?W = "\<lambda>ch k. if k = Idle then [0..<USER_WAYS ?c] else []"
  have wf: "wf_config ?c" by (simp add: wf_config_def cosmos_config_def nand_consts)
  note all = way_lists_partition [OF wf]
  have ok: "ways_ok ?c two_ways_idle ?W (\<lambda>ch. {})" unfolding two_ways_idle_def using all by blast
  have "ways_ok ?c (way_put Write_List 0 0 (way_unlink Idle 0 0 two_ways_idle))
      (upd2 0 Write_List (?W 0 Write_List @ [0]) (upd2 0 Idle (remove1 0 (?W 0 Idle)) ?W)) (\<lambda>ch. {})"
    by (rule all [THEN conjunct2, rule_format]) (use ok in \<open>simp add: cosmos_config_def\<close>)
  then show ?thesis
    by (auto simp: ways_ok_def upd2_apply cosmos_config_def wview_def upt_rec [of 0 2]
        dest!: spec [of _ Idle] spec [of _ Write_List])
qed

end
