(* ===== verification/Device_Io.thy ===== *)
theory Device_Io
  imports Ftl_Config "HOL-Library.While_Combinator"
begin

unbundle bit_operations_syntax

text \<open>
  The two device drivers: the NVMe host controller (\<^verbatim>\<open>nvme/host_lld.[ch]\<close>) and the NAND storage
  controllers of the channels (\<^verbatim>\<open>nsc_driver.[ch]\<close>).

  The state holds the driver's own variables (\<^verbatim>\<open>g_hostDmaStatus\<close>, \<^verbatim>\<open>g_hostDmaAssistStatus\<close>), the
  instant \<open>clk\<close> of the next access to a device, and the log \<open>out\<close> of what was written to the
  devices, oldest first. A read takes the observation of the instant and moves the clock.
  A log entry has the fields of the register that the source fills in; the C code leaves the reserved bits of
  several registers undefined, so a log entry is not the raw word. Addresses of host controller
  registers are offsets from \<^verbatim>\<open>HOST_IP_ADDR\<close>.
\<close>

section \<open>Registers\<close>

definition DEV_IRQ_MASK_REG_ADDR :: nat where
  "DEV_IRQ_MASK_REG_ADDR = 0x4"

definition DEV_IRQ_CLEAR_REG_ADDR :: nat where
  "DEV_IRQ_CLEAR_REG_ADDR = 0x8"

definition DEV_IRQ_STATUS_REG_ADDR :: nat where
  "DEV_IRQ_STATUS_REG_ADDR = 0xC"

definition PCIE_STATUS_REG_ADDR :: nat where
  "PCIE_STATUS_REG_ADDR = 0x100"

definition PCIE_FUNC_REG_ADDR :: nat where
  "PCIE_FUNC_REG_ADDR = 0x104"

definition NVME_STATUS_REG_ADDR :: nat where
  "NVME_STATUS_REG_ADDR = 0x200"

definition HOST_DMA_FIFO_CNT_REG_ADDR :: nat where
  "HOST_DMA_FIFO_CNT_REG_ADDR = 0x204"

definition NVME_ADMIN_QUEUE_SET_REG_ADDR :: nat where
  "NVME_ADMIN_QUEUE_SET_REG_ADDR = 0x21C"

definition NVME_CMD_FIFO_REG_ADDR :: nat where
  "NVME_CMD_FIFO_REG_ADDR = 0x300"

definition NVME_CMD_SRAM_ADDR :: nat where
  "NVME_CMD_SRAM_ADDR = 0x10000"

text \<open>Bit fields of a register word, least significant bit first.\<close>

definition bits_at :: "nat \<Rightarrow> nat \<Rightarrow> 32 word \<Rightarrow> 32 word" where
  "bits_at off width w = take_bit width (drop_bit off w)"

definition set_bits_at :: "nat \<Rightarrow> nat \<Rightarrow> 32 word \<Rightarrow> 32 word \<Rightarrow> 32 word" where
  "set_bits_at off width v w =
     (w AND NOT (push_bit off (mask width))) OR push_bit off (take_bit width v)"

datatype dma_direction = HOST_DMA_RX_DIRECTION | HOST_DMA_TX_DIRECTION

text \<open>What is written to the devices.\<close>

datatype device_write =
  Reg_Write nat "32 word"
| Status_RstCnt "4 word"
| Status_Link "2 word" "2 word"
| Auto_Cpl "10 word" "32 word" "16 word"
| Slot_Release "10 word"
| Only_Cpl "16 word" "4 word" "32 word" "16 word"
| Io_Sq_Set nat bool "4 word" "8 word" "32 word" "16 word"
| Io_Cq_Set nat bool bool "3 word" "8 word" "32 word" "16 word"
| Direct_Dma dma_direction "32 word" "32 word" "32 word" "13 word"
| Auto_Dma dma_direction "32 word" "9 word" "32 word" bool
| Nsc_Reset nat nat
| Nsc_SetFeatures nat nat "32 word" "32 word" "32 word" "32 word"
| Nsc_ReadPageTrigger nat nat "32 word"
| Nsc_ReadPageTransfer nat nat "32 word" "32 word" "32 word"
| Nsc_ReadPageTransferRaw nat nat "32 word"
| Nsc_ProgramPage nat nat "32 word" "32 word" "32 word"
| Nsc_EraseBlock nat nat "32 word"
| Nsc_StatusCheck nat nat
| Dram_Write nat "8 word"

record fifo_cnt =
  directDmaRx :: "8 word"
  directDmaTx :: "8 word"
  autoDmaRx :: "8 word"
  autoDmaTx :: "8 word"

record io_state =
  fifoHead :: fifo_cnt
  fifoTail :: fifo_cnt
  directDmaTxCnt :: "32 word"
  directDmaRxCnt :: "32 word"
  autoDmaTxCnt :: "32 word"
  autoDmaRxCnt :: "32 word"
  autoDmaTxOverFlowCnt :: "32 word"
  autoDmaRxOverFlowCnt :: "32 word"
  clk :: nat
  out :: "device_write list"

definition tick :: "io_state \<Rightarrow> io_state" where
  "tick s = s\<lparr>clk := Suc (clk s)\<rparr>"

definition emit :: "device_write \<Rightarrow> io_state \<Rightarrow> io_state" where
  "emit w s = s\<lparr>out := out s @ [w]\<rparr>"

definition now :: "platform \<Rightarrow> io_state \<Rightarrow> observation" where
  "now p s = obs p (clk s)"

definition IO_READ32 :: "platform \<Rightarrow> nat \<Rightarrow> io_state \<Rightarrow> 32 word \<times> io_state" where
  "IO_READ32 p addr s = (obs_reg (now p s) addr, tick s)"

definition IO_WRITE32 :: "nat \<Rightarrow> 32 word \<Rightarrow> io_state \<Rightarrow> io_state" where
  "IO_WRITE32 addr w s = emit (Reg_Write addr w) s"

section \<open>The NVMe host controller\<close>

subsection \<open>Interrupts and controller status\<close>

text \<open>The interrupt mask: the bits 0 to 7 and 9 to 11, all sources but \<^verbatim>\<open>mAxiReadErr\<close>.\<close>

definition dev_irq_init :: "io_state \<Rightarrow> io_state" where
  "dev_irq_init s =
     IO_WRITE32 DEV_IRQ_MASK_REG_ADDR
       (fold (\<lambda>i w. set_bits_at i 1 1 w) [0, 1, 2, 3, 4, 5, 6, 7, 9, 10, 11] 0) s"

text \<open>
  The handler reads the interrupt status, acknowledges it and may change the state of the NVMe
  task; the other branches print a register, with one read each.
\<close>

datatype nvme_task =
  NVME_TASK_IDLE | NVME_TASK_WAIT_CC_EN | NVME_TASK_RUNNING | NVME_TASK_SHUTDOWN
| NVME_TASK_WAIT_RESET | NVME_TASK_RESET

definition dev_irq_handler :: "platform \<Rightarrow> nvme_task \<times> io_state \<Rightarrow> nvme_task \<times> io_state" where
  "dev_irq_handler p = (\<lambda>(task, s).
     let (dev, s) = IO_READ32 p DEV_IRQ_STATUS_REG_ADDR s;
         s = IO_WRITE32 DEV_IRQ_CLEAR_REG_ADDR dev s;
         (task, s) = (if bit dev 0
            then let (pcie, s) = IO_READ32 p PCIE_STATUS_REG_ADDR s
                 in (if \<not> bit pcie 8 then NVME_TASK_RESET else task, s)
            else (task, s));
         s = fold (\<lambda>i s. if bit dev i then snd (IO_READ32 p PCIE_FUNC_REG_ADDR s) else s)
               [1, 2, 3, 4] s;
         (task, s) = (if bit dev 5
            then let (nvme, s) = IO_READ32 p NVME_STATUS_REG_ADDR s
                 in (if bit nvme 0 then NVME_TASK_WAIT_CC_EN else NVME_TASK_RESET, s)
            else (task, s))
     in if bit dev 6
        then let (nvme, s) = IO_READ32 p NVME_STATUS_REG_ADDR s
             in (if bits_at 1 2 nvme = 1 then NVME_TASK_SHUTDOWN else task, s)
        else (task, s))"

definition check_nvme_cc_en :: "platform \<Rightarrow> io_state \<Rightarrow> bool \<times> io_state" where
  "check_nvme_cc_en p s =
     (let (nvme, s) = IO_READ32 p NVME_STATUS_REG_ADDR s in (bit nvme 0, s))"

definition pcie_async_reset :: "32 word \<Rightarrow> io_state \<Rightarrow> io_state" where
  "pcie_async_reset rstCnt s = emit (Status_RstCnt (ucast rstCnt)) s"

definition set_link_width :: "32 word \<Rightarrow> io_state \<Rightarrow> io_state" where
  "set_link_width linkNum s = emit (Status_Link (ucast linkNum) 1) s"

definition set_nvme_csts_rdy :: "platform \<Rightarrow> 32 word \<Rightarrow> io_state \<Rightarrow> io_state" where
  "set_nvme_csts_rdy p rdy s =
     (let (nvme, s) = IO_READ32 p NVME_STATUS_REG_ADDR s
      in IO_WRITE32 NVME_STATUS_REG_ADDR (set_bits_at 4 1 rdy nvme) s)"

definition set_nvme_csts_shst :: "platform \<Rightarrow> 32 word \<Rightarrow> io_state \<Rightarrow> io_state" where
  "set_nvme_csts_shst p shst s =
     (let (nvme, s) = IO_READ32 p NVME_STATUS_REG_ADDR s
      in IO_WRITE32 NVME_STATUS_REG_ADDR (set_bits_at 5 2 shst nvme) s)"

definition set_nvme_admin_queue ::
  "platform \<Rightarrow> 32 word \<Rightarrow> 32 word \<Rightarrow> 32 word \<Rightarrow> io_state \<Rightarrow> io_state" where
  "set_nvme_admin_queue p sqValid cqValid cqIrqEn s =
     (let (w, s) = IO_READ32 p NVME_ADMIN_QUEUE_SET_REG_ADDR s
      in IO_WRITE32 NVME_ADMIN_QUEUE_SET_REG_ADDR
           (set_bits_at 2 1 cqIrqEn (set_bits_at 0 1 cqValid (set_bits_at 1 1 sqValid w))) s)"

subsection \<open>Commands and completions\<close>

record nvme_command =
  qID :: "4 word"
  cmdSlotTag :: nat
  cmdSeqNum :: "8 word"
  cmdDword :: "nat \<Rightarrow> 32 word"

text \<open>
  A valid entry of the command FIFO names a slot; its 16 words are read from the command memory of
  the controller, one read each.
\<close>

definition get_nvme_cmd :: "platform \<Rightarrow> io_state \<Rightarrow> nvme_command option \<times> io_state" where
  "get_nvme_cmd p s =
     (let (w, s) = IO_READ32 p NVME_CMD_FIFO_REG_ADDR s in
      if bit w 31 then
        let slot = unat (bits_at 5 10 w);
            addr = NVME_CMD_SRAM_ADDR + slot * 64;
            (dwords, s) = fold (\<lambda>idx (ds, s).
               let (d, s) = IO_READ32 p (addr + idx * 4) s in (ds(idx := d), s))
               [0..<16] (\<lambda>idx. 0, s)
        in (Some \<lparr>qID = ucast (bits_at 0 4 w), cmdSlotTag = slot,
                  cmdSeqNum = ucast (bits_at 16 8 w), cmdDword = dwords\<rparr>, s)
      else (None, s))"

definition set_auto_nvme_cpl :: "nat \<Rightarrow> 32 word \<Rightarrow> 16 word \<Rightarrow> io_state \<Rightarrow> io_state" where
  "set_auto_nvme_cpl slot specific status s = emit (Auto_Cpl (of_nat slot) specific status) s"

definition set_nvme_slot_release :: "nat \<Rightarrow> io_state \<Rightarrow> io_state" where
  "set_nvme_slot_release slot s = emit (Slot_Release (of_nat slot)) s"

definition set_nvme_cpl ::
  "4 word \<Rightarrow> 16 word \<Rightarrow> 32 word \<Rightarrow> 16 word \<Rightarrow> io_state \<Rightarrow> io_state" where
  "set_nvme_cpl sqId cid specific status s = emit (Only_Cpl cid sqId specific status) s"

definition set_io_sq ::
  "nat \<Rightarrow> 32 word \<Rightarrow> 32 word \<Rightarrow> 32 word \<Rightarrow> 32 word \<Rightarrow> 32 word \<Rightarrow> io_state \<Rightarrow> io_state" where
  "set_io_sq ioSqIdx valid cqVector qSzie pcieBaseAddrL pcieBaseAddrH s =
     emit (Io_Sq_Set ioSqIdx (bit valid 0) (ucast cqVector) (ucast qSzie) pcieBaseAddrL
             (ucast pcieBaseAddrH)) s"

definition set_io_cq ::
  "nat \<Rightarrow> 32 word \<Rightarrow> 32 word \<Rightarrow> 32 word \<Rightarrow> 32 word \<Rightarrow> 32 word \<Rightarrow> 32 word \<Rightarrow>
   io_state \<Rightarrow> io_state" where
  "set_io_cq ioCqIdx valid irqEn irqVector qSzie pcieBaseAddrL pcieBaseAddrH s =
     emit (Io_Cq_Set ioCqIdx (bit valid 0) (bit irqEn 0) (ucast irqVector) (ucast qSzie)
             pcieBaseAddrL (ucast pcieBaseAddrH)) s"

subsection \<open>Transfers\<close>

text \<open>
  The DMA engine has a queue of 256 entries for each direction and type. Its counters are read
  with one register, a byte for each queue.
\<close>

definition read_fifo_cnt :: "platform \<Rightarrow> io_state \<Rightarrow> io_state" where
  "read_fifo_cnt p s =
     (let (w, s) = IO_READ32 p HOST_DMA_FIFO_CNT_REG_ADDR s in
      s\<lparr>fifoHead := \<lparr>directDmaRx = ucast w, directDmaTx = ucast (drop_bit 8 w),
                    autoDmaRx = ucast (drop_bit 16 w), autoDmaTx = ucast (drop_bit 24 w)\<rparr>\<rparr>)"

text \<open>A loop that reads the counters as long as a condition holds.\<close>

definition poll_fifo_cnt ::
  "platform \<Rightarrow> (io_state \<Rightarrow> bool) \<Rightarrow> io_state \<Rightarrow> io_state option" where
  "poll_fifo_cnt p busy s = while_option busy (read_fifo_cnt p) s"

definition set_direct_tx_dma ::
  "32 word \<Rightarrow> 32 word \<Rightarrow> 32 word \<Rightarrow> 32 word \<Rightarrow> io_state \<Rightarrow> io_state option" where
  "set_direct_tx_dma devAddr pcieAddrH pcieAddrL len s =
     (if len \<le> 0x1000 \<and> pcieAddrL AND 0x3 = 0 then
        let s = emit (Direct_Dma HOST_DMA_TX_DIRECTION devAddr pcieAddrH pcieAddrL (ucast len)) s
        in Some (s\<lparr>fifoTail := (fifoTail s)\<lparr>directDmaTx := directDmaTx (fifoTail s) + 1\<rparr>,
                   directDmaTxCnt := directDmaTxCnt s + 1\<rparr>)
      else None)"

definition set_direct_rx_dma ::
  "32 word \<Rightarrow> 32 word \<Rightarrow> 32 word \<Rightarrow> 32 word \<Rightarrow> io_state \<Rightarrow> io_state option" where
  "set_direct_rx_dma devAddr pcieAddrH pcieAddrL len s =
     (if len \<le> 0x1000 \<and> pcieAddrL AND 0x3 = 0 then
        let s = emit (Direct_Dma HOST_DMA_RX_DIRECTION devAddr pcieAddrH pcieAddrL (ucast len)) s
        in Some (s\<lparr>fifoTail := (fifoTail s)\<lparr>directDmaRx := directDmaRx (fifoTail s) + 1\<rparr>,
                   directDmaRxCnt := directDmaRxCnt s + 1\<rparr>)
      else None)"

definition set_auto_tx_dma ::
  "platform \<Rightarrow> nat \<Rightarrow> nat \<Rightarrow> 32 word \<Rightarrow> bool \<Rightarrow> io_state \<Rightarrow> io_state option" where
  "set_auto_tx_dma p slot cmd4KBOffset devAddr autoCompletion s =
     (if cmd4KBOffset < 256 then
        do {
          s \<leftarrow> poll_fifo_cnt p
                 (\<lambda>s. (unat (autoDmaTx (fifoTail s)) + 1) mod 256 = unat (autoDmaTx (fifoHead s)))
                 (read_fifo_cnt p s);
          let s = emit (Auto_Dma HOST_DMA_TX_DIRECTION (of_nat slot) (of_nat cmd4KBOffset) devAddr
                          autoCompletion) s;
          let tempTail = autoDmaTx (fifoTail s);
          let s = s\<lparr>fifoTail := (fifoTail s)\<lparr>autoDmaTx := tempTail + 1\<rparr>\<rparr>;
          let s = (if autoDmaTx (fifoTail s) < tempTail
                   then s\<lparr>autoDmaTxOverFlowCnt := autoDmaTxOverFlowCnt s + 1\<rparr> else s);
          Some (s\<lparr>autoDmaTxCnt := autoDmaTxCnt s + 1\<rparr>)
        }
      else None)"

definition set_auto_rx_dma ::
  "platform \<Rightarrow> nat \<Rightarrow> nat \<Rightarrow> 32 word \<Rightarrow> bool \<Rightarrow> io_state \<Rightarrow> io_state option" where
  "set_auto_rx_dma p slot cmd4KBOffset devAddr autoCompletion s =
     (if cmd4KBOffset < 256 then
        do {
          s \<leftarrow> poll_fifo_cnt p
                 (\<lambda>s. (unat (autoDmaRx (fifoTail s)) + 1) mod 256 = unat (autoDmaRx (fifoHead s)))
                 (read_fifo_cnt p s);
          let s = emit (Auto_Dma HOST_DMA_RX_DIRECTION (of_nat slot) (of_nat cmd4KBOffset) devAddr
                          autoCompletion) s;
          let tempTail = autoDmaRx (fifoTail s);
          let s = s\<lparr>fifoTail := (fifoTail s)\<lparr>autoDmaRx := tempTail + 1\<rparr>\<rparr>;
          let s = (if autoDmaRx (fifoTail s) < tempTail
                   then s\<lparr>autoDmaRxOverFlowCnt := autoDmaRxOverFlowCnt s + 1\<rparr> else s);
          Some (s\<lparr>autoDmaRxCnt := autoDmaRxCnt s + 1\<rparr>)
        }
      else None)"

definition check_direct_tx_dma_done :: "platform \<Rightarrow> io_state \<Rightarrow> io_state option" where
  "check_direct_tx_dma_done p s =
     poll_fifo_cnt p (\<lambda>s. directDmaTx (fifoHead s) \<noteq> directDmaTx (fifoTail s)) s"

definition check_direct_rx_dma_done :: "platform \<Rightarrow> io_state \<Rightarrow> io_state option" where
  "check_direct_rx_dma_done p s =
     poll_fifo_cnt p (\<lambda>s. directDmaRx (fifoHead s) \<noteq> directDmaRx (fifoTail s)) s"

definition check_auto_tx_dma_done :: "platform \<Rightarrow> io_state \<Rightarrow> io_state option" where
  "check_auto_tx_dma_done p s =
     poll_fifo_cnt p (\<lambda>s. autoDmaTx (fifoHead s) \<noteq> autoDmaTx (fifoTail s)) s"

definition check_auto_rx_dma_done :: "platform \<Rightarrow> io_state \<Rightarrow> io_state option" where
  "check_auto_rx_dma_done p s =
     poll_fifo_cnt p (\<lambda>s. autoDmaRx (fifoHead s) \<noteq> autoDmaRx (fifoTail s)) s"

text \<open>
  The two partial-done checks have the same body over the counters of their direction: have all
  transfers up to a recorded tail (index and overflow count) been carried out?
\<close>

definition dma_partial_done ::
  "8 word \<Rightarrow> 8 word \<Rightarrow> 32 word \<Rightarrow> 8 word \<Rightarrow> 32 word \<Rightarrow> bool" where
  "dma_partial_done head tail overFlowCnt tailIndex tailAssistIndex =
     (if head = tail then True
      else if head < tailIndex then
        if tail < tailIndex then
          if head < tail then True
          else overFlowCnt \<noteq> tailAssistIndex + 1
        else overFlowCnt \<noteq> tailAssistIndex
      else if head = tailIndex then True
      else
        if tail < tailIndex then True
        else if head < tail then True
        else overFlowCnt \<noteq> tailAssistIndex)"

definition check_auto_tx_dma_partial_done ::
  "platform \<Rightarrow> 8 word \<Rightarrow> 32 word \<Rightarrow> io_state \<Rightarrow> bool \<times> io_state" where
  "check_auto_tx_dma_partial_done p tailIndex tailAssistIndex s =
     (let s = read_fifo_cnt p s in
      (dma_partial_done (autoDmaTx (fifoHead s)) (autoDmaTx (fifoTail s))
         (autoDmaTxOverFlowCnt s) tailIndex tailAssistIndex, s))"

definition check_auto_rx_dma_partial_done ::
  "platform \<Rightarrow> 8 word \<Rightarrow> 32 word \<Rightarrow> io_state \<Rightarrow> bool \<times> io_state" where
  "check_auto_rx_dma_partial_done p tailIndex tailAssistIndex s =
     (let s = read_fifo_cnt p s in
      (dma_partial_done (autoDmaRx (fifoHead s)) (autoDmaRx (fifoTail s))
         (autoDmaRxOverFlowCnt s) tailIndex tailAssistIndex, s))"

section \<open>The NAND storage controllers\<close>

text \<open>
  A controller is named by its channel. The registers that a command sets before its code is
  written are the arguments of the log entry. The addresses of the completion word, of the status
  word and of the error words always belong to the way itself, so the entry need not repeat them.
\<close>

definition V2FIsControllerBusy :: "platform \<Rightarrow> nat \<Rightarrow> io_state \<Rightarrow> bool \<times> io_state" where
  "V2FIsControllerBusy p ch s = (obs_controller_busy (now p s) ch \<noteq> 0, tick s)"

definition poll_controller :: "platform \<Rightarrow> nat \<Rightarrow> io_state \<Rightarrow> io_state option" where
  "poll_controller p ch s =
     map_option tick (while_option (\<lambda>s. obs_controller_busy (now p s) ch \<noteq> 0) tick s)"

definition V2FResetSync :: "platform \<Rightarrow> nat \<Rightarrow> nat \<Rightarrow> io_state \<Rightarrow> io_state option" where
  "V2FResetSync p ch way s = poll_controller p ch (emit (Nsc_Reset ch way) s)"

definition V2FSetFeaturesSync ::
  "platform \<Rightarrow> nat \<Rightarrow> nat \<Rightarrow> 32 word \<Rightarrow> 32 word \<Rightarrow> 32 word \<Rightarrow> 32 word \<Rightarrow>
   io_state \<Rightarrow> io_state option" where
  "V2FSetFeaturesSync p ch way feature0x02 feature0x10 feature0x01 payLoadAddr s =
     poll_controller p ch
       (emit (Nsc_SetFeatures ch way feature0x02 feature0x10 feature0x01 payLoadAddr) s)"

definition V2FEnterToggleMode ::
  "platform \<Rightarrow> nat \<Rightarrow> nat \<Rightarrow> 32 word \<Rightarrow> io_state \<Rightarrow> io_state option" where
  "V2FEnterToggleMode p ch way payLoadAddr s = V2FSetFeaturesSync p ch way 0x6 0x8 0x20 payLoadAddr s"

definition V2FReadPageTriggerAsync ::
  "nat \<Rightarrow> nat \<Rightarrow> 32 word \<Rightarrow> io_state \<Rightarrow> io_state" where
  "V2FReadPageTriggerAsync ch way rowAddress s = emit (Nsc_ReadPageTrigger ch way rowAddress) s"

definition V2FReadPageTransferAsync ::
  "nat \<Rightarrow> nat \<Rightarrow> 32 word \<Rightarrow> 32 word \<Rightarrow> 32 word \<Rightarrow> io_state \<Rightarrow> io_state" where
  "V2FReadPageTransferAsync ch way pageDataBuffer spareDataBuffer rowAddress s =
     emit (Nsc_ReadPageTransfer ch way pageDataBuffer spareDataBuffer rowAddress) s"

definition V2FReadPageTransferRawAsync ::
  "nat \<Rightarrow> nat \<Rightarrow> 32 word \<Rightarrow> io_state \<Rightarrow> io_state" where
  "V2FReadPageTransferRawAsync ch way pageDataBuffer s =
     emit (Nsc_ReadPageTransferRaw ch way pageDataBuffer) s"

definition V2FProgramPageAsync ::
  "nat \<Rightarrow> nat \<Rightarrow> 32 word \<Rightarrow> 32 word \<Rightarrow> 32 word \<Rightarrow> io_state \<Rightarrow> io_state" where
  "V2FProgramPageAsync ch way rowAddress pageDataBuffer spareDataBuffer s =
     emit (Nsc_ProgramPage ch way rowAddress pageDataBuffer spareDataBuffer) s"

definition V2FEraseBlockAsync :: "nat \<Rightarrow> nat \<Rightarrow> 32 word \<Rightarrow> io_state \<Rightarrow> io_state" where
  "V2FEraseBlockAsync ch way rowAddress s = emit (Nsc_EraseBlock ch way rowAddress) s"

definition V2FStatusCheckAsync :: "nat \<Rightarrow> nat \<Rightarrow> io_state \<Rightarrow> io_state" where
  "V2FStatusCheckAsync ch way s = emit (Nsc_StatusCheck ch way) s"

definition V2FReadyBusyAsync :: "platform \<Rightarrow> nat \<Rightarrow> io_state \<Rightarrow> 32 word \<times> io_state" where
  "V2FReadyBusyAsync p ch s = (obs_ready_busy (now p s) ch, tick s)"

text \<open>The macros that read the controller's words.\<close>

definition V2FCrcValid :: "32 word \<Rightarrow> bool" where
  "V2FCrcValid errorInformation \<longleftrightarrow> errorInformation AND 0x10000000 \<noteq> 0"

definition V2FSpareChunkValid :: "32 word \<Rightarrow> bool" where
  "V2FSpareChunkValid errorInformation \<longleftrightarrow> errorInformation AND 0x01000000 \<noteq> 0"

definition V2FPageChunkValid :: "32 word \<Rightarrow> bool" where
  "V2FPageChunkValid errorInformation \<longleftrightarrow> errorInformation = 0xffffffff"

definition V2FWorstChunkErrorCount :: "32 word \<Rightarrow> 32 word" where
  "V2FWorstChunkErrorCount errorInformation = drop_bit 16 (errorInformation AND 0x00ff0000)"

definition V2FWayReady :: "32 word \<Rightarrow> nat \<Rightarrow> bool" where
  "V2FWayReady readyBusy way \<longleftrightarrow> drop_bit way readyBusy AND 1 \<noteq> 0"

definition V2FTransferComplete :: "32 word \<Rightarrow> bool" where
  "V2FTransferComplete completeFlag \<longleftrightarrow> completeFlag AND 1 \<noteq> 0"

definition V2FRequestReportDone :: "32 word \<Rightarrow> bool" where
  "V2FRequestReportDone statusReport \<longleftrightarrow> statusReport AND 1 \<noteq> 0"

definition V2FEliminateReportDoneFlag :: "32 word \<Rightarrow> 32 word" where
  "V2FEliminateReportDoneFlag statusReport = drop_bit 1 statusReport"

definition V2FRequestComplete :: "32 word \<Rightarrow> bool" where
  "V2FRequestComplete statusReport \<longleftrightarrow> statusReport AND 0x60 = 0x60"

definition V2FRequestFail :: "32 word \<Rightarrow> bool" where
  "V2FRequestFail statusReport \<longleftrightarrow> statusReport AND 3 \<noteq> 0"

end
