(* ===== verification/Memory_Map.thy ===== *)
theory Memory_Map
  imports Data_Buffer_Ccmd Way_Lists Device_Io
begin

text \<open>
  The layout of the DRAM, \<^verbatim>\<open>memory_map.h\<close>: the addresses of the buffers that the devices read and
  write, the sizes of the tables, and the check of the configuration at start-up
  (\<^verbatim>\<open>CheckConfigRestriction\<close> of \<^verbatim>\<open>ftl_config.c\<close>). Sizes are those of the packed bit-field structs of
  the header files, in bytes.
\<close>

section \<open>Buffers\<close>

definition DATA_BUFFER_BASE_ADDR :: nat where
  "DATA_BUFFER_BASE_ADDR = 0x10000000"

definition TEMPORARY_DATA_BUFFER_BASE_ADDR :: "'a ftl_config_scheme \<Rightarrow> nat" where
  "TEMPORARY_DATA_BUFFER_BASE_ADDR c =
     DATA_BUFFER_BASE_ADDR + AVAILABLE_DATA_BUFFER_ENTRY_COUNT c * BYTES_PER_DATA_REGION_OF_SLICE"

definition SPARE_DATA_BUFFER_BASE_ADDR :: "'a ftl_config_scheme \<Rightarrow> nat" where
  "SPARE_DATA_BUFFER_BASE_ADDR c =
     TEMPORARY_DATA_BUFFER_BASE_ADDR c +
     AVAILABLE_TEMPORARY_DATA_BUFFER_ENTRY_COUNT c * BYTES_PER_DATA_REGION_OF_SLICE"

definition TEMPORARY_SPARE_DATA_BUFFER_BASE_ADDR :: "'a ftl_config_scheme \<Rightarrow> nat" where
  "TEMPORARY_SPARE_DATA_BUFFER_BASE_ADDR c =
     SPARE_DATA_BUFFER_BASE_ADDR c +
     AVAILABLE_DATA_BUFFER_ENTRY_COUNT c * BYTES_PER_SPARE_REGION_OF_SLICE"

definition CCMD_DATA_BUFFER_BASE_ADDR :: "'a ftl_config_scheme \<Rightarrow> nat" where
  "CCMD_DATA_BUFFER_BASE_ADDR c =
     TEMPORARY_SPARE_DATA_BUFFER_BASE_ADDR c +
     AVAILABLE_TEMPORARY_DATA_BUFFER_ENTRY_COUNT c * BYTES_PER_SPARE_REGION_OF_SLICE"

definition CCMD_SPARE_DATA_BUFFER_BASE_ADDR :: "'a ftl_config_scheme \<Rightarrow> nat" where
  "CCMD_SPARE_DATA_BUFFER_BASE_ADDR c =
     CCMD_DATA_BUFFER_BASE_ADDR c +
     AVAILABLE_CCMD_DATA_BUFFER_ENTRY_COUNT c * BYTES_PER_DATA_REGION_OF_SLICE"

definition RESERVED_DATA_BUFFER_BASE_ADDR :: "'a ftl_config_scheme \<Rightarrow> nat" where
  "RESERVED_DATA_BUFFER_BASE_ADDR c =
     CCMD_SPARE_DATA_BUFFER_BASE_ADDR c +
     AVAILABLE_CCMD_DATA_BUFFER_ENTRY_COUNT c * BYTES_PER_SPARE_REGION_OF_SLICE"

section \<open>Tables that the NAND controllers write\<close>

definition COMPLETE_FLAG_TABLE_ADDR :: nat where
  "COMPLETE_FLAG_TABLE_ADDR = 0x17000000"

definition STATUS_REPORT_TABLE_ADDR :: "'a ftl_config_scheme \<Rightarrow> nat" where
  "STATUS_REPORT_TABLE_ADDR c = COMPLETE_FLAG_TABLE_ADDR + USER_DIES c * 4"

definition ERROR_INFO_TABLE_ADDR :: "'a ftl_config_scheme \<Rightarrow> nat" where
  "ERROR_INFO_TABLE_ADDR c = STATUS_REPORT_TABLE_ADDR c + USER_DIES c * 4"

definition TEMPORARY_PAY_LOAD_ADDR :: "'a ftl_config_scheme \<Rightarrow> nat" where
  "TEMPORARY_PAY_LOAD_ADDR c = ERROR_INFO_TABLE_ADDR c + USER_DIES c * (ERROR_INFO_WORD_COUNT * 4)"

section \<open>Tables of the firmware\<close>

definition DATA_BUFFER_MAP_ADDR :: nat where
  "DATA_BUFFER_MAP_ADDR = 0x18000000"

definition DATA_BUFFFER_HASH_TABLE_ADDR :: "'a ftl_config_scheme \<Rightarrow> nat" where
  "DATA_BUFFFER_HASH_TABLE_ADDR c =
     DATA_BUFFER_MAP_ADDR + AVAILABLE_DATA_BUFFER_ENTRY_COUNT c * 16"

definition TEMPORARY_DATA_BUFFER_MAP_ADDR :: "'a ftl_config_scheme \<Rightarrow> nat" where
  "TEMPORARY_DATA_BUFFER_MAP_ADDR c =
     DATA_BUFFFER_HASH_TABLE_ADDR c + AVAILABLE_DATA_BUFFER_ENTRY_COUNT c * 4"

definition CCMD_DATA_BUF_MAP_ADDR :: "'a ftl_config_scheme \<Rightarrow> nat" where
  "CCMD_DATA_BUF_MAP_ADDR c =
     TEMPORARY_DATA_BUFFER_MAP_ADDR c + AVAILABLE_TEMPORARY_DATA_BUFFER_ENTRY_COUNT c * 4"

text \<open>The custom command buffer tables are declared with the entry count of the normal buffer.\<close>

definition CCMD_DATA_BUF_HASH_TABLE_ADDR :: "'a ftl_config_scheme \<Rightarrow> nat" where
  "CCMD_DATA_BUF_HASH_TABLE_ADDR c =
     CCMD_DATA_BUF_MAP_ADDR c + AVAILABLE_DATA_BUFFER_ENTRY_COUNT c * 16"

definition LOGICAL_SLICE_MAP_ADDR :: "'a ftl_config_scheme \<Rightarrow> nat" where
  "LOGICAL_SLICE_MAP_ADDR c =
     CCMD_DATA_BUF_HASH_TABLE_ADDR c + AVAILABLE_DATA_BUFFER_ENTRY_COUNT c * 4"

definition VIRTUAL_SLICE_MAP_ADDR :: "'a ftl_config_scheme \<Rightarrow> nat" where
  "VIRTUAL_SLICE_MAP_ADDR c = LOGICAL_SLICE_MAP_ADDR c + SLICES_PER_SSD c * 4"

definition VIRTUAL_BLOCK_MAP_ADDR :: "'a ftl_config_scheme \<Rightarrow> nat" where
  "VIRTUAL_BLOCK_MAP_ADDR c = VIRTUAL_SLICE_MAP_ADDR c + SLICES_PER_SSD c * 4"

definition PHY_BLOCK_MAP_ADDR :: "'a ftl_config_scheme \<Rightarrow> nat" where
  "PHY_BLOCK_MAP_ADDR c = VIRTUAL_BLOCK_MAP_ADDR c + USER_DIES c * USER_BLOCKS_PER_DIE c * 12"

definition BAD_BLOCK_TABLE_INFO_MAP_ADDR :: "'a ftl_config_scheme \<Rightarrow> nat" where
  "BAD_BLOCK_TABLE_INFO_MAP_ADDR c = PHY_BLOCK_MAP_ADDR c + USER_DIES c * TOTAL_BLOCKS_PER_DIE * 4"

definition VIRTUAL_DIE_MAP_ADDR :: "'a ftl_config_scheme \<Rightarrow> nat" where
  "VIRTUAL_DIE_MAP_ADDR c = BAD_BLOCK_TABLE_INFO_MAP_ADDR c + USER_DIES c * 4"

definition GC_VICTIM_MAP_ADDR :: "'a ftl_config_scheme \<Rightarrow> nat" where
  "GC_VICTIM_MAP_ADDR c = VIRTUAL_DIE_MAP_ADDR c + USER_DIES c * 12"

definition REQ_POOL_ADDR :: "'a ftl_config_scheme \<Rightarrow> nat" where
  "REQ_POOL_ADDR c = GC_VICTIM_MAP_ADDR c + USER_DIES c * (SLICES_PER_BLOCK c + 1) * 4"

definition ROW_ADDR_DEPENDENCY_TABLE_ADDR :: "'a ftl_config_scheme \<Rightarrow> nat" where
  "ROW_ADDR_DEPENDENCY_TABLE_ADDR c = REQ_POOL_ADDR c + AVAILABLE_OUNTSTANDING_REQ_COUNT c * 44"

definition DIE_STATE_TABLE_ADDR :: "'a ftl_config_scheme \<Rightarrow> nat" where
  "DIE_STATE_TABLE_ADDR c =
     ROW_ADDR_DEPENDENCY_TABLE_ADDR c + USER_DIES c * MAIN_BLOCKS_PER_DIE * 4"

definition RETRY_LIMIT_TABLE_ADDR :: "'a ftl_config_scheme \<Rightarrow> nat" where
  "RETRY_LIMIT_TABLE_ADDR c = DIE_STATE_TABLE_ADDR c + USER_DIES c * 4"

definition WAY_PRIORITY_TABLE_ADDR :: "'a ftl_config_scheme \<Rightarrow> nat" where
  "WAY_PRIORITY_TABLE_ADDR c = RETRY_LIMIT_TABLE_ADDR c + USER_DIES c * 4"

definition CUSTOM_IO_CMD_COMPLETE_TABLE_ADDR :: "'a ftl_config_scheme \<Rightarrow> nat" where
  "CUSTOM_IO_CMD_COMPLETE_TABLE_ADDR c = WAY_PRIORITY_TABLE_ADDR c + USER_CHANNELS c * 8"

definition HOST_REQUEST_TIME_TABLE_ADDR :: "'a ftl_config_scheme \<Rightarrow> nat" where
  "HOST_REQUEST_TIME_TABLE_ADDR c = CUSTOM_IO_CMD_COMPLETE_TABLE_ADDR c + 1024 * 12"

definition PRINT_BUFFER_TABLE_ADDR :: "'a ftl_config_scheme \<Rightarrow> nat" where
  "PRINT_BUFFER_TABLE_ADDR c = HOST_REQUEST_TIME_TABLE_ADDR c + 1024 * 64"

definition FTL_MANAGEMENT_END_ADDR :: "'a ftl_config_scheme \<Rightarrow> nat" where
  "FTL_MANAGEMENT_END_ADDR c = PRINT_BUFFER_TABLE_ADDR c + 1024 * 256 - 1"

definition DRAM_END_ADDR :: nat where
  "DRAM_END_ADDR = 0x3FFFFFFF"

lemmas buffer_addrs =
  DATA_BUFFER_BASE_ADDR_def TEMPORARY_DATA_BUFFER_BASE_ADDR_def SPARE_DATA_BUFFER_BASE_ADDR_def
  TEMPORARY_SPARE_DATA_BUFFER_BASE_ADDR_def CCMD_DATA_BUFFER_BASE_ADDR_def
  CCMD_SPARE_DATA_BUFFER_BASE_ADDR_def RESERVED_DATA_BUFFER_BASE_ADDR_def

lemmas controller_addrs =
  COMPLETE_FLAG_TABLE_ADDR_def STATUS_REPORT_TABLE_ADDR_def ERROR_INFO_TABLE_ADDR_def
  TEMPORARY_PAY_LOAD_ADDR_def

lemmas table_addrs =
  DATA_BUFFER_MAP_ADDR_def DATA_BUFFFER_HASH_TABLE_ADDR_def TEMPORARY_DATA_BUFFER_MAP_ADDR_def
  CCMD_DATA_BUF_MAP_ADDR_def CCMD_DATA_BUF_HASH_TABLE_ADDR_def LOGICAL_SLICE_MAP_ADDR_def
  VIRTUAL_SLICE_MAP_ADDR_def VIRTUAL_BLOCK_MAP_ADDR_def PHY_BLOCK_MAP_ADDR_def
  BAD_BLOCK_TABLE_INFO_MAP_ADDR_def VIRTUAL_DIE_MAP_ADDR_def GC_VICTIM_MAP_ADDR_def
  REQ_POOL_ADDR_def ROW_ADDR_DEPENDENCY_TABLE_ADDR_def DIE_STATE_TABLE_ADDR_def
  RETRY_LIMIT_TABLE_ADDR_def WAY_PRIORITY_TABLE_ADDR_def CUSTOM_IO_CMD_COMPLETE_TABLE_ADDR_def
  HOST_REQUEST_TIME_TABLE_ADDR_def PRINT_BUFFER_TABLE_ADDR_def FTL_MANAGEMENT_END_ADDR_def
  DRAM_END_ADDR_def

declare buffer_addrs [layout] controller_addrs [layout] table_addrs [layout]

section \<open>The check of the configuration\<close>

text \<open>
  The number of channels that the board has is the argument; it is at most eight, the number of
  controllers the header knows. The first failed restriction ends in an assertion.
\<close>

definition CheckConfigRestriction :: "nat \<Rightarrow> 'a ftl_config_scheme \<Rightarrow> unit option" where
  "CheckConfigRestriction connected c =
     (if USER_CHANNELS c > connected then None
      else if USER_WAYS c > NSC_MAX_WAYS then None
      else if USER_BLOCKS_PER_LUN c > MAIN_BLOCKS_PER_LUN then None
      else if BITS_PER_FLASH_CELL c \<noteq> SLC_MODE \<and> BITS_PER_FLASH_CELL c \<noteq> MLC_MODE then None
      else if RESERVED_DATA_BUFFER_BASE_ADDR c + 0x00200000 > COMPLETE_FLAG_TABLE_ADDR then None
      else if TEMPORARY_PAY_LOAD_ADDR c + 0x00001000 > DATA_BUFFER_MAP_ADDR then None
      else if FTL_MANAGEMENT_END_ADDR c > DRAM_END_ADDR then None
      else Some ())"

text \<open>The controllers' register bases: a channel can be used when its controller is connected.\<close>

definition InitChCtlReg :: "'a ftl_config_scheme \<Rightarrow> (nat \<Rightarrow> nat) \<Rightarrow> (nat \<Rightarrow> nat option) \<Rightarrow>
  (nat \<Rightarrow> nat option) option" where
  "InitChCtlReg c nsc_base regs =
     (if USER_CHANNELS c < 1 then None
      else Some (\<lambda>ch. if ch < min 8 (USER_CHANNELS c) then Some (nsc_base ch) else regs ch))"

text \<open>
  The regions that hold data, each with its first address and its end, in the order of the memory
  map; \<open>disjoint_regions\<close> says that each one ends before the next begins.
\<close>

definition buffer_regions :: "'a ftl_config_scheme \<Rightarrow> (nat \<times> nat) list" where
  "buffer_regions c =
     (let n = AVAILABLE_DATA_BUFFER_ENTRY_COUNT c; t = AVAILABLE_TEMPORARY_DATA_BUFFER_ENTRY_COUNT c;
          k = AVAILABLE_CCMD_DATA_BUFFER_ENTRY_COUNT c;
          dat = BYTES_PER_DATA_REGION_OF_SLICE; spare = BYTES_PER_SPARE_REGION_OF_SLICE in
      [(DATA_BUFFER_BASE_ADDR, DATA_BUFFER_BASE_ADDR + n * dat),
       (TEMPORARY_DATA_BUFFER_BASE_ADDR c, TEMPORARY_DATA_BUFFER_BASE_ADDR c + t * dat),
       (SPARE_DATA_BUFFER_BASE_ADDR c, SPARE_DATA_BUFFER_BASE_ADDR c + n * spare),
       (TEMPORARY_SPARE_DATA_BUFFER_BASE_ADDR c, TEMPORARY_SPARE_DATA_BUFFER_BASE_ADDR c + t * spare),
       (CCMD_DATA_BUFFER_BASE_ADDR c, CCMD_DATA_BUFFER_BASE_ADDR c + k * dat),
       (CCMD_SPARE_DATA_BUFFER_BASE_ADDR c, CCMD_SPARE_DATA_BUFFER_BASE_ADDR c + k * spare),
       (RESERVED_DATA_BUFFER_BASE_ADDR c, RESERVED_DATA_BUFFER_BASE_ADDR c + 0x00200000),
       (COMPLETE_FLAG_TABLE_ADDR, TEMPORARY_PAY_LOAD_ADDR c + 0x1000),
       (DATA_BUFFER_MAP_ADDR, FTL_MANAGEMENT_END_ADDR c + 1)])"

fun disjoint_regions :: "(nat \<times> nat) list \<Rightarrow> bool" where
  "disjoint_regions (r # r' # rs) \<longleftrightarrow>
     fst r \<le> snd r \<and> snd r \<le> fst r' \<and> disjoint_regions (r' # rs)"
| "disjoint_regions rs \<longleftrightarrow> (\<forall>r \<in> set rs. fst r \<le> snd r)"

text \<open>
  C36. A configuration that passes the check at start-up is one for which the theorems of this
  library hold (\<^term>\<open>wf_config\<close>), and its data buffers, the reserved buffer, the tables the
  controllers write and the tables of the firmware occupy disjoint regions of the DRAM, in the
  order of the memory map.
\<close>

theorem CheckConfigRestriction_layout:
  assumes "CheckConfigRestriction connected c = Some ()" and "connected \<le> 8"
    and "InitChCtlReg c nsc_base regs \<noteq> None" and "1 \<le> USER_WAYS c" and "1 \<le> USER_BLOCKS_PER_LUN c"
  shows "wf_config c \<and> disjoint_regions (buffer_regions c) \<and>
         (\<forall>r \<in> set (buffer_regions c). DATA_BUFFER_BASE_ADDR \<le> fst r \<and> snd r \<le> DRAM_END_ADDR + 1)"
proof -
  have r: "USER_CHANNELS c \<le> connected" "USER_WAYS c \<le> NSC_MAX_WAYS"
    "USER_BLOCKS_PER_LUN c \<le> MAIN_BLOCKS_PER_LUN"
    "BITS_PER_FLASH_CELL c = SLC_MODE \<or> BITS_PER_FLASH_CELL c = MLC_MODE"
    "RESERVED_DATA_BUFFER_BASE_ADDR c + 0x00200000 \<le> COMPLETE_FLAG_TABLE_ADDR"
    "TEMPORARY_PAY_LOAD_ADDR c + 0x00001000 \<le> DATA_BUFFER_MAP_ADDR"
    "FTL_MANAGEMENT_END_ADDR c \<le> DRAM_END_ADDR"
    using assms(1) by (auto simp: CheckConfigRestriction_def split: if_splits)
  have "1 \<le> USER_CHANNELS c" using assms(3) by (auto simp: InitChCtlReg_def split: if_splits)
  then have wf: "wf_config c" using r(1-4) assms(2,4,5) by (auto simp: wf_config_def)
  have tables: "DATA_BUFFER_MAP_ADDR \<le> FTL_MANAGEMENT_END_ADDR c + 1"
    "COMPLETE_FLAG_TABLE_ADDR \<le> TEMPORARY_PAY_LOAD_ADDR c"
    by (simp_all add: layout)
  have dis: "disjoint_regions (buffer_regions c)"
    using r(5,6) tables unfolding buffer_regions_def Let_def disjoint_regions.simps
    by (simp add: buffer_addrs)
  have "\<forall>r \<in> set (buffer_regions c). DATA_BUFFER_BASE_ADDR \<le> fst r \<and> snd r \<le> DRAM_END_ADDR + 1"
    using r(5,6,7) tables unfolding buffer_regions_def Let_def
    by (simp add: buffer_addrs DRAM_END_ADDR_def COMPLETE_FLAG_TABLE_ADDR_def DATA_BUFFER_MAP_ADDR_def)
  with wf dis show ?thesis by blast
qed

lemmas cosmos_sizes =
  cosmos_config_def AVAILABLE_DATA_BUFFER_ENTRY_COUNT_def
  AVAILABLE_TEMPORARY_DATA_BUFFER_ENTRY_COUNT_def AVAILABLE_CCMD_DATA_BUFFER_ENTRY_COUNT_def
  AVAILABLE_OUNTSTANDING_REQ_COUNT_def USER_DIES_def USER_PAGES_PER_BLOCK_def
  USER_BLOCKS_PER_DIE_def ERROR_INFO_WORD_COUNT_def SLICES_PER_SSD_product nand_consts

theorem CheckConfigRestriction_layout_witness:
  "wf_config (cosmos_config 8) \<and> disjoint_regions (buffer_regions (cosmos_config 8))"
  using CheckConfigRestriction_layout [of 8 "cosmos_config 8" "\<lambda>ch. 0" "\<lambda>ch. None"]
  by (simp add: CheckConfigRestriction_def InitChCtlReg_def layout cosmos_sizes)

end
