(* ===== verification/Host_Time.thy ===== *)
theory Host_Time
  imports Request_Allocation
begin

text \<open>
  The time stamps of host requests, \<^verbatim>\<open>get_time_host_request.[ch]\<close>: one entry for each command slot
  with the instants at which the command was fetched, blocked, evicted a buffer, started and ended
  its transfers, and the counters of its outstanding transfers and evictions. The value that
  \<^verbatim>\<open>XTime_GetTime\<close> returns is an argument \<open>now\<close>. The reserved request code
  \<^verbatim>\<open>ENTRY_NONE\<close> is \<^term>\<open>None\<close>.
\<close>

definition MAX_CMD_SLOT_TAG :: nat where
  "MAX_CMD_SLOT_TAG = 1024"

definition PRINT_BUFFER_ENTRY_CNT :: nat where
  "PRINT_BUFFER_ENTRY_CNT = 1024"

definition PRINT_BUFFER_DATA_SIZE :: nat where
  "PRINT_BUFFER_DATA_SIZE = 256"

record host_time_entry =
  hostReqCode :: "req_code option"
  fetch :: "64 word"
  blockedBufferDef :: "64 word"
  nandReqStart :: "64 word"
  nandReqEnd :: "64 word"
  nvmeDmaStart :: "64 word"
  nvmeDmaEnd :: "64 word"
  nvmeDmaCnt :: "32 word"
  nandReqCnt :: "32 word"

text \<open>
  A line of the report that is printed once in a thousand completed requests: slot, whether it is
  a read, the three intervals, and the totals of reads and writes.
\<close>

record report_line =
  lineSlotTag :: nat
  lineIsRead :: bool
  FetchToEvictionStart :: "32 word"
  ElapseEvictBuff :: "32 word"
  EvictToComplete :: "32 word"
  lineTotalR :: "32 word"
  lineTotalW :: "32 word"

record host_time =
  hostRequestTimeEntry :: "nat \<Rightarrow> host_time_entry"
  printBuffer :: "nat \<Rightarrow> 8 word list"
  bufferWritePoint :: "32 word"
  time_cnt :: "32 word"
  total_r :: "32 word"
  total_w :: "32 word"
  reportLines :: "report_line list"

definition upd_time :: "nat \<Rightarrow> (host_time_entry \<Rightarrow> host_time_entry) \<Rightarrow> host_time \<Rightarrow> host_time" where
  "upd_time slot f t =
     t\<lparr>hostRequestTimeEntry := (hostRequestTimeEntry t)(slot := f (hostRequestTimeEntry t slot))\<rparr>"

definition empty_time_entry :: host_time_entry where
  "empty_time_entry =
     \<lparr>hostReqCode = None, fetch = 0, blockedBufferDef = 0, nandReqStart = 0, nandReqEnd = 0,
      nvmeDmaStart = 0, nvmeDmaEnd = 0, nvmeDmaCnt = 0, nandReqCnt = 0\<rparr>"

definition InitHostReqTimeTable :: "host_time \<Rightarrow> host_time" where
  "InitHostReqTimeTable t =
     t\<lparr>hostRequestTimeEntry := array_for MAX_CMD_SLOT_TAG (\<lambda>i e. empty_time_entry)
          (hostRequestTimeEntry t),
       printBuffer := array_for PRINT_BUFFER_ENTRY_CNT
          (\<lambda>i d. replicate PRINT_BUFFER_DATA_SIZE 0) (printBuffer t),
       bufferWritePoint := 0\<rparr>"

definition GetTimeFetch :: "64 word \<Rightarrow> nat \<Rightarrow> host_time \<Rightarrow> host_time" where
  "GetTimeFetch now slot t =
     (if fetch (hostRequestTimeEntry t slot) = 0
      then upd_time slot (\<lambda>e. e\<lparr>fetch := now\<rparr>) t else t)"

definition AllocateHostReqTime ::
  "64 word \<Rightarrow> nat \<Rightarrow> req_code \<Rightarrow> host_time \<Rightarrow> host_time option" where
  "AllocateHostReqTime now slot code t =
     do {
       dma \<leftarrow> (if code = REQ_CODE_WRITE then Some REQ_CODE_RxDMA
              else if code = REQ_CODE_READ then Some REQ_CODE_TxDMA
              else None);
       Some (if hostReqCode (hostRequestTimeEntry t slot) = None
             then GetTimeFetch now slot (upd_time slot (\<lambda>e. e\<lparr>hostReqCode := Some dma\<rparr>) t)
             else t)
     }"

definition AllocateNvmeDmaCnt :: "nat \<Rightarrow> host_time \<Rightarrow> host_time" where
  "AllocateNvmeDmaCnt slot t = upd_time slot (\<lambda>e. e\<lparr>nvmeDmaCnt := nvmeDmaCnt e + 1\<rparr>) t"

definition AllocateNandReqCntForBufferEviction :: "nat \<Rightarrow> host_time \<Rightarrow> host_time" where
  "AllocateNandReqCntForBufferEviction slot t =
     upd_time slot (\<lambda>e. e\<lparr>nandReqCnt := nandReqCnt e + 1\<rparr>) t"

definition GetTimeBlockedBufferDef :: "64 word \<Rightarrow> nat \<Rightarrow> host_time \<Rightarrow> host_time" where
  "GetTimeBlockedBufferDef now slot t =
     (if blockedBufferDef (hostRequestTimeEntry t slot) = 0
      then upd_time slot (\<lambda>e. e\<lparr>blockedBufferDef := now\<rparr>) t else t)"

text \<open>The two functions that look at a request take its code.\<close>

definition GetTimeBufferEvictNandReqStart ::
  "64 word \<Rightarrow> nat \<Rightarrow> req_code \<Rightarrow> host_time \<Rightarrow> host_time" where
  "GetTimeBufferEvictNandReqStart now slot code t =
     (if code = REQ_CODE_WRITE \<and> nandReqStart (hostRequestTimeEntry t slot) = 0
      then upd_time slot (\<lambda>e. e\<lparr>nandReqStart := now\<rparr>) t else t)"

definition GetTimeBufferEvictNandReqEnd ::
  "64 word \<Rightarrow> nat \<Rightarrow> req_code \<Rightarrow> host_time \<Rightarrow> host_time" where
  "GetTimeBufferEvictNandReqEnd now slot code t =
     (if code = REQ_CODE_WRITE then
        let t = upd_time slot (\<lambda>e. e\<lparr>nandReqCnt := nandReqCnt e - 1\<rparr>) t in
        if nandReqCnt (hostRequestTimeEntry t slot) = 0 \<and>
           nandReqEnd (hostRequestTimeEntry t slot) = 0
        then upd_time slot (\<lambda>e. e\<lparr>nandReqEnd := now\<rparr>) t
        else t
      else t)"

definition GetTimeHostReqNvmeDmaStart :: "64 word \<Rightarrow> nat \<Rightarrow> host_time \<Rightarrow> host_time" where
  "GetTimeHostReqNvmeDmaStart now slot t =
     (if nvmeDmaStart (hostRequestTimeEntry t slot) = 0
      then upd_time slot (\<lambda>e. e\<lparr>nvmeDmaStart := now\<rparr>) t else t)"

definition ResetHostRequestTimeEntry :: "nat \<Rightarrow> host_time \<Rightarrow> host_time" where
  "ResetHostRequestTimeEntry slot t =
     upd_time slot (\<lambda>e. e\<lparr>hostReqCode := None, fetch := 0, blockedBufferDef := 0,
       nandReqStart := 0, nandReqEnd := 0, nvmeDmaStart := 0, nvmeDmaEnd := 0\<rparr>) t"

definition BufferItemValue :: "nat \<Rightarrow> host_time \<Rightarrow> host_time" where
  "BufferItemValue slot t =
     (let t = (if bufferWritePoint t = of_nat PRINT_BUFFER_ENTRY_CNT
               then (InitHostReqTimeTable t)\<lparr>bufferWritePoint := 0\<rparr> else t);
          e = hostRequestTimeEntry t slot;
          rd = (hostReqCode e = Some REQ_CODE_TxDMA);
          t = (if rd then t\<lparr>total_r := total_r t + 1\<rparr> else t\<lparr>total_w := total_w t + 1\<rparr>);
          t = t\<lparr>time_cnt := time_cnt t + 1\<rparr>;
          t = (if time_cnt t mod 1000 = 0
               then t\<lparr>reportLines := reportLines t @
                  [\<lparr>lineSlotTag = slot, lineIsRead = rd,
                    FetchToEvictionStart = ucast (blockedBufferDef e - fetch e),
                    ElapseEvictBuff = ucast (nandReqEnd e - nandReqStart e),
                    EvictToComplete = ucast (nvmeDmaEnd e - nvmeDmaStart e),
                    lineTotalR = total_r t, lineTotalW = total_w t\<rparr>]\<rparr>
               else t);
          t = t\<lparr>bufferWritePoint := bufferWritePoint t + 1\<rparr>
      in ResetHostRequestTimeEntry slot t)"

definition GetTimeHostReqNvmeDmaEnd :: "64 word \<Rightarrow> nat \<Rightarrow> host_time \<Rightarrow> host_time" where
  "GetTimeHostReqNvmeDmaEnd now slot t =
     (let t = upd_time slot (\<lambda>e. e\<lparr>nvmeDmaCnt := nvmeDmaCnt e - 1\<rparr>) t in
      if nvmeDmaCnt (hostRequestTimeEntry t slot) = 0 \<and>
         nvmeDmaEnd (hostRequestTimeEntry t slot) = 0
      then BufferItemValue slot (upd_time slot (\<lambda>e. e\<lparr>nvmeDmaEnd := now\<rparr>) t)
      else t)"

text \<open>\<^verbatim>\<open>PrintTimeOfHostRequests\<close> only prints: its lines, up to the terminating zero of each.\<close>

definition PrintTimeOfHostRequests :: "host_time \<Rightarrow> 8 word list list" where
  "PrintTimeOfHostRequests t =
     map (\<lambda>i. takeWhile (\<lambda>b. b \<noteq> 0) (printBuffer t i)) [0..<PRINT_BUFFER_ENTRY_CNT]"

section \<open>What is counted\<close>

lemma entry_upd_time [simp]:
  "hostRequestTimeEntry (upd_time slot f t) =
     (hostRequestTimeEntry t)(slot := f (hostRequestTimeEntry t slot))"
  by (simp add: upd_time_def)

lemma upd_time_frame [simp]:
  "bufferWritePoint (upd_time slot f t) = bufferWritePoint t"
  "time_cnt (upd_time slot f t) = time_cnt t"
  "total_r (upd_time slot f t) = total_r t"
  "total_w (upd_time slot f t) = total_w t"
  "reportLines (upd_time slot f t) = reportLines t"
  "printBuffer (upd_time slot f t) = printBuffer t"
  by (simp_all add: upd_time_def)

text \<open>A table whose other slots are untouched until the print buffer is full.\<close>

lemma BufferItemValue_other:
  assumes "bufferWritePoint t \<noteq> of_nat PRINT_BUFFER_ENTRY_CNT" and "i \<noteq> slot"
  shows "hostRequestTimeEntry (BufferItemValue slot t) i = hostRequestTimeEntry t i"
  using assms by (simp add: BufferItemValue_def ResetHostRequestTimeEntry_def Let_def)

lemma BufferItemValue_cnt:
  assumes "bufferWritePoint t \<noteq> of_nat PRINT_BUFFER_ENTRY_CNT"
  shows "nvmeDmaCnt (hostRequestTimeEntry (BufferItemValue slot t) slot) =
           nvmeDmaCnt (hostRequestTimeEntry t slot)"
    and "hostReqCode (hostRequestTimeEntry (BufferItemValue slot t) slot) = None"
    and "nvmeDmaEnd (hostRequestTimeEntry (BufferItemValue slot t) slot) = 0"
  using assms by (simp_all add: BufferItemValue_def ResetHostRequestTimeEntry_def Let_def)

lemma BufferItemValue_totals:
  "total_r (BufferItemValue slot t) + total_w (BufferItemValue slot t) =
     total_r t + total_w t + 1"
  "time_cnt (BufferItemValue slot t) = time_cnt t + 1"
  by (simp_all add: BufferItemValue_def ResetHostRequestTimeEntry_def InitHostReqTimeTable_def
      Let_def algebra_simps)

text \<open>\<open>k\<close> transfers of a slot end one after the other, at the instants of a list.\<close>

definition end_dmas :: "64 word list \<Rightarrow> nat \<Rightarrow> host_time \<Rightarrow> host_time" where
  "end_dmas nows slot t = fold (\<lambda>now. GetTimeHostReqNvmeDmaEnd now slot) nows t"

lemma dma_end_not_last:
  assumes "nvmeDmaCnt (hostRequestTimeEntry t slot) \<noteq> 1"
  shows "GetTimeHostReqNvmeDmaEnd now slot t =
           upd_time slot (\<lambda>e. e\<lparr>nvmeDmaCnt := nvmeDmaCnt e - 1\<rparr>) t"
  using assms by (simp add: GetTimeHostReqNvmeDmaEnd_def Let_def)

lemma end_dmas_before_last:
  assumes "nvmeDmaCnt (hostRequestTimeEntry t slot) = of_nat k" and "k < 2 ^ 32"
    and "length nows < k"
  shows "end_dmas nows slot t =
           upd_time slot (\<lambda>e. e\<lparr>nvmeDmaCnt := of_nat (k - length nows)\<rparr>) t"
  using assms
proof (induction nows arbitrary: t k)
  case Nil
  then show ?case by (cases t) (simp add: end_dmas_def upd_time_def fun_upd_idem)
next
  case (Cons now nows)
  let ?t = "upd_time slot (\<lambda>e. e\<lparr>nvmeDmaCnt := nvmeDmaCnt e - 1\<rparr>) t"
  have "(of_nat (k - 1) :: 32 word) \<noteq> 0"
    using Cons.prems(2,3) word_counter_zero_iff [of "k - 1", where 'a=32] by simp
  then have "(of_nat k :: 32 word) \<noteq> 1"
    using Cons.prems(3) by (simp add: of_nat_diff)
  then have step: "GetTimeHostReqNvmeDmaEnd now slot t = ?t"
    using dma_end_not_last Cons.prems(1) by simp
  have "nvmeDmaCnt (hostRequestTimeEntry ?t slot) = of_nat (k - 1)"
    using Cons.prems by (simp add: of_nat_diff)
  then have "end_dmas nows slot ?t =
      upd_time slot (\<lambda>e. e\<lparr>nvmeDmaCnt := of_nat (k - 1 - length nows)\<rparr>) ?t"
    using Cons.IH [of ?t "k - 1"] Cons.prems(2,3) by simp
  then show ?case using step by (simp add: end_dmas_def upd_time_def)
qed

lemma end_dmas_snoc:
  "end_dmas (nows @ [now]) slot t = GetTimeHostReqNvmeDmaEnd now slot (end_dmas nows slot t)"
  by (simp add: end_dmas_def)

text \<open>
  C37. While the print buffer has room, the request of a slot with \<open>k\<close> outstanding transfers is
  reported exactly once, when the last of them ends: the ends before leave the totals as they are,
  the last one counts one request as a read or as a write, clears the slot for the next command,
  leaves no transfer outstanding and touches no other slot.
\<close>

theorem host_request_reported_once:
  assumes "nvmeDmaCnt (hostRequestTimeEntry t slot) = of_nat (Suc k)" and "Suc k < 2 ^ 32"
    and "nvmeDmaEnd (hostRequestTimeEntry t slot) = 0"
    and "bufferWritePoint t \<noteq> of_nat PRINT_BUFFER_ENTRY_CNT"
    and "length nows = k"
  shows "time_cnt (end_dmas nows slot t) = time_cnt t \<and>
         time_cnt (end_dmas (nows @ [now]) slot t) = time_cnt t + 1 \<and>
         total_r (end_dmas (nows @ [now]) slot t) + total_w (end_dmas (nows @ [now]) slot t) =
           total_r t + total_w t + 1 \<and>
         hostReqCode (hostRequestTimeEntry (end_dmas (nows @ [now]) slot t) slot) = None \<and>
         nvmeDmaCnt (hostRequestTimeEntry (end_dmas (nows @ [now]) slot t) slot) = 0 \<and>
         (\<forall>i. i \<noteq> slot \<longrightarrow> hostRequestTimeEntry (end_dmas (nows @ [now]) slot t) i =
                            hostRequestTimeEntry t i)"
proof -
  let ?t = "end_dmas nows slot t"
  let ?u = "upd_time slot (\<lambda>e. e\<lparr>nvmeDmaEnd := now\<rparr>)
              (upd_time slot (\<lambda>e. e\<lparr>nvmeDmaCnt := nvmeDmaCnt e - 1\<rparr>) ?t)"
  have t: "?t = upd_time slot (\<lambda>e. e\<lparr>nvmeDmaCnt := 1\<rparr>) t"
    using end_dmas_before_last [OF assms(1,2)] assms(5) by simp
  have room: "bufferWritePoint ?u \<noteq> of_nat PRINT_BUFFER_ENTRY_CNT"
    using assms(4) by (simp add: t)
  have last: "end_dmas (nows @ [now]) slot t = BufferItemValue slot ?u"
    using assms(3) by (simp add: end_dmas_snoc GetTimeHostReqNvmeDmaEnd_def t Let_def)
  show ?thesis
    unfolding last BufferItemValue_totals BufferItemValue_cnt [OF room]
    using BufferItemValue_other [OF room] by (simp add: t)
qed

text \<open>A slot with two transfers under way in an otherwise fresh table.\<close>

definition two_transfers :: host_time where
  "two_transfers = upd_time 5 (\<lambda>e. e\<lparr>hostReqCode := Some REQ_CODE_TxDMA, nvmeDmaCnt := 2\<rparr>)
     \<lparr>hostRequestTimeEntry = (\<lambda>i. empty_time_entry), printBuffer = (\<lambda>i. []), bufferWritePoint = 7,
      time_cnt = 0, total_r = 0, total_w = 0, reportLines = []\<rparr>"

theorem host_request_reported_once_witness:
  "time_cnt (end_dmas [3, 4] 5 two_transfers) = 1 \<and>
   nvmeDmaCnt (hostRequestTimeEntry (end_dmas [3, 4] 5 two_transfers) 5) = 0"
  using host_request_reported_once [of two_transfers 5 1 "[3]" 4]
  by (simp add: two_transfers_def empty_time_entry_def PRINT_BUFFER_ENTRY_CNT_def)

text \<open>
  When the print buffer is full, reporting a request initialises the whole table: every other
  slot forgets its request and its outstanding transfers. The next transfer of such a slot to end
  takes the counter below zero, to the largest 32-bit value, so the request is not reported.
\<close>

theorem full_print_buffer_forgets_requests:
  assumes "bufferWritePoint t = of_nat PRINT_BUFFER_ENTRY_CNT"
    and "i < MAX_CMD_SLOT_TAG" and "i \<noteq> slot"
  shows "hostRequestTimeEntry (BufferItemValue slot t) i = empty_time_entry \<and>
         nvmeDmaCnt (hostRequestTimeEntry
           (GetTimeHostReqNvmeDmaEnd now i (BufferItemValue slot t)) i) = 2 ^ 32 - 1 \<and>
         time_cnt (GetTimeHostReqNvmeDmaEnd now i (BufferItemValue slot t)) =
           time_cnt (BufferItemValue slot t)"
proof -
  have e: "hostRequestTimeEntry (BufferItemValue slot t) i = empty_time_entry"
    using assms by (simp add: BufferItemValue_def InitHostReqTimeTable_def
        ResetHostRequestTimeEntry_def Let_def)
  then have "GetTimeHostReqNvmeDmaEnd now i (BufferItemValue slot t) =
      upd_time i (\<lambda>e. e\<lparr>nvmeDmaCnt := nvmeDmaCnt e - 1\<rparr>) (BufferItemValue slot t)"
    by (intro dma_end_not_last) (simp add: empty_time_entry_def)
  with e show ?thesis by (simp add: empty_time_entry_def)
qed

theorem full_print_buffer_forgets_requests_witness:
  "hostRequestTimeEntry (BufferItemValue 3 (two_transfers\<lparr>bufferWritePoint := 1024\<rparr>)) 5 =
     empty_time_entry"
  using full_print_buffer_forgets_requests
    [of "two_transfers\<lparr>bufferWritePoint := 1024\<rparr>" 5 3]
  by (simp add: PRINT_BUFFER_ENTRY_CNT_def MAX_CMD_SLOT_TAG_def)

end
