(* ===== verification/Custom_Completion.thy ===== *)
theory Custom_Completion
  imports Request_Allocation
begin

text \<open>
  The counters of the custom command that writes and reads in one request (RW),
  \<^verbatim>\<open>custom_io_cmd_completion.[ch]\<close>: for each command slot the transfers from the host (Rx) and to
  the host (Tx) that are not issued or not completed, and the NAND requests that are not completed.
  The functions that also mark a request as issued return the change of its flag through the pool;
  the one that completes a command tells whether the completion is sent.
\<close>

record ccmd_entry =
  notIssuedRxCount :: "16 word"
  notCompletedRxCount :: "16 word"
  notIssuedTxCount :: "16 word"
  notCompletedTxCount :: "16 word"
  notCompletedNANDCount :: "16 word"
  ccmdReserved0 :: "16 word"

type_synonym ccmd_table = "nat \<Rightarrow> ccmd_entry"

definition CCMD_MAX_SLOT_TAG :: nat where
  "CCMD_MAX_SLOT_TAG = 1024"

definition InitCustomIoCmdCompleteTable :: "ccmd_table \<Rightarrow> ccmd_table" where
  "InitCustomIoCmdCompleteTable tab =
     array_for CCMD_MAX_SLOT_TAG
       (\<lambda>i e. \<lparr>notIssuedRxCount = 0, notCompletedRxCount = 0, notIssuedTxCount = 0,
               notCompletedTxCount = 0, notCompletedNANDCount = 0, ccmdReserved0 = 0\<rparr>) tab"

definition upd_ccmd :: "nat \<Rightarrow> (ccmd_entry \<Rightarrow> ccmd_entry) \<Rightarrow> ccmd_table \<Rightarrow> ccmd_table" where
  "upd_ccmd slot f tab = tab(slot := f (tab slot))"

definition AllocateNotIssuedRxforCustomIoCmd :: "nat \<Rightarrow> ccmd_table \<Rightarrow> ccmd_table" where
  "AllocateNotIssuedRxforCustomIoCmd slot =
     upd_ccmd slot (\<lambda>e. e\<lparr>notIssuedRxCount := notIssuedRxCount e + 1\<rparr>)"

definition AllocateNotIssuedTxforCustomIoCmd :: "nat \<Rightarrow> ccmd_table \<Rightarrow> ccmd_table" where
  "AllocateNotIssuedTxforCustomIoCmd slot =
     upd_ccmd slot (\<lambda>e. e\<lparr>notIssuedTxCount := notIssuedTxCount e + 1\<rparr>)"

definition AllocateNotCompletedRxforCustomIoCmd :: "nat \<Rightarrow> ccmd_table \<Rightarrow> ccmd_table" where
  "AllocateNotCompletedRxforCustomIoCmd slot =
     upd_ccmd slot (\<lambda>e. e\<lparr>notCompletedRxCount := notCompletedRxCount e + 1\<rparr>)"

definition AllocateNotCompletedTxforCustomIoCmd :: "nat \<Rightarrow> ccmd_table \<Rightarrow> ccmd_table" where
  "AllocateNotCompletedTxforCustomIoCmd slot =
     upd_ccmd slot (\<lambda>e. e\<lparr>notCompletedTxCount := notCompletedTxCount e + 1\<rparr>)"

definition AllocateNotCompletedNandReqforCustomIoCmd :: "nat \<Rightarrow> ccmd_table \<Rightarrow> ccmd_table" where
  "AllocateNotCompletedNandReqforCustomIoCmd slot =
     upd_ccmd slot (\<lambda>e. e\<lparr>notCompletedNANDCount := notCompletedNANDCount e + 1\<rparr>)"

definition set_issued :: "nat \<Rightarrow> req_state \<Rightarrow> req_state" where
  "set_issued t = upd_req t (\<lambda>r. r\<lparr>nvmeDmaInfo := (nvmeDmaInfo r)\<lparr>issuedFlag := True\<rparr>\<rparr>)"

definition IssuedRxforCustomIoCmd ::
  "nat \<Rightarrow> nat \<Rightarrow> ccmd_table \<times> req_state \<Rightarrow> ccmd_table \<times> req_state" where
  "IssuedRxforCustomIoCmd slot t = (\<lambda>(tab, s).
     (upd_ccmd slot (\<lambda>e. e\<lparr>notIssuedRxCount := notIssuedRxCount e - 1\<rparr>) tab, set_issued t s))"

definition IssuedTxforCustomIoCmd ::
  "nat \<Rightarrow> nat \<Rightarrow> ccmd_table \<times> req_state \<Rightarrow> ccmd_table \<times> req_state" where
  "IssuedTxforCustomIoCmd slot t = (\<lambda>(tab, s).
     (upd_ccmd slot (\<lambda>e. e\<lparr>notIssuedTxCount := notIssuedTxCount e - 1\<rparr>) tab, set_issued t s))"

definition CompleteRxforCustomIoCmd :: "nat \<Rightarrow> ccmd_table \<Rightarrow> ccmd_table" where
  "CompleteRxforCustomIoCmd slot =
     upd_ccmd slot (\<lambda>e. e\<lparr>notCompletedRxCount := notCompletedRxCount e - 1\<rparr>)"

text \<open>
  The status word of the completion: the generic type, successful, and the bit that says not to
  retry. The second component is the completion that goes to the host, if one does.
\<close>

definition custom_cpl_status :: "16 word" where
  "custom_cpl_status = 0x8000"

definition CompleteTxforCustomIoCmd ::
  "nat \<Rightarrow> ccmd_table \<Rightarrow> ccmd_table \<times> (nat \<times> 32 word \<times> 16 word) option" where
  "CompleteTxforCustomIoCmd slot tab =
     (let tab = upd_ccmd slot (\<lambda>e. e\<lparr>notCompletedTxCount := notCompletedTxCount e - 1\<rparr>) tab in
      (tab, if notCompletedTxCount (tab slot) = 0 \<and> notCompletedRxCount (tab slot) = 0
            then Some (slot, 0, custom_cpl_status) else None))"

definition CompleteNandReqforCustomIoCmd :: "nat \<Rightarrow> ccmd_table \<Rightarrow> ccmd_table" where
  "CompleteNandReqforCustomIoCmd slot =
     upd_ccmd slot (\<lambda>e. e\<lparr>notCompletedNANDCount := notCompletedNANDCount e - 1\<rparr>)"

section \<open>When a command completes\<close>

text \<open>
  The events of one command slot as the firmware produces them, in the order of their occurrence,
  and the completions they send.
\<close>

datatype ccmd_event = Rx_Allocated | Tx_Allocated | Rx_Done | Tx_Done

fun ccmd_run :: "nat \<Rightarrow> ccmd_event list \<Rightarrow> ccmd_table \<Rightarrow> ccmd_table \<times> nat" where
  "ccmd_run slot [] tab = (tab, 0)"
| "ccmd_run slot (ev # evs) tab =
     (case ev of
        Rx_Allocated \<Rightarrow> ccmd_run slot evs (AllocateNotCompletedRxforCustomIoCmd slot tab)
      | Tx_Allocated \<Rightarrow> ccmd_run slot evs (AllocateNotCompletedTxforCustomIoCmd slot tab)
      | Rx_Done \<Rightarrow> ccmd_run slot evs (CompleteRxforCustomIoCmd slot tab)
      | Tx_Done \<Rightarrow>
          (let (tab, cpl) = CompleteTxforCustomIoCmd slot tab;
               (tab, n) = ccmd_run slot evs tab
           in (tab, (if cpl = None then 0 else 1) + n)))"

text \<open>
  \<open>rw_done R T evs\<close>: the transfers of a command with \<open>R\<close> outstanding Rx and \<open>T\<close> outstanding Tx
  are carried out, no Tx before the last Rx.
\<close>

definition rw_done :: "nat \<Rightarrow> nat \<Rightarrow> ccmd_event list" where
  "rw_done R T = replicate R Rx_Done @ replicate T Tx_Done"

lemma upd_ccmd_simps [simp]:
  "upd_ccmd slot f tab slot = f (tab slot)"
  "i \<noteq> slot \<Longrightarrow> upd_ccmd slot f tab i = tab i"
  "upd_ccmd slot g (upd_ccmd slot f tab) = upd_ccmd slot (\<lambda>e. g (f e)) tab"
  by (simp_all add: upd_ccmd_def)

lemma ccmd_run_append:
  "ccmd_run slot (xs @ ys) tab =
     (let (t1, n1) = ccmd_run slot xs tab; (t2, n2) = ccmd_run slot ys t1 in (t2, n1 + n2))"
  by (induction xs arbitrary: tab)
    (auto simp: split_beta Let_def split: ccmd_event.splits)

text \<open>Counting a run of equal events.\<close>

lemma ccmd_run_rx_alloc:
  "ccmd_run slot (replicate n Rx_Allocated) tab =
     (upd_ccmd slot (\<lambda>e. e\<lparr>notCompletedRxCount := notCompletedRxCount e + of_nat n\<rparr>) tab, 0)"
  by (induction n arbitrary: tab)
    (auto simp: upd_ccmd_def AllocateNotCompletedRxforCustomIoCmd_def algebra_simps fun_upd_idem)

lemma ccmd_run_tx_alloc:
  "ccmd_run slot (replicate n Tx_Allocated) tab =
     (upd_ccmd slot (\<lambda>e. e\<lparr>notCompletedTxCount := notCompletedTxCount e + of_nat n\<rparr>) tab, 0)"
  by (induction n arbitrary: tab)
    (auto simp: upd_ccmd_def AllocateNotCompletedTxforCustomIoCmd_def algebra_simps fun_upd_idem)

lemma ccmd_run_rx_done:
  "ccmd_run slot (replicate n Rx_Done) tab =
     (upd_ccmd slot (\<lambda>e. e\<lparr>notCompletedRxCount := notCompletedRxCount e - of_nat n\<rparr>) tab, 0)"
  by (induction n arbitrary: tab)
    (auto simp: upd_ccmd_def CompleteRxforCustomIoCmd_def algebra_simps fun_upd_idem)

lemma of_nat16_zero_iff: "n < 65536 \<Longrightarrow> (of_nat n :: 16 word) = 0 \<longleftrightarrow> n = 0"
  using word_counter_zero_iff [of n, where 'a=16] by simp

text \<open>The Tx of a command whose Rx are all done: only the last one sends a completion.\<close>

lemma ccmd_run_tx_done:
  assumes "notCompletedTxCount (tab slot) = of_nat T" and "T < 65536" and "n \<le> T"
    and "notCompletedRxCount (tab slot) = 0"
  shows "ccmd_run slot (replicate n Tx_Done) tab =
     (upd_ccmd slot (\<lambda>e. e\<lparr>notCompletedTxCount := of_nat (T - n)\<rparr>) tab,
      if n = T \<and> 0 < n then 1 else 0)"
  using assms
proof (induction n arbitrary: tab T)
  case 0
  then show ?case by (auto simp: upd_ccmd_def fun_upd_idem)
next
  case (Suc n)
  let ?tab = "upd_ccmd slot (\<lambda>e. e\<lparr>notCompletedTxCount := notCompletedTxCount e - 1\<rparr>) tab"
  have cnt: "notCompletedTxCount (?tab slot) = of_nat (T - 1)"
    using Suc.prems(1,3) by (simp add: of_nat_diff)
  have "ccmd_run slot (replicate n Tx_Done) ?tab =
     (upd_ccmd slot (\<lambda>e. e\<lparr>notCompletedTxCount := of_nat (T - 1 - n)\<rparr>) ?tab,
      if n = T - 1 \<and> 0 < n then 1 else 0)"
    using Suc.IH [of ?tab "T - 1", OF cnt] Suc.prems(2,3,4) by simp
  moreover have "(of_nat (T - 1) :: 16 word) = 0 \<longleftrightarrow> T = 1"
    using of_nat16_zero_iff [of "T - 1"] Suc.prems(2,3) by auto
  ultimately show ?case
    using cnt Suc.prems(3,4) by (auto simp: CompleteTxforCustomIoCmd_def Let_def)
qed

text \<open>
  C32. A read-write command that has announced all its transfers, \<open>R\<close> from the host and \<open>T\<close> to the
  host (at least one, and fewer than 65536 of each), is completed exactly once, by the last transfer
  to the host; the counters are back at zero, so the slot can be used again.
\<close>

theorem rw_command_completes_once:
  assumes "0 < T" and "T < 65536" and "R < 65536"
    and "notCompletedRxCount (tab slot) = 0" and "notCompletedTxCount (tab slot) = 0"
  shows "snd (ccmd_run slot (replicate R Rx_Allocated @ replicate T Tx_Allocated @ rw_done R T) tab)
           = 1 \<and>
         snd (ccmd_run slot (replicate R Rx_Allocated @ replicate T Tx_Allocated @
                             rw_done R (T - 1)) tab) = 0 \<and>
         fst (ccmd_run slot (replicate R Rx_Allocated @ replicate T Tx_Allocated @ rw_done R T) tab)
           = tab"
  using assms
  by (auto simp: rw_done_def ccmd_run_append ccmd_run_rx_alloc ccmd_run_tx_alloc ccmd_run_rx_done
      ccmd_run_tx_done Let_def upd_ccmd_def fun_upd_idem)

definition fresh_ccmd_table :: ccmd_table where
  "fresh_ccmd_table = InitCustomIoCmdCompleteTable
     (\<lambda>i. \<lparr>notIssuedRxCount = 9, notCompletedRxCount = 9, notIssuedTxCount = 9,
           notCompletedTxCount = 9, notCompletedNANDCount = 9, ccmdReserved0 = 9\<rparr>)"

lemma fresh_ccmd_table_zero:
  "slot < 1024 \<Longrightarrow> notCompletedRxCount (fresh_ccmd_table slot) = 0"
  "slot < 1024 \<Longrightarrow> notCompletedTxCount (fresh_ccmd_table slot) = 0"
  by (simp_all add: fresh_ccmd_table_def InitCustomIoCmdCompleteTable_def CCMD_MAX_SLOT_TAG_def)

theorem rw_command_completes_once_witness:
  "snd (ccmd_run 7 ([Rx_Allocated, Tx_Allocated, Tx_Allocated] @ rw_done 1 2) fresh_ccmd_table) = 1"
  using rw_command_completes_once [of 2 1 fresh_ccmd_table 7] fresh_ccmd_table_zero [of 7]
  by (simp add: numeral_2_eq_2)

text \<open>
  C39. The completion does not wait for transfers that are announced later: when the transfers of
  the first part of a command are carried out before the next transfer to the host is announced,
  the command is completed once for each part.
\<close>

theorem rw_command_completes_per_part:
  assumes "0 < T" and "T < 65536" and "R < 65536" and "0 < T'" and "T' < 65536"
    and "notCompletedRxCount (tab slot) = 0" and "notCompletedTxCount (tab slot) = 0"
  shows "snd (ccmd_run slot (replicate R Rx_Allocated @ replicate T Tx_Allocated @ rw_done R T @
                             replicate T' Tx_Allocated @ rw_done 0 T') tab) = 2"
  using assms
  by (auto simp: rw_done_def ccmd_run_append ccmd_run_rx_alloc ccmd_run_tx_alloc ccmd_run_rx_done
      ccmd_run_tx_done Let_def upd_ccmd_def)

theorem rw_command_completes_per_part_witness:
  "snd (ccmd_run 7 ([Rx_Allocated, Tx_Allocated] @ rw_done 1 1 @ [Tx_Allocated] @ rw_done 0 1)
          fresh_ccmd_table) = 2"
  using rw_command_completes_per_part [of 1 1 1 fresh_ccmd_table 7] fresh_ccmd_table_zero [of 7]
  by simp

end
