(* ===== verification/Ssd_State.thy ===== *)
theory Ssd_State
  imports Memory_Map Host_Time Custom_Completion Block_Remap
begin

text \<open>
  The state of the whole firmware, as the collection of the states of its components, with the
  functions that touch several of them but need no polling: the addresses of a request
  (\<^verbatim>\<open>request_schedule.c\<close>), the blocking chains of the buffers (\<^verbatim>\<open>data_buffer.c\<close>,
  \<^verbatim>\<open>data_buffer_ccmd.c\<close>) and the row address dependency table (\<^verbatim>\<open>request_transform.[ch]\<close>).
\<close>

section \<open>The state\<close>

record row_dep =
  permittedProgPage :: "12 word"
  blockedReadReqCnt :: "16 word"
  blockedEraseReqFlag :: bool

record ssd =
  rq :: req_state
  db :: data_buf
  cb :: data_buf
  tempDataBuf :: "nat \<Rightarrow> nat"
  am :: addr_map
  pb :: phy_map
  rdep :: "nat \<Rightarrow> nat \<Rightarrow> nat \<Rightarrow> row_dep"
  wt :: way_tables
  cct :: ccmd_table
  tm :: host_time
  io :: io_state
  storageCapacity :: "32 word"

abbreviation on_rq :: "(req_state \<Rightarrow> req_state) \<Rightarrow> ssd \<Rightarrow> ssd" where
  "on_rq f \<equiv> rq_update f"

abbreviation req :: "ssd \<Rightarrow> nat \<Rightarrow> ssd_req" where
  "req s t \<equiv> reqPool (rq s) t"

abbreviation ropt :: "ssd \<Rightarrow> nat \<Rightarrow> req_option" where
  "ropt s t \<equiv> reqOpt (reqPool (rq s) t)"

text \<open>A time stamp takes the timer's value of the instant.\<close>

definition stamp :: "platform \<Rightarrow> (64 word \<Rightarrow> host_time \<Rightarrow> host_time) \<Rightarrow> ssd \<Rightarrow> ssd" where
  "stamp p f s = s\<lparr>tm := f (obs_xtime (now p (io s))) (tm s), io := tick (io s)\<rparr>"

definition InitDependencyTable :: "'a ftl_config_scheme \<Rightarrow> ssd \<Rightarrow> ssd" where
  "InitDependencyTable c s =
     s\<lparr>rdep := array_for (USER_CHANNELS c) (\<lambda>ch. array_for (USER_WAYS c) (\<lambda>way.
          array_for MAIN_BLOCKS_PER_DIE (\<lambda>b e.
            \<lparr>permittedProgPage = 0, blockedReadReqCnt = 0, blockedEraseReqFlag = False\<rparr>)))
          (rdep s)\<rparr>"

definition upd_dep ::
  "nat \<Rightarrow> nat \<Rightarrow> nat \<Rightarrow> (row_dep \<Rightarrow> row_dep) \<Rightarrow> ssd \<Rightarrow> ssd" where
  "upd_dep ch way b f s =
     s\<lparr>rdep := (rdep s)(ch := (rdep s ch)(way := (rdep s ch way)(b := f (rdep s ch way b))))\<rparr>"

section \<open>Addresses of a request\<close>

definition row_addr :: "nat \<Rightarrow> nat \<Rightarrow> nat \<Rightarrow> nat" where
  "row_addr lun tempBlockNo tempPageNo =
     (if lun = 0 then LUN_0_BASE_ADDR + tempBlockNo * PAGES_PER_MLC_BLOCK + tempPageNo
      else LUN_1_BASE_ADDR + tempBlockNo * PAGES_PER_MLC_BLOCK + tempPageNo)"

definition GenerateNandRowAddr :: "'a ftl_config_scheme \<Rightarrow> ssd \<Rightarrow> nat \<Rightarrow> nat" where
  "GenerateNandRowAddr c s t =
     (let r = req s t; i = nandInfo r in
      case nandAddr (reqOpt r) of
        REQ_OPT_NAND_ADDR_VSA \<Rightarrow>
          let dieNo = Vsa2VdieTranslation c (virtualSliceAddr i);
              virtualBlockNo = Vsa2VblockTranslation c (virtualSliceAddr i);
              phyBlockNo = Vblock2PblockOfTbsTranslation c virtualBlockNo;
              tempBlockNo = remappedPhyBlock (phyBlock (pb s) dieNo phyBlockNo) mod TOTAL_BLOCKS_PER_LUN;
              tempPageNo = Vsa2VpageTranslation c (virtualSliceAddr i)
          in row_addr (phyBlockNo div TOTAL_BLOCKS_PER_LUN) tempBlockNo
               (if BITS_PER_FLASH_CELL c = SLC_MODE then Vpage2PlsbPageTranslation tempPageNo
                else tempPageNo)
      | REQ_OPT_NAND_ADDR_PHY_ORG \<Rightarrow>
          let dieNo = Pcw2VdieTranslation c (physicalCh i) (physicalWay i) in
          (case blockSpace (reqOpt r) of
             REQ_OPT_BLOCK_SPACE_TOTAL \<Rightarrow>
               row_addr (physicalBlock i div TOTAL_BLOCKS_PER_LUN)
                 (physicalBlock i mod TOTAL_BLOCKS_PER_LUN) (physicalPage i)
           | REQ_OPT_BLOCK_SPACE_MAIN \<Rightarrow>
               let lun = physicalBlock i div MAIN_BLOCKS_PER_LUN;
                   tempBlockNo = physicalBlock i mod MAIN_BLOCKS_PER_LUN + lun * TOTAL_BLOCKS_PER_LUN;
                   tempBlockNo = remappedPhyBlock (phyBlock (pb s) dieNo tempBlockNo)
                                   mod TOTAL_BLOCKS_PER_LUN
               in row_addr lun tempBlockNo (physicalPage i)))"

definition GenerateDataBufAddr :: "'a ftl_config_scheme \<Rightarrow> ssd \<Rightarrow> nat \<Rightarrow> nat option" where
  "GenerateDataBufAddr c s t =
     (let r = req s t; ro = reqOpt r; e = dataBufInfo r;
          base = (if ccmdDataBuf ro then CCMD_DATA_BUFFER_BASE_ADDR c else DATA_BUFFER_BASE_ADDR) in
      case reqType r of
        REQ_TYPE_NAND \<Rightarrow>
          Some (case dataBufFormat ro of
                  REQ_OPT_DATA_BUF_ENTRY \<Rightarrow> base + e * BYTES_PER_DATA_REGION_OF_SLICE
                | REQ_OPT_DATA_BUF_TEMP_ENTRY \<Rightarrow>
                    TEMPORARY_DATA_BUFFER_BASE_ADDR c + e * BYTES_PER_DATA_REGION_OF_SLICE
                | REQ_OPT_DATA_BUF_ADDR \<Rightarrow> e
                | REQ_OPT_DATA_BUF_NONE \<Rightarrow> RESERVED_DATA_BUFFER_BASE_ADDR c)
      | REQ_TYPE_NVME_DMA \<Rightarrow>
          if dataBufFormat ro = REQ_OPT_DATA_BUF_ENTRY
          then Some (base + e * BYTES_PER_DATA_REGION_OF_SLICE +
                     nvmeBlockOffset (nvmeDmaInfo r) * BYTES_PER_NVME_BLOCK)
          else None
      | REQ_TYPE_SLICE \<Rightarrow> None)"

definition GenerateSpareDataBufAddr :: "'a ftl_config_scheme \<Rightarrow> ssd \<Rightarrow> nat \<Rightarrow> nat option" where
  "GenerateSpareDataBufAddr c s t =
     (let r = req s t; ro = reqOpt r; e = dataBufInfo r;
          base = (if ccmdDataBuf ro then CCMD_SPARE_DATA_BUFFER_BASE_ADDR c
                  else SPARE_DATA_BUFFER_BASE_ADDR c) in
      case reqType r of
        REQ_TYPE_NAND \<Rightarrow>
          Some (case dataBufFormat ro of
                  REQ_OPT_DATA_BUF_ENTRY \<Rightarrow> base + e * BYTES_PER_SPARE_REGION_OF_SLICE
                | REQ_OPT_DATA_BUF_TEMP_ENTRY \<Rightarrow>
                    TEMPORARY_SPARE_DATA_BUFFER_BASE_ADDR c + e * BYTES_PER_SPARE_REGION_OF_SLICE
                | REQ_OPT_DATA_BUF_ADDR \<Rightarrow> e + BYTES_PER_DATA_REGION_OF_SLICE
                | REQ_OPT_DATA_BUF_NONE \<Rightarrow>
                    RESERVED_DATA_BUFFER_BASE_ADDR c + BYTES_PER_DATA_REGION_OF_SLICE)
      | REQ_TYPE_NVME_DMA \<Rightarrow>
          if dataBufFormat ro = REQ_OPT_DATA_BUF_ENTRY
          then Some (base + e * BYTES_PER_SPARE_REGION_OF_SLICE)
          else None
      | REQ_TYPE_SLICE \<Rightarrow> None)"

section \<open>Blocking chains\<close>

text \<open>
  A request on a buffer entry is chained behind the last request on the entry, if there is one, and
  becomes the last.
\<close>

definition UpdateDataBufEntryInfoBlockingReq :: "platform \<Rightarrow> nat \<Rightarrow> nat \<Rightarrow> ssd \<Rightarrow> ssd" where
  "UpdateDataBufEntryInfoBlockingReq p e t s =
     (let s = on_rq (UpdateBlockingReq (blockingReqTail (dataBuf (db s) e)) t) s;
          s = s\<lparr>db := upd_buf e (\<lambda>r. r\<lparr>blockingReqTail := t\<rparr>) (db s)\<rparr>
      in stamp p (\<lambda>tim. GetTimeBlockedBufferDef tim (nvmeCmdSlotTag (req s t))) s)"

definition UpdateCcmdDataBufEntryInfoBlockingReq :: "platform \<Rightarrow> nat \<Rightarrow> nat \<Rightarrow> ssd \<Rightarrow> ssd" where
  "UpdateCcmdDataBufEntryInfoBlockingReq p e t s =
     (let s = on_rq (UpdateBlockingReq (blockingReqTail (dataBuf (cb s) e)) t) s;
          s = s\<lparr>cb := upd_buf e (\<lambda>r. r\<lparr>blockingReqTail := t\<rparr>) (cb s)\<rparr>
      in stamp p (\<lambda>tim. GetTimeBlockedBufferDef tim (nvmeCmdSlotTag (req s t))) s)"

definition UpdateTempDataBufEntryInfoBlockingReq :: "nat \<Rightarrow> nat \<Rightarrow> ssd \<Rightarrow> ssd" where
  "UpdateTempDataBufEntryInfoBlockingReq e t s =
     (let s = on_rq (UpdateBlockingReq (tempDataBuf s e) t) s
      in s\<lparr>tempDataBuf := (tempDataBuf s)(e := t)\<rparr>)"

definition CheckBufDep :: "ssd \<Rightarrow> nat \<Rightarrow> bool" where
  "CheckBufDep s t \<longleftrightarrow> prevBlockingReq (req s t) = REQ_SLOT_TAG_NONE"

section \<open>Row address dependency\<close>

datatype row_dep_check_opt =
  ROW_ADDR_DEPENDENCY_CHECK_OPT_SELECT | ROW_ADDR_DEPENDENCY_CHECK_OPT_RELEASE

text \<open>The die, block and page that a request with a virtual slice address names.\<close>

definition req_ch :: "'a ftl_config_scheme \<Rightarrow> ssd \<Rightarrow> nat \<Rightarrow> nat" where
  "req_ch c s t = Vdie2PchTranslation c (Vsa2VdieTranslation c (virtualSliceAddr (nandInfo (req s t))))"

definition req_way :: "'a ftl_config_scheme \<Rightarrow> ssd \<Rightarrow> nat \<Rightarrow> nat" where
  "req_way c s t = Vdie2PwayTranslation c (Vsa2VdieTranslation c (virtualSliceAddr (nandInfo (req s t))))"

definition req_block :: "'a ftl_config_scheme \<Rightarrow> ssd \<Rightarrow> nat \<Rightarrow> nat" where
  "req_block c s t = Vsa2VblockTranslation c (virtualSliceAddr (nandInfo (req s t)))"

definition req_page :: "'a ftl_config_scheme \<Rightarrow> ssd \<Rightarrow> nat \<Rightarrow> nat" where
  "req_page c s t = Vsa2VpageTranslation c (virtualSliceAddr (nandInfo (req s t)))"

text \<open>
  The decision on the entry of the block, once no sync is needed any more: the new entry, and
  whether the request may go to the NAND queue.
\<close>

definition row_dep_step ::
  "req_code \<Rightarrow> row_dep_check_opt \<Rightarrow> nat \<Rightarrow> nat \<Rightarrow> row_dep \<Rightarrow> (row_dep \<times> bool) option" where
  "row_dep_step code opt pageNo programmed e =
     (case code of
        REQ_CODE_READ \<Rightarrow>
          (case opt of
             ROW_ADDR_DEPENDENCY_CHECK_OPT_SELECT \<Rightarrow>
               if pageNo < unat (permittedProgPage e) then Some (e, True)
               else Some (e\<lparr>blockedReadReqCnt := blockedReadReqCnt e + 1\<rparr>, False)
           | ROW_ADDR_DEPENDENCY_CHECK_OPT_RELEASE \<Rightarrow>
               if pageNo < unat (permittedProgPage e)
               then Some (e\<lparr>blockedReadReqCnt := blockedReadReqCnt e - 1\<rparr>, True)
               else Some (e, False))
      | REQ_CODE_WRITE \<Rightarrow>
          if pageNo = unat (permittedProgPage e)
          then Some (e\<lparr>permittedProgPage := permittedProgPage e + 1\<rparr>, True)
          else Some (e, False)
      | REQ_CODE_ERASE \<Rightarrow>
          if unat (permittedProgPage e) = programmed \<and> blockedReadReqCnt e = 0
          then Some (e\<lparr>permittedProgPage := 0, blockedEraseReqFlag := False\<rparr>, True)
          else Some (if opt = ROW_ADDR_DEPENDENCY_CHECK_OPT_SELECT
                     then e\<lparr>blockedEraseReqFlag := True\<rparr> else e, False)
      | _ \<Rightarrow> None)"

text \<open>
  \<^verbatim>\<open>CheckRowAddrDep\<close>: a read that is being selected first waits until no erase of its block is blocked
  (\<open>sync\<close>, which is \<^verbatim>\<open>SyncReleaseEraseReq\<close>).
\<close>

definition CheckRowAddrDep ::
  "(nat \<Rightarrow> nat \<Rightarrow> nat \<Rightarrow> ssd \<Rightarrow> ssd option) \<Rightarrow> 'a ftl_config_scheme \<Rightarrow> nat \<Rightarrow> row_dep_check_opt \<Rightarrow>
   ssd \<Rightarrow> (ssd \<times> bool) option" where
  "CheckRowAddrDep sync c t opt s =
     (if nandAddr (reqOpt (req s t)) = REQ_OPT_NAND_ADDR_VSA then
        let ch = req_ch c s t; way = req_way c s t; b = req_block c s t; pg = req_page c s t;
            code = reqCode (req s t) in
        do {
          s \<leftarrow> (if code = REQ_CODE_READ \<and> opt = ROW_ADDR_DEPENDENCY_CHECK_OPT_SELECT \<and>
                  blockedEraseReqFlag (rdep s ch way b)
               then sync ch way b s else Some s);
          (e, pass) \<leftarrow> row_dep_step code opt pg (programmedPageCnt (nandInfo (req s t)))
                         (rdep s ch way b);
          Some (upd_dep ch way b (\<lambda>_. e) s, pass)
        }
      else None)"

text \<open>A check that is made at release never waits.\<close>

definition no_sync :: "nat \<Rightarrow> nat \<Rightarrow> nat \<Rightarrow> ssd \<Rightarrow> ssd option" where
  "no_sync ch way b s = Some s"

end
