(* ===== verification/Request_Flow.thy ===== *)
theory Request_Flow
  imports Ssd_State
begin

text \<open>
  The flow of requests between the queues of \<^verbatim>\<open>request_allocation.c\<close> and the transfers they start
  (\<^verbatim>\<open>request_transform.c\<close>): the queue operations with their reports to the other components, the
  issue of host transfers, the release of requests that waited for a buffer or for a row, and the
  two functions that collect finished transfers.
\<close>

section \<open>Queue operations with their reports\<close>

definition PutToSliceReqQ :: "nat \<Rightarrow> ssd \<Rightarrow> ssd" where
  "PutToSliceReqQ t s =
     (let s = on_rq (PutToSliceReqQ_q t) s
      in s\<lparr>tm := AllocateNvmeDmaCnt (nvmeCmdSlotTag (req s t)) (tm s)\<rparr>)"

definition PutToNvmeDmaReqQ :: "platform \<Rightarrow> nat \<Rightarrow> ssd \<Rightarrow> ssd" where
  "PutToNvmeDmaReqQ p t s =
     (let s = on_rq (PutToNvmeDmaReqQ_q t) s
      in stamp p (\<lambda>tim. GetTimeHostReqNvmeDmaStart tim (nvmeCmdSlotTag (req s t))) s)"

definition PutToCustomCmdReqQ :: "platform \<Rightarrow> nat \<Rightarrow> ssd \<Rightarrow> ssd" where
  "PutToCustomCmdReqQ p t s =
     (let s = on_rq (PutToCustomCmdReqQ_q t) s
      in stamp p (\<lambda>tim. GetTimeHostReqNvmeDmaStart tim (nvmeCmdSlotTag (req s t))) s)"

section \<open>Issue of host transfers\<close>

text \<open>
  One automatic transfer for each 4 KB block of the request; the request is marked when the last
  one has been queued. The loops run over the number of blocks that are left.
\<close>

definition mark_issued_rx :: "nat \<Rightarrow> ssd \<Rightarrow> ssd" where
  "mark_issued_rx t s =
     (if customCmd (ropt s t)
      then let (tab, q) = IssuedRxforCustomIoCmd (nvmeCmdSlotTag (req s t)) t (cct s, rq s)
           in s\<lparr>cct := tab, rq := q\<rparr>
      else on_rq (set_issued t) s)"

definition mark_issued_tx :: "nat \<Rightarrow> ssd \<Rightarrow> ssd" where
  "mark_issued_tx t s =
     (if customCmd (ropt s t)
      then let (tab, q) = IssuedTxforCustomIoCmd (nvmeCmdSlotTag (req s t)) t (cct s, rq s)
           in s\<lparr>cct := tab, rq := q\<rparr>
      else on_rq (set_issued t) s)"

fun issue_rx_blocks :: "platform \<Rightarrow> nat \<Rightarrow> nat \<Rightarrow> nat \<Rightarrow> nat \<Rightarrow> ssd \<Rightarrow> ssd option" where
  "issue_rx_blocks p t 0 dmaIndex devAddr s = Some s"
| "issue_rx_blocks p t (Suc left) dmaIndex devAddr s =
     do {
       io' \<leftarrow> set_auto_rx_dma p (nvmeCmdSlotTag (req s t)) dmaIndex (of_nat devAddr)
                (\<not> customCmd (ropt s t)) (io s);
       let s = s\<lparr>io := io'\<rparr>;
       let s = (if left = 0 then mark_issued_rx t s else s);
       issue_rx_blocks p t left (dmaIndex + 1) (devAddr + BYTES_PER_NVME_BLOCK) s
     }"

text \<open>
  A transfer to the host of a custom command waits until the transfers from the host of the command
  are complete; the second component says whether all blocks were queued.
\<close>

fun issue_tx_blocks :: "platform \<Rightarrow> nat \<Rightarrow> nat \<Rightarrow> nat \<Rightarrow> nat \<Rightarrow> ssd \<Rightarrow> (ssd \<times> bool) option" where
  "issue_tx_blocks p t 0 dmaIndex devAddr s = Some (s, True)"
| "issue_tx_blocks p t (Suc left) dmaIndex devAddr s =
     (if customCmd (ropt s t) \<and> notCompletedRxCount (cct s (nvmeCmdSlotTag (req s t))) \<noteq> 0
      then Some (s, False)
      else do {
        io' \<leftarrow> set_auto_tx_dma p (nvmeCmdSlotTag (req s t)) dmaIndex (of_nat devAddr)
                 (\<not> customCmd (ropt s t)) (io s);
        let s = s\<lparr>io := io'\<rparr>;
        let s = (if left = 0 then mark_issued_tx t s else s);
        issue_tx_blocks p t left (dmaIndex + 1) (devAddr + BYTES_PER_NVME_BLOCK) s
      })"

definition set_req_tail :: "nat \<Rightarrow> 8 word \<Rightarrow> 32 word \<Rightarrow> req_state \<Rightarrow> req_state" where
  "set_req_tail t tail ovf =
     upd_req t (\<lambda>r. r\<lparr>nvmeDmaInfo := (nvmeDmaInfo r)\<lparr>reqTail := tail, overFlowCnt := ovf\<rparr>\<rparr>)"

definition IssueNvmeDmaReq :: "platform \<Rightarrow> nat \<Rightarrow> ssd \<Rightarrow> ssd option" where
  "IssueNvmeDmaReq p t s =
     do {
       devAddr \<leftarrow> GenerateDataBufAddr p s t;
       let dmaIndex = startIndex (nvmeDmaInfo (req s t));
       let n = numOfNvmeBlock (nvmeDmaInfo (req s t));
       (if reqCode (req s t) = REQ_CODE_RxDMA then
          do {
            s \<leftarrow> issue_rx_blocks p t n dmaIndex devAddr s;
            Some (on_rq (set_req_tail t (autoDmaRx (fifoTail (io s))) (autoDmaRxOverFlowCnt (io s))) s)
          }
        else if reqCode (req s t) = REQ_CODE_TxDMA then
          do {
            (s, all) \<leftarrow> issue_tx_blocks p t n dmaIndex devAddr s;
            Some (if all
                  then on_rq (set_req_tail t (autoDmaTx (fifoTail (io s)))
                                (autoDmaTxOverFlowCnt (io s))) s
                  else s)
          }
        else None)
     }"

section \<open>Release of blocked requests\<close>

definition clear_blocking_tail :: "nat \<Rightarrow> ssd \<Rightarrow> ssd" where
  "clear_blocking_tail t s =
     (let e = dataBufInfo (req s t) in
      case dataBufFormat (ropt s t) of
        REQ_OPT_DATA_BUF_ENTRY \<Rightarrow>
          if ccmdDataBuf (ropt s t) then
            if blockingReqTail (dataBuf (cb s) e) = t
            then s\<lparr>cb := upd_buf e (\<lambda>r. r\<lparr>blockingReqTail := REQ_SLOT_TAG_NONE\<rparr>) (cb s)\<rparr> else s
          else
            if blockingReqTail (dataBuf (db s) e) = t
            then s\<lparr>db := upd_buf e (\<lambda>r. r\<lparr>blockingReqTail := REQ_SLOT_TAG_NONE\<rparr>) (db s)\<rparr> else s
      | REQ_OPT_DATA_BUF_TEMP_ENTRY \<Rightarrow>
          if tempDataBuf s e = t then s\<lparr>tempDataBuf := (tempDataBuf s)(e := REQ_SLOT_TAG_NONE)\<rparr> else s
      | _ \<Rightarrow> s)"

text \<open>A request that no longer waits for its buffer goes on: to the host or to the NAND.\<close>

definition release_target :: "platform \<Rightarrow> nat \<Rightarrow> ssd \<Rightarrow> ssd option" where
  "release_target p target s =
     do {
       q \<leftarrow> SelectiveGetFromBlockedByBufDepReqQ target (rq s);
       let s = s\<lparr>rq := q\<rparr>;
       (case reqType (req s target) of
          REQ_TYPE_NVME_DMA \<Rightarrow>
            do {
              s \<leftarrow> IssueNvmeDmaReq p target s;
              Some (if customCmd (ropt s target) then PutToCustomCmdReqQ p target s
                    else PutToNvmeDmaReqQ p target s)
            }
        | REQ_TYPE_NAND \<Rightarrow>
            if nandAddr (ropt s target) = REQ_OPT_NAND_ADDR_VSA then
              let ch = req_ch p s target; way = req_way p s target in
              if rowAddrDependencyCheck (ropt s target) then
                do {
                  (s, pass) \<leftarrow> CheckRowAddrDep no_sync p target ROW_ADDR_DEPENDENCY_CHECK_OPT_RELEASE s;
                  Some (if pass then on_rq (PutToNandReqQ target ch way) s
                        else on_rq (PutToBlockedByRowAddrDepReqQ target ch way) s)
                }
              else Some (on_rq (PutToNandReqQ target ch way) s)
            else None
        | REQ_TYPE_SLICE \<Rightarrow> Some s)
     }"

definition ReleaseBlockedByBufDepReq :: "platform \<Rightarrow> nat \<Rightarrow> ssd \<Rightarrow> ssd option" where
  "ReleaseBlockedByBufDepReq p t s =
     (let target = nextBlockingReq (req s t);
          s = (if target \<noteq> REQ_SLOT_TAG_NONE
               then on_rq (\<lambda>q. upd_req t (\<lambda>r. r\<lparr>nextBlockingReq := REQ_SLOT_TAG_NONE\<rparr>)
                                (upd_req target (\<lambda>r. r\<lparr>prevBlockingReq := REQ_SLOT_TAG_NONE\<rparr>) q)) s
               else s);
          s = clear_blocking_tail t s
      in if target \<noteq> REQ_SLOT_TAG_NONE \<and>
            reqQueueType (req s target) = REQ_QUEUE_TYPE_BLOCKED_BY_BUF_DEP
         then release_target p target s else Some s)"

text \<open>The walk over the requests of a die that wait for a row.\<close>

partial_function (option) release_rows :: "platform \<Rightarrow> nat \<Rightarrow> nat \<Rightarrow> nat \<Rightarrow> ssd \<Rightarrow> ssd option" where
  [code]: "release_rows p ch way t s =
     (if t = REQ_SLOT_TAG_NONE then Some s
      else let nextReq' = nextReq (req s t) in
        if rowAddrDependencyCheck (ropt s t) then
          do {
            (s, pass) \<leftarrow> CheckRowAddrDep no_sync p t ROW_ADDR_DEPENDENCY_CHECK_OPT_RELEASE s;
            s \<leftarrow> (if pass
                 then do {
                   q \<leftarrow> SelectiveGetFromBlockedByRowAddrDepReqQ t ch way (rq s);
                   Some (s\<lparr>rq := PutToNandReqQ t ch way q\<rparr>)
                 }
                 else Some s);
            release_rows p ch way nextReq' s
          }
        else None)"

definition ReleaseBlockedByRowAddrDepReq :: "platform \<Rightarrow> nat \<Rightarrow> nat \<Rightarrow> ssd \<Rightarrow> ssd option" where
  "ReleaseBlockedByRowAddrDepReq p ch way s =
     release_rows p ch way (headReq (blockedByRowAddrDepReqQ (rq s) ch way)) s"

section \<open>Completion of requests\<close>

definition SelectiveGetFromNvmeDmaReqQ :: "platform \<Rightarrow> nat \<Rightarrow> ssd \<Rightarrow> ssd option" where
  "SelectiveGetFromNvmeDmaReqQ p t s =
     (let s = on_rq (SelectiveGetFromNvmeDmaReqQ_q t) s;
          s = stamp p (\<lambda>tim. GetTimeHostReqNvmeDmaEnd tim (nvmeCmdSlotTag (req s t))) s;
          s = on_rq (PutToFreeReqQ t) s
      in ReleaseBlockedByBufDepReq p t s)"

definition GetFromNandReqQ :: "platform \<Rightarrow> nat \<Rightarrow> nat \<Rightarrow> ssd \<Rightarrow> ssd option" where
  "GetFromNandReqQ p ch way s =
     do {
       (q, t) \<leftarrow> GetFromNandReqQ_q ch way (rq s);
       let s = s\<lparr>rq := q\<rparr>;
       let s = (if customCmd (ropt s t)
                then s\<lparr>cct := CompleteNandReqforCustomIoCmd (nvmeCmdSlotTag (req s t)) (cct s)\<rparr> else s);
       let s = stamp p (\<lambda>tim. GetTimeBufferEvictNandReqEnd tim (nvmeCmdSlotTag (req s t))
                          (reqCode (req s t))) s;
       let s = on_rq (PutToFreeReqQ t) s;
       ReleaseBlockedByBufDepReq p t s
     }"

definition SelectiveGetFromCustomCmdReqQ :: "platform \<Rightarrow> nat \<Rightarrow> ssd \<Rightarrow> ssd option" where
  "SelectiveGetFromCustomCmdReqQ p t s =
     (let s = on_rq (SelectiveGetFromCustomCmdReqQ_ptrs t) s;
          slot = nvmeCmdSlotTag (req s t);
          s = (if reqCode (req s t) = REQ_CODE_RxDMA
               then s\<lparr>cct := CompleteRxforCustomIoCmd slot (cct s)\<rparr> else s);
          s = (if reqCode (req s t) = REQ_CODE_TxDMA
               then let (tab, cpl) = CompleteTxforCustomIoCmd slot (cct s)
                    in s\<lparr>cct := tab,
                         io := (case cpl of None \<Rightarrow> io s
                                | Some (sl, specific, status) \<Rightarrow>
                                    set_auto_nvme_cpl sl specific status (io s))\<rparr>
               else s);
          s = on_rq (SelectiveGetFromCustomCmdReqQ_account t) s;
          s = stamp p (\<lambda>tim. GetTimeHostReqNvmeDmaEnd tim slot) s;
          s = on_rq (PutToFreeReqQ t) s
      in ReleaseBlockedByBufDepReq p t s)"

definition check_rx :: "platform \<Rightarrow> nat \<Rightarrow> ssd \<Rightarrow> bool \<times> ssd" where
  "check_rx p t s =
     (let i = nvmeDmaInfo (req s t);
          (ok, io') = check_auto_rx_dma_partial_done p (reqTail i) (overFlowCnt i) (io s)
      in (ok, s\<lparr>io := io'\<rparr>))"

definition check_tx :: "platform \<Rightarrow> nat \<Rightarrow> ssd \<Rightarrow> bool \<times> ssd" where
  "check_tx p t s =
     (let i = nvmeDmaInfo (req s t);
          (ok, io') = check_auto_tx_dma_partial_done p (reqTail i) (overFlowCnt i) (io s)
      in (ok, s\<lparr>io := io'\<rparr>))"

text \<open>
  The walk from the newest to the oldest transfer: once one of a direction is found done, so are
  the older ones of that direction.
\<close>

partial_function (option) check_done_dma ::
  "platform \<Rightarrow> nat \<Rightarrow> bool \<Rightarrow> bool \<Rightarrow> ssd \<Rightarrow> ssd option" where
  [code]: "check_done_dma p t rxDone txDone s =
     (if t = REQ_SLOT_TAG_NONE then Some s
      else let prevReq' = prevReq (req s t) in
        if reqCode (req s t) = REQ_CODE_RxDMA then
          (let (rxDone, s) = (if rxDone then (True, s) else check_rx p t s) in
           do {
             s \<leftarrow> (if rxDone then SelectiveGetFromNvmeDmaReqQ p t s else Some s);
             check_done_dma p prevReq' rxDone txDone s
           })
        else
          (let (txDone, s) = (if txDone then (True, s) else check_tx p t s) in
           do {
             s \<leftarrow> (if txDone then SelectiveGetFromNvmeDmaReqQ p t s else Some s);
             check_done_dma p prevReq' rxDone txDone s
           }))"

definition CheckDoneNvmeDmaReq :: "platform \<Rightarrow> ssd \<Rightarrow> ssd option" where
  "CheckDoneNvmeDmaReq p s = check_done_dma p (tailReq (nvmeDmaReqQ (rq s))) False False s"

text \<open>A transfer of a custom command that is in the queue but was not issued is issued now.\<close>

definition issue_waiting :: "platform \<Rightarrow> nat \<Rightarrow> ssd \<Rightarrow> ssd option" where
  "issue_waiting p t s =
     (if CheckBufDep s t then IssueNvmeDmaReq p t s else ReleaseBlockedByBufDepReq p t s)"

partial_function (option) check_done_custom ::
  "platform \<Rightarrow> nat \<Rightarrow> bool \<Rightarrow> bool \<Rightarrow> ssd \<Rightarrow> ssd option" where
  [code]: "check_done_custom p t rxDone txDone s =
     (if t = REQ_SLOT_TAG_NONE then Some s
      else let prevReq' = prevReq (req s t) in
        if reqCode (req s t) = REQ_CODE_RxDMA then
          if issuedFlag (nvmeDmaInfo (req s t)) then
            (let (rxDone, s) = (if rxDone then (True, s) else check_rx p t s) in
             do {
               s \<leftarrow> (if rxDone then SelectiveGetFromCustomCmdReqQ p t s else Some s);
               check_done_custom p prevReq' rxDone txDone s
             })
          else
            do {
              s \<leftarrow> issue_waiting p t s;
              check_done_custom p prevReq' rxDone txDone s
            }
        else if notCompletedRxCount (cct s (nvmeCmdSlotTag (req s t))) = 0 then
          if issuedFlag (nvmeDmaInfo (req s t)) then
            (let (txDone, s) = (if txDone then (True, s) else check_tx p t s) in
             do {
               s \<leftarrow> (if txDone then SelectiveGetFromCustomCmdReqQ p t s else Some s);
               check_done_custom p prevReq' rxDone txDone s
             })
          else
            do {
              s \<leftarrow> issue_waiting p t s;
              check_done_custom p prevReq' rxDone txDone s
            }
        else check_done_custom p prevReq' rxDone txDone s)"

definition CheckDoneCustomCmdDmaReq :: "platform \<Rightarrow> ssd \<Rightarrow> ssd option" where
  "CheckDoneCustomCmdDmaReq p s = check_done_custom p (tailReq (customCmdQ (rq s))) False False s"

end
