(* ===== verification/Nand_Schedule.thy ===== *)
theory Nand_Schedule
  imports Request_Flow
begin

text \<open>
  The NAND scheduler of \<^verbatim>\<open>request_schedule.c\<close>: issue of the request at the head of a die's queue, the
  check of its progress, the actions on its end, the round over the way lists of a channel, and
  the loops that wait for progress.
\<close>

section \<open>One request\<close>

definition set_check_opt :: "nat \<Rightarrow> nat \<Rightarrow> status_check_opt \<Rightarrow> ssd \<Rightarrow> ssd" where
  "set_check_opt ch way o' s = s\<lparr>wt := upd_way ch way (\<lambda>e. e\<lparr>reqStatusCheckOpt := o'\<rparr>) (wt s)\<rparr>"

definition set_die_state :: "nat \<Rightarrow> nat \<Rightarrow> die_state \<Rightarrow> ssd \<Rightarrow> ssd" where
  "set_die_state ch way d s = s\<lparr>wt := upd_way ch way (\<lambda>e. e\<lparr>dieState := d\<rparr>) (wt s)\<rparr>"

definition set_req_code :: "nat \<Rightarrow> req_code \<Rightarrow> ssd \<Rightarrow> ssd" where
  "set_req_code t code s = on_rq (upd_req t (\<lambda>r. r\<lparr>reqCode := code\<rparr>)) s"

abbreviation nand_head :: "ssd \<Rightarrow> nat \<Rightarrow> nat \<Rightarrow> nat" where
  "nand_head s ch way \<equiv> headReq (nandReqQ (rq s) ch way)"

abbreviation check_opt :: "ssd \<Rightarrow> nat \<Rightarrow> nat \<Rightarrow> status_check_opt" where
  "check_opt s ch way \<equiv> reqStatusCheckOpt (dieTable (wt s) ch way)"

definition IssueNandReq :: "platform \<Rightarrow> nat \<Rightarrow> nat \<Rightarrow> ssd \<Rightarrow> ssd option" where
  "IssueNandReq p ch way s =
     (let t = nand_head s ch way; rowAddr = of_nat (GenerateNandRowAddr p s t) in
      do {
        dataAddr \<leftarrow> GenerateDataBufAddr p s t;
        spareAddr \<leftarrow> GenerateSpareDataBufAddr p s t;
        let s = stamp p (\<lambda>tim. GetTimeBufferEvictNandReqStart tim (nvmeCmdSlotTag (req s t))
                           (reqCode (req s t))) s;
        (case reqCode (req s t) of
           REQ_CODE_READ \<Rightarrow>
             let s = set_check_opt ch way REQ_STATUS_CHECK_OPT_CHECK s
             in Some (s\<lparr>io := V2FReadPageTriggerAsync ch way rowAddr (io s)\<rparr>)
         | REQ_CODE_READ_TRANSFER \<Rightarrow>
             let s = set_check_opt ch way REQ_STATUS_CHECK_OPT_COMPLETION_FLAG s
             in Some (s\<lparr>io := if nandEcc (ropt s t)
                         then V2FReadPageTransferAsync ch way (of_nat dataAddr) (of_nat spareAddr)
                                rowAddr (io s)
                         else V2FReadPageTransferRawAsync ch way (of_nat dataAddr) (io s)\<rparr>)
         | REQ_CODE_WRITE \<Rightarrow>
             let s = set_check_opt ch way REQ_STATUS_CHECK_OPT_CHECK s
             in Some (s\<lparr>io := V2FProgramPageAsync ch way rowAddr (of_nat dataAddr) (of_nat spareAddr)
                                (io s)\<rparr>)
         | REQ_CODE_ERASE \<Rightarrow>
             let s = set_check_opt ch way REQ_STATUS_CHECK_OPT_CHECK s
             in Some (s\<lparr>io := V2FEraseBlockAsync ch way rowAddr (io s)\<rparr>)
         | REQ_CODE_RESET \<Rightarrow>
             do {
               let s = set_check_opt ch way REQ_STATUS_CHECK_OPT_NONE s;
               io' \<leftarrow> V2FResetSync p ch way (io s);
               Some (s\<lparr>io := io'\<rparr>)
             }
         | REQ_CODE_SET_FEATURE \<Rightarrow>
             do {
               let s = set_check_opt ch way REQ_STATUS_CHECK_OPT_NONE s;
               io' \<leftarrow> V2FEnterToggleMode p ch way (of_nat (TEMPORARY_PAY_LOAD_ADDR p)) (io s);
               Some (s\<lparr>io := io'\<rparr>)
             }
         | _ \<Rightarrow> None)
      })"

text \<open>The error words of the way: the result of the error correction of a transfer.\<close>

definition CheckEccErrorInfo :: "platform \<Rightarrow> nat \<Rightarrow> nat \<Rightarrow> ssd \<Rightarrow> error_info" where
  "CheckEccErrorInfo p ch way s =
     (let t = nand_head s ch way;
          errorInfo0 = obs_error_info (now p (io s)) ch way 0;
          errorInfo1 = obs_error_info (now p (io s)) ch way 1 in
      if V2FCrcValid errorInfo0 \<and> V2FSpareChunkValid errorInfo0 \<and> V2FPageChunkValid errorInfo1 then
        if nandEccWarning (ropt s t) \<and>
           of_nat BIT_ERROR_THRESHOLD_PER_CHUNK < V2FWorstChunkErrorCount errorInfo0
        then ERROR_INFO_WARNING else ERROR_INFO_PASS
      else ERROR_INFO_FAIL)"

definition CheckReqStatus :: "platform \<Rightarrow> nat \<Rightarrow> nat \<Rightarrow> ssd \<Rightarrow> ssd \<times> req_status" where
  "CheckReqStatus p ch way s =
     (let t = nand_head s ch way in
      case check_opt s ch way of
        REQ_STATUS_CHECK_OPT_COMPLETION_FLAG \<Rightarrow>
          let completeFlag = obs_complete_flag (now p (io s)) ch way;
              s = s\<lparr>io := tick (io s)\<rparr> in
          if V2FTransferComplete completeFlag then
            if nandEcc (ropt s t) then
              let errorInfo = CheckEccErrorInfo p ch way s; s = s\<lparr>io := tick (io s)\<rparr> in
              if errorInfo = ERROR_INFO_WARNING then (s, REQ_STATUS_WARNING)
              else if errorInfo = ERROR_INFO_FAIL then (s, REQ_STATUS_FAIL)
              else (s, REQ_STATUS_DONE)
            else (s, REQ_STATUS_DONE)
          else (s, REQ_STATUS_RUNNING)
      | REQ_STATUS_CHECK_OPT_CHECK \<Rightarrow>
          let s = s\<lparr>io := V2FStatusCheckAsync ch way (io s)\<rparr>
          in (set_check_opt ch way REQ_STATUS_CHECK_OPT_REPORT s, REQ_STATUS_RUNNING)
      | REQ_STATUS_CHECK_OPT_REPORT \<Rightarrow>
          let statusReport = obs_status_report (now p (io s)) ch way;
              s = s\<lparr>io := tick (io s)\<rparr> in
          if V2FRequestReportDone statusReport then
            let status = V2FEliminateReportDoneFlag statusReport in
            if V2FRequestComplete status then
              if V2FRequestFail status then (s, REQ_STATUS_FAIL)
              else (set_check_opt ch way REQ_STATUS_CHECK_OPT_NONE s, REQ_STATUS_DONE)
            else (set_check_opt ch way REQ_STATUS_CHECK_OPT_CHECK s, REQ_STATUS_RUNNING)
          else (s, REQ_STATUS_RUNNING)
      | REQ_STATUS_CHECK_OPT_NONE \<Rightarrow>
          let (readyBusy, io') = V2FReadyBusyAsync p ch (io s); s = s\<lparr>io := io'\<rparr>
          in (s, if V2FWayReady readyBusy way then REQ_STATUS_DONE else REQ_STATUS_RUNNING))"

text \<open>The physical block of a row address, in the numbering of the whole die.\<close>

definition row_phy_block :: "nat \<Rightarrow> nat" where
  "row_phy_block rowAddr =
     (rowAddr mod LUN_1_BASE_ADDR) div PAGES_PER_MLC_BLOCK +
     (rowAddr div LUN_1_BASE_ADDR) * TOTAL_BLOCKS_PER_LUN"

text \<open>A request that ends for good: the retry budget is refilled and the next request may start.\<close>

definition finish_nand_req :: "platform \<Rightarrow> nat \<Rightarrow> nat \<Rightarrow> ssd \<Rightarrow> ssd option" where
  "finish_nand_req p ch way s =
     do {
       s \<leftarrow> GetFromNandReqQ p ch way (s\<lparr>wt := set_retry ch way RETRY_LIMIT (wt s)\<rparr>);
       Some (set_die_state ch way DIE_STATE_IDLE s)
     }"

definition mark_grown_bad :: "platform \<Rightarrow> nat \<Rightarrow> nat \<Rightarrow> nat \<Rightarrow> ssd \<Rightarrow> ssd" where
  "mark_grown_bad p ch way t s =
     s\<lparr>pb := UpdatePhyBlockMapForGrownBadBlock (Pcw2VdieTranslation p ch way)
              (row_phy_block (GenerateNandRowAddr p s t)) (pb s)\<rparr>"

definition ExecuteNandReq :: "platform \<Rightarrow> nat \<Rightarrow> nat \<Rightarrow> req_status \<Rightarrow> ssd \<Rightarrow> ssd option" where
  "ExecuteNandReq p ch way status s =
     (let t = nand_head s ch way; code = reqCode (req s t) in
      case dieState (dieTable (wt s) ch way) of
        DIE_STATE_IDLE \<Rightarrow>
          do {
            s \<leftarrow> IssueNandReq p ch way s;
            Some (set_die_state ch way DIE_STATE_EXE s)
          }
      | DIE_STATE_EXE \<Rightarrow>
          (case status of
             REQ_STATUS_DONE \<Rightarrow>
               if code = REQ_CODE_READ
               then Some (set_die_state ch way DIE_STATE_IDLE (set_req_code t REQ_CODE_READ_TRANSFER s))
               else finish_nand_req p ch way s
           | REQ_STATUS_FAIL \<Rightarrow>
               if (code = REQ_CODE_READ \<or> code = REQ_CODE_READ_TRANSFER) \<and> 0 < retryLimit (wt s) ch way
               then
                 let s = s\<lparr>wt := set_retry ch way (retryLimit (wt s) ch way - 1) (wt s)\<rparr>;
                     s = (if code = REQ_CODE_READ_TRANSFER then set_req_code t REQ_CODE_READ s else s)
                 in Some (set_die_state ch way DIE_STATE_IDLE s)
               else
                 let s = (if \<not> nandEcc (ropt s t) \<and> dataBufFormat (ropt s t) = REQ_OPT_DATA_BUF_ADDR
                          then s\<lparr>io := emit (Dram_Write (dataBufInfo (req s t))
                                              (of_nat PSEUDO_BAD_BLOCK_MARK)) (io s)\<rparr>
                          else s)
                 in finish_nand_req p ch way (mark_grown_bad p ch way t s)
           | REQ_STATUS_WARNING \<Rightarrow> finish_nand_req p ch way (mark_grown_bad p ch way t s)
           | REQ_STATUS_RUNNING \<Rightarrow> Some s))"

section \<open>The round over a channel\<close>

definition PutToNandWayPriorityTable :: "nat \<Rightarrow> nat \<Rightarrow> nat \<Rightarrow> ssd \<Rightarrow> ssd option" where
  "PutToNandWayPriorityTable t ch way s =
     (case reqCode (req s t) of
        REQ_CODE_READ \<Rightarrow> Some (s\<lparr>wt := PutToNandReadTriggerList ch way (wt s)\<rparr>)
      | REQ_CODE_READ_TRANSFER \<Rightarrow> Some (s\<lparr>wt := PutToNandReadTransferList ch way (wt s)\<rparr>)
      | REQ_CODE_WRITE \<Rightarrow> Some (s\<lparr>wt := PutToNandWriteList ch way (wt s)\<rparr>)
      | REQ_CODE_ERASE \<Rightarrow> Some (s\<lparr>wt := PutToNandEraseList ch way (wt s)\<rparr>)
      | REQ_CODE_RESET \<Rightarrow> Some (s\<lparr>wt := PutToNandWriteList ch way (wt s)\<rparr>)
      | REQ_CODE_SET_FEATURE \<Rightarrow> Some (s\<lparr>wt := PutToNandWriteList ch way (wt s)\<rparr>)
      | _ \<Rightarrow> None)"

abbreviation next_way :: "ssd \<Rightarrow> nat \<Rightarrow> nat \<Rightarrow> nat" where
  "next_way s ch way \<equiv> nextWay (dieTable (wt s) ch way)"

abbreviation head_way :: "ssd \<Rightarrow> nat \<Rightarrow> way_kind \<Rightarrow> nat" where
  "head_way s ch k \<equiv> headWay (wayPriority (wt s) ch k)"

text \<open>The idle ways: a way with a request leaves the list; the others are counted as waiting.\<close>

partial_function (option) idle_walk ::
  "platform \<Rightarrow> nat \<Rightarrow> nat \<Rightarrow> nat \<Rightarrow> ssd \<Rightarrow> (ssd \<times> nat) option" where
  [code]: "idle_walk p ch way waitWayCnt s =
     (if way = WAY_NONE then Some (s, waitWayCnt)
      else do {
        s \<leftarrow> (if nand_head s ch way = REQ_SLOT_TAG_NONE
             then ReleaseBlockedByRowAddrDepReq p ch way s else Some s);
        (if nand_head s ch way \<noteq> REQ_SLOT_TAG_NONE then
           do {
             let nextWay' = next_way s ch way;
             let s = s\<lparr>wt := SelectivGetFromNandIdleList ch way (wt s)\<rparr>;
             s \<leftarrow> PutToNandWayPriorityTable (nand_head s ch way) ch way s;
             idle_walk p ch nextWay' waitWayCnt s
           }
         else idle_walk p ch (next_way s ch way) (waitWayCnt + 1) s)
      })"

text \<open>The ways that wait for the report of their status.\<close>

definition report_done :: "platform \<Rightarrow> nat \<Rightarrow> nat \<Rightarrow> req_status \<Rightarrow> ssd \<Rightarrow> (ssd \<times> nat \<times> nat) option" where
  "report_done p ch way status s =
     do {
       s \<leftarrow> ExecuteNandReq p ch way status s;
       let nextWay' = next_way s ch way;
       let s = s\<lparr>wt := SelectivGetFromNandStatusReportList ch way (wt s)\<rparr>;
       s \<leftarrow> (if nand_head s ch way = REQ_SLOT_TAG_NONE
            then ReleaseBlockedByRowAddrDepReq p ch way s else Some s);
       (if nand_head s ch way \<noteq> REQ_SLOT_TAG_NONE then
          do {
            s \<leftarrow> PutToNandWayPriorityTable (nand_head s ch way) ch way s;
            Some (s, nextWay', 0)
          }
        else Some (s\<lparr>wt := PutToNandIdleList ch way (wt s)\<rparr>, nextWay', 1))
     }"

partial_function (option) report_walk ::
  "platform \<Rightarrow> nat \<Rightarrow> 32 word \<Rightarrow> nat \<Rightarrow> nat \<Rightarrow> ssd \<Rightarrow> (ssd \<times> nat) option" where
  [code]: "report_walk p ch readyBusy way waitWayCnt s =
     (if way = WAY_NONE then Some (s, waitWayCnt)
      else if V2FWayReady readyBusy way then
        (let (s, status) = CheckReqStatus p ch way s in
         if status \<noteq> REQ_STATUS_RUNNING then
           do {
             (s, nextWay', k) \<leftarrow> report_done p ch way status s;
             report_walk p ch readyBusy nextWay' (waitWayCnt + k) s
           }
         else if check_opt s ch way = REQ_STATUS_CHECK_OPT_CHECK then
           (let nextWay' = next_way s ch way;
                s = s\<lparr>wt := SelectivGetFromNandStatusReportList ch way (wt s)\<rparr>;
                s = s\<lparr>wt := PutToNandStatusCheckList ch way (wt s)\<rparr>
            in report_walk p ch readyBusy nextWay' waitWayCnt s)
         else report_walk p ch readyBusy (next_way s ch way) (waitWayCnt + 1) s)
      else report_walk p ch readyBusy (next_way s ch way) (waitWayCnt + 1) s)"

text \<open>
  The lists served when the controller is free. The way is moved before the link to the next way
  is read. The second component says whether the controller became busy, which ends the round.
\<close>

definition controller_busy :: "platform \<Rightarrow> nat \<Rightarrow> ssd \<Rightarrow> bool \<times> ssd" where
  "controller_busy p ch s = (let (b, io') = V2FIsControllerBusy p ch (io s) in (b, s\<lparr>io := io'\<rparr>))"

partial_function (option) check_walk ::
  "platform \<Rightarrow> nat \<Rightarrow> 32 word \<Rightarrow> nat \<Rightarrow> ssd \<Rightarrow> (ssd \<times> bool) option" where
  [code]: "check_walk p ch readyBusy way s =
     (if way = WAY_NONE then Some (s, False)
      else if V2FWayReady readyBusy way then
        (let (s, status) = CheckReqStatus p ch way s;
             s = s\<lparr>wt := SelectiveGetFromNandStatusCheckList ch way (wt s)\<rparr>;
             s = s\<lparr>wt := PutToNandStatusReportList ch way (wt s)\<rparr>;
             (b, s) = controller_busy p ch s
         in if b then Some (s, True)
            else check_walk p ch readyBusy (next_way s ch way) s)
      else check_walk p ch readyBusy (next_way s ch way) s)"

partial_function (option) issue_walk ::
  "platform \<Rightarrow> nat \<Rightarrow> way_kind \<Rightarrow> way_kind \<Rightarrow> nat \<Rightarrow> ssd \<Rightarrow> (ssd \<times> bool) option" where
  [code]: "issue_walk p ch k k' way s =
     (if way = WAY_NONE then Some (s, False)
      else do {
        s \<leftarrow> ExecuteNandReq p ch way REQ_STATUS_RUNNING s;
        let s = s\<lparr>wt := way_unlink k ch way (wt s)\<rparr>;
        let s = s\<lparr>wt := way_put k' ch way (wt s)\<rparr>;
        let (b, s) = controller_busy p ch s;
        (if b then Some (s, True) else issue_walk p ch k k' (next_way s ch way) s)
      })"

definition issue_list ::
  "platform \<Rightarrow> nat \<Rightarrow> way_kind \<Rightarrow> way_kind \<Rightarrow> ssd \<times> bool \<Rightarrow> (ssd \<times> bool) option" where
  "issue_list p ch k k' = (\<lambda>(s, stop).
     if stop then Some (s, True) else issue_walk p ch k k' (head_way s ch k) s)"

definition SchedulingNandReqPerCh :: "platform \<Rightarrow> nat \<Rightarrow> ssd \<Rightarrow> ssd option" where
  "SchedulingNandReqPerCh p ch s =
     do {
       (s, waitWayCnt) \<leftarrow> idle_walk p ch (head_way s ch Idle) 0 s;
       (s, waitWayCnt) \<leftarrow>
         (if head_way s ch Status_Report \<noteq> WAY_NONE
          then let (readyBusy, io') = V2FReadyBusyAsync p ch (io s); s = s\<lparr>io := io'\<rparr>
               in report_walk p ch readyBusy (head_way s ch Status_Report) waitWayCnt s
          else Some (s, waitWayCnt));
       (if waitWayCnt \<noteq> USER_WAYS p then
          do {
            let (b, s) = controller_busy p ch s;
            (if b then Some s
             else do {
               r \<leftarrow> (if head_way s ch Status_Check \<noteq> WAY_NONE
                    then let (readyBusy, io') = V2FReadyBusyAsync p ch (io s); s = s\<lparr>io := io'\<rparr>
                         in check_walk p ch readyBusy (head_way s ch Status_Check) s
                    else Some (s, False));
               r \<leftarrow> issue_list p ch Read_Trigger Status_Check r;
               r \<leftarrow> issue_list p ch Erase_List Status_Check r;
               r \<leftarrow> issue_list p ch Write_List Status_Check r;
               r \<leftarrow> issue_list p ch Read_Transfer Status_Report r;
               Some (fst r)
             })
          }
        else Some s)
     }"

definition SchedulingNandReq :: "platform \<Rightarrow> ssd \<Rightarrow> ssd option" where
  "SchedulingNandReq p s = ofold (SchedulingNandReqPerCh p) [0..<USER_CHANNELS p] s"

section \<open>Waiting for progress\<close>

partial_function (option) sync_while ::
  "(ssd \<Rightarrow> bool) \<Rightarrow> (ssd \<Rightarrow> ssd option) \<Rightarrow> ssd \<Rightarrow> ssd option" where
  [code]: "sync_while wait round s =
     (if wait s then do { s \<leftarrow> round s; sync_while wait round s } else Some s)"

definition low_level_round :: "platform \<Rightarrow> ssd \<Rightarrow> ssd option" where
  "low_level_round p s =
     do {
       s \<leftarrow> CheckDoneNvmeDmaReq p s;
       s \<leftarrow> CheckDoneCustomCmdDmaReq p s;
       SchedulingNandReq p s
     }"

definition SyncAllLowLevelReqDone :: "platform \<Rightarrow> ssd \<Rightarrow> ssd option" where
  "SyncAllLowLevelReqDone p s =
     sync_while
       (\<lambda>s. headReq (nvmeDmaReqQ (rq s)) \<noteq> REQ_SLOT_TAG_NONE \<or>
            notCompletedNandReqCnt (rq s) \<noteq> 0 \<or> blockedReqCnt (rq s) \<noteq> 0)
       (\<lambda>s. do { s \<leftarrow> CheckDoneNvmeDmaReq p s; SchedulingNandReq p s }) s"

definition SyncAvailFreeReq :: "platform \<Rightarrow> ssd \<Rightarrow> ssd option" where
  "SyncAvailFreeReq p s =
     sync_while (\<lambda>s. headReq (freeReqQ (rq s)) = REQ_SLOT_TAG_NONE) (low_level_round p) s"

definition SyncReleaseEraseReq :: "platform \<Rightarrow> nat \<Rightarrow> nat \<Rightarrow> nat \<Rightarrow> ssd \<Rightarrow> ssd option" where
  "SyncReleaseEraseReq p ch way b s =
     sync_while (\<lambda>s. blockedEraseReqFlag (rdep s ch way b)) (low_level_round p) s"

definition GetFromFreeReqQ :: "platform \<Rightarrow> ssd \<Rightarrow> (ssd \<times> nat) option" where
  "GetFromFreeReqQ p s =
     do {
       s \<leftarrow> (if headReq (freeReqQ (rq s)) = REQ_SLOT_TAG_NONE then SyncAvailFreeReq p s else Some s);
       let (q, t) = GetFromFreeReqQ_q (rq s);
       Some (s\<lparr>rq := q\<rparr>, t)
     }"

end
