(* ===== verification/Low_Level_Select.thy ===== *)
theory Low_Level_Select
  imports Nand_Schedule
begin

text \<open>
  The choice of the low level queue for a request, \<^verbatim>\<open>request_transform.c\<close>: the request goes to its
  device, or waits for a buffer entry, or waits for a row.
\<close>

text \<open>
  A request that is blocked by its buffer announces itself to its block. A read that meets a
  blocked erase first waits for it; if the wait has also freed the buffer, the read is queued at
  once (second component \<^term>\<open>True\<close>, the report \<^verbatim>\<open>SYNC\<close>).
\<close>

definition UpdateRowAddrDepTableForBufBlockedReq ::
  "platform \<Rightarrow> nat \<Rightarrow> ssd \<Rightarrow> (ssd \<times> bool) option" where
  "UpdateRowAddrDepTableForBufBlockedReq p t s =
     (if nandAddr (ropt s t) = REQ_OPT_NAND_ADDR_VSA then
        let ch = req_ch p s t; way = req_way p s t; b = req_block p s t; pg = req_page p s t;
            count = upd_dep ch way b (\<lambda>e. e\<lparr>blockedReadReqCnt := blockedReadReqCnt e + 1\<rparr>) in
        if reqCode (req s t) = REQ_CODE_READ then
          if blockedEraseReqFlag (rdep s ch way b) then
            do {
              s \<leftarrow> SyncReleaseEraseReq p ch way b s;
              Some (if CheckBufDep s t
                    then (if pg < unat (permittedProgPage (rdep s ch way b))
                          then on_rq (PutToNandReqQ t ch way) s
                          else on_rq (PutToBlockedByRowAddrDepReqQ t ch way) (count s), True)
                    else (count s, False))
            }
          else Some (count s, False)
        else if reqCode (req s t) = REQ_CODE_ERASE
        then Some (upd_dep ch way b (\<lambda>e. e\<lparr>blockedEraseReqFlag := True\<rparr>) s, False)
        else Some (s, False)
      else None)"

definition select_nand :: "platform \<Rightarrow> nat \<Rightarrow> ssd \<Rightarrow> ssd option" where
  "select_nand p t s =
     (let vsa = (nandAddr (ropt s t) = REQ_OPT_NAND_ADDR_VSA);
          ch = (if vsa then req_ch p s t else physicalCh (nandInfo (req s t)));
          way = (if vsa then req_way p s t else physicalWay (nandInfo (req s t))) in
      if rowAddrDependencyCheck (ropt s t) then
        do {
          (s, pass) \<leftarrow> CheckRowAddrDep (SyncReleaseEraseReq p) p t
                         ROW_ADDR_DEPENDENCY_CHECK_OPT_SELECT s;
          Some (if pass then on_rq (PutToNandReqQ t ch way) s
                else on_rq (PutToBlockedByRowAddrDepReqQ t ch way) s)
        }
      else Some (on_rq (PutToNandReqQ t ch way) s))"

definition SelectLowLevelReqQ :: "platform \<Rightarrow> nat \<Rightarrow> ssd \<Rightarrow> ssd option" where
  "SelectLowLevelReqQ p t s =
     (if CheckBufDep s t then
        (case reqType (req s t) of
           REQ_TYPE_NVME_DMA \<Rightarrow>
             do {
               s \<leftarrow> IssueNvmeDmaReq p t s;
               Some (if customCmd (ropt s t) then PutToCustomCmdReqQ p t s else PutToNvmeDmaReqQ p t s)
             }
         | REQ_TYPE_NAND \<Rightarrow> select_nand p t s
         | REQ_TYPE_SLICE \<Rightarrow> None)
      else
        do {
          (s, sync) \<leftarrow> (if reqType (req s t) = REQ_TYPE_NAND \<and> rowAddrDependencyCheck (ropt s t)
                       then UpdateRowAddrDepTableForBufBlockedReq p t s else Some (s, False));
          Some (if sync then s else on_rq (PutToBlockedByBufDepReqQ t) s)
        })"

end
