(* ===== verification/Low_Level_View.thy ===== *)
theory Low_Level_View
  imports Low_Level_Select
begin

text \<open>
  What the low level leaves alone. Transfers, flash commands and the waiting loops work on the
  requests, the devices, the row dependency table, the physical blocks and the ends of the blocking
  chains. A view of the state that does not look at those is the same before and after any of their
  operations. The views of interest are the address maps and the contents of the two buffers.
\<close>

locale request_view =
  fixes v :: "ssd \<Rightarrow> 'v"
  assumes v_rq [simp]: "v (s\<lparr>rq := q\<rparr>) = v s"
    and v_io [simp]: "v (s\<lparr>io := i\<rparr>) = v s"
    and v_tm [simp]: "v (s\<lparr>tm := m\<rparr>) = v s"
    and v_cct [simp]: "v (s\<lparr>cct := c\<rparr>) = v s"
    and v_rdep [simp]: "v (s\<lparr>rdep := d\<rparr>) = v s"
    and v_temp [simp]: "v (s\<lparr>tempDataBuf := a\<rparr>) = v s"
    and v_db [simp]: "db s = b \<Longrightarrow>
      v (s\<lparr>db := upd_buf e (\<lambda>r. r\<lparr>blockingReqTail := t\<rparr>) b\<rparr>) = v s"
    and v_cb [simp]: "cb s = b \<Longrightarrow>
      v (s\<lparr>cb := upd_buf e (\<lambda>r. r\<lparr>blockingReqTail := t\<rparr>) b\<rparr>) = v s"
begin

lemma on_rq_view [simp]: "v (rq_update f s) = v s"
proof -
  have "rq_update f s = s\<lparr>rq := f (rq s)\<rparr>" by (cases s) simp
  then show ?thesis using v_rq by metis
qed

lemma stamp_view [simp]: "v (stamp p f s) = v s"
  by (simp add: stamp_def)

lemma upd_dep_view [simp]: "v (upd_dep ch way b f s) = v s"
  by (simp add: upd_dep_def)

lemma queue_view [simp]:
  "v (PutToNvmeDmaReqQ p t s) = v s" "v (PutToCustomCmdReqQ p t s) = v s"
  "v (PutToSliceReqQ t s) = v s"
  by (simp_all add: PutToNvmeDmaReqQ_def PutToCustomCmdReqQ_def PutToSliceReqQ_def Let_def)

lemma mark_view [simp]: "v (mark_issued_rx t s) = v s" "v (mark_issued_tx t s) = v s"
  by (simp_all add: mark_issued_rx_def mark_issued_tx_def split: prod.splits)

lemma issue_rx_view: "issue_rx_blocks p t n i a s = Some s' \<Longrightarrow> v s' = v s"
proof (induction n arbitrary: i a s)
  case (Suc n)
  from Suc.prems show ?case
    by (auto simp: Let_def elim!: bind_SomeE dest!: Suc.IH split: if_splits)
qed simp

lemma issue_tx_view: "issue_tx_blocks p t n i a s = Some (s', b) \<Longrightarrow> v s' = v s"
proof (induction n arbitrary: i a s)
  case (Suc n)
  from Suc.prems show ?case
    by (auto simp: Let_def elim!: bind_SomeE dest!: Suc.IH split: if_splits)
qed simp

lemma IssueNvmeDmaReq_view: "IssueNvmeDmaReq p t s = Some s' \<Longrightarrow> v s' = v s"
  by (auto simp: IssueNvmeDmaReq_def Let_def elim!: bind_SomeE split: if_splits
      dest!: issue_rx_view issue_tx_view)

lemma clear_blocking_tail_view [simp]: "v (clear_blocking_tail t s) = v s"
  by (simp add: clear_blocking_tail_def Let_def split: data_buf_format.split)

text \<open>A check keeps the view if the wait before it does.\<close>

lemma CheckRowAddrDep_view:
  assumes "\<And>ch way b s s'. sync ch way b s = Some s' \<Longrightarrow> v s' = v s"
    and "CheckRowAddrDep sync p t opt s = Some (s', r)"
  shows "v s' = v s"
  using assms(2)
  by (auto simp: CheckRowAddrDep_def Let_def elim!: bind_SomeE split: if_splits dest!: assms(1))

lemma release_check_view: "CheckRowAddrDep no_sync p t opt s = Some (s', r) \<Longrightarrow> v s' = v s"
  by (rule CheckRowAddrDep_view [where sync = no_sync]) (auto simp: no_sync_def)

lemma release_target_view: "release_target p t s = Some s' \<Longrightarrow> v s' = v s"
  by (auto simp: release_target_def Let_def elim!: bind_SomeE split: if_splits req_type.splits
      dest!: IssueNvmeDmaReq_view release_check_view)

lemma ReleaseBlockedByBufDepReq_view: "ReleaseBlockedByBufDepReq p t s = Some s' \<Longrightarrow> v s' = v s"
  by (auto simp: ReleaseBlockedByBufDepReq_def Let_def split: if_splits dest!: release_target_view)

lemma release_rows_view: "release_rows p ch way t s = Some s' \<Longrightarrow> v s' = v s"
proof (induction rule: release_rows.raw_induct [rotated, consumes 1, case_names step])
  case (step release_rows p ch way t s s')
  from step(2) show ?case
    by (auto simp: Let_def elim!: bind_SomeE split: if_splits dest!: step(1) release_check_view)
qed

lemma ReleaseBlockedByRowAddrDepReq_view:
  "ReleaseBlockedByRowAddrDepReq p ch way s = Some s' \<Longrightarrow> v s' = v s"
  by (simp add: ReleaseBlockedByRowAddrDepReq_def release_rows_view)

lemma SelectiveGetFromNvmeDmaReqQ_view: "SelectiveGetFromNvmeDmaReqQ p t s = Some s' \<Longrightarrow> v s' = v s"
  by (auto simp: SelectiveGetFromNvmeDmaReqQ_def Let_def dest!: ReleaseBlockedByBufDepReq_view)

lemma GetFromNandReqQ_view: "GetFromNandReqQ p ch way s = Some s' \<Longrightarrow> v s' = v s"
  by (auto simp: GetFromNandReqQ_def Let_def elim!: bind_SomeE split: if_splits
      dest!: ReleaseBlockedByBufDepReq_view)

lemma SelectiveGetFromCustomCmdReqQ_view:
  "SelectiveGetFromCustomCmdReqQ p t s = Some s' \<Longrightarrow> v s' = v s"
  by (auto simp: SelectiveGetFromCustomCmdReqQ_def Let_def split: if_splits prod.splits
      dest!: ReleaseBlockedByBufDepReq_view)

lemma check_view: "check_rx p t s = (r, s') \<Longrightarrow> v s' = v s" "check_tx p t s = (r, s') \<Longrightarrow> v s' = v s"
  by (auto simp: check_rx_def check_tx_def Let_def split: prod.splits)

lemma check_done_dma_view: "check_done_dma p t rx tx s = Some s' \<Longrightarrow> v s' = v s"
proof (induction rule: check_done_dma.raw_induct [rotated, consumes 1, case_names step])
  case (step check_done_dma p t rx tx s s')
  from step(2) show ?case
    by (auto simp: Let_def elim!: bind_SomeE split: if_splits prod.splits
        dest!: step(1) SelectiveGetFromNvmeDmaReqQ_view check_view)
qed

lemma issue_waiting_view: "issue_waiting p t s = Some s' \<Longrightarrow> v s' = v s"
  by (auto simp: issue_waiting_def split: if_splits
      dest!: IssueNvmeDmaReq_view ReleaseBlockedByBufDepReq_view)

lemma check_done_custom_view: "check_done_custom p t rx tx s = Some s' \<Longrightarrow> v s' = v s"
proof (induction rule: check_done_custom.raw_induct [rotated, consumes 1, case_names step])
  case (step check_done_custom p t rx tx s s')
  from step(2) show ?case
    by (auto simp: Let_def elim!: bind_SomeE split: if_splits prod.splits
        dest!: step(1) SelectiveGetFromCustomCmdReqQ_view check_view issue_waiting_view)
qed

lemma CheckDone_view:
  "CheckDoneNvmeDmaReq p s = Some s' \<Longrightarrow> v s' = v s"
  "CheckDoneCustomCmdDmaReq p s = Some s' \<Longrightarrow> v s' = v s"
  by (simp_all add: CheckDoneNvmeDmaReq_def CheckDoneCustomCmdDmaReq_def check_done_dma_view
      check_done_custom_view)

end

text \<open>The flash scheduler also moves the ways between their lists and records grown bad blocks.\<close>

locale low_level_view = request_view v for v :: "ssd \<Rightarrow> 'v" +
  assumes v_wt [simp]: "v (s\<lparr>wt := w\<rparr>) = v s"
    and v_pb [simp]: "v (s\<lparr>pb := m'\<rparr>) = v s"
begin

lemma set_fields_view [simp]:
  "v (set_check_opt ch way o' s) = v s" "v (set_die_state ch way d s) = v s"
  "v (set_req_code t code s) = v s" "v (mark_grown_bad p ch way t s) = v s"
  by (simp_all add: set_check_opt_def set_die_state_def set_req_code_def mark_grown_bad_def)

lemma IssueNandReq_view: "IssueNandReq p ch way s = Some s' \<Longrightarrow> v s' = v s"
  by (auto simp: IssueNandReq_def Let_def elim!: bind_SomeE split: req_code.splits)

lemma CheckReqStatus_view: "CheckReqStatus p ch way s = (s', r) \<Longrightarrow> v s' = v s"
  by (auto simp: CheckReqStatus_def Let_def split: status_check_opt.splits if_splits prod.splits)

lemma finish_nand_req_view: "finish_nand_req p ch way s = Some s' \<Longrightarrow> v s' = v s"
  by (auto simp: finish_nand_req_def elim!: bind_SomeE dest!: GetFromNandReqQ_view)

lemma ExecuteNandReq_view: "ExecuteNandReq p ch way r s = Some s' \<Longrightarrow> v s' = v s"
  by (auto simp: ExecuteNandReq_def Let_def elim!: bind_SomeE split: die_state.splits req_status.splits
      if_splits dest!: IssueNandReq_view finish_nand_req_view)

lemma PutToNandWayPriorityTable_view: "PutToNandWayPriorityTable t ch way s = Some s' \<Longrightarrow> v s' = v s"
  by (auto simp: PutToNandWayPriorityTable_def split: req_code.splits)

lemma controller_busy_view: "controller_busy p ch s = (b, s') \<Longrightarrow> v s' = v s"
  by (auto simp: controller_busy_def Let_def split: prod.splits)

lemma idle_walk_view: "idle_walk p ch way n s = Some y \<Longrightarrow> v (fst y) = v s"
proof (induction rule: idle_walk.raw_induct [rotated, consumes 1, case_names step])
  case (step idle_walk p ch way n s y)
  from step(2) show ?case
    by (auto simp: Let_def elim!: bind_SomeE split: if_splits
        dest!: step(1) ReleaseBlockedByRowAddrDepReq_view PutToNandWayPriorityTable_view)
qed

lemma report_done_view: "report_done p ch way r s = Some (s', w, k) \<Longrightarrow> v s' = v s"
  by (auto simp: report_done_def Let_def elim!: bind_SomeE split: if_splits
      dest!: ExecuteNandReq_view ReleaseBlockedByRowAddrDepReq_view PutToNandWayPriorityTable_view)

lemma report_walk_view: "report_walk p ch rb way n s = Some y \<Longrightarrow> v (fst y) = v s"
proof (induction rule: report_walk.raw_induct [rotated, consumes 1, case_names step])
  case (step report_walk p ch rb way n s y)
  from step(2) show ?case
    by (auto simp: Let_def elim!: bind_SomeE split: if_splits prod.splits
        dest!: step(1) CheckReqStatus_view report_done_view)
qed

lemma check_walk_view: "check_walk p ch rb way s = Some y \<Longrightarrow> v (fst y) = v s"
proof (induction rule: check_walk.raw_induct [rotated, consumes 1, case_names step])
  case (step check_walk p ch rb way s y)
  from step(2) show ?case
    by (auto simp: Let_def split: if_splits prod.splits
        dest!: step(1) CheckReqStatus_view controller_busy_view)
qed

lemma issue_walk_view: "issue_walk p ch k k' way s = Some y \<Longrightarrow> v (fst y) = v s"
proof (induction rule: issue_walk.raw_induct [rotated, consumes 1, case_names step])
  case (step issue_walk p ch k k' way s y)
  from step(2) show ?case
    by (auto simp: Let_def elim!: bind_SomeE split: if_splits prod.splits
        dest!: step(1) ExecuteNandReq_view controller_busy_view)
qed

lemma issue_list_view: "issue_list p ch k k' r = Some y \<Longrightarrow> v (fst y) = v (fst r)"
  by (cases r) (auto simp: issue_list_def split: if_splits dest!: issue_walk_view)

lemma SchedulingNandReqPerCh_view: "SchedulingNandReqPerCh p ch s = Some s' \<Longrightarrow> v s' = v s"
  by (auto simp: SchedulingNandReqPerCh_def Let_def elim!: bind_SomeE split: if_splits prod.splits
      dest!: idle_walk_view report_walk_view controller_busy_view check_walk_view issue_list_view)

lemma SchedulingNandReq_view: "SchedulingNandReq p s = Some s' \<Longrightarrow> v s' = v s"
  unfolding SchedulingNandReq_def by (rule ofold_frame) (rule SchedulingNandReqPerCh_view)

lemma sync_while_view:
  assumes "\<And>s s'. round s = Some s' \<Longrightarrow> v s' = v s" and "sync_while wait round s = Some s'"
  shows "v s' = v s"
  using assms(2,1)
proof (induction rule: sync_while.raw_induct [rotated, consumes 1, case_names step])
  case (step sync_while wait round s s')
  from step(2) show ?case
    by (auto elim!: bind_SomeE split: if_splits dest!: step(1) [OF _ step(3)] step(3))
qed

lemma low_level_round_view: "low_level_round p s = Some s' \<Longrightarrow> v s' = v s"
  by (auto simp: low_level_round_def elim!: bind_SomeE dest!: CheckDone_view SchedulingNandReq_view)

lemma Sync_view:
  "SyncAllLowLevelReqDone p s = Some s' \<Longrightarrow> v s' = v s"
  "SyncAvailFreeReq p s = Some s' \<Longrightarrow> v s' = v s"
  "SyncReleaseEraseReq p ch way b s = Some s' \<Longrightarrow> v s' = v s"
  by (auto simp: SyncAllLowLevelReqDone_def SyncAvailFreeReq_def SyncReleaseEraseReq_def
      elim!: sync_while_view [rotated] bind_SomeE dest!: low_level_round_view CheckDone_view
      SchedulingNandReq_view)

lemma GetFromFreeReqQ_view: "GetFromFreeReqQ p s = Some (s', t) \<Longrightarrow> v s' = v s"
  by (auto simp: GetFromFreeReqQ_def Let_def elim!: bind_SomeE split: if_splits prod.splits
      dest!: Sync_view)

lemma UpdateRowAddrDep_view:
  "UpdateRowAddrDepTableForBufBlockedReq p t s = Some (s', r) \<Longrightarrow> v s' = v s"
  by (auto simp: UpdateRowAddrDepTableForBufBlockedReq_def Let_def elim!: bind_SomeE split: if_splits
      dest!: Sync_view)

lemma select_check_view:
  "CheckRowAddrDep (SyncReleaseEraseReq p) p t opt s = Some (s', r) \<Longrightarrow> v s' = v s"
  by (rule CheckRowAddrDep_view [where sync = "SyncReleaseEraseReq p"]) (auto dest!: Sync_view)

lemma SelectLowLevelReqQ_view: "SelectLowLevelReqQ p t s = Some s' \<Longrightarrow> v s' = v s"
  by (auto simp: SelectLowLevelReqQ_def select_nand_def Let_def elim!: bind_SomeE
      split: if_splits req_type.splits dest!: IssueNvmeDmaReq_view select_check_view
      UpdateRowAddrDep_view)

lemma Blocking_view [simp]:
  "v (UpdateDataBufEntryInfoBlockingReq p e t s) = v s"
  "v (UpdateCcmdDataBufEntryInfoBlockingReq p e t s) = v s"
  "v (UpdateTempDataBufEntryInfoBlockingReq e t s) = v s"
  by (simp_all add: UpdateDataBufEntryInfoBlockingReq_def UpdateCcmdDataBufEntryInfoBlockingReq_def
      UpdateTempDataBufEntryInfoBlockingReq_def Let_def)

lemmas low_level_views = GetFromFreeReqQ_view SelectLowLevelReqQ_view Sync_view

end

text \<open>The address maps are such a view, and so are the buffers up to the ends of the chains.\<close>

definition strip_tails :: "data_buf \<Rightarrow> data_buf" where
  "strip_tails b = b\<lparr>dataBuf := \<lambda>e. (dataBuf b e)\<lparr>blockingReqTail := REQ_SLOT_TAG_NONE\<rparr>\<rparr>"

lemma strip_tails_upd [simp]:
  "strip_tails (upd_buf e (\<lambda>r. r\<lparr>blockingReqTail := t\<rparr>) b) = strip_tails b"
  by (simp add: strip_tails_def upd_buf_def fun_eq_iff)

interpretation am_view: low_level_view am
  by unfold_locales simp_all

interpretation db_view: low_level_view "\<lambda>s. strip_tails (db s)"
  by unfold_locales simp_all

interpretation cb_view: low_level_view "\<lambda>s. strip_tails (cb s)"
  by unfold_locales simp_all

interpretation cap_view: low_level_view storageCapacity
  by unfold_locales simp_all

text \<open>The lists of the ways and the maps of the blocks are views of the request handling only.\<close>

interpretation wt_view: request_view wt
  by unfold_locales simp_all

interpretation pb_view: request_view pb
  by unfold_locales simp_all

end
