(* ===== verification/Example_Device.thy ===== *)
theory Example_Device
  imports Low_Level_View
begin

text \<open>
  A concrete device for the examples of the later theories: the configuration of the board, an
  instant in which every register and flag reads zero, and a state of the firmware in which every
  queue and list is empty and every table holds zeros.
\<close>

definition quiet :: observation where
  "quiet = \<lparr>obs_xtime = 0, obs_reg = (\<lambda>a. 0), obs_controller_busy = (\<lambda>ch. 0),
     obs_ready_busy = (\<lambda>ch. 0), obs_complete_flag = (\<lambda>ch way. 0), obs_status_report = (\<lambda>ch way. 0),
     obs_error_info = (\<lambda>ch way i. 0), obs_dram = (\<lambda>a. 0)\<rparr>"

definition small_platform :: "(nat \<Rightarrow> observation) \<Rightarrow> platform" where
  "small_platform o' =
     \<lparr>USER_CHANNELS = 1, USER_WAYS = 1, USER_BLOCKS_PER_LUN = 142, BITS_PER_FLASH_CELL = 1, obs = o'\<rparr>"

definition no_request :: ssd_req where
  "no_request =
     \<lparr>reqType = REQ_TYPE_SLICE, reqQueueType = REQ_QUEUE_TYPE_NONE, reqCode = REQ_CODE_READ,
      nvmeCmdSlotTag = 0, logicalSliceAddr = 0,
      reqOpt = \<lparr>dataBufFormat = REQ_OPT_DATA_BUF_NONE, nandAddr = REQ_OPT_NAND_ADDR_VSA,
        nandEcc = False, nandEccWarning = False, rowAddrDependencyCheck = False,
        forceUnitAccess = False, blockSpace = REQ_OPT_BLOCK_SPACE_TOTAL, customCmd = False,
        ccmdDataBuf = False\<rparr>,
      dataBufInfo = 0,
      nvmeDmaInfo = \<lparr>startIndex = 0, nvmeBlockOffset = 0, numOfNvmeBlock = 0, reqTail = 0,
        issuedFlag = False, overFlowCnt = 0\<rparr>,
      nandInfo = \<lparr>virtualSliceAddr = 0, physicalCh = 0, physicalWay = 0, physicalBlock = 0,
        programmedPageCnt = 0, physicalPage = 0\<rparr>,
      prevReq = REQ_SLOT_TAG_NONE, nextReq = REQ_SLOT_TAG_NONE,
      prevBlockingReq = REQ_SLOT_TAG_NONE, nextBlockingReq = REQ_SLOT_TAG_NONE\<rparr>"

definition no_requests :: req_state where
  "no_requests =
     \<lparr>reqPool = (\<lambda>t. no_request), freeReqQ = empty_queue, sliceReqQ = empty_queue,
      blockedByBufDepReqQ = empty_queue, blockedByRowAddrDepReqQ = (\<lambda>ch way. empty_queue),
      nvmeDmaReqQ = empty_queue, nandReqQ = (\<lambda>ch way. empty_queue), customCmdQ = empty_queue,
      notCompletedNandReqCnt = 0, notCompletedCustomCmdCnt = 0, blockedReqCnt = 0\<rparr>"

definition quiet_io :: io_state where
  "quiet_io =
     \<lparr>fifoHead = \<lparr>directDmaRx = 0, directDmaTx = 0, autoDmaRx = 0, autoDmaTx = 0\<rparr>,
      fifoTail = \<lparr>directDmaRx = 0, directDmaTx = 0, autoDmaRx = 0, autoDmaTx = 0\<rparr>,
      directDmaTxCnt = 0, directDmaRxCnt = 0, autoDmaTxCnt = 0, autoDmaRxCnt = 0,
      autoDmaTxOverFlowCnt = 0, autoDmaRxOverFlowCnt = 0, clk = 0, out = []\<rparr>"

definition blank_ssd :: ssd where
  "blank_ssd =
     \<lparr>rq = no_requests, db = blank_data_buf, cb = blank_data_buf, tempDataBuf = (\<lambda>e. REQ_SLOT_TAG_NONE),
      am = blank_addr_map 0 0, pb = one_bad_block,
      rdep = (\<lambda>ch way b. \<lparr>permittedProgPage = 0, blockedReadReqCnt = 0, blockedEraseReqFlag = False\<rparr>),
      wt = \<lparr>dieTable = (\<lambda>ch way. \<lparr>dieState = DIE_STATE_IDLE, reqStatusCheckOpt = REQ_STATUS_CHECK_OPT_NONE,
              prevWay = WAY_NONE, nextWay = WAY_NONE\<rparr>),
            wayPriority = (\<lambda>ch k. \<lparr>headWay = WAY_NONE, tailWay = WAY_NONE\<rparr>),
            retryLimit = (\<lambda>ch way. RETRY_LIMIT)\<rparr>,
      cct = (\<lambda>slot. \<lparr>notIssuedRxCount = 0, notCompletedRxCount = 0, notIssuedTxCount = 0,
              notCompletedTxCount = 0, notCompletedNANDCount = 0, ccmdReserved0 = 0\<rparr>),
      tm = \<lparr>hostRequestTimeEntry = (\<lambda>i. empty_time_entry), printBuffer = (\<lambda>i. []), bufferWritePoint = 0,
            time_cnt = 0, total_r = 0, total_w = 0, reportLines = []\<rparr>,
      io = quiet_io, storageCapacity = 0\<rparr>"

end
