(* ===== verification/Nand_Theorems.thy ===== *)
theory Nand_Theorems
  imports Example_Device Low_Level_Select
begin

text \<open>
  Properties of the requests to the flash array: where a request goes (the row addresses of
  \<^verbatim>\<open>request_schedule.c\<close>), in which order the requests of a block may go (the row address dependency
  table of \<^verbatim>\<open>request_transform.c\<close>), and what happens to a request that fails.
\<close>

section \<open>Row addresses\<close>

lemma row_phy_block_row_addr:
  assumes "lun < LUNS_PER_DIE" and "b < TOTAL_BLOCKS_PER_LUN" and "pg < PAGES_PER_MLC_BLOCK"
  shows "row_phy_block (row_addr lun b pg) = lun * TOTAL_BLOCKS_PER_LUN + b"
    and "row_addr lun b pg mod PAGES_PER_MLC_BLOCK = pg" and "row_addr lun b pg < 2 ^ 32"
proof -
  have bnd: "b * 256 + pg < 0x200000" "pg < 256" "lun = 0 \<or> lun = 1"
    using assms by (auto simp: nand_consts)
  have "(b * 256 + pg) div 256 = b" "(0x200000 + b * 256 + pg) mod 0x200000 = b * 256 + pg"
    "(0x200000 + b * 256 + pg) div 0x200000 = 1"
    using bnd(1,2) by (simp_all add: add.assoc)
  then show "row_phy_block (row_addr lun b pg) = lun * TOTAL_BLOCKS_PER_LUN + b"
    using bnd by (auto simp: row_phy_block_def row_addr_def nand_consts LUN_0_BASE_ADDR_def LUN_1_BASE_ADDR_def)
  have "0x200000 + b * 256 + pg = (0x2000 + b) * 256 + pg" by simp
  then have "(0x200000 + b * 256 + pg) mod 256 = pg" using bnd(2) by (simp only: mod_mult_self3) simp
  then show "row_addr lun b pg mod PAGES_PER_MLC_BLOCK = pg" "row_addr lun b pg < 2 ^ 32"
    using bnd by (auto simp: row_addr_def nand_consts LUN_0_BASE_ADDR_def LUN_1_BASE_ADDR_def)
qed

text \<open>The page of a flash block that holds a page of a user block.\<close>

definition flash_page :: "'a ftl_config_scheme \<Rightarrow> nat \<Rightarrow> nat" where
  "flash_page c pg = (if BITS_PER_FLASH_CELL c = SLC_MODE then Vpage2PlsbPageTranslation pg else pg)"

lemma flash_page_bound:
  assumes "wf_config c" and "pg < USER_PAGES_PER_BLOCK c"
  shows "flash_page c pg < PAGES_PER_MLC_BLOCK"
  using assms by (auto simp: flash_page_def Vpage2PlsbPageTranslation_def USER_PAGES_PER_BLOCK_def nand_consts
      wf_config_def split: if_splits)

lemma flash_page_inj: "flash_page c pg = flash_page c pg' \<longleftrightarrow> pg = pg'"
  by (metis flash_page_def lsb_page_roundtrip)

lemma GenerateNandRowAddr_vsa:
  assumes wf: "wf_config c" and fresh: "\<And>d p. remappedPhyBlock (phyBlock pm d p) = p"
    and pb: "pb s = RemapBadBlock c pm" and vsa: "nandAddr (ropt s t) = REQ_OPT_NAND_ADDR_VSA"
    and v: "v = virtualSliceAddr (nandInfo (req s t))" "v < SLICES_PER_SSD c"
  defines "r \<equiv> GenerateNandRowAddr c s t"
  shows "row_phy_block r = serving_block c (pb s) (Vsa2VdieTranslation c v) (Vsa2VblockTranslation c v)"
    and "r mod PAGES_PER_MLC_BLOCK = flash_page c (Vsa2VpageTranslation c v)" and "r < 2 ^ 32"
proof -
  let ?d = "Vsa2VdieTranslation c v" and ?b = "Vsa2VblockTranslation c v" and ?pg = "Vsa2VpageTranslation c v"
  let ?phy = "Vblock2PblockOfTbsTranslation c ?b" and ?L = TOTAL_BLOCKS_PER_LUN
  let ?q = "serving_block c (pb s) ?d ?b"
  have ok: "?d < USER_DIES c" "?b < USER_BLOCKS_PER_DIE c" "?pg < USER_PAGES_PER_BLOCK c"
    using Vsa_parts_ok [OF wf v(2)] by (simp_all add: vorg_ok_def)
  have "?phy \<in> user_phys c" using Vblock2Pblock_user_phys [OF wf] ok(2) by blast
  then have lun: "?q div ?L = ?phy div ?L"
    using RemapBadBlock_facts(5) [OF wf ok(1), of pm] fresh by (simp add: serving_block_def pb)
  have D: "?phy div ?L < LUNS_PER_DIE"
    using Vblock2Pblock_range(1) [OF wf ok(2)] by (simp add: TOTAL_BLOCKS_PER_DIE_def div_less_iff_less_mult nand_consts)
  have r: "r = row_addr (?phy div ?L) (?q mod ?L) (flash_page c ?pg)"
    by (simp add: r_def GenerateNandRowAddr_def vsa Let_def flash_page_def serving_block_def flip: v(1))
  have "0 < ?L" by (simp add: nand_consts)
  then have "?q mod ?L < ?L" by simp
  note rows = row_phy_block_row_addr [OF D this flash_page_bound [OF wf ok(3)]]
  show "row_phy_block r = ?q" using rows(1) lun by (simp add: r) (metis div_mult_mod_eq)
  show "r mod PAGES_PER_MLC_BLOCK = flash_page c ?pg" "r < 2 ^ 32" using rows(2,3) by (simp_all add: r)
qed

text \<open>
  C18. Flash addresses are sound. After the replacement of bad blocks, a request for a virtual page
  names, on its die, a row of the physical block that serves the virtual block, and the block that
  the firmware computes back from the row, to record it as bad when the request fails, is that block; the
  row fits the 32 bits of the controller's register; and two requests of a die name the same row only if they
  are for the same virtual page.
\<close>

theorem GenerateNandRowAddr_sound:
  assumes "wf_config c" and "\<And>d p. remappedPhyBlock (phyBlock pm d p) = p" and "pb s = RemapBadBlock c pm"
    and "nandAddr (ropt s t) = REQ_OPT_NAND_ADDR_VSA" and "nandAddr (ropt s t') = REQ_OPT_NAND_ADDR_VSA"
    and "v = virtualSliceAddr (nandInfo (req s t))" and "v < SLICES_PER_SSD c"
    and "v' = virtualSliceAddr (nandInfo (req s t'))" and "v' < SLICES_PER_SSD c"
    and "Vsa2VdieTranslation c v = Vsa2VdieTranslation c v'"
  shows "row_phy_block (GenerateNandRowAddr c s t) =
      serving_block c (pb s) (Vsa2VdieTranslation c v) (Vsa2VblockTranslation c v) \<and>
    GenerateNandRowAddr c s t < 2 ^ 32 \<and>
    (GenerateNandRowAddr c s t = GenerateNandRowAddr c s t' \<longleftrightarrow> v = v')"
proof -
  note r = GenerateNandRowAddr_vsa [OF assms(1-4,6,7)] and r' = GenerateNandRowAddr_vsa [OF assms(1-3,5,8,9)]
  note ok = Vsa_parts_ok [OF assms(1,7), unfolded vorg_ok_def] Vsa_parts_ok [OF assms(1,9), unfolded vorg_ok_def]
  have "inj_on (serving_block c (pb s) (Vsa2VdieTranslation c v)) {..<USER_BLOCKS_PER_DIE c}"
    using serving_block_inj [OF assms(1), of "Vsa2VdieTranslation c v" pm] assms(2,3) ok by simp
  then have "v = v'" if "GenerateNandRowAddr c s t = GenerateNandRowAddr c s t'"
    using that r r' ok flash_page_inj assms(10) Vsa_roundtrip [OF assms(1,7)] Vsa_roundtrip [OF assms(1,9)]
    by (metis inj_onD lessThan_iff)
  moreover have "GenerateNandRowAddr c s t = GenerateNandRowAddr c s t'" if "v = v'"
    using that assms(4-6,8) by (simp add: GenerateNandRowAddr_def Let_def)
  ultimately show ?thesis using r by blast
qed

text \<open>A die with one bad block, and requests for the virtual page of their number.\<close>

definition page_requests :: ssd where
  "page_requests = blank_ssd\<lparr>pb := RemapBadBlock (small_platform (\<lambda>k. quiet)) one_bad_block,
     rq := no_requests\<lparr>reqPool := (\<lambda>t. no_request\<lparr>nandInfo := (nandInfo no_request)\<lparr>virtualSliceAddr := t\<rparr>\<rparr>)\<rparr>\<rparr>"

theorem GenerateNandRowAddr_sound_witness:
  "GenerateNandRowAddr (small_platform (\<lambda>k. quiet)) page_requests 5 < 2 ^ 32 \<and>
   GenerateNandRowAddr (small_platform (\<lambda>k. quiet)) page_requests 5 \<noteq>
   GenerateNandRowAddr (small_platform (\<lambda>k. quiet)) page_requests 300"
  using GenerateNandRowAddr_sound [where c = "small_platform (\<lambda>k. quiet)" and pm = one_bad_block and
      s = page_requests and t = 5 and t' = 300 and v = 5 and v' = 300]
  by (simp add: page_requests_def no_request_def one_bad_block_def small_platform_def wf_config_def nand_consts
      SLICES_PER_SSD_product USER_DIES_def USER_BLOCKS_PER_DIE_def USER_PAGES_PER_BLOCK_def Vsa2VdieTranslation_def)

section \<open>The order of the requests of a block\<close>

text \<open>
  What happens to the entry of a block: a check of a request, or the announcement of a request that
  waits for its buffer.
\<close>

datatype dep_event =
  Dep_Check req_code row_dep_check_opt nat nat
| Dep_Buf_Blocked req_code

definition buf_blocked_entry :: "req_code \<Rightarrow> row_dep \<Rightarrow> row_dep" where
  "buf_blocked_entry code e =
     (if code = REQ_CODE_READ then e\<lparr>blockedReadReqCnt := blockedReadReqCnt e + 1\<rparr>
      else if code = REQ_CODE_ERASE then e\<lparr>blockedEraseReqFlag := True\<rparr> else e)"

fun dep_step :: "dep_event \<Rightarrow> row_dep \<Rightarrow> (row_dep \<times> bool) option" where
  "dep_step (Dep_Check code opt pg programmed) e = row_dep_step code opt pg programmed e"
| "dep_step (Dep_Buf_Blocked code) e = Some (buf_blocked_entry code e, False)"

lemma upd_dep_id: "upd_dep ch way b (\<lambda>_. rdep s ch way b) s = s"
  by (simp add: upd_dep_def)

lemma buf_blocked_is_event:
  assumes "nandAddr (ropt s t) = REQ_OPT_NAND_ADDR_VSA"
    and "\<not> blockedEraseReqFlag (rdep s (req_ch p s t) (req_way p s t) (req_block p s t))"
  shows "UpdateRowAddrDepTableForBufBlockedReq p t s =
    Some (upd_dep (req_ch p s t) (req_way p s t) (req_block p s t)
            (\<lambda>_. buf_blocked_entry (reqCode (req s t))
                   (rdep s (req_ch p s t) (req_way p s t) (req_block p s t))) s, False)"
  using assms
  by (auto simp: UpdateRowAddrDepTableForBufBlockedReq_def buf_blocked_entry_def Let_def upd_dep_def)

text \<open>A run of events from an entry, with the decisions; the newest event is the last.\<close>

inductive dep_run :: "row_dep \<Rightarrow> (dep_event \<times> bool) list \<Rightarrow> row_dep \<Rightarrow> bool" where
  Start: "dep_run e [] e"
| Event: "\<lbrakk>dep_run e h e'; dep_step ev e' = Some (e'', pass)\<rbrakk> \<Longrightarrow> dep_run e (h @ [(ev, pass)]) e''"

text \<open>The pages programmed since the last erase, in the order of the decisions.\<close>

fun note_written :: "dep_event \<times> bool \<Rightarrow> nat list \<Rightarrow> nat list" where
  "note_written (Dep_Check REQ_CODE_WRITE opt pg k, True) ps = ps @ [pg]"
| "note_written (Dep_Check REQ_CODE_ERASE opt pg k, True) ps = []"
| "note_written x ps = ps"

definition written :: "(dep_event \<times> bool) list \<Rightarrow> nat list" where
  "written h = fold note_written h []"

text \<open>The reads that were told to wait and have not been released, and what it takes to count them.\<close>

fun note_waiting :: "dep_event \<times> bool \<Rightarrow> int \<Rightarrow> int" where
  "note_waiting (Dep_Check REQ_CODE_READ ROW_ADDR_DEPENDENCY_CHECK_OPT_SELECT pg k, False) n = n + 1"
| "note_waiting (Dep_Check REQ_CODE_READ ROW_ADDR_DEPENDENCY_CHECK_OPT_RELEASE pg k, True) n = n - 1"
| "note_waiting (Dep_Buf_Blocked REQ_CODE_READ, b) n = n + 1"
| "note_waiting x n = n"

definition waiting :: "(dep_event \<times> bool) list \<Rightarrow> int" where
  "waiting h = fold note_waiting h 0"

definition clean_entry :: row_dep where
  "clean_entry = \<lparr>permittedProgPage = 0, blockedReadReqCnt = 0, blockedEraseReqFlag = False\<rparr>"

text \<open>Pages of a block are numbered below 4095, and less than 65536 reads wait at a time.\<close>

definition small_run :: "(dep_event \<times> bool) list \<Rightarrow> bool" where
  "small_run h \<longleftrightarrow>
     (\<forall>code opt pg k b. (Dep_Check code opt pg k, b) \<in> set h \<longrightarrow> pg < 4095) \<and>
     (\<forall>n \<le> length h. 0 \<le> waiting (take n h) \<and> waiting (take n h) < 65536)"

lemma small_run_snoc:
  assumes "small_run (h @ [x])"
  shows "small_run h"
proof -
  have "0 \<le> waiting (take n h) \<and> waiting (take n h) < 65536" if "n \<le> length h" for n
    using assms that unfolding small_run_def by (metis append_eq_conv_conj append_take_drop_id le_Suc_eq
        length_append_singleton take_append diff_is_0_eq take0 append_Nil2)
  then show ?thesis using assms by (auto simp: small_run_def)
qed

lemma dep_run_state:
  assumes "dep_run clean_entry h e" and "small_run h"
  shows "written h = [0..<unat (permittedProgPage e)] \<and> blockedReadReqCnt e = of_int (waiting h)"
  using assms
proof (induction clean_entry h e rule: dep_run.induct)
  case Start
  then show ?case by (simp add: written_def waiting_def clean_entry_def)
next
  case (Event h e' ev e'' pass)
  have IH: "written h = [0..<unat (permittedProgPage e')]" "blockedReadReqCnt e' = of_int (waiting h)"
    using Event small_run_snoc by blast+
  have w: "written (h @ [(ev, pass)]) = note_written (ev, pass) (written h)"
    "waiting (h @ [(ev, pass)]) = note_waiting (ev, pass) (waiting h)"
    by (simp_all add: written_def waiting_def)
  show ?case
  proof (cases ev)
    case (Dep_Check code opt pg k)
    have "pg < 4095" using Event.prems Dep_Check by (auto simp: small_run_def)
    then have "unat (permittedProgPage e' + 1) = Suc pg" if "pg = unat (permittedProgPage e')"
      using that by (simp add: unat_word_ariths)
    then show ?thesis
      using Event.hyps(3) IH Dep_Check unfolding w
      by (cases code; cases opt) (auto simp: row_dep_step_def split: if_splits)
  next
    case (Dep_Buf_Blocked code)
    then show ?thesis
      using Event.hyps(3) IH unfolding w by (cases code) (auto simp: buf_blocked_entry_def)
  qed
qed

lemma small_run_prefix: "small_run (h @ h') \<Longrightarrow> small_run h"
proof (induction h' rule: rev_induct)
  case (snoc x h')
  then show ?case using small_run_snoc [of "h @ h'" x] by simp
qed simp

lemma dep_run_prefix:
  assumes "dep_run e h e'" and "h = pre @ (ev, pass) # post"
  shows "\<exists>e1 e2. dep_run e pre e1 \<and> dep_step ev e1 = Some (e2, pass)"
  using assms
proof (induction arbitrary: post rule: dep_run.induct)
  case (Event e h e' ev' e'' pass')
  then show ?case by (cases post rule: rev_cases) auto
qed simp

lemma waiting_zero:
  assumes "(of_int w :: 16 word) = 0" and "0 \<le> w" and "w < 65536"
  shows "w = 0"
proof -
  have "take_bit 16 w = 0" using arg_cong [OF assms(1), of uint] by (simp add: unsigned_of_int)
  then show ?thesis using assms(2,3) by (simp add: take_bit_int_eq_self)
qed

text \<open>
  C6. The dependency table lets the requests of a flash block go only in an order that the flash
  allows. Take any sequence of checks of requests, at selection and at release, and of announcements of
  requests that wait for a buffer, from the entry that start-up leaves. Whenever a program of page \<open>pg\<close> is let go, the
  pages programmed since the last erase are exactly \<open>0, \<dots>, pg - 1\<close>, in this order; whenever a read is let go, its
  page has been let go for programming since the last erase; and whenever an erase is let go, exactly the pages that
  were handed out for the block have been programmed, and no read of the block waits.
\<close>

theorem row_dep_order:
  assumes "dep_run clean_entry h e" and "small_run h" and "h = pre @ (Dep_Check code opt pg k, True) # post"
  shows "(code = REQ_CODE_WRITE \<longrightarrow> written pre = [0..<pg]) \<and>
    (code = REQ_CODE_READ \<longrightarrow> pg \<in> set (written pre)) \<and>
    (code = REQ_CODE_ERASE \<longrightarrow> written pre = [0..<k] \<and> waiting pre = 0)"
proof -
  obtain e1 e2 where run: "dep_run clean_entry pre e1" "row_dep_step code opt pg k e1 = Some (e2, True)"
    using dep_run_prefix [OF assms(1,3)] by auto
  have small: "small_run pre" using assms(2) small_run_prefix unfolding assms(3) by blast
  then have "0 \<le> waiting pre" "waiting pre < 65536" by (auto simp: small_run_def dest: spec [of _ "length pre"])
  then have "blockedReadReqCnt e1 = 0 \<Longrightarrow> waiting pre = 0"
    using dep_run_state [OF run(1) small] waiting_zero [of "waiting pre"] by simp
  then show ?thesis
    using run(2) dep_run_state [OF run(1) small]
    by (auto simp: row_dep_step_def split: row_dep_check_opt.splits if_splits)
qed

theorem row_dep_order_witness:
  "written [(Dep_Check REQ_CODE_WRITE ROW_ADDR_DEPENDENCY_CHECK_OPT_SELECT 0 0, True),
            (Dep_Check REQ_CODE_READ ROW_ADDR_DEPENDENCY_CHECK_OPT_SELECT 1 0, False)] = [0..<1]"
proof -
  let ?w = "\<lambda>pg. Dep_Check REQ_CODE_WRITE ROW_ADDR_DEPENDENCY_CHECK_OPT_SELECT pg 0"
  let ?r = "Dep_Check REQ_CODE_READ ROW_ADDR_DEPENDENCY_CHECK_OPT_SELECT 1 0"
  let ?e = "\<lambda>n k. \<lparr>permittedProgPage = n, blockedReadReqCnt = k, blockedEraseReqFlag = False\<rparr>"
  have "dep_run clean_entry [] (?e 0 0)" using dep_run.Start [of clean_entry] by (simp add: clean_entry_def)
  then have "dep_run clean_entry ([] @ [(?w 0, True)]) (?e 1 0)"
    by (rule dep_run.Event) (simp add: row_dep_step_def)
  then have "dep_run clean_entry (([] @ [(?w 0, True)]) @ [(?r, False)]) (?e 1 1)"
    by (rule dep_run.Event) (simp add: row_dep_step_def)
  then have run: "dep_run clean_entry ((([] @ [(?w 0, True)]) @ [(?r, False)]) @ [(?w 1, True)]) (?e 2 1)"
    by (rule dep_run.Event) (simp add: row_dep_step_def)
  have small: "small_run ((([] @ [(?w 0, True)]) @ [(?r, False)]) @ [(?w 1, True)])"
    by (auto simp: small_run_def waiting_def le_Suc_eq)
  show ?thesis using row_dep_order [OF run small, of "[(?w 0, True), (?r, False)]" REQ_CODE_WRITE _ 1 0 "[]"] by simp
qed

section \<open>Failing requests\<close>

text \<open>
  One attempt at the read at the head of a way's queue that ends in a failure: the read is triggered, then,
  where the trigger succeeds (\<open>triggered\<close>), transferred, and the last of these steps fails.
\<close>

definition failing_attempt :: "platform \<Rightarrow> nat \<Rightarrow> nat \<Rightarrow> bool \<Rightarrow> ssd \<Rightarrow> ssd option" where
  "failing_attempt p ch way triggered s =
     do {
       s \<leftarrow> ExecuteNandReq p ch way REQ_STATUS_RUNNING s;
       s \<leftarrow> (if triggered
            then do {
              s \<leftarrow> ExecuteNandReq p ch way REQ_STATUS_DONE s;
              ExecuteNandReq p ch way REQ_STATUS_RUNNING s
            }
            else Some s);
       ExecuteNandReq p ch way REQ_STATUS_FAIL s
     }"

abbreviation attempts :: "platform \<Rightarrow> nat \<Rightarrow> nat \<Rightarrow> bool list \<Rightarrow> ssd \<Rightarrow> ssd option" where
  "attempts p ch way \<equiv> ofold (failing_attempt p ch way)"

text \<open>The read at the head of the queue of an idle way, with the state that decides its fate.\<close>

definition read_waits :: "ssd \<Rightarrow> nat \<Rightarrow> nat \<Rightarrow> bool" where
  "read_waits s ch way \<longleftrightarrow>
     dieState (dieTable (wt s) ch way) = DIE_STATE_IDLE \<and>
     reqType (req s (nand_head s ch way)) = REQ_TYPE_NAND \<and>
     reqCode (req s (nand_head s ch way)) = REQ_CODE_READ"

lemma GenerateDataBufAddr_nand:
  assumes "reqType (req s t) = REQ_TYPE_NAND"
  shows "\<exists>a. GenerateDataBufAddr c s t = Some a" and "\<exists>a. GenerateSpareDataBufAddr c s t = Some a"
  using assms by (simp_all add: GenerateDataBufAddr_def GenerateSpareDataBufAddr_def Let_def)

lemma retryLimit_upd_way [simp]: "retryLimit (upd_way ch way f w) = retryLimit w"
  by (simp add: upd_way_def)

lemma issue_read:
  assumes "dieState (dieTable (wt s) ch way) = DIE_STATE_IDLE"
    and "reqType (req s (nand_head s ch way)) = REQ_TYPE_NAND"
    and "reqCode (req s (nand_head s ch way)) \<in> {REQ_CODE_READ, REQ_CODE_READ_TRANSFER}"
  obtains s' where "ExecuteNandReq p ch way st s = Some s'" and "rq s' = rq s" and "pb s' = pb s"
    and "retryLimit (wt s') = retryLimit (wt s)" and "dieState (dieTable (wt s') ch way) = DIE_STATE_EXE"
proof -
  obtain a b where "GenerateDataBufAddr p s (nand_head s ch way) = Some a"
    "GenerateSpareDataBufAddr p s (nand_head s ch way) = Some b"
    using GenerateDataBufAddr_nand [OF assms(2)] by blast
  then show thesis
    using assms that by (auto simp: ExecuteNandReq_def IssueNandReq_def Let_def set_die_state_def set_check_opt_def
        stamp_def)
qed

text \<open>What the attempts at a request do not change: the maps of the blocks, the head, and its fields.\<close>

definition fixed_part :: "nat \<Rightarrow> nat \<Rightarrow> ssd \<Rightarrow>
    phy_map \<times> nat \<times> req_type \<times> req_option \<times> nat \<times> nand_info \<times> nat" where
  "fixed_part ch way s =
     (let t = nand_head s ch way; r = req s t
      in (pb s, t, reqType r, reqOpt r, dataBufInfo r, nandInfo r, nextBlockingReq r))"

lemma fixed_part_row:
  "fixed_part ch way s' = fixed_part ch way s \<Longrightarrow>
   GenerateNandRowAddr c s' (nand_head s' ch way) = GenerateNandRowAddr c s (nand_head s ch way)"
  by (auto simp: fixed_part_def Let_def GenerateNandRowAddr_def
      cong: nand_addr.case_cong block_space.case_cong)

lemma fixed_part_rq: "rq s' = rq s \<Longrightarrow> pb s' = pb s \<Longrightarrow> fixed_part ch way s' = fixed_part ch way s"
  by (simp add: fixed_part_def)

lemma fixed_part_upd [simp]:
  "fixed_part ch way (set_req_code t code s) = fixed_part ch way s"
  "fixed_part ch way (set_die_state ch' way' d s) = fixed_part ch way s"
  "fixed_part ch way (s\<lparr>wt := w\<rparr>) = fixed_part ch way s"
  by (simp_all add: fixed_part_def set_req_code_def set_die_state_def upd_req_def Let_def)

lemma set_req_code_fields [simp]:
  "wt (set_req_code t code s) = wt s" "nandReqQ (rq (set_req_code t code s)) = nandReqQ (rq s)"
  "req (set_req_code t code s) t' = (if t' = t then (req s t)\<lparr>reqCode := code\<rparr> else req s t')"
  by (auto simp: set_req_code_def upd_req_def)

text \<open>An attempt up to its failing step.\<close>

lemma attempt_started:
  assumes "read_waits s ch way"
  obtains s' where "failing_attempt p ch way b s = ExecuteNandReq p ch way REQ_STATUS_FAIL s'"
    and "fixed_part ch way s' = fixed_part ch way s" and "retryLimit (wt s') = retryLimit (wt s)"
    and "dieState (dieTable (wt s') ch way) = DIE_STATE_EXE"
    and "reqCode (req s' (nand_head s' ch way)) \<in> {REQ_CODE_READ, REQ_CODE_READ_TRANSFER}"
proof -
  note w = assms [unfolded read_waits_def]
  obtain s1 where s1: "ExecuteNandReq p ch way REQ_STATUS_RUNNING s = Some s1" "rq s1 = rq s" "pb s1 = pb s"
    "retryLimit (wt s1) = retryLimit (wt s)" "dieState (dieTable (wt s1) ch way) = DIE_STATE_EXE"
    using w by (auto intro: issue_read [of s ch way p REQ_STATUS_RUNNING])
  let ?t = "nand_head s ch way"
  define s2 where "s2 = set_die_state ch way DIE_STATE_IDLE (set_req_code ?t REQ_CODE_READ_TRANSFER s1)"
  have s2: "ExecuteNandReq p ch way REQ_STATUS_DONE s1 = Some s2" "fixed_part ch way s2 = fixed_part ch way s1"
    "retryLimit (wt s2) = retryLimit (wt s1)" "dieState (dieTable (wt s2) ch way) = DIE_STATE_IDLE"
    "nand_head s2 ch way = ?t" "reqType (req s2 ?t) = REQ_TYPE_NAND" "reqCode (req s2 ?t) = REQ_CODE_READ_TRANSFER"
    using s1 w by (simp_all add: ExecuteNandReq_def s2_def set_die_state_def)
  obtain s3 where s3: "ExecuteNandReq p ch way REQ_STATUS_RUNNING s2 = Some s3" "rq s3 = rq s2" "pb s3 = pb s2"
    "retryLimit (wt s3) = retryLimit (wt s2)" "dieState (dieTable (wt s3) ch way) = DIE_STATE_EXE"
    using s2 by (auto intro: issue_read [of s2 ch way p REQ_STATUS_RUNNING])
  show thesis
  proof (cases b)
    case True
    then show thesis using that [of s3] s1 s2 s3 fixed_part_rq [OF s3(2,3)] fixed_part_rq [OF s1(2,3)]
      by (simp add: failing_attempt_def)
  next
    case False
    then show thesis using that [of s1] s1 w fixed_part_rq [OF s1(2,3)] by (simp add: failing_attempt_def)
  qed
qed

lemma attempt_retried:
  assumes "read_waits s ch way" and "0 < retryLimit (wt s) ch way"
  obtains s' where "failing_attempt p ch way b s = Some s'" and "read_waits s' ch way"
    and "fixed_part ch way s' = fixed_part ch way s" and "retryLimit (wt s') ch way = retryLimit (wt s) ch way - 1"
proof -
  obtain u where u: "failing_attempt p ch way b s = ExecuteNandReq p ch way REQ_STATUS_FAIL u"
    "fixed_part ch way u = fixed_part ch way s" "retryLimit (wt u) = retryLimit (wt s)"
    "dieState (dieTable (wt u) ch way) = DIE_STATE_EXE"
    "reqCode (req u (nand_head u ch way)) \<in> {REQ_CODE_READ, REQ_CODE_READ_TRANSFER}"
    using attempt_started [OF assms(1)] by blast
  have "reqType (req u (nand_head u ch way)) = REQ_TYPE_NAND"
    using u(2) assms(1) by (auto simp: fixed_part_def Let_def read_waits_def)
  then show thesis
    using u assms(2) that by (auto simp: ExecuteNandReq_def Let_def read_waits_def set_die_state_def set_retry_def)
qed

lemma attempts_retried:
  assumes "read_waits s ch way" and "int (length bs) \<le> retryLimit (wt s) ch way"
  obtains s' where "attempts p ch way bs s = Some s'" and "read_waits s' ch way"
    and "fixed_part ch way s' = fixed_part ch way s"
    and "retryLimit (wt s') ch way = retryLimit (wt s) ch way - int (length bs)"
  using assms
proof (induction bs arbitrary: s thesis)
  case (Cons b bs)
  obtain s1 where s1: "failing_attempt p ch way b s = Some s1" "read_waits s1 ch way"
    "fixed_part ch way s1 = fixed_part ch way s" "retryLimit (wt s1) ch way = retryLimit (wt s) ch way - 1"
    using attempt_retried [of s ch way p b] Cons.prems(2,3) by auto
  obtain s' where "attempts p ch way bs s1 = Some s'" "read_waits s' ch way"
    "fixed_part ch way s' = fixed_part ch way s1"
    "retryLimit (wt s') ch way = retryLimit (wt s1) ch way - int (length bs)"
    using Cons.IH [of s1] Cons.prems(3) s1 by auto
  then show ?case using Cons.prems(1) [of s'] s1 by simp
qed simp

text \<open>The end of a request: its slot is taken from the queue, and the die is idle with a full budget.\<close>

lemma finish_nand_req_facts:
  assumes "finish_nand_req p ch way s = Some s'"
  shows "pb s' = pb s" and "retryLimit (wt s') ch way = RETRY_LIMIT"
    and "dieState (dieTable (wt s') ch way) = DIE_STATE_IDLE"
proof -
  obtain u where u: "GetFromNandReqQ p ch way (s\<lparr>wt := set_retry ch way RETRY_LIMIT (wt s)\<rparr>) = Some u"
    "s' = set_die_state ch way DIE_STATE_IDLE u"
    using assms by (auto simp: finish_nand_req_def elim!: bind_SomeE)
  then show "pb s' = pb s" "retryLimit (wt s') ch way = RETRY_LIMIT"
    "dieState (dieTable (wt s') ch way) = DIE_STATE_IDLE"
    using pb_view.GetFromNandReqQ_view [OF u(1)] wt_view.GetFromNandReqQ_view [OF u(1)]
    by (simp_all add: set_die_state_def set_retry_def)
qed

lemma blocking_links_kept:
  "nextBlockingReq (reqPool (PutToFreeReqQ t q) t') = nextBlockingReq (reqPool q t')"
  "GetFromNandReqQ_q ch way q = Some (q', t) \<Longrightarrow> nextBlockingReq (reqPool q' t') = nextBlockingReq (reqPool q t')"
  by (auto simp: PutToFreeReqQ_def put_tail_def GetFromNandReqQ_q_def take_head_def upd_req_def upd_nand_q_def Let_def
      split: if_splits)

lemma finish_nand_req_returns:
  assumes "nand_head s ch way \<noteq> REQ_SLOT_TAG_NONE"
    and "nextBlockingReq (req s (nand_head s ch way)) = REQ_SLOT_TAG_NONE"
  shows "finish_nand_req p ch way s \<noteq> None"
proof -
  obtain q where q: "GetFromNandReqQ_q ch way (rq s) = Some (q, nand_head s ch way)"
    using assms(1) by (simp add: GetFromNandReqQ_q_def Let_def)
  then show ?thesis
    using assms(2) blocking_links_kept(2) [OF q]
    by (auto simp: finish_nand_req_def GetFromNandReqQ_def ReleaseBlockedByBufDepReq_def Let_def
        blocking_links_kept(1) stamp_def)
qed

text \<open>The failure that finds the budget used up.\<close>

lemma attempt_given_up:
  assumes "read_waits s ch way" and "retryLimit (wt s) ch way \<le> 0"
  obtains u where "failing_attempt p ch way b s = finish_nand_req p ch way u"
    and "pb u = UpdatePhyBlockMapForGrownBadBlock (Pcw2VdieTranslation p ch way)
                  (row_phy_block (GenerateNandRowAddr p s (nand_head s ch way))) (pb s)"
    and "nand_head u ch way = nand_head s ch way"
    and "nextBlockingReq (req u (nand_head s ch way)) = nextBlockingReq (req s (nand_head s ch way))"
proof -
  obtain u where u: "failing_attempt p ch way b s = ExecuteNandReq p ch way REQ_STATUS_FAIL u"
    "fixed_part ch way u = fixed_part ch way s" "retryLimit (wt u) = retryLimit (wt s)"
    "dieState (dieTable (wt u) ch way) = DIE_STATE_EXE"
    using attempt_started [OF assms(1)] by blast
  let ?t = "nand_head u ch way"
  define u' where "u' = (if \<not> nandEcc (ropt u ?t) \<and> dataBufFormat (ropt u ?t) = REQ_OPT_DATA_BUF_ADDR
      then u\<lparr>io := emit (Dram_Write (dataBufInfo (req u ?t)) (of_nat PSEUDO_BAD_BLOCK_MARK)) (io u)\<rparr> else u)"
  have "failing_attempt p ch way b s = finish_nand_req p ch way (mark_grown_bad p ch way ?t u')"
    using u assms(2) by (simp add: ExecuteNandReq_def Let_def u'_def)
  moreover have "rq u' = rq u" "pb u' = pb u" by (simp_all add: u'_def)
  moreover from this have "GenerateNandRowAddr p u' ?t = GenerateNandRowAddr p s (nand_head s ch way)"
    using fixed_part_row [OF u(2), of p] fixed_part_row [where c = p, OF fixed_part_rq [of u' u ch way]] by simp
  moreover have "pb u = pb s" "?t = nand_head s ch way"
    "nextBlockingReq (req u (nand_head s ch way)) = nextBlockingReq (req s (nand_head s ch way))"
    using u(2) by (auto simp: fixed_part_def Let_def)
  ultimately show thesis
    using that [of "mark_grown_bad p ch way ?t u'"] by (simp add: mark_grown_bad_def)
qed

text \<open>
  C10. A read that the flash fails is tried again as often as its budget says, and no more; then its block is
  given up. Whatever the mix of failing triggers and failing transfers, each of the first \<open>retryLimit\<close> failures
  leaves the request at the head of the queue of its way, to be triggered anew, with one try less and the maps of the
  blocks as they were. The next failure marks the physical block of the request's row as bad, and nothing
  else, asks for the table of bad blocks to be saved, and leaves the die idle with a full budget for the next
  request; it does return when no request waits for the buffer of the failing one.
\<close>

theorem read_retries_bounded:
  assumes "read_waits s ch way" and "int n = retryLimit (wt s) ch way" and "length bs = n"
  shows "(k \<le> n \<longrightarrow>
      (\<exists>s'. attempts p ch way (take k bs) s = Some s' \<and> read_waits s' ch way \<and>
        fixed_part ch way s' = fixed_part ch way s \<and> retryLimit (wt s') ch way = int n - int k)) \<and>
    (attempts p ch way (bs @ [b]) s = Some s' \<longrightarrow>
      pb s' = UpdatePhyBlockMapForGrownBadBlock (Pcw2VdieTranslation p ch way)
                (row_phy_block (GenerateNandRowAddr p s (nand_head s ch way))) (pb s) \<and>
      retryLimit (wt s') ch way = RETRY_LIMIT \<and> dieState (dieTable (wt s') ch way) = DIE_STATE_IDLE) \<and>
    (nand_head s ch way \<noteq> REQ_SLOT_TAG_NONE \<and>
     nextBlockingReq (req s (nand_head s ch way)) = REQ_SLOT_TAG_NONE \<longrightarrow>
      attempts p ch way (bs @ [b]) s \<noteq> None)"
proof -
  let ?t = "nand_head s ch way"
  have retried: "\<exists>s'. attempts p ch way (take k bs) s = Some s' \<and> read_waits s' ch way \<and>
        fixed_part ch way s' = fixed_part ch way s \<and> retryLimit (wt s') ch way = int n - int k" if "k \<le> n"
  proof -
    have len: "length (take k bs) = k" using that assms(3) by simp
    then have "int (length (take k bs)) \<le> retryLimit (wt s) ch way" using that assms(2) by simp
    from attempts_retried [OF assms(1) this, of p] show ?thesis unfolding len assms(2) by blast
  qed
  obtain u where u: "attempts p ch way bs s = Some u" "read_waits u ch way"
    "fixed_part ch way u = fixed_part ch way s" "retryLimit (wt u) ch way \<le> 0"
  proof -
    have "int (length bs) \<le> retryLimit (wt s) ch way" using assms(2,3) by simp
    moreover have "retryLimit (wt s) ch way - int (length bs) \<le> 0" using assms(2,3) by simp
    ultimately show thesis using attempts_retried [OF assms(1), of bs p] that by metis
  qed
  obtain w where w: "failing_attempt p ch way b u = finish_nand_req p ch way w"
    "pb w = UpdatePhyBlockMapForGrownBadBlock (Pcw2VdieTranslation p ch way)
              (row_phy_block (GenerateNandRowAddr p u (nand_head u ch way))) (pb u)"
    "nand_head w ch way = nand_head u ch way"
    "nextBlockingReq (req w (nand_head u ch way)) = nextBlockingReq (req u (nand_head u ch way))"
    using attempt_given_up [OF u(2,4)] by blast
  have last: "attempts p ch way (bs @ [b]) s = finish_nand_req p ch way w"
    using u(1) w(1) by (cases "finish_nand_req p ch way w") (simp_all add: ofold_append)
  have same: "pb u = pb s" "nand_head u ch way = ?t" "nextBlockingReq (req u ?t) = nextBlockingReq (req s ?t)"
    "GenerateNandRowAddr p u ?t = GenerateNandRowAddr p s ?t"
    using u(3) fixed_part_row [OF u(3), of p] by (auto simp: fixed_part_def Let_def)
  show ?thesis
    using retried finish_nand_req_facts [of p ch way w] finish_nand_req_returns [of w ch way p] w(2-4) same
    unfolding last by auto
qed

text \<open>A way of the small device with one read in its queue.\<close>

definition one_read :: ssd where
  "one_read = blank_ssd\<lparr>rq := no_requests\<lparr>
     reqPool := (\<lambda>t. no_request\<lparr>reqType := REQ_TYPE_NAND, reqQueueType := REQ_QUEUE_TYPE_NAND\<rparr>),
     nandReqQ := (\<lambda>ch way. \<lparr>headReq = 7, tailReq = 7, reqCnt = 1\<rparr>)\<rparr>\<rparr>"

theorem read_retries_bounded_witness:
  "attempts (small_platform (\<lambda>k. quiet)) 0 0 ([True, False, True, True, False] @ [True]) one_read \<noteq> None"
proof -
  have "read_waits one_read 0 0" "int 5 = retryLimit (wt one_read) 0 0" "nand_head one_read 0 0 = 7"
    "nextBlockingReq (req one_read 7) = REQ_SLOT_TAG_NONE" "(7 :: nat) \<noteq> REQ_SLOT_TAG_NONE"
    by (simp_all add: one_read_def read_waits_def blank_ssd_def no_requests_def no_request_def RETRY_LIMIT_def
        REQ_SLOT_TAG_NONE_def DATA_BUF_NONE_def)
  then show ?thesis
    using read_retries_bounded [of one_read 0 0 5 "[True, False, True, True, False]"] by (simp del: ofold.simps)
qed

section \<open>Buffer addresses\<close>

text \<open>
  The buffer that a request names: an entry of the data buffer, of the custom command buffer or of the
  temporary buffer, and the bytes of the DRAM that its transfer touches (data and spare).
\<close>

definition names_entry :: "'a ftl_config_scheme \<Rightarrow> ssd \<Rightarrow> nat \<Rightarrow> bool" where
  "names_entry c s t \<longleftrightarrow>
     reqType (req s t) = REQ_TYPE_NAND \<and>
     (dataBufFormat (ropt s t) = REQ_OPT_DATA_BUF_ENTRY \<and>
        dataBufInfo (req s t) < (if ccmdDataBuf (ropt s t) then AVAILABLE_CCMD_DATA_BUFFER_ENTRY_COUNT c
                                 else AVAILABLE_DATA_BUFFER_ENTRY_COUNT c) \<or>
      dataBufFormat (ropt s t) = REQ_OPT_DATA_BUF_TEMP_ENTRY \<and>
        dataBufInfo (req s t) < AVAILABLE_TEMPORARY_DATA_BUFFER_ENTRY_COUNT c)"

definition named_buffer :: "ssd \<Rightarrow> nat \<Rightarrow> data_buf_format \<times> bool \<times> nat" where
  "named_buffer s t =
     (dataBufFormat (ropt s t),
      dataBufFormat (ropt s t) = REQ_OPT_DATA_BUF_ENTRY \<and> ccmdDataBuf (ropt s t), dataBufInfo (req s t))"

definition spans :: "'a ftl_config_scheme \<Rightarrow> ssd \<Rightarrow> nat \<Rightarrow> (nat \<times> nat) set" where
  "spans c s t =
     (case (GenerateDataBufAddr c s t, GenerateSpareDataBufAddr c s t) of
        (Some a, Some b) \<Rightarrow> {(a, a + BYTES_PER_DATA_REGION_OF_SLICE), (b, b + BYTES_PER_SPARE_REGION_OF_SLICE)}
      | _ \<Rightarrow> {})"

definition apart :: "nat \<times> nat \<Rightarrow> nat \<times> nat \<Rightarrow> bool" where
  "apart r r' \<longleftrightarrow> snd r \<le> fst r' \<or> snd r' \<le> fst r"

lemma spans_cases:
  assumes "names_entry c s t"
  obtains (normal) e where "e < AVAILABLE_DATA_BUFFER_ENTRY_COUNT c"
      "named_buffer s t = (REQ_OPT_DATA_BUF_ENTRY, False, e)"
      "spans c s t = {(DATA_BUFFER_BASE_ADDR + e * 16384, DATA_BUFFER_BASE_ADDR + e * 16384 + 16384),
        (SPARE_DATA_BUFFER_BASE_ADDR c + e * 256, SPARE_DATA_BUFFER_BASE_ADDR c + e * 256 + 256)}"
  | (custom) e where "e < AVAILABLE_CCMD_DATA_BUFFER_ENTRY_COUNT c"
      "named_buffer s t = (REQ_OPT_DATA_BUF_ENTRY, True, e)"
      "spans c s t = {(CCMD_DATA_BUFFER_BASE_ADDR c + e * 16384, CCMD_DATA_BUFFER_BASE_ADDR c + e * 16384 + 16384),
        (CCMD_SPARE_DATA_BUFFER_BASE_ADDR c + e * 256, CCMD_SPARE_DATA_BUFFER_BASE_ADDR c + e * 256 + 256)}"
  | (temporary) e where "e < AVAILABLE_TEMPORARY_DATA_BUFFER_ENTRY_COUNT c"
      "named_buffer s t = (REQ_OPT_DATA_BUF_TEMP_ENTRY, False, e)"
      "spans c s t =
        {(TEMPORARY_DATA_BUFFER_BASE_ADDR c + e * 16384, TEMPORARY_DATA_BUFFER_BASE_ADDR c + e * 16384 + 16384),
         (TEMPORARY_SPARE_DATA_BUFFER_BASE_ADDR c + e * 256, TEMPORARY_SPARE_DATA_BUFFER_BASE_ADDR c + e * 256 + 256)}"
  using assms that
  by (auto simp: names_entry_def named_buffer_def spans_def GenerateDataBufAddr_def GenerateSpareDataBufAddr_def Let_def
      BYTES_PER_DATA_REGION_OF_SLICE_def BYTES_PER_SPARE_REGION_OF_SLICE_def split: if_splits)

text \<open>
  C19. Transfers stay inside their buffers. On a configuration that passed the check at start-up, the data
  and spare bytes of a flash request on a buffer entry lie in the DRAM between the base of the buffers and the tables
  of the controllers, so no address of them wraps in 32 bits; the data bytes and the spare bytes are apart; and requests on
  different entries, of the same or of different buffers, touch no common byte.
\<close>

theorem GenerateDataBufAddr_bounds:
  assumes "CheckConfigRestriction connected c = Some ()" and "names_entry c s t" and "names_entry c s t'"
  shows "(\<forall>r \<in> spans c s t. DATA_BUFFER_BASE_ADDR \<le> fst r \<and> snd r \<le> COMPLETE_FLAG_TABLE_ADDR \<and> snd r < 2 ^ 32) \<and>
    card (spans c s t) = 2 \<and>
    (\<forall>r \<in> spans c s t. \<forall>r' \<in> spans c s t. r \<noteq> r' \<longrightarrow> apart r r') \<and>
    (named_buffer s t \<noteq> named_buffer s t' \<longrightarrow> (\<forall>r \<in> spans c s t. \<forall>r' \<in> spans c s t'. apart r r'))"
proof -
  have "RESERVED_DATA_BUFFER_BASE_ADDR c \<le> COMPLETE_FLAG_TABLE_ADDR"
    using assms(1) by (auto simp: CheckConfigRestriction_def split: if_splits)
  then have top: "0x10000000 + (AVAILABLE_DATA_BUFFER_ENTRY_COUNT c + AVAILABLE_TEMPORARY_DATA_BUFFER_ENTRY_COUNT c +
      AVAILABLE_CCMD_DATA_BUFFER_ENTRY_COUNT c) * 16640 \<le> 0x17000000"
    by (simp add: buffer_addrs COMPLETE_FLAG_TABLE_ADDR_def BYTES_PER_DATA_REGION_OF_SLICE_def
        BYTES_PER_SPARE_REGION_OF_SLICE_def)
  note defs = buffer_addrs COMPLETE_FLAG_TABLE_ADDR_def BYTES_PER_DATA_REGION_OF_SLICE_def
    BYTES_PER_SPARE_REGION_OF_SLICE_def apart_def
  have other: "\<forall>r \<in> spans c s t. \<forall>r' \<in> spans c s t'. apart r r'" if "named_buffer s t \<noteq> named_buffer s t'"
    using assms(2)
  proof (cases rule: spans_cases)
    case (normal e)
    note n = this
    from assms(3) show ?thesis
      by (cases rule: spans_cases) (use n that in \<open>auto simp: defs\<close>)
  next
    case (custom e)
    note n = this
    from assms(3) show ?thesis
      by (cases rule: spans_cases) (use n that in \<open>auto simp: defs\<close>)
  next
    case (temporary e)
    note n = this
    from assms(3) show ?thesis
      by (cases rule: spans_cases) (use n that in \<open>auto simp: defs\<close>)
  qed
  from assms(2) have "(\<forall>r \<in> spans c s t. DATA_BUFFER_BASE_ADDR \<le> fst r \<and> snd r \<le> COMPLETE_FLAG_TABLE_ADDR) \<and>
    card (spans c s t) = 2 \<and> (\<forall>r \<in> spans c s t. \<forall>r' \<in> spans c s t. r \<noteq> r' \<longrightarrow> apart r r')"
    by (cases rule: spans_cases) (use top in \<open>auto simp: defs\<close>)
  then show ?thesis using other by (fastforce simp: COMPLETE_FLAG_TABLE_ADDR_def)
qed

definition entry_requests :: ssd where
  "entry_requests = blank_ssd\<lparr>rq := no_requests\<lparr>reqPool := (\<lambda>t. no_request\<lparr>reqType := REQ_TYPE_NAND,
     reqOpt := (reqOpt no_request)\<lparr>dataBufFormat := REQ_OPT_DATA_BUF_ENTRY\<rparr>, dataBufInfo := t\<rparr>)\<rparr>\<rparr>"

theorem GenerateDataBufAddr_bounds_witness:
  "card (spans (cosmos_config 8) entry_requests 3) = 2 \<and>
   (\<exists>r \<in> spans (cosmos_config 8) entry_requests 3. \<exists>r' \<in> spans (cosmos_config 8) entry_requests 4. apart r r')"
proof -
  have ok: "CheckConfigRestriction 8 (cosmos_config 8) = Some ()"
    by (simp add: CheckConfigRestriction_def layout cosmos_sizes)
  have n: "names_entry (cosmos_config 8) entry_requests 3" "names_entry (cosmos_config 8) entry_requests 4"
    "named_buffer entry_requests 3 \<noteq> named_buffer entry_requests 4"
    by (simp_all add: names_entry_def named_buffer_def entry_requests_def no_request_def cosmos_sizes)
  note three = GenerateDataBufAddr_bounds [OF ok n(1) n(2)]
    and four = GenerateDataBufAddr_bounds [OF ok n(2) n(1)]
  from three four obtain r r' where r: "r \<in> spans (cosmos_config 8) entry_requests 3"
    "r' \<in> spans (cosmos_config 8) entry_requests 4" by (metis card.empty equals0I zero_neq_numeral)
  with three n(3) have "apart r r'" by blast
  with three r show ?thesis by blast
qed

end
