(* ===== verification/Ftl_Ops.thy ===== *)
theory Ftl_Ops
  imports Example_Device
begin

text \<open>
  Slice writes and garbage collection with the flash requests they issue: the complete functions of
  \<^verbatim>\<open>address_translation.c\<close> and \<^verbatim>\<open>garbage_collection.c\<close> whose effect on the tables is studied in
  \<open>Slice_Allocation\<close>. While these functions wait for a free request slot or for a blocked erase,
  requests are carried out, but the tables are not touched; the last part proves that the complete
  functions change the tables exactly as the table functions do.
\<close>

section \<open>Requests\<close>

text \<open>The options that the request builders set, and a request taken from the pool and filled in.\<close>

definition nand_options ::
  "data_buf_format \<Rightarrow> nand_addr \<Rightarrow> bool \<Rightarrow> block_space \<Rightarrow> req_option \<Rightarrow> req_option" where
  "nand_options fmt addr dep space ro =
     ro\<lparr>dataBufFormat := fmt, nandAddr := addr, rowAddrDependencyCheck := dep, blockSpace := space,
        forceUnitAccess := False, customCmd := False, ccmdDataBuf := False\<rparr>"

definition ecc_options :: "bool \<Rightarrow> bool \<Rightarrow> req_option \<Rightarrow> req_option" where
  "ecc_options ecc warning ro = ro\<lparr>nandEcc := ecc, nandEccWarning := warning\<rparr>"

definition set_vsa :: "nat \<Rightarrow> ssd_req \<Rightarrow> ssd_req" where
  "set_vsa vsa r = r\<lparr>nandInfo := (nandInfo r)\<lparr>virtualSliceAddr := vsa\<rparr>\<rparr>"

definition fill_req :: "nat \<Rightarrow> (ssd_req \<Rightarrow> ssd_req) \<Rightarrow> ssd \<Rightarrow> ssd" where
  "fill_req t f s = on_rq (upd_req t f) s"

definition erase_request :: "nat \<Rightarrow> nat \<Rightarrow> ssd_req \<Rightarrow> ssd_req" where
  "erase_request vsa programmed r =
     r\<lparr>reqType := REQ_TYPE_NAND, reqCode := REQ_CODE_ERASE,
       reqOpt := nand_options REQ_OPT_DATA_BUF_NONE REQ_OPT_NAND_ADDR_VSA True
                   REQ_OPT_BLOCK_SPACE_MAIN (reqOpt r),
       nandInfo := (nandInfo r)\<lparr>virtualSliceAddr := vsa, programmedPageCnt := programmed\<rparr>\<rparr>"

definition EraseBlock :: "platform \<Rightarrow> nat \<Rightarrow> nat \<Rightarrow> ssd \<Rightarrow> ssd option" where
  "EraseBlock p d b s =
     do {
       (s, t) \<leftarrow> GetFromFreeReqQ p s;
       let s = fill_req t (erase_request (Vorg2VsaTranslation p d b 0)
                             (currentPage (block (am s) d b))) s;
       s \<leftarrow> SelectLowLevelReqQ p t s;
       Some (s\<lparr>am := EraseBlock_map p d b (am s)\<rparr>)
     }"

section \<open>Garbage collection\<close>

definition gc_request :: "req_code \<Rightarrow> nat \<Rightarrow> nat \<Rightarrow> ssd_req \<Rightarrow> ssd_req" where
  "gc_request code lsa d r =
     r\<lparr>reqType := REQ_TYPE_NAND, reqCode := code, logicalSliceAddr := lsa,
       reqOpt := ecc_options True False (nand_options REQ_OPT_DATA_BUF_TEMP_ENTRY
                   REQ_OPT_NAND_ADDR_VSA True REQ_OPT_BLOCK_SPACE_MAIN (reqOpt r)),
       dataBufInfo := AllocateTempDataBuf d\<rparr>"

text \<open>A valid page of the victim: read into the temporary buffer of the die, write to a new page.\<close>

definition gc_copy :: "platform \<Rightarrow> nat \<Rightarrow> nat \<Rightarrow> nat \<Rightarrow> ssd \<Rightarrow> ssd option" where
  "gc_copy p d victim pageNo s =
     (let vsa = Vorg2VsaTranslation p d victim pageNo; lsa = virtualSlice (am s) vsa in
      if page_valid (am s) vsa then
        do {
          (s, t) \<leftarrow> GetFromFreeReqQ p s;
          let s = fill_req t (gc_request REQ_CODE_READ lsa d) s;
          let s = UpdateTempDataBufEntryInfoBlockingReq (AllocateTempDataBuf d) t s;
          let s = fill_req t (set_vsa vsa) s;
          s \<leftarrow> SelectLowLevelReqQ p t s;
          (s, t) \<leftarrow> GetFromFreeReqQ p s;
          let s = fill_req t (gc_request REQ_CODE_WRITE lsa d) s;
          let s = UpdateTempDataBufEntryInfoBlockingReq (AllocateTempDataBuf d) t s;
          (m, vsa') \<leftarrow> FindFreeVirtualSliceForGc p d victim (am s);
          let s = fill_req t (set_vsa vsa') (s\<lparr>am := remap_slice lsa vsa' m\<rparr>);
          SelectLowLevelReqQ p t s
        }
      else Some s)"

definition GarbageCollection :: "platform \<Rightarrow> nat \<Rightarrow> ssd \<Rightarrow> ssd option" where
  "GarbageCollection p d s =
     do {
       (m, victim) \<leftarrow> GetFromGcVictimList p d (am s);
       let s = s\<lparr>am := m\<rparr>;
       s \<leftarrow> (if invalidSliceCnt (block (am s) d victim) \<noteq> SLICES_PER_BLOCK p
            then ofold (gc_copy p d victim) [0..<USER_PAGES_PER_BLOCK p] s
            else Some s);
       EraseBlock p d victim s
     }"

section \<open>Slice writes\<close>

definition ready_block :: "platform \<Rightarrow> nat \<Rightarrow> ssd \<Rightarrow> ssd option" where
  "ready_block p d s =
     (let b = currentBlock (die (am s) d) in
      if currentPage (block (am s) d b) = USER_PAGES_PER_BLOCK p then
        (let (m1, b1) = GetFromFbList d GET_FREE_BLOCK_NORMAL (am s) in
         if b1 \<noteq> BLOCK_FAIL then Some (s\<lparr>am := upd_die d (\<lambda>r. r\<lparr>currentBlock := b1\<rparr>) m1\<rparr>)
         else
           do {
             s \<leftarrow> GarbageCollection p d (s\<lparr>am := m1\<rparr>);
             let b = currentBlock (die (am s) d);
             if currentPage (block (am s) d b) = USER_PAGES_PER_BLOCK p then
               (let (m2, b2) = GetFromFbList d GET_FREE_BLOCK_NORMAL (am s) in
                if b2 \<noteq> BLOCK_FAIL
                then Some (s\<lparr>am := upd_die d (\<lambda>r. r\<lparr>currentBlock := b2\<rparr>) m2\<rparr>) else None)
             else if currentPage (block (am s) d b) > USER_PAGES_PER_BLOCK p then None
             else Some s
           })
      else if currentPage (block (am s) d b) > USER_PAGES_PER_BLOCK p then None
      else Some s)"

definition FindFreeVirtualSlice :: "platform \<Rightarrow> ssd \<Rightarrow> (ssd \<times> nat) option" where
  "FindFreeVirtualSlice p s =
     do {
       let d = sliceAllocationTargetDie (am s);
       s \<leftarrow> ready_block p d s;
       let (m, vsa) = take_page p d (currentBlock (die (am s) d)) (am s);
       let (m, next) = FindDieForFreeSliceAllocation p m;
       Some (s\<lparr>am := m\<lparr>sliceAllocationTargetDie := next\<rparr>\<rparr>, vsa)
     }"

definition AddrTransWrite :: "platform \<Rightarrow> nat \<Rightarrow> ssd \<Rightarrow> (ssd \<times> nat) option" where
  "AddrTransWrite p lsa s =
     (if lsa < SLICES_PER_SSD p then
        do {
          (s, vsa) \<leftarrow> FindFreeVirtualSlice p (s\<lparr>am := InvalidateOldVsa p lsa (am s)\<rparr>);
          Some (s\<lparr>am := remap_slice lsa vsa (am s)\<rparr>, vsa)
        }
      else None)"

section \<open>The tables\<close>

lemma fill_req_am [simp]: "am (fill_req t f s) = am s"
  by (simp add: fill_req_def)

lemma EraseBlock_am: "EraseBlock p d b s = Some s' \<Longrightarrow> am s' = EraseBlock_map p d b (am s)"
  by (auto simp: EraseBlock_def Let_def elim!: bind_SomeE dest!: am_view.low_level_views)

lemma gc_copy_am: "gc_copy p d b pg s = Some s' \<Longrightarrow> gc_copy_map p d b pg (am s) = Some (am s')"
  by (auto simp: gc_copy_def gc_copy_map_def Let_def elim!: bind_SomeE split: if_splits
      dest!: am_view.low_level_views)

lemma gc_loop_am:
  "ofold (gc_copy p d b) xs s = Some s' \<Longrightarrow> ofold (gc_copy_map p d b) xs (am s) = Some (am s')"
proof (induction xs arbitrary: s)
  case (Cons x xs)
  from Cons.prems obtain s1 where "gc_copy p d b x s = Some s1" "ofold (gc_copy p d b) xs s1 = Some s'"
    by (auto elim: bind_SomeE)
  then show ?case using gc_copy_am Cons.IH by fastforce
qed simp

lemma GarbageCollection_am:
  "GarbageCollection p d s = Some s' \<Longrightarrow> GarbageCollection_map p d (am s) = Some (am s')"
  by (auto simp: GarbageCollection_def GarbageCollection_map_def Let_def elim!: bind_SomeE
      split: if_splits dest!: EraseBlock_am gc_loop_am)

lemma ready_block_am: "ready_block p d s = Some s' \<Longrightarrow> ready_block_map p d (am s) = Some (am s')"
  by (auto simp: ready_block_def ready_block_map_def Let_def elim!: bind_SomeE
      split: if_splits prod.splits dest!: GarbageCollection_am)

lemma FindFreeVirtualSlice_am:
  "FindFreeVirtualSlice p s = Some (s', v) \<Longrightarrow> FindFreeVirtualSlice_map p (am s) = Some (am s', v)"
  by (auto simp: FindFreeVirtualSlice_def FindFreeVirtualSlice_map_def Let_def elim!: bind_SomeE
      split: prod.splits dest!: ready_block_am)

lemma AddrTransWrite_am:
  "AddrTransWrite p l s = Some (s', v) \<Longrightarrow> AddrTransWrite_map p l (am s) = Some (am s', v)"
  by (auto simp: AddrTransWrite_def AddrTransWrite_map_def elim!: bind_SomeE split: if_splits
      dest!: FindFreeVirtualSlice_am)

text \<open>The die is collected: its current block is full and it has no block to spare.\<close>

definition collects :: "platform \<Rightarrow> nat \<Rightarrow> addr_map \<Rightarrow> bool" where
  "collects p d m \<longleftrightarrow>
     currentPage (block m d (currentBlock (die m d))) = USER_PAGES_PER_BLOCK p \<and>
     snd (GetFromFbList d GET_FREE_BLOCK_NORMAL m) = BLOCK_FAIL"

text \<open>Without a collection nothing but the tables is used.\<close>

lemma ready_block_no_gc:
  assumes "\<not> collects p d (am s)"
  shows "ready_block p d s = map_option (\<lambda>m. s\<lparr>am := m\<rparr>) (ready_block_map p d (am s))"
  using assms
  by (auto simp: ready_block_def ready_block_map_def collects_def Let_def
      split: prod.splits)

text \<open>
  C31. A complete slice write, with the flash requests of a garbage collection and all the waiting in
  between, changes the address tables exactly as the table function: whenever it returns, the table
  function gives the same new page and the same tables. If the target die need not be collected,
  it always returns when the table function does, and changes nothing but the tables.
\<close>

theorem AddrTransWrite_refines:
  "(\<forall>s' v. AddrTransWrite p l s = Some (s', v) \<longrightarrow> AddrTransWrite_map p l (am s) = Some (am s', v)) \<and>
   (\<not> collects p (sliceAllocationTargetDie (am s)) (InvalidateOldVsa p l (am s)) \<longrightarrow>
    AddrTransWrite p l s = map_option (\<lambda>(m, v). (s\<lparr>am := m\<rparr>, v)) (AddrTransWrite_map p l (am s)))"
proof -
  have "AddrTransWrite p l s = map_option (\<lambda>(m, v). (s\<lparr>am := m\<rparr>, v)) (AddrTransWrite_map p l (am s))"
    if ng: "\<not> collects p (sliceAllocationTargetDie (am s)) (InvalidateOldVsa p l (am s))"
  proof -
    let ?s = "s\<lparr>am := InvalidateOldVsa p l (am s)\<rparr>"
    have "sliceAllocationTargetDie (InvalidateOldVsa p l (am s)) = sliceAllocationTargetDie (am s)"
      by (simp add: InvalidateOldVsa_def Let_def)
    then have "ready_block p (sliceAllocationTargetDie (am ?s)) ?s =
        map_option (\<lambda>m. ?s\<lparr>am := m\<rparr>) (ready_block_map p (sliceAllocationTargetDie (am ?s)) (am ?s))"
      using ng by (intro ready_block_no_gc) simp
    then show ?thesis
      by (cases "ready_block_map p (sliceAllocationTargetDie (am ?s)) (am ?s)")
        (auto simp: AddrTransWrite_def AddrTransWrite_map_def FindFreeVirtualSlice_def
          FindFreeVirtualSlice_map_def Let_def split: prod.splits)
  qed
  then show ?thesis by (auto dest: AddrTransWrite_am)
qed

theorem AddrTransWrite_refines_witness:
  "\<exists>s' v. AddrTransWrite (small_platform (\<lambda>k. quiet)) 5 blank_ssd = Some (s', v) \<and>
     AddrTransWrite_map (small_platform (\<lambda>k. quiet)) 5 (am blank_ssd) = Some (am s', v) \<and> io s' = quiet_io"
proof -
  let ?p = "small_platform (\<lambda>k. quiet)"
  have "5 < SLICES_PER_SSD ?p" "USER_PAGES_PER_BLOCK ?p = 128"
    by (simp_all add: small_platform_def SLICES_PER_SSD_product USER_DIES_def USER_BLOCKS_PER_DIE_def
        USER_PAGES_PER_BLOCK_def nand_consts)
  note sizes = this
  have inv: "InvalidateOldVsa ?p 5 (am blank_ssd) = am blank_ssd"
    by (simp add: InvalidateOldVsa_def blank_ssd_def blank_addr_map_def VSA_NONE_def)
  have page: "currentPage (block (am blank_ssd) d b) = 0" for d b
    by (simp add: blank_ssd_def blank_addr_map_def)
  have "\<not> collects ?p (sliceAllocationTargetDie (am blank_ssd)) (InvalidateOldVsa ?p 5 (am blank_ssd))"
    using sizes(2) by (simp add: inv collects_def page)
  note no_gc = this
  have "AddrTransWrite_map ?p 5 (am blank_ssd) \<noteq> None"
    using sizes by (simp add: AddrTransWrite_map_def FindFreeVirtualSlice_map_def ready_block_map_def
        Let_def inv page split: prod.splits)
  then obtain m v where m: "AddrTransWrite_map ?p 5 (am blank_ssd) = Some (m, v)" by auto
  have "AddrTransWrite ?p 5 blank_ssd = Some (blank_ssd\<lparr>am := m\<rparr>, v)"
    using AddrTransWrite_refines [THEN conjunct2, THEN mp, OF no_gc] by (simp add: m)
  moreover have "io (blank_ssd\<lparr>am := m\<rparr>) = quiet_io" by (simp add: blank_ssd_def)
  moreover have "am (blank_ssd\<lparr>am := m\<rparr>) = m" by simp
  ultimately show ?thesis using m by metis
qed

end
