(* ===== verification/Request_Transform.thy ===== *)
theory Request_Transform
  imports Ftl_Ops
begin

text \<open>
  The transformation of host commands into requests, \<^verbatim>\<open>request_transform.c\<close>: a command is cut into
  requests on slices, and a slice request finds or takes a buffer entry, evicts what the entry
  held, reads the slice from flash if needed and becomes a transfer between the host and the entry.
\<close>

section \<open>Host commands to slice requests\<close>

definition IO_NVM_FLUSH :: nat where "IO_NVM_FLUSH = 0x00"
definition IO_NVM_WRITE :: nat where "IO_NVM_WRITE = 0x01"
definition IO_NVM_READ :: nat where "IO_NVM_READ = 0x02"

text \<open>A part of a command: slice, index of its first block in the command, first block in the slice, blocks.\<close>

type_synonym slice_part = "nat \<times> nat \<times> nat \<times> nat"

text \<open>The whole slices of the middle, with the counters of the loop.\<close>

fun whole_slices :: "nat \<Rightarrow> nat \<Rightarrow> nat \<Rightarrow> slice_part list" where
  "whole_slices 0 tempLsa nvmeDmaStartIndex = []"
| "whole_slices (Suc n) tempLsa nvmeDmaStartIndex =
     (tempLsa, nvmeDmaStartIndex, 0, NVME_BLOCKS_PER_SLICE) #
     whole_slices n (tempLsa + 1) (nvmeDmaStartIndex + NVME_BLOCKS_PER_SLICE)"

definition nvme_slices :: "nat \<Rightarrow> nat \<Rightarrow> slice_part list" where
  "nvme_slices startLba nlb =
     (let requestedNvmeBlock = u32 (nlb + 1);
          tempLsa = startLba div NVME_BLOCKS_PER_SLICE;
          nvmeBlockOffset = startLba mod NVME_BLOCKS_PER_SLICE;
          loop = (nvmeBlockOffset + requestedNvmeBlock) div NVME_BLOCKS_PER_SLICE;
          first = (if loop \<noteq> 0 then NVME_BLOCKS_PER_SLICE - nvmeBlockOffset else requestedNvmeBlock);
          last = u32 (startLba + requestedNvmeBlock) mod NVME_BLOCKS_PER_SLICE
      in [(tempLsa, 0, nvmeBlockOffset, first)] @ whole_slices (loop - 1) (tempLsa + 1) first @
         (if last = 0 \<or> loop = 0 then []
          else [(tempLsa + loop, first + (loop - 1) * NVME_BLOCKS_PER_SLICE, 0, last)]))"

definition slice_request ::
  "req_code \<Rightarrow> nat \<Rightarrow> bool \<Rightarrow> bool \<Rightarrow> slice_part \<Rightarrow> ssd_req \<Rightarrow> ssd_req" where
  "slice_request code slot fua custom = (\<lambda>(lsa, idx, offs, n) r.
     r\<lparr>reqType := REQ_TYPE_SLICE, reqCode := code, nvmeCmdSlotTag := u16 slot, logicalSliceAddr := lsa,
       nvmeDmaInfo := (nvmeDmaInfo r)\<lparr>startIndex := u16 idx, nvmeBlockOffset := offs,
         numOfNvmeBlock := u16 n, issuedFlag := False\<rparr>,
       reqOpt := (reqOpt r)\<lparr>forceUnitAccess := fua, customCmd := custom, ccmdDataBuf := False\<rparr>\<rparr>)"

definition put_slice :: "platform \<Rightarrow> (slice_part \<Rightarrow> ssd_req \<Rightarrow> ssd_req) \<Rightarrow> slice_part \<Rightarrow> ssd \<Rightarrow> ssd option" where
  "put_slice p f part s =
     do {
       (s, t) \<leftarrow> GetFromFreeReqQ p s;
       Some (PutToSliceReqQ t (fill_req t (f part) s))
     }"

definition ReqTransNvmeToSlice ::
  "platform \<Rightarrow> nat \<Rightarrow> nat \<Rightarrow> nat \<Rightarrow> nat \<Rightarrow> bool \<Rightarrow> bool \<Rightarrow> ssd \<Rightarrow> ssd option" where
  "ReqTransNvmeToSlice p slot startLba nlb cmdCode fua custom s =
     do {
       code \<leftarrow> (if cmdCode = IO_NVM_WRITE then Some REQ_CODE_WRITE
               else if cmdCode = IO_NVM_READ then Some REQ_CODE_READ else None);
       tim \<leftarrow> AllocateHostReqTime (obs_xtime (now p (io s))) slot code (tm s);
       let s = s\<lparr>tm := tim, io := tick (io s)\<rparr>;
       ofold (put_slice p (slice_request code slot fua custom)) (nvme_slices startLba nlb) s
     }"

section \<open>Eviction and flash reads\<close>

text \<open>The flash request for a buffer entry, on behalf of the request \<open>r0\<close>.\<close>

definition buffer_request ::
  "req_code \<Rightarrow> ssd_req \<Rightarrow> nat \<Rightarrow> bool \<Rightarrow> ssd_req \<Rightarrow> ssd_req" where
  "buffer_request code r0 lsa fua r =
     r\<lparr>reqType := REQ_TYPE_NAND, reqCode := code, nvmeCmdSlotTag := nvmeCmdSlotTag r0,
       logicalSliceAddr := lsa,
       reqOpt := (reqOpt r)\<lparr>dataBufFormat := REQ_OPT_DATA_BUF_ENTRY, nandAddr := REQ_OPT_NAND_ADDR_VSA,
         nandEcc := True, nandEccWarning := True, rowAddrDependencyCheck := True,
         blockSpace := REQ_OPT_BLOCK_SPACE_MAIN, customCmd := customCmd (reqOpt r0),
         ccmdDataBuf := ccmdDataBuf (reqOpt r0), forceUnitAccess := fua\<rparr>,
       dataBufInfo := dataBufInfo r0\<rparr>"

definition count_nand_req :: "platform \<Rightarrow> nat \<Rightarrow> ssd \<Rightarrow> ssd option" where
  "count_nand_req p t s =
     (if customCmd (ropt s t) then
        do {
          _ \<leftarrow> GenerateDataBufAddr p s t;
          Some (s\<lparr>cct := AllocateNotCompletedNandReqforCustomIoCmd (nvmeCmdSlotTag (req s t)) (cct s)\<rparr>)
        }
      else Some s)"

definition evict_fua :: "ssd_req \<Rightarrow> bool" where
  "evict_fua r0 = (if reqCode r0 = REQ_CODE_RxDMA then forceUnitAccess (reqOpt r0) else False)"

definition EvictDataBufEntry :: "platform \<Rightarrow> nat \<Rightarrow> ssd \<Rightarrow> ssd option" where
  "EvictDataBufEntry p originReqSlotTag s =
     (let e = dataBufInfo (req s originReqSlotTag) in
      if dirty (dataBuf (db s) e) then
        do {
          (s, t) \<leftarrow> GetFromFreeReqQ p s;
          (s, vsa) \<leftarrow> AddrTransWrite p (lsa_of (db s) e) s;
          let r0 = req s originReqSlotTag;
          let s = fill_req t (\<lambda>r. (buffer_request REQ_CODE_WRITE r0 (lsa_of (db s) e) (evict_fua r0) r)
                                    \<lparr>dataBufInfo := e\<rparr>) s;
          let s = UpdateDataBufEntryInfoBlockingReq p e t s;
          let s = fill_req t (set_vsa vsa) s;
          s \<leftarrow> count_nand_req p t s;
          s \<leftarrow> SelectLowLevelReqQ p t s;
          let s = s\<lparr>db := upd_buf e (\<lambda>r. r\<lparr>dirty := False\<rparr>) (db s)\<rparr>;
          Some (s\<lparr>tm := AllocateNandReqCntForBufferEviction (nvmeCmdSlotTag (req s t)) (tm s)\<rparr>)
        }
      else Some s)"

definition EvictCcmdDataBufEntry :: "platform \<Rightarrow> nat \<Rightarrow> ssd \<Rightarrow> ssd option" where
  "EvictCcmdDataBufEntry p originReqSlotTag s =
     (let e = dataBufInfo (req s originReqSlotTag) in
      if dirty (dataBuf (cb s) e) then
        do {
          (s, t) \<leftarrow> GetFromFreeReqQ p s;
          (s, vsa) \<leftarrow> AddrTransWrite p (lsa_of (cb s) e) s;
          let r0 = req s originReqSlotTag;
          let s = fill_req t (\<lambda>r. (buffer_request REQ_CODE_WRITE r0 (lsa_of (cb s) e) (evict_fua r0) r)
                                    \<lparr>dataBufInfo := e\<rparr>) s;
          let s = UpdateCcmdDataBufEntryInfoBlockingReq p e t s;
          let s = fill_req t (set_vsa vsa) s;
          s \<leftarrow> count_nand_req p t s;
          s \<leftarrow> SelectLowLevelReqQ p t s;
          let s = s\<lparr>cb := upd_buf e (\<lambda>r. r\<lparr>dirty := False\<rparr>) (cb s)\<rparr>;
          Some (s\<lparr>tm := AllocateNandReqCntForBufferEviction (nvmeCmdSlotTag (req s t)) (tm s)\<rparr>)
        }
      else Some s)"

text \<open>A slice that was never written is not read from flash.\<close>

definition DataReadFromNand :: "platform \<Rightarrow> nat \<Rightarrow> ssd \<Rightarrow> ssd option" where
  "DataReadFromNand p originReqSlotTag s =
     do {
       vsa \<leftarrow> AddrTransRead p (logicalSliceAddr (req s originReqSlotTag)) (am s);
       (if vsa \<noteq> VSA_FAIL then
          do {
            (s, t) \<leftarrow> GetFromFreeReqQ p s;
            let r0 = req s originReqSlotTag;
            let s = fill_req t (buffer_request REQ_CODE_READ r0 (logicalSliceAddr r0)
                                  (forceUnitAccess (reqOpt r0))) s;
            let s = UpdateDataBufEntryInfoBlockingReq p (dataBufInfo (req s t)) t s;
            let s = fill_req t (set_vsa vsa) s;
            s \<leftarrow> count_nand_req p t s;
            SelectLowLevelReqQ p t s
          }
        else Some s)
     }"

definition CcmdDataReadFromNand :: "platform \<Rightarrow> nat \<Rightarrow> ssd \<Rightarrow> ssd option" where
  "CcmdDataReadFromNand p originReqSlotTag s =
     do {
       vsa \<leftarrow> AddrTransRead p (logicalSliceAddr (req s originReqSlotTag)) (am s);
       (if vsa \<noteq> VSA_FAIL then
          do {
            (s, t) \<leftarrow> GetFromFreeReqQ p s;
            let r0 = req s originReqSlotTag;
            let s = fill_req t (buffer_request REQ_CODE_READ r0 (logicalSliceAddr r0)
                                  (forceUnitAccess (reqOpt r0))) s;
            let s = UpdateCcmdDataBufEntryInfoBlockingReq p (dataBufInfo (req s t)) t s;
            let s = fill_req t (set_vsa vsa) s;
            s \<leftarrow> count_nand_req p t s;
            SelectLowLevelReqQ p t s
          }
        else Some s)
     }"

section \<open>Slice requests to transfers\<close>

definition use_entry :: "nat \<Rightarrow> nat \<Rightarrow> bool \<Rightarrow> ssd \<Rightarrow> ssd" where
  "use_entry t e ccmd =
     fill_req t (\<lambda>r. r\<lparr>dataBufInfo := e, reqOpt := (reqOpt r)\<lparr>ccmdDataBuf := ccmd\<rparr>\<rparr>)"

text \<open>
  A miss. Reads are placed in the read buffer, writes in the data buffer. The slice request \<open>t\<close> is in
  no queue while this runs; its fields are taken once, at the beginning.
\<close>

definition slice_miss_read :: "platform \<Rightarrow> nat \<Rightarrow> ssd \<Rightarrow> (ssd \<times> nat) option" where
  "slice_miss_read p t s =
     (let lsa = logicalSliceAddr (req s t) in
      do {
        (b, e) \<leftarrow> AllocateCcmdDataBuf p (cb s);
        s \<leftarrow> EvictCcmdDataBufEntry p t (use_entry t e True (s\<lparr>cb := b\<rparr>));
        let s = s\<lparr>cb := PutToCcmdDataBufHashList p e (set_lsa e lsa (cb s))\<rparr>;
        s \<leftarrow> CcmdDataReadFromNand p t s;
        Some (s, e)
      })"

definition slice_miss_write :: "platform \<Rightarrow> nat \<Rightarrow> ssd \<Rightarrow> (ssd \<times> nat) option" where
  "slice_miss_write p t s =
     (let lsa = logicalSliceAddr (req s t); code = reqCode (req s t);
          n = numOfNvmeBlock (nvmeDmaInfo (req s t)) in
      do {
        (b, e) \<leftarrow> AllocateDataBuf p (db s);
        s \<leftarrow> EvictDataBufEntry p t (use_entry t e False (s\<lparr>db := b\<rparr>));
        let s = s\<lparr>db := PutToDataBufHashList p e (set_lsa e lsa (db s))\<rparr>;
        s \<leftarrow> (if code = REQ_CODE_WRITE \<and> n \<noteq> NVME_BLOCKS_PER_SLICE
             then DataReadFromNand p t s else Some s);
        Some (s, e)
      })"

definition slice_buffer :: "platform \<Rightarrow> nat \<Rightarrow> ssd \<Rightarrow> (ssd \<times> nat) option" where
  "slice_buffer p t s =
     do {
       (b, e) \<leftarrow> CheckDataBufHit p (logicalSliceAddr (req s t)) (db s);
       let s = s\<lparr>db := b\<rparr>;
       (if e \<noteq> DATA_BUF_FAIL then Some (use_entry t e False s, e)
        else do {
          (b, e) \<leftarrow> CheckCcmdDataBufHit p (logicalSliceAddr (req s t)) (cb s);
          let s = s\<lparr>cb := b\<rparr>;
          (if e \<noteq> DATA_BUF_FAIL then Some (use_entry t e True s, e)
           else if reqCode (req s t) = REQ_CODE_READ then slice_miss_read p t s
           else slice_miss_write p t s)
        })
     }"

definition mark_dirty :: "bool \<Rightarrow> nat \<Rightarrow> ssd \<Rightarrow> ssd" where
  "mark_dirty ccmd e s =
     (if ccmd then s\<lparr>cb := upd_buf e (\<lambda>r. r\<lparr>dirty := True\<rparr>) (cb s)\<rparr>
      else s\<lparr>db := upd_buf e (\<lambda>r. r\<lparr>dirty := True\<rparr>) (db s)\<rparr>)"

definition announce_dma :: "platform \<Rightarrow> nat \<Rightarrow> ssd \<Rightarrow> ssd option" where
  "announce_dma p t s =
     (if customCmd (ropt s t) then
        do {
          _ \<leftarrow> GenerateDataBufAddr p s t;
          let slot = nvmeCmdSlotTag (req s t);
          Some (if reqCode (req s t) = REQ_CODE_RxDMA
                then s\<lparr>cct := AllocateNotIssuedRxforCustomIoCmd slot
                               (AllocateNotCompletedRxforCustomIoCmd slot (cct s))\<rparr>
                else if reqCode (req s t) = REQ_CODE_TxDMA
                then s\<lparr>cct := AllocateNotIssuedTxforCustomIoCmd slot
                               (AllocateNotCompletedTxforCustomIoCmd slot (cct s))\<rparr>
                else s)
        }
      else Some s)"

definition slice_to_dma :: "platform \<Rightarrow> nat \<Rightarrow> nat \<Rightarrow> ssd \<Rightarrow> ssd option" where
  "slice_to_dma p t e s =
     do {
       s \<leftarrow> (case reqCode (req s t) of
               REQ_CODE_WRITE \<Rightarrow> Some (fill_req t (\<lambda>r. r\<lparr>reqCode := REQ_CODE_RxDMA\<rparr>)
                                   (mark_dirty (ccmdDataBuf (ropt s t)) e s))
             | REQ_CODE_READ \<Rightarrow> Some (fill_req t (\<lambda>r. r\<lparr>reqCode := REQ_CODE_TxDMA\<rparr>) s)
             | _ \<Rightarrow> None);
       let s = fill_req t (\<lambda>r. r\<lparr>reqType := REQ_TYPE_NVME_DMA,
                  reqOpt := (reqOpt r)\<lparr>dataBufFormat := REQ_OPT_DATA_BUF_ENTRY\<rparr>\<rparr>) s;
       s \<leftarrow> announce_dma p t s;
       let s = (if ccmdDataBuf (ropt s t) then UpdateCcmdDataBufEntryInfoBlockingReq p e t s
                else UpdateDataBufEntryInfoBlockingReq p e t s);
       SelectLowLevelReqQ p t s
     }"

definition trans_slice :: "platform \<Rightarrow> nat \<Rightarrow> ssd \<Rightarrow> ssd option" where
  "trans_slice p t s =
     do {
       (s, e) \<leftarrow> slice_buffer p t s;
       slice_to_dma p t e s
     }"

partial_function (option) ReqTransSliceToLowLevel :: "platform \<Rightarrow> ssd \<Rightarrow> ssd option" where
  [code]: "ReqTransSliceToLowLevel p s =
     (if headReq (sliceReqQ (rq s)) \<noteq> REQ_SLOT_TAG_NONE then
        let (q, t) = GetFromSliceReqQ (rq s); s = s\<lparr>rq := q\<rparr> in
        if t = REQ_SLOT_TAG_FAIL then Some s
        else do {
          s \<leftarrow> trans_slice p t s;
          ReqTransSliceToLowLevel p s
        }
      else Some s)"

section \<open>The parts of a command\<close>

text \<open>The pairs of block index in the command and logical block address that a part transfers, in order.\<close>

definition blocks :: "nat \<Rightarrow> nat \<Rightarrow> nat \<Rightarrow> (nat \<times> nat) list" where
  "blocks idx lba n = map (\<lambda>k. (idx + k, lba + k)) [0..<n]"

definition part_blocks :: "slice_part \<Rightarrow> (nat \<times> nat) list" where
  "part_blocks = (\<lambda>(lsa, idx, offs, n). blocks idx (lsa * NVME_BLOCKS_PER_SLICE + offs) n)"

lemma part_blocks_simp [simp]: "part_blocks (lsa, idx, offs, n) = blocks idx (lsa * 4 + offs) n"
  by (simp add: part_blocks_def)

lemma blocks_append: "blocks a b n @ blocks (a + n) (b + n) m = blocks a b (n + m)"
proof -
  have "map (\<lambda>k. (a + k, b + k)) [n..<n + m] = map (\<lambda>k. (a + n + k, b + n + k)) [0..<m]"
    using map_add_upt [of n m] by (simp add: list_eq_iff_nth_eq)
  then show ?thesis using upt_add_eq_append [of 0 n m] by (simp add: blocks_def)
qed

lemma blocks_0 [simp]: "blocks a b 0 = []"
  by (simp add: blocks_def)

lemma whole_slices_blocks:
  "concat (map part_blocks (whole_slices n lsa idx)) = blocks idx (lsa * 4) (n * 4)"
proof (induction n arbitrary: lsa idx)
  case (Suc n)
  have "blocks idx (lsa * 4) 4 @ blocks (idx + 4) (lsa * 4 + 4) (n * 4) = blocks idx (lsa * 4) (4 + n * 4)"
    by (rule blocks_append)
  then show ?case by (simp add: Suc.IH algebra_simps)
qed simp

lemma whole_slices_fit:
  "part \<in> set (whole_slices k lsa idx) \<Longrightarrow> (case part of (l, i, offs, n) \<Rightarrow> 0 < n \<and> offs + n \<le> 4)"
  by (induction k arbitrary: lsa idx) auto

lemma u32_mod4: "u32 n mod 4 = n mod 4"
  by (simp add: u32_def mod_mod_cancel)

lemma nvme_slices_blocks:
  assumes "nlb + 1 < 2 ^ 32"
  shows "concat (map part_blocks (nvme_slices startLba nlb)) = blocks 0 startLba (nlb + 1) \<and>
    (\<forall>(lsa, idx, offs, n) \<in> set (nvme_slices startLba nlb). 0 < n \<and> offs + n \<le> NVME_BLOCKS_PER_SLICE)"
proof -
  define q offs R where "q = startLba div 4" and "offs = startLba mod 4" and "R = nlb + 1"
  define loop last where "loop = (offs + R) div 4" and "last = (startLba + R) mod 4"
  have lba: "startLba = q * 4 + offs" "offs < 4" "0 < R" by (simp_all add: q_def offs_def R_def)
  have "last = (offs + R) mod 4" using mod_mult_self3 [of q 4 "offs + R"] by (simp add: last_def lba(1) add.assoc)
  then have R: "offs + R = loop * 4 + last" "last < 4" by (simp_all add: loop_def div_mult_mod_eq)
  have parts: "nvme_slices startLba nlb =
      [(q, 0, offs, if loop \<noteq> 0 then 4 - offs else R)] @
      whole_slices (loop - 1) (q + 1) (if loop \<noteq> 0 then 4 - offs else R) @
      (if last = 0 \<or> loop = 0 then []
       else [(q + loop, (if loop \<noteq> 0 then 4 - offs else R) + (loop - 1) * 4, 0, last)])"
    using assms by (simp add: nvme_slices_def Let_def u32_mod4 q_def offs_def R_def loop_def last_def)
  show ?thesis
  proof (cases loop)
    case 0
    then show ?thesis using R lba(2,3) by (simp add: parts R_def flip: lba(1))
  next
    case (Suc k)
    have a: "blocks 0 startLba (4 - offs) @ blocks (4 - offs) ((q + 1) * 4) (k * 4) =
        blocks 0 startLba (4 - offs + k * 4)"
      using blocks_append [of 0 startLba "4 - offs" "k * 4"] lba by (simp add: algebra_simps)
    have b: "blocks 0 startLba (4 - offs + k * 4) @ blocks (4 - offs + k * 4) ((q + loop) * 4) last =
        blocks 0 startLba R"
    proof -
      have "4 - offs + k * 4 + last = R" "startLba + (4 - offs + k * 4) = (q + loop) * 4"
        using lba R Suc by simp_all
      then show ?thesis using blocks_append [of 0 startLba "4 - offs + k * 4" last] by simp
    qed
    have "concat (map part_blocks (nvme_slices startLba nlb)) =
        (blocks 0 startLba (4 - offs) @ blocks (4 - offs) ((q + 1) * 4) (k * 4)) @
        blocks (4 - offs + k * 4) ((q + loop) * 4) last"
      using Suc by (simp add: parts whole_slices_blocks flip: lba(1))
    then have "concat (map part_blocks (nvme_slices startLba nlb)) = blocks 0 startLba (nlb + 1)"
      by (simp only: a b R_def)
    moreover have "0 < m \<and> j + m \<le> 4" if "(l, i, j, m) \<in> set (nvme_slices startLba nlb)" for l i j m
      using that Suc lba(2,3) R(2) by (auto simp: parts split: if_splits dest!: whole_slices_fit)
    ultimately show ?thesis by auto
  qed
qed

text \<open>
  C30. A host command is cut into slice requests that together transfer each of its blocks once:
  read in order, the parts pair the block index \<open>0, 1, \<dots>\<close> of the command with the block addresses from
  \<^verbatim>\<open>startLba\<close> on, and no part is empty or reaches over the end of its slice.
\<close>

theorem nvme_slices_cover:
  assumes "nlb + 1 < 2 ^ 32"
  shows "concat (map part_blocks (nvme_slices startLba nlb)) = blocks 0 startLba (nlb + 1) \<and>
    (\<forall>(lsa, idx, offs, n) \<in> set (nvme_slices startLba nlb). 0 < n \<and> offs + n \<le> NVME_BLOCKS_PER_SLICE)"
  using nvme_slices_blocks [OF assms] .

theorem nvme_slices_cover_witness:
  "concat (map part_blocks (nvme_slices 6 7)) = blocks 0 6 8 \<and>
   nvme_slices 6 7 = [(1, 0, 2, 2), (2, 2, 0, 4), (3, 6, 0, 2)]"
  using nvme_slices_cover [of 7 6] by (simp add: nvme_slices_def u32_def)

end
