(* ===== verification/Bad_Block_Table.thy ===== *)
theory Bad_Block_Table
  imports Ftl_Ops
begin

text \<open>
  The bad block table of each die, \<^verbatim>\<open>address_translation.c\<close>: it is read from flash at start-up; a die
  without one is scanned for the marks of the manufacturer and gets one; blocks that went bad in use
  are added at shut down. Then start-up erases the user blocks and sets up the address maps
  (\<^verbatim>\<open>InitAddressMap\<close>). A byte of DRAM that the flash controller has written is an observation of the
  platform; a byte that the firmware writes for it is an output.
\<close>

section \<open>Requests on physical pages\<close>

definition BLOCK_STATE_NORMAL :: nat where "BLOCK_STATE_NORMAL = 0"
definition BLOCK_STATE_BAD :: nat where "BLOCK_STATE_BAD = 1"

datatype bbt_state =
    DIE_STATE_BAD_BLOCK_TABLE_NOT_EXIST | DIE_STATE_BAD_BLOCK_TABLE_EXIST
  | DIE_STATE_BAD_BLOCK_TABLE_HOLD | DIE_STATE_BAD_BLOCK_TABLE_UPDATE

definition CLEAN_DATA_IN_BYTE :: nat where "CLEAN_DATA_IN_BYTE = 0xff"

definition USED_PAGES_FOR_BAD_BLOCK_TABLE_PER_DIE :: nat where
  "USED_PAGES_FOR_BAD_BLOCK_TABLE_PER_DIE = TOTAL_BLOCKS_PER_DIE div BYTES_PER_DATA_REGION_OF_PAGE + 1"

definition DATA_SIZE_OF_BAD_BLOCK_TABLE_PER_DIE :: nat where
  "DATA_SIZE_OF_BAD_BLOCK_TABLE_PER_DIE = TOTAL_BLOCKS_PER_DIE"

definition START_PAGE_NO_OF_BAD_BLOCK_TABLE_BLOCK :: nat where
  "START_PAGE_NO_OF_BAD_BLOCK_TABLE_BLOCK = 1"

text \<open>A request is taken from the pool, filled in (reading the tables of that moment) and queued.\<close>

definition submit :: "platform \<Rightarrow> (ssd \<Rightarrow> ssd_req \<Rightarrow> ssd_req) \<Rightarrow> ssd \<Rightarrow> ssd option" where
  "submit p f s =
     do {
       (s, t) \<leftarrow> GetFromFreeReqQ p s;
       SelectLowLevelReqQ p t (fill_req t (f s) s)
     }"

definition phy_request ::
  "platform \<Rightarrow> req_code \<Rightarrow> data_buf_format \<Rightarrow> nat \<Rightarrow> nat \<Rightarrow> nat \<Rightarrow> ssd_req \<Rightarrow> ssd_req" where
  "phy_request p code fmt dieNo b pg r =
     r\<lparr>reqType := REQ_TYPE_NAND, reqCode := code,
       reqOpt := nand_options fmt REQ_OPT_NAND_ADDR_PHY_ORG False REQ_OPT_BLOCK_SPACE_TOTAL (reqOpt r),
       nandInfo := (nandInfo r)\<lparr>physicalCh := Vdie2PchTranslation p dieNo,
         physicalWay := Vdie2PwayTranslation p dieNo, physicalBlock := u16 b, physicalPage := u16 pg\<rparr>\<rparr>"

definition phy_transfer :: "bool \<Rightarrow> nat \<Rightarrow> ssd_req \<Rightarrow> ssd_req" where
  "phy_transfer ecc addr r = r\<lparr>reqOpt := ecc_options ecc False (reqOpt r), dataBufInfo := addr\<rparr>"

section \<open>Reading the tables\<close>

definition bbt_block :: "ssd \<Rightarrow> nat \<Rightarrow> nat" where
  "bbt_block s dieNo = bbtPhyBlock (bbtInfo (pb s) dieNo)"

function read_bbt_pages ::
  "platform \<Rightarrow> (nat \<Rightarrow> nat) \<Rightarrow> nat \<Rightarrow> nat \<Rightarrow> nat \<Rightarrow> nat \<Rightarrow> ssd \<Rightarrow> ssd option" where
  "read_bbt_pages p tempBbtBufAddr entrySize loop tempPage dataSize s =
     (if 0 < dataSize then
        do {
          s \<leftarrow> ofold (\<lambda>dieNo. submit p (\<lambda>s r.
                 phy_transfer True (tempBbtBufAddr dieNo + loop * entrySize)
                   (phy_request p REQ_CODE_READ REQ_OPT_DATA_BUF_ADDR dieNo (bbt_block s dieNo)
                      (Vpage2PlsbPageTranslation tempPage) r))) [0..<USER_DIES p] s;
          read_bbt_pages p tempBbtBufAddr entrySize (loop + 1) (tempPage + 1)
            (dataSize - BYTES_PER_DATA_REGION_OF_PAGE) s
        }
      else Some s)"
  by pat_completeness auto
termination
  by (relation "measure (\<lambda>(p, a, e, l, t, n, s). n)") (auto simp: BYTES_PER_DATA_REGION_OF_PAGE_def)

definition ReadBadBlockTable :: "platform \<Rightarrow> (nat \<Rightarrow> nat) \<Rightarrow> nat \<Rightarrow> ssd \<Rightarrow> ssd option" where
  "ReadBadBlockTable p tempBbtBufAddr entrySize s =
     do {
       s \<leftarrow> read_bbt_pages p tempBbtBufAddr entrySize 0
              (PlsbPage2VpageTranslation START_PAGE_NO_OF_BAD_BLOCK_TABLE_BLOCK)
              DATA_SIZE_OF_BAD_BLOCK_TABLE_PER_DIE s;
       SyncAllLowLevelReqDone p s
     }"

section \<open>Scanning for bad blocks\<close>

text \<open>The two mark bytes of the row in the buffer; each look is a new instant.\<close>

definition marks_clean :: "platform \<Rightarrow> nat \<Rightarrow> ssd \<Rightarrow> bool" where
  "marks_clean p addr s \<longleftrightarrow>
     unat (obs_dram (now p (io s)) (addr + BAD_BLOCK_MARK_BYTE0)) = CLEAN_DATA_IN_BYTE \<and>
     unat (obs_dram (now p (io s)) (addr + BAD_BLOCK_MARK_BYTE1)) = CLEAN_DATA_IN_BYTE"

definition look :: "ssd \<Rightarrow> ssd" where
  "look s = s\<lparr>io := tick (io s)\<rparr>"

definition submit_mark_read ::
  "platform \<Rightarrow> (nat \<Rightarrow> nat) \<Rightarrow> nat \<Rightarrow> nat \<Rightarrow> nat \<Rightarrow> ssd \<Rightarrow> ssd option" where
  "submit_mark_read p tempReadBufAddr phyBlockNo markPage dieNo =
     submit p (\<lambda>s r. phy_transfer False (tempReadBufAddr dieNo)
       (phy_request p REQ_CODE_READ REQ_OPT_DATA_BUF_ADDR dieNo phyBlockNo markPage r))"

definition check_first_mark ::
  "platform \<Rightarrow> (nat \<Rightarrow> nat) \<Rightarrow> nat \<Rightarrow> nat \<Rightarrow> ssd \<times> (nat \<Rightarrow> bool) \<Rightarrow> (ssd \<times> (nat \<Rightarrow> bool)) option" where
  "check_first_mark p tempReadBufAddr phyBlockNo dieNo = (\<lambda>(s, blockChecker).
     if marks_clean p (tempReadBufAddr dieNo) s then
       do {
         s \<leftarrow> submit_mark_read p tempReadBufAddr phyBlockNo BAD_BLOCK_MARK_PAGE1 dieNo (look s);
         Some (s, blockChecker)
       }
     else Some (look s, blockChecker(dieNo := True)))"

definition set_phy_bad :: "nat \<Rightarrow> nat \<Rightarrow> bool \<Rightarrow> ssd \<Rightarrow> ssd" where
  "set_phy_bad dieNo b isBad s = s\<lparr>pb := upd_phy dieNo b (\<lambda>r. r\<lparr>phyBad := isBad\<rparr>) (pb s)\<rparr>"

definition check_second_mark ::
  "platform \<Rightarrow> (nat \<Rightarrow> nat) \<Rightarrow> (nat \<Rightarrow> nat) \<Rightarrow> nat \<Rightarrow> nat \<Rightarrow> ssd \<times> (nat \<Rightarrow> bool) \<Rightarrow>
   ssd \<times> (nat \<Rightarrow> bool)" where
  "check_second_mark p tempBbtBufAddr tempReadBufAddr phyBlockNo dieNo = (\<lambda>(s, blockChecker).
     (let isBad = (if \<not> marks_clean p (tempReadBufAddr dieNo) s then True else blockChecker dieNo);
          s = look s;
          s = s\<lparr>io := emit (Dram_Write (tempBbtBufAddr dieNo + phyBlockNo)
                  (of_nat (if isBad then BLOCK_STATE_BAD else BLOCK_STATE_NORMAL))) (io s)\<rparr>
      in (set_phy_bad dieNo phyBlockNo isBad s, blockChecker(dieNo := isBad))))"

definition find_bad_row ::
  "platform \<Rightarrow> nat list \<Rightarrow> (nat \<Rightarrow> nat) \<Rightarrow> (nat \<Rightarrow> nat) \<Rightarrow> nat \<Rightarrow> ssd \<times> (nat \<Rightarrow> bool) \<Rightarrow>
   (ssd \<times> (nat \<Rightarrow> bool)) option" where
  "find_bad_row p dies tempBbtBufAddr tempReadBufAddr phyBlockNo = (\<lambda>(s, blockChecker).
     do {
       let blockChecker = fold (\<lambda>dieNo c. c(dieNo := False)) dies blockChecker;
       s \<leftarrow> ofold (submit_mark_read p tempReadBufAddr phyBlockNo BAD_BLOCK_MARK_PAGE0) dies s;
       s \<leftarrow> SyncAllLowLevelReqDone p s;
       (s, blockChecker) \<leftarrow> ofold (check_first_mark p tempReadBufAddr phyBlockNo) dies (s, blockChecker);
       s \<leftarrow> SyncAllLowLevelReqDone p s;
       Some (fold (check_second_mark p tempBbtBufAddr tempReadBufAddr phyBlockNo) dies (s, blockChecker))
     })"

text \<open>The scan looks at the dies without a table.\<close>

definition FindBadBlock ::
  "platform \<Rightarrow> (nat \<Rightarrow> bbt_state) \<Rightarrow> (nat \<Rightarrow> nat) \<Rightarrow> (nat \<Rightarrow> nat) \<Rightarrow> ssd \<Rightarrow> ssd option" where
  "FindBadBlock p bbtState tempBbtBufAddr tempReadBufAddr s =
     do {
       let dies = filter (\<lambda>d. bbtState d = DIE_STATE_BAD_BLOCK_TABLE_NOT_EXIST) [0..<USER_DIES p];
       (s, blockChecker) \<leftarrow> ofold (find_bad_row p dies tempBbtBufAddr tempReadBufAddr)
                             [0..<TOTAL_BLOCKS_PER_DIE] (s, \<lambda>d. False);
       Some s
     }"

section \<open>Saving the tables\<close>

definition save_bbt_page ::
  "platform \<Rightarrow> (nat \<Rightarrow> nat) \<Rightarrow> nat \<Rightarrow> nat \<Rightarrow> nat \<Rightarrow> nat \<Rightarrow> ssd \<Rightarrow> ssd option" where
  "save_bbt_page p tempBbtBufAddr entrySize loop tempPage dieNo s =
     do {
       s \<leftarrow> (if loop = 0
            then submit p (\<lambda>s. phy_request p REQ_CODE_ERASE REQ_OPT_DATA_BUF_NONE dieNo
                                 (bbt_block s dieNo) 0) s
            else Some s);
       submit p (\<lambda>s r. phy_transfer True (tempBbtBufAddr dieNo + loop * entrySize)
         (phy_request p REQ_CODE_WRITE REQ_OPT_DATA_BUF_ADDR dieNo (bbt_block s dieNo)
            (Vpage2PlsbPageTranslation tempPage) r)) s
     }"

text \<open>The page number stays; the size that is left is raised by one before the page size is taken off.\<close>

function save_bbt_pages ::
  "platform \<Rightarrow> nat list \<Rightarrow> (nat \<Rightarrow> nat) \<Rightarrow> nat \<Rightarrow> nat \<Rightarrow> nat \<Rightarrow> nat \<Rightarrow> ssd \<Rightarrow> ssd option" where
  "save_bbt_pages p dies tempBbtBufAddr entrySize loop tempPage dataSize s =
     (if 0 < dataSize then
        do {
          s \<leftarrow> ofold (save_bbt_page p tempBbtBufAddr entrySize loop tempPage) dies s;
          save_bbt_pages p dies tempBbtBufAddr entrySize (loop + 1) tempPage
            (dataSize + 1 - BYTES_PER_DATA_REGION_OF_PAGE) s
        }
      else Some s)"
  by pat_completeness auto
termination
  by (relation "measure (\<lambda>(p, ds, a, e, l, t, n, s). n)") (auto simp: BYTES_PER_DATA_REGION_OF_PAGE_def)

definition SaveBadBlockTable ::
  "platform \<Rightarrow> (nat \<Rightarrow> bbt_state) \<Rightarrow> (nat \<Rightarrow> nat) \<Rightarrow> nat \<Rightarrow> ssd \<Rightarrow> ssd option" where
  "SaveBadBlockTable p bbtState tempBbtBufAddr entrySize s =
     do {
       let dies = filter (\<lambda>d. bbtState d = DIE_STATE_BAD_BLOCK_TABLE_NOT_EXIST \<or>
                              bbtState d = DIE_STATE_BAD_BLOCK_TABLE_UPDATE) [0..<USER_DIES p];
       s \<leftarrow> save_bbt_pages p dies tempBbtBufAddr entrySize 0
              (PlsbPage2VpageTranslation START_PAGE_NO_OF_BAD_BLOCK_TABLE_BLOCK)
              DATA_SIZE_OF_BAD_BLOCK_TABLE_PER_DIE s;
       SyncAllLowLevelReqDone p s
     }"

section \<open>Recovery at start-up\<close>

definition bbt_entry_size :: nat where
  "bbt_entry_size = BYTES_PER_DATA_REGION_OF_PAGE + BYTES_PER_SPARE_REGION_OF_PAGE"

definition bbt_buf_addr :: "nat \<Rightarrow> nat \<Rightarrow> nat" where
  "bbt_buf_addr tempBufAddr dieNo =
     tempBufAddr + dieNo * USED_PAGES_FOR_BAD_BLOCK_TABLE_PER_DIE * bbt_entry_size"

definition BYTES_PER_SPARE_REGION_OF_NAND_ROW :: nat where
  "BYTES_PER_SPARE_REGION_OF_NAND_ROW = 1664"

definition BYTES_PER_NAND_ROW :: nat where
  "BYTES_PER_NAND_ROW = BYTES_PER_DATA_REGION_OF_NAND_ROW + BYTES_PER_SPARE_REGION_OF_NAND_ROW"

definition mark_buf_addr :: "platform \<Rightarrow> nat \<Rightarrow> nat \<Rightarrow> nat" where
  "mark_buf_addr p tempBufAddr dieNo =
     tempBufAddr + USER_DIES p * USED_PAGES_FOR_BAD_BLOCK_TABLE_PER_DIE * bbt_entry_size +
     dieNo * BYTES_PER_NAND_ROW"

text \<open>The first byte of a table tells whether there is one; each byte is stored in a one-bit field.\<close>

definition check_bbt :: "platform \<Rightarrow> nat \<Rightarrow> nat \<Rightarrow> ssd \<times> (nat \<Rightarrow> bbt_state) \<Rightarrow> ssd \<times> (nat \<Rightarrow> bbt_state)" where
  "check_bbt p tempBufAddr dieNo = (\<lambda>(s, bbtState).
     (let mem = obs_dram (now p (io s)); addr = bbt_buf_addr tempBufAddr dieNo; s = look s in
      if unat (mem addr) = BLOCK_STATE_NORMAL \<or> unat (mem addr) = BLOCK_STATE_BAD
      then (fold (\<lambda>phyBlockNo. set_phy_bad dieNo phyBlockNo (odd (unat (mem (addr + phyBlockNo)))))
              [0..<TOTAL_BLOCKS_PER_DIE] s,
            bbtState(dieNo := DIE_STATE_BAD_BLOCK_TABLE_EXIST))
      else (s, bbtState(dieNo := DIE_STATE_BAD_BLOCK_TABLE_NOT_EXIST))))"

definition RecoverBadBlockTable :: "platform \<Rightarrow> nat \<Rightarrow> ssd \<Rightarrow> ssd option" where
  "RecoverBadBlockTable p tempBufAddr s =
     do {
       s \<leftarrow> ReadBadBlockTable p (bbt_buf_addr tempBufAddr) bbt_entry_size s;
       let (s, bbtState) = fold (check_bbt p tempBufAddr) [0..<USER_DIES p]
                             (s, \<lambda>d. DIE_STATE_BAD_BLOCK_TABLE_EXIST);
       s \<leftarrow> (if \<exists>d < USER_DIES p. bbtState d = DIE_STATE_BAD_BLOCK_TABLE_NOT_EXIST
            then do {
              s \<leftarrow> FindBadBlock p bbtState (bbt_buf_addr tempBufAddr) (mark_buf_addr p tempBufAddr) s;
              SaveBadBlockTable p bbtState (bbt_buf_addr tempBufAddr) bbt_entry_size s
            }
            else Some s);
       Some (s\<lparr>pb := (pb s)\<lparr>bbtInfo := array_for (USER_DIES p) (\<lambda>d r. r\<lparr>grownBadUpdate := False\<rparr>)
                                  (bbtInfo (pb s))\<rparr>\<rparr>)
     }"

section \<open>Blocks that went bad in use\<close>

definition write_bbt :: "nat \<Rightarrow> nat \<Rightarrow> nat \<Rightarrow> ssd \<Rightarrow> ssd" where
  "write_bbt tempBufAddr dieNo phyBlockNo s =
     s\<lparr>io := emit (Dram_Write (bbt_buf_addr tempBufAddr dieNo + phyBlockNo)
        (if phyBlockNo \<noteq> bbt_block s dieNo \<and> phyBad (phyBlock (pb s) dieNo phyBlockNo)
         then of_nat BLOCK_STATE_BAD else of_nat BLOCK_STATE_NORMAL)) (io s)\<rparr>"

text \<open>The tables of the dies that booked an update, byte by byte.\<close>

definition booked_dies :: "platform \<Rightarrow> ssd \<Rightarrow> nat list" where
  "booked_dies p s = filter (\<lambda>d. grownBadUpdate (bbtInfo (pb s) d)) [0..<USER_DIES p]"

definition write_bbts :: "platform \<Rightarrow> nat \<Rightarrow> ssd \<Rightarrow> ssd" where
  "write_bbts p tempBufAddr s =
     fold (\<lambda>d. fold (write_bbt tempBufAddr d) [0..<TOTAL_BLOCKS_PER_DIE]) (booked_dies p s) s"

definition UpdateBadBlockTableForGrownBadBlock :: "platform \<Rightarrow> nat \<Rightarrow> ssd \<Rightarrow> ssd option" where
  "UpdateBadBlockTableForGrownBadBlock p tempBufAddr s =
     SaveBadBlockTable p (\<lambda>d. if grownBadUpdate (bbtInfo (pb s) d) then DIE_STATE_BAD_BLOCK_TABLE_UPDATE
                               else DIE_STATE_BAD_BLOCK_TABLE_HOLD)
       (bbt_buf_addr tempBufAddr) bbt_entry_size (write_bbts p tempBufAddr s)"

section \<open>Erasing, and the address maps\<close>

definition EraseTotalBlockSpace :: "platform \<Rightarrow> ssd \<Rightarrow> ssd option" where
  "EraseTotalBlockSpace p s =
     do {
       s \<leftarrow> ofold (\<lambda>blockNo. ofold (\<lambda>dieNo. submit p (\<lambda>s.
              phy_request p REQ_CODE_ERASE REQ_OPT_DATA_BUF_NONE dieNo blockNo 0)) [0..<USER_DIES p])
              [0..<TOTAL_BLOCKS_PER_DIE] s;
       SyncAllLowLevelReqDone p s
     }"

definition user_erase_request :: "nat \<Rightarrow> ssd_req \<Rightarrow> ssd_req" where
  "user_erase_request vsa r =
     set_vsa vsa (r\<lparr>reqType := REQ_TYPE_NAND, reqCode := REQ_CODE_ERASE,
       reqOpt := nand_options REQ_OPT_DATA_BUF_NONE REQ_OPT_NAND_ADDR_VSA False
                   REQ_OPT_BLOCK_SPACE_MAIN (reqOpt r)\<rparr>)"

definition erase_user_block :: "platform \<Rightarrow> nat \<Rightarrow> nat \<Rightarrow> ssd \<Rightarrow> ssd option" where
  "erase_user_block p blockNo dieNo s =
     (if bad (block (am s) dieNo blockNo) then Some s
      else submit p (\<lambda>s. user_erase_request (Vorg2VsaTranslation p dieNo blockNo 0)) s)"

definition EraseUserBlockSpace :: "platform \<Rightarrow> ssd \<Rightarrow> ssd option" where
  "EraseUserBlockSpace p s =
     do {
       s \<leftarrow> ofold (\<lambda>blockNo. ofold (erase_user_block p blockNo) [0..<USER_DIES p])
              [0..<USER_BLOCKS_PER_DIE p] s;
       SyncAllLowLevelReqDone p s
     }"

text \<open>The key that the operator presses is an argument.\<close>

definition InitBlockDieMap :: "platform \<Rightarrow> char \<Rightarrow> ssd \<Rightarrow> ssd option" where
  "InitBlockDieMap p inbyte s =
     do {
       s \<leftarrow> (if inbyte = CHR ''X'' then EraseTotalBlockSpace p s else Some s);
       let s = s\<lparr>am := InitDieMap p (am s)\<rparr>;
       s \<leftarrow> RecoverBadBlockTable p (RESERVED_DATA_BUFFER_BASE_ADDR p) s;
       let s = s\<lparr>pb := RemapBadBlock p (hide_bbt_blocks p (pb s))\<rparr>;
       let s = s\<lparr>am := InitBlockMap p (pb s) (am s)\<rparr>;
       s \<leftarrow> (if inbyte \<noteq> CHR ''X'' then EraseUserBlockSpace p s else Some s);
       m \<leftarrow> InitCurrentBlockOfDieMap p (am s);
       Some (s\<lparr>am := m\<rparr>)
     }"

definition InitAddressMap :: "platform \<Rightarrow> char \<Rightarrow> ssd \<Rightarrow> ssd option" where
  "InitAddressMap p inbyte s =
     (let s = s\<lparr>pb := InitPhyBlockMap p (pb s)\<rparr>;
          (m, d) = FindDieForFreeSliceAllocation p (am s);
          s = s\<lparr>am := InitSliceMap p (m\<lparr>sliceAllocationTargetDie := d\<rparr>)\<rparr>
      in InitBlockDieMap p inbyte s)"

section \<open>The whole start-up\<close>

definition array_request :: "req_code \<Rightarrow> nat \<Rightarrow> nat \<Rightarrow> ssd_req \<Rightarrow> ssd_req" where
  "array_request code ch way r =
     r\<lparr>reqType := REQ_TYPE_NAND, reqCode := code,
       reqOpt := nand_options REQ_OPT_DATA_BUF_NONE REQ_OPT_NAND_ADDR_PHY_ORG False
                   REQ_OPT_BLOCK_SPACE_TOTAL (reqOpt r),
       nandInfo := (nandInfo r)\<lparr>physicalCh := ch, physicalWay := way, physicalBlock := 0,
                                physicalPage := 0\<rparr>,
       prevBlockingReq := REQ_SLOT_TAG_NONE\<rparr>"

definition init_nand_way :: "platform \<Rightarrow> nat \<Rightarrow> nat \<Rightarrow> ssd \<Rightarrow> ssd option" where
  "init_nand_way p ch way s =
     do {
       s \<leftarrow> submit p (\<lambda>s. array_request REQ_CODE_RESET ch way) s;
       submit p (\<lambda>s. array_request REQ_CODE_SET_FEATURE ch way) s
     }"

definition InitNandArray :: "platform \<Rightarrow> ssd \<Rightarrow> ssd option" where
  "InitNandArray p s =
     do {
       s \<leftarrow> ofold (\<lambda>ch. ofold (init_nand_way p ch) [0..<USER_WAYS p]) [0..<USER_CHANNELS p] s;
       SyncAllLowLevelReqDone p s
     }"

text \<open>
  The number of channels the board connects, the base addresses of the channel controllers and the
  key are arguments.
\<close>

definition InitFTL ::
  "platform \<Rightarrow> nat \<Rightarrow> (nat \<Rightarrow> nat) \<Rightarrow> char \<Rightarrow> (nat \<Rightarrow> nat option) \<times> ssd \<Rightarrow>
   ((nat \<Rightarrow> nat option) \<times> ssd) option" where
  "InitFTL p connected nsc_base inbyte = (\<lambda>(regs, s).
     do {
       _ \<leftarrow> CheckConfigRestriction connected p;
       regs \<leftarrow> InitChCtlReg p nsc_base regs;
       let s = on_rq (InitReqPool p) s;
       let s = InitDependencyTable p s;
       let s = s\<lparr>wt := InitReqScheduler p (wt s)\<rparr>;
       s \<leftarrow> InitNandArray p s;
       s \<leftarrow> InitAddressMap p inbyte s;
       let s = s\<lparr>db := InitDataBuf p (db s), tempDataBuf := InitTempDataBuf p (tempDataBuf s)\<rparr>;
       let s = s\<lparr>am := InitGcVictimMap p (am s)\<rparr>;
       let s = s\<lparr>cct := InitCustomIoCmdCompleteTable (cct s)\<rparr>;
       let s = s\<lparr>cb := InitCcmdDataBuf p (cb s)\<rparr>;
       let s = s\<lparr>tm := InitHostReqTimeTable (tm s)\<rparr>;
       Some (regs, s\<lparr>storageCapacity := storageCapacity_L p (mbPerbadBlockSpace (pb s))\<rparr>)
     })"

end
