(* ===== verification/Nvme_Cmd.thy ===== *)
theory Nvme_Cmd
  imports Request_Transform Bad_Block_Table
begin

unbundle bit_operations_syntax

text \<open>
  The handlers of NVMe commands: I/O commands (\<^verbatim>\<open>nvme/nvme_io_cmd.c\<close>), admin commands
  (\<^verbatim>\<open>nvme/nvme_admin_cmd.c\<close>) and the identify data (\<^verbatim>\<open>nvme/nvme_identify.[ch]\<close>), with the formats of
  \<^verbatim>\<open>nvme/nvme.h\<close>. The words of a command are numbered as in the C unions: \<^verbatim>\<open>PRP1\<close> is words 6 and 7,
  \<^verbatim>\<open>PRP2\<close> is words 8 and 9. A failed \<^verbatim>\<open>ASSERT\<close> stops the device.
\<close>

section \<open>Formats\<close>

definition MAX_NUM_OF_IO_SQ :: nat where "MAX_NUM_OF_IO_SQ = 8"
definition MAX_NUM_OF_IO_CQ :: nat where "MAX_NUM_OF_IO_CQ = 8"
definition ADMIN_CMD_DRAM_DATA_BUFFER :: nat where "ADMIN_CMD_DRAM_DATA_BUFFER = 0x00200000"
definition STORAGE_CAPACITY_H :: "32 word" where "STORAGE_CAPACITY_H = 0"

definition ADMIN_DELETE_IO_SQ :: nat where "ADMIN_DELETE_IO_SQ = 0x00"
definition ADMIN_CREATE_IO_SQ :: nat where "ADMIN_CREATE_IO_SQ = 0x01"
definition ADMIN_GET_LOG_PAGE :: nat where "ADMIN_GET_LOG_PAGE = 0x02"
definition ADMIN_DELETE_IO_CQ :: nat where "ADMIN_DELETE_IO_CQ = 0x04"
definition ADMIN_CREATE_IO_CQ :: nat where "ADMIN_CREATE_IO_CQ = 0x05"
definition ADMIN_IDENTIFY :: nat where "ADMIN_IDENTIFY = 0x06"
definition ADMIN_SET_FEATURES :: nat where "ADMIN_SET_FEATURES = 0x09"
definition ADMIN_GET_FEATURES :: nat where "ADMIN_GET_FEATURES = 0x0A"
definition ADMIN_ASYNCHRONOUS_EVENT_REQUEST :: nat where "ADMIN_ASYNCHRONOUS_EVENT_REQUEST = 0x0C"
definition ADMIN_DOORBELL_BUFFER_CONFIG :: nat where "ADMIN_DOORBELL_BUFFER_CONFIG = 0x7C"
definition ADMIN_SECURITY_RECEIVE :: nat where "ADMIN_SECURITY_RECEIVE = 0x82"
definition IO_NVM_WRITE_READ :: nat where "IO_NVM_WRITE_READ = 0x66"
definition SC_INVALID_FIELD_IN_COMMAND :: nat where "SC_INVALID_FIELD_IN_COMMAND = 0x02"

definition ARBITRATION :: nat where "ARBITRATION = 0x01"
definition POWER_MANAGEMENT :: nat where "POWER_MANAGEMENT = 0x02"
definition LBA_RANGE_TYPE :: nat where "LBA_RANGE_TYPE = 0x03"
definition TEMPERATURE_THRESHOLD :: nat where "TEMPERATURE_THRESHOLD = 0x04"
definition VOLATILE_WRITE_CACHE :: nat where "VOLATILE_WRITE_CACHE = 0x06"
definition NUMBER_OF_QUEUES :: nat where "NUMBER_OF_QUEUES = 0x07"
definition INTERRUPT_COALESCING :: nat where "INTERRUPT_COALESCING = 0x08"
definition ASYNCHRONOUS_EVENT_CONFIGURATION :: nat where "ASYNCHRONOUS_EVENT_CONFIGURATION = 0x0B"
definition Power_State_Transition :: nat where "Power_State_Transition = 0x0C"
definition Timestamp :: nat where "Timestamp = 0x0E"

definition OPC :: "nvme_command \<Rightarrow> nat" where
  "OPC cmd = unat (bits_at 0 8 (cmdDword cmd 0))"

definition CID :: "nvme_command \<Rightarrow> 16 word" where
  "CID cmd = ucast (bits_at 16 16 (cmdDword cmd 0))"

definition low16 :: "32 word \<Rightarrow> nat" where
  "low16 w = unat (bits_at 0 16 w)"

definition high16 :: "32 word \<Rightarrow> nat" where
  "high16 w = unat (bits_at 16 16 w)"

text \<open>\<^verbatim>\<open>IO_READ_COMMAND_DW12\<close>: the number of blocks, zero-based, and the FUA bit.\<close>

definition NLB :: "32 word \<Rightarrow> nat" where
  "NLB w = low16 w"

definition FUA :: "32 word \<Rightarrow> bool" where
  "FUA w = bit w 30"

text \<open>\<^verbatim>\<open>NVME_COMPLETION\<close>: the status field word, with the status code in the bits 1 to 8, and the specific word.\<close>

record nvme_completion =
  statusFieldWord :: "16 word"
  specific :: "32 word"

definition cpl_ok :: "32 word \<Rightarrow> nvme_completion" where
  "cpl_ok w = \<lparr>statusFieldWord = 0, specific = w\<rparr>"

definition status_SC :: "nat \<Rightarrow> 16 word" where
  "status_SC sc = push_bit 1 (of_nat sc)"

section \<open>I/O commands\<close>

text \<open>The checks on the start address and on the two PRP entries; \<open>align\<close> is the mask of the bits that must be zero.\<close>

definition lba_ok :: "32 word \<Rightarrow> 32 word \<Rightarrow> ssd \<Rightarrow> bool" where
  "lba_ok lo hi s \<longleftrightarrow> lo < storageCapacity s \<and> (hi < STORAGE_CAPACITY_H \<or> hi = 0)"

definition prp_ok :: "32 word \<Rightarrow> nvme_command \<Rightarrow> bool" where
  "prp_ok align cmd \<longleftrightarrow>
     cmdDword cmd 6 AND align = 0 \<and> cmdDword cmd 8 AND align = 0 \<and>
     cmdDword cmd 7 < 0x10000 \<and> cmdDword cmd 9 < 0x10000"

definition handle_nvme_io_read :: "platform \<Rightarrow> nvme_command \<Rightarrow> ssd \<Rightarrow> ssd option" where
  "handle_nvme_io_read p cmd s =
     (let d = cmdDword cmd in
      if lba_ok (d 10) (d 11) s \<and> prp_ok 0x3 cmd
      then ReqTransNvmeToSlice p (cmdSlotTag cmd) (unat (d 10)) (NLB (d 12)) IO_NVM_READ (FUA (d 12)) False s
      else None)"

definition handle_nvme_io_write :: "platform \<Rightarrow> nvme_command \<Rightarrow> ssd \<Rightarrow> ssd option" where
  "handle_nvme_io_write p cmd s =
     (let d = cmdDword cmd in
      if lba_ok (d 10) (d 11) s \<and> prp_ok 0xF cmd
      then ReqTransNvmeToSlice p (cmdSlotTag cmd) (unat (d 10)) (NLB (d 12)) IO_NVM_WRITE (FUA (d 12)) False s
      else None)"

text \<open>The RW command: a write, and a read whose address is in the words 13 to 15.\<close>

definition handle_nvme_io_write_read :: "platform \<Rightarrow> nvme_command \<Rightarrow> ssd \<Rightarrow> ssd option" where
  "handle_nvme_io_write_read p cmd s =
     (let d = cmdDword cmd in
      if lba_ok (d 10) (d 11) s \<and> prp_ok 0xF cmd \<and> d 14 < storageCapacity s then
        do {
          s \<leftarrow> ReqTransNvmeToSlice p (cmdSlotTag cmd) (unat (d 10)) (NLB (d 12)) IO_NVM_WRITE
                 (FUA (d 12)) True s;
          ReqTransNvmeToSlice p (cmdSlotTag cmd) (unat (d 14)) (NLB (d 13)) IO_NVM_READ
            (FUA (d 12)) True s
        }
      else None)"

definition handle_nvme_io_cmd :: "platform \<Rightarrow> nvme_command \<Rightarrow> ssd \<Rightarrow> ssd option" where
  "handle_nvme_io_cmd p cmd s =
     (if OPC cmd = IO_NVM_FLUSH then
        (let c = cpl_ok 0 in
         Some (s\<lparr>io := set_auto_nvme_cpl (cmdSlotTag cmd) (specific c) (statusFieldWord c) (io s)\<rparr>))
      else if OPC cmd = IO_NVM_WRITE then handle_nvme_io_write p cmd s
      else if OPC cmd = IO_NVM_READ then handle_nvme_io_read p cmd s
      else if OPC cmd = IO_NVM_WRITE_READ then handle_nvme_io_write_read p cmd s
      else None)"

section \<open>Identify data\<close>

text \<open>The data structures as images of 4096 bytes; a field is written at its offset, least significant byte first.\<close>

type_synonym image = "nat \<Rightarrow> 8 word"

fun put_bytes :: "nat \<Rightarrow> 8 word list \<Rightarrow> image \<Rightarrow> image" where
  "put_bytes off [] m = m"
| "put_bytes off (b # bs) m = put_bytes (off + 1) bs (m(off := b))"

definition put16 :: "nat \<Rightarrow> 16 word \<Rightarrow> image \<Rightarrow> image" where
  "put16 off w = put_bytes off [ucast w, ucast (drop_bit 8 w)]"

definition put32 :: "nat \<Rightarrow> 32 word \<Rightarrow> image \<Rightarrow> image" where
  "put32 off w = put_bytes off [ucast w, ucast (drop_bit 8 w), ucast (drop_bit 16 w), ucast (drop_bit 24 w)]"

text \<open>A string literal of C with its final zero byte.\<close>

definition c_string :: "string \<Rightarrow> 8 word list" where
  "c_string cs = map (\<lambda>ch. of_nat (of_char ch)) cs @ [0]"

definition PCI_VENDOR_ID :: "16 word" where "PCI_VENDOR_ID = 0x1EDC"
definition PCI_SUBSYSTEM_VENDOR_ID :: "16 word" where "PCI_SUBSYSTEM_VENDOR_ID = 0x1EDC"
definition SERIAL_NUMBER :: string where "SERIAL_NUMBER = ''SSDD515T''"
definition MODEL_NUMBER :: string where "MODEL_NUMBER = ''Cosmos+ OpenSSD''"
definition FIRMWARE_REVISION :: string where "FIRMWARE_REVISION = ''TYPE0005''"

definition MDTS :: "8 word" where "MDTS = 0x8"

definition identify_controller :: image where
  "identify_controller =
     (let m = (\<lambda>i. 0);
          m = put16 0 PCI_VENDOR_ID m;
          m = put16 2 PCI_SUBSYSTEM_VENDOR_ID m;
          m = put_bytes 4 (c_string SERIAL_NUMBER) (put_bytes 4 (replicate 20 0x20) m);
          m = put_bytes 24 (c_string MODEL_NUMBER) (put_bytes 24 (replicate 40 0x20) m);
          m = put_bytes 64 (c_string FIRMWARE_REVISION) (put_bytes 64 (replicate 8 0x20) m);
          m = put_bytes 72 [0x0, 0xE4, 0xD2, 0x5C, 0x0, MDTS] m;
          m = put16 78 0x9 m;
          m = put16 256 0 m;
          m = put_bytes 258 [0x3, 0x3, 0x3, 0x0, 0x8, 0x0, 0x0, 0x0] m;
          m = put_bytes 512 [0x66, 0x44] m;
          m = put32 516 0x1 m;
          m = put16 520 0 (put16 522 0 m);
          m = put_bytes 524 [0x0, 0x1] m;
          m = put16 526 0 (put16 528 0 m);
          m = put_bytes 530 [0x0] m;
          m = put16 532 0 m;
          m = put32 536 0 m
      in put_bytes 2050 (replicate 14 0) (put16 2048 0x09C4 m))"

definition LBADS :: "8 word" where "LBADS = 0xC"

definition identify_namespace :: "32 word \<Rightarrow> image" where
  "identify_namespace capacity =
     (let m = (\<lambda>i. 0);
          m = put32 4 STORAGE_CAPACITY_H (put32 0 capacity m);
          m = put32 12 STORAGE_CAPACITY_H (put32 8 capacity m);
          m = put32 20 STORAGE_CAPACITY_H (put32 16 capacity m);
          m = put_bytes 24 (replicate 8 0) m
      in put_bytes 128 [0x0, 0x0, LBADS, 0x2] m)"

definition write_image :: "nat \<Rightarrow> image \<Rightarrow> io_state \<Rightarrow> io_state" where
  "write_image addr m = fold (\<lambda>i. emit (Dram_Write (addr + i) (m i))) [0..<4096]"

section \<open>Admin commands\<close>

record io_sq_status =
  sqValid :: "8 word"
  cqVector :: "8 word"
  sqSize :: "16 word"
  sqBaseL :: "32 word"
  sqBaseH :: "32 word"

record io_cq_status =
  cqValid :: "8 word"
  irqEn :: "8 word"
  irqVector :: "16 word"
  cqSize :: "16 word"
  cqBaseL :: "32 word"
  cqBaseH :: "32 word"

record nvme_context =
  status :: nvme_task
  cacheEn :: "32 word"
  numOfIOSubmissionQueuesAllocated :: "16 word"
  numOfIOCompletionQueuesAllocated :: "16 word"
  ioSqInfo :: "nat \<Rightarrow> io_sq_status"
  ioCqInfo :: "nat \<Rightarrow> io_cq_status"

definition get_num_of_queue :: "32 word \<Rightarrow> nvme_context \<Rightarrow> 32 word \<times> nvme_context" where
  "get_num_of_queue dword11 g =
     (let NCQR = low16 dword11; NSQR = high16 dword11;
          sq = (if MAX_NUM_OF_IO_SQ \<le> NSQR then of_nat MAX_NUM_OF_IO_SQ else of_nat (NSQR + 1));
          g = g\<lparr>numOfIOSubmissionQueuesAllocated := sq\<rparr>;
          NSQA = numOfIOSubmissionQueuesAllocated g - 1;
          cq = (if MAX_NUM_OF_IO_CQ \<le> NCQR then of_nat MAX_NUM_OF_IO_CQ else of_nat (NCQR + 1));
          g = g\<lparr>numOfIOCompletionQueuesAllocated := cq\<rparr>;
          NCQA = numOfIOCompletionQueuesAllocated g - 1
      in (ucast NCQA OR push_bit 16 (ucast NSQA), g))"

definition handle_set_features ::
  "nvme_command \<Rightarrow> nvme_context \<Rightarrow> (nvme_completion \<times> nvme_context) option" where
  "handle_set_features cmd g =
     (let FID = unat (bits_at 0 8 (cmdDword cmd 10)) in
      if FID = NUMBER_OF_QUEUES then
        (let (w, g) = get_num_of_queue (cmdDword cmd 11) g in Some (cpl_ok w, g))
      else if FID = VOLATILE_WRITE_CACHE then Some (cpl_ok 0, g\<lparr>cacheEn := cmdDword cmd 11 AND 1\<rparr>)
      else if FID = INTERRUPT_COALESCING \<or> FID = ARBITRATION \<or>
              FID = ASYNCHRONOUS_EVENT_CONFIGURATION \<or> FID = POWER_MANAGEMENT \<or> FID = Timestamp
      then Some (cpl_ok 0, g)
      else None)"

definition handle_get_features :: "nvme_command \<Rightarrow> nvme_context \<Rightarrow> nvme_completion option" where
  "handle_get_features cmd g =
     (let FID = unat (bits_at 0 8 (cmdDword cmd 10)) in
      if FID = LBA_RANGE_TYPE then
        if cmdDword cmd 1 = 1
        then Some \<lparr>statusFieldWord = status_SC SC_INVALID_FIELD_IN_COMMAND, specific = 0\<rparr> else None
      else if FID = TEMPERATURE_THRESHOLD then Some (cpl_ok (cmdDword cmd 11))
      else if FID = VOLATILE_WRITE_CACHE then Some (cpl_ok (cacheEn g))
      else if FID = POWER_MANAGEMENT \<or> FID = Power_State_Transition \<or> FID = 0xD0 then Some (cpl_ok 0)
      else None)"

definition handle_create_io_sq ::
  "nvme_command \<Rightarrow> nvme_context \<times> io_state \<Rightarrow> (nvme_completion \<times> nvme_context \<times> io_state) option" where
  "handle_create_io_sq cmd = (\<lambda>(g, i).
     (let d = cmdDword cmd; QID = low16 (d 10); QSIZE = high16 (d 10); CQID = high16 (d 11) in
      if d 6 AND 0x3 = 0 \<and> d 7 < 0x10000 \<and>
         0 < QID \<and> QID \<le> 8 \<and> QSIZE < 0x100 \<and> 0 < CQID \<and> CQID \<le> 8 then
        (let idx = QID - 1;
             q = \<lparr>sqValid = 1, cqVector = of_nat CQID, sqSize = of_nat QSIZE, sqBaseL = d 6, sqBaseH = d 7\<rparr>
         in Some (cpl_ok 0, g\<lparr>ioSqInfo := (ioSqInfo g)(idx := q)\<rparr>,
              set_io_sq idx (ucast (sqValid q)) (ucast (cqVector q)) (ucast (sqSize q)) (sqBaseL q)
                (sqBaseH q) i))
      else None))"

text \<open>
  The queue number of a delete command is not checked by the code; a number outside the table makes
  it write outside the table, which has no outcome in the model.
\<close>

definition handle_delete_io_sq ::
  "nvme_command \<Rightarrow> nvme_context \<times> io_state \<Rightarrow> (nvme_completion \<times> nvme_context \<times> io_state) option" where
  "handle_delete_io_sq cmd = (\<lambda>(g, i).
     (let QID = low16 (cmdDword cmd 10) in
      if 0 < QID \<and> QID \<le> MAX_NUM_OF_IO_SQ then
        (let idx = QID - 1
         in Some (cpl_ok 0, g\<lparr>ioSqInfo := (ioSqInfo g)(idx := \<lparr>sqValid = 0, cqVector = 0, sqSize = 0,
                    sqBaseL = 0, sqBaseH = 0\<rparr>)\<rparr>, set_io_sq idx 0 0 0 0 0 i))
      else None))"

definition handle_create_io_cq ::
  "nvme_command \<Rightarrow> nvme_context \<times> io_state \<Rightarrow> (nvme_completion \<times> nvme_context \<times> io_state) option" where
  "handle_create_io_cq cmd = (\<lambda>(g, i).
     (let d = cmdDword cmd; QID = low16 (d 10); QSIZE = high16 (d 10);
          IEN = bits_at 1 1 (d 11); IV = high16 (d 11) in
      if d 6 AND 0x3 = 0 \<and> d 7 < 0x10000 \<and> IV < 8 \<and> QSIZE < 0x100 \<and> 0 < QID \<and> QID \<le> 8 then
        (let idx = QID - 1;
             q = \<lparr>cqValid = 1, irqEn = ucast IEN, irqVector = of_nat IV, cqSize = of_nat QSIZE,
                  cqBaseL = d 6, cqBaseH = d 7\<rparr>
         in Some (cpl_ok 0, g\<lparr>ioCqInfo := (ioCqInfo g)(idx := q)\<rparr>,
              set_io_cq idx (ucast (cqValid q)) (ucast (irqEn q)) (ucast (irqVector q))
                (ucast (cqSize q)) (cqBaseL q) (cqBaseH q) i))
      else None))"

definition handle_delete_io_cq ::
  "nvme_command \<Rightarrow> nvme_context \<times> io_state \<Rightarrow> (nvme_completion \<times> nvme_context \<times> io_state) option" where
  "handle_delete_io_cq cmd = (\<lambda>(g, i).
     (let QID = low16 (cmdDword cmd 10) in
      if 0 < QID \<and> QID \<le> MAX_NUM_OF_IO_CQ then
        (let idx = QID - 1
         in Some (cpl_ok 0, g\<lparr>ioCqInfo := (ioCqInfo g)(idx := (ioCqInfo g idx)\<lparr>cqValid := 0,
                    irqVector := 0, cqSize := 0, cqBaseL := 0, cqBaseH := 0\<rparr>)\<rparr>,
              set_io_cq idx 0 0 0 0 0 0 i))
      else None))"

definition handle_identify ::
  "platform \<Rightarrow> nvme_command \<Rightarrow> ssd \<Rightarrow> (nvme_completion \<times> ssd) option" where
  "handle_identify p cmd s =
     (let d = cmdDword cmd; m = (if bit (d 10) 0 then identify_controller
                                 else identify_namespace (storageCapacity s)) in
      if d 6 AND 0x3 = 0 \<and> d 8 AND 0x3 = 0 then
        do {
          let i = write_image ADMIN_CMD_DRAM_DATA_BUFFER m (io s);
          let prpLen = 0x1000 - (d 6 AND 0xFFF);
          i \<leftarrow> set_direct_tx_dma (of_nat ADMIN_CMD_DRAM_DATA_BUFFER) (d 7) (d 6) prpLen i;
          i \<leftarrow> (if prpLen \<noteq> 0x1000
               then set_direct_tx_dma (of_nat ADMIN_CMD_DRAM_DATA_BUFFER + prpLen) (d 9) (d 8)
                      (0x1000 - prpLen) i
               else Some i);
          i \<leftarrow> check_direct_tx_dma_done p i;
          Some (cpl_ok 0, s\<lparr>io := i\<rparr>)
        }
      else None)"

definition handle_get_log_page :: "nvme_command \<Rightarrow> nvme_completion" where
  "handle_get_log_page cmd = cpl_ok 0x9"

definition on_io :: "ssd \<Rightarrow> (nvme_completion \<times> nvme_context \<times> io_state) \<Rightarrow>
   nvme_completion \<times> nvme_context \<times> ssd" where
  "on_io s = (\<lambda>(c, g, i). (c, g, s\<lparr>io := i\<rparr>))"

text \<open>How a command is answered: by an automatic completion, by the release of its slot, or by a completion only.\<close>

datatype answer = Auto_Completion | Slot_Release_Only | Completion_Only

definition run_admin_cmd ::
  "platform \<Rightarrow> nvme_command \<Rightarrow> nvme_context \<times> ssd \<Rightarrow>
   (answer \<times> nvme_completion \<times> nvme_context \<times> ssd) option" where
  "run_admin_cmd p cmd = (\<lambda>(g, s).
     (if OPC cmd = ADMIN_SET_FEATURES then
        map_option (\<lambda>(c, g). (Auto_Completion, c, g, s)) (handle_set_features cmd g)
      else if OPC cmd = ADMIN_CREATE_IO_CQ then
        map_option (\<lambda>r. (Auto_Completion, on_io s r)) (handle_create_io_cq cmd (g, io s))
      else if OPC cmd = ADMIN_CREATE_IO_SQ then
        map_option (\<lambda>r. (Auto_Completion, on_io s r)) (handle_create_io_sq cmd (g, io s))
      else if OPC cmd = ADMIN_IDENTIFY then
        map_option (\<lambda>(c, s). (Auto_Completion, c, g, s)) (handle_identify p cmd s)
      else if OPC cmd = ADMIN_GET_FEATURES then
        map_option (\<lambda>c. (Auto_Completion, c, g, s)) (handle_get_features cmd g)
      else if OPC cmd = ADMIN_DELETE_IO_CQ then
        map_option (\<lambda>r. (Auto_Completion, on_io s r)) (handle_delete_io_cq cmd (g, io s))
      else if OPC cmd = ADMIN_DELETE_IO_SQ then
        map_option (\<lambda>r. (Auto_Completion, on_io s r)) (handle_delete_io_sq cmd (g, io s))
      else if OPC cmd = ADMIN_ASYNCHRONOUS_EVENT_REQUEST then Some (Slot_Release_Only, cpl_ok 0, g, s)
      else if OPC cmd = ADMIN_GET_LOG_PAGE then Some (Auto_Completion, handle_get_log_page cmd, g, s)
      else if OPC cmd = ADMIN_SECURITY_RECEIVE \<or> OPC cmd = ADMIN_DOORBELL_BUFFER_CONFIG
      then Some (Completion_Only, cpl_ok 0, g, s)
      else None))"

definition handle_nvme_admin_cmd ::
  "platform \<Rightarrow> nvme_command \<Rightarrow> nvme_context \<times> ssd \<Rightarrow> (nvme_context \<times> ssd) option" where
  "handle_nvme_admin_cmd p cmd st =
     do {
       (a, c, g, s) \<leftarrow> run_admin_cmd p cmd st;
       Some (g, s\<lparr>io := (case a of
           Auto_Completion \<Rightarrow> set_auto_nvme_cpl (cmdSlotTag cmd) (specific c) (statusFieldWord c) (io s)
         | Slot_Release_Only \<Rightarrow> set_nvme_slot_release (cmdSlotTag cmd) (io s)
         | Completion_Only \<Rightarrow> set_nvme_cpl (qID cmd) (CID cmd) (specific c) (statusFieldWord c) (io s))\<rparr>)
     }"

end
