(* ===== verification/Nvme_Main.thy ===== *)
theory Nvme_Main
  imports Nvme_Cmd
begin

text \<open>
  The main loop of the firmware, \<^verbatim>\<open>nvme/nvme_main.c\<close>, one iteration of it as a function, and the
  interrupt handler as a second kind of step that may come between two iterations; and the memory
  attributes that \<^verbatim>\<open>main.c\<close> sets.
\<close>

section \<open>One iteration of the main loop\<close>

record main_state =
  g_nvmeTask :: nvme_context
  rstCnt :: "32 word"
  ssd_of :: ssd

definition set_status :: "nvme_task \<Rightarrow> nvme_context \<Rightarrow> nvme_context" where
  "set_status t g = g\<lparr>status := t\<rparr>"

abbreviation on_dev :: "(io_state \<Rightarrow> io_state) \<Rightarrow> ssd \<Rightarrow> ssd" where
  "on_dev f \<equiv> io_update f"

definition close_queues :: "io_state \<Rightarrow> io_state" where
  "close_queues = fold (\<lambda>q i. set_io_sq q 0 0 0 0 0 (set_io_cq q 0 0 0 0 0 0 i)) [0..<8]"

definition main_wait_cc_en :: "platform \<Rightarrow> main_state \<Rightarrow> main_state" where
  "main_wait_cc_en p m =
     (let (ccEn, i) = check_nvme_cc_en p (io (ssd_of m)) in
      if ccEn
      then m\<lparr>ssd_of := (ssd_of m)\<lparr>io := set_nvme_csts_rdy p 1 (set_nvme_admin_queue p 1 1 1 i)\<rparr>,
             g_nvmeTask := set_status NVME_TASK_RUNNING (g_nvmeTask m)\<rparr>
      else m\<lparr>ssd_of := (ssd_of m)\<lparr>io := i\<rparr>\<rparr>)"

text \<open>The second component is \<^verbatim>\<open>exeLlr\<close>: no low level round follows an I/O command.\<close>

definition main_running :: "platform \<Rightarrow> main_state \<Rightarrow> (main_state \<times> bool) option" where
  "main_running p m =
     (let (cmd, i) = get_nvme_cmd p (io (ssd_of m)); s = (ssd_of m)\<lparr>io := i\<rparr> in
      case cmd of
        None \<Rightarrow> Some (m\<lparr>ssd_of := s\<rparr>, True)
      | Some c \<Rightarrow>
          if qID c = 0 then
            map_option (\<lambda>(g, s). (m\<lparr>rstCnt := 0, g_nvmeTask := g, ssd_of := s\<rparr>, True))
              (handle_nvme_admin_cmd p c (g_nvmeTask m, s))
          else
            do {
              s \<leftarrow> handle_nvme_io_cmd p c s;
              s \<leftarrow> ReqTransSliceToLowLevel p s;
              Some (m\<lparr>rstCnt := 0, ssd_of := s\<rparr>, False)
            })"

definition main_shutdown :: "platform \<Rightarrow> main_state \<Rightarrow> main_state option" where
  "main_shutdown p m =
     (let (nvmeReg, i) = IO_READ32 p NVME_STATUS_REG_ADDR (io (ssd_of m)) in
      if bits_at 1 2 nvmeReg \<noteq> 0 then
        (let i = set_nvme_csts_shst p 1 i;
             i = close_queues i;
             i = set_nvme_admin_queue p 0 0 0 i;
             i = set_nvme_csts_shst p 2 i;
             g = (g_nvmeTask m)\<lparr>cacheEn := 0, status := NVME_TASK_WAIT_RESET\<rparr>
         in do {
              s \<leftarrow> UpdateBadBlockTableForGrownBadBlock p (RESERVED_DATA_BUFFER_BASE_ADDR p)
                     ((ssd_of m)\<lparr>io := i\<rparr>);
              Some (m\<lparr>g_nvmeTask := g, ssd_of := s\<rparr>)
            })
      else Some (m\<lparr>ssd_of := (ssd_of m)\<lparr>io := i\<rparr>\<rparr>))"

definition main_wait_reset :: "platform \<Rightarrow> main_state \<Rightarrow> main_state" where
  "main_wait_reset p m =
     (let (ccEn, i) = check_nvme_cc_en p (io (ssd_of m)) in
      if \<not> ccEn
      then m\<lparr>ssd_of := (ssd_of m)\<lparr>io := set_nvme_csts_rdy p 0 (set_nvme_csts_shst p 0 i)\<rparr>,
             g_nvmeTask := (g_nvmeTask m)\<lparr>cacheEn := 0, status := NVME_TASK_IDLE\<rparr>\<rparr>
      else m\<lparr>ssd_of := (ssd_of m)\<lparr>io := i\<rparr>\<rparr>)"

definition main_reset :: "platform \<Rightarrow> main_state \<Rightarrow> main_state" where
  "main_reset p m =
     (let i = close_queues (io (ssd_of m));
          (cnt, i) = (if 5 \<le> rstCnt m then (0, pcie_async_reset (rstCnt m) i) else (rstCnt m + 1, i));
          i = set_nvme_admin_queue p 0 0 0 i;
          i = set_nvme_csts_shst p 0 i;
          i = set_nvme_csts_rdy p 0 i
      in m\<lparr>rstCnt := cnt, ssd_of := (ssd_of m)\<lparr>io := i\<rparr>,
           g_nvmeTask := (g_nvmeTask m)\<lparr>cacheEn := 0, status := NVME_TASK_IDLE\<rparr>\<rparr>)"

definition low_level_pending :: "ssd \<Rightarrow> bool" where
  "low_level_pending s \<longleftrightarrow>
     headReq (nvmeDmaReqQ (rq s)) \<noteq> REQ_SLOT_TAG_NONE \<or> headReq (customCmdQ (rq s)) \<noteq> REQ_SLOT_TAG_NONE \<or>
     notCompletedNandReqCnt (rq s) \<noteq> 0 \<or> blockedReqCnt (rq s) \<noteq> 0"

definition main_task :: "platform \<Rightarrow> main_state \<Rightarrow> (main_state \<times> bool) option" where
  "main_task p m =
     (case status (g_nvmeTask m) of
        NVME_TASK_WAIT_CC_EN \<Rightarrow> Some (main_wait_cc_en p m, True)
      | NVME_TASK_RUNNING \<Rightarrow> main_running p m
      | NVME_TASK_SHUTDOWN \<Rightarrow> map_option (\<lambda>m. (m, True)) (main_shutdown p m)
      | NVME_TASK_WAIT_RESET \<Rightarrow> Some (main_wait_reset p m, True)
      | NVME_TASK_RESET \<Rightarrow> Some (main_reset p m, True)
      | NVME_TASK_IDLE \<Rightarrow> Some (m, True))"

definition main_iteration :: "platform \<Rightarrow> main_state \<Rightarrow> main_state option" where
  "main_iteration p m =
     do {
       (m, exeLlr) \<leftarrow> main_task p m;
       (if exeLlr \<and> low_level_pending (ssd_of m)
        then map_option (\<lambda>s. m\<lparr>ssd_of := s\<rparr>) (low_level_round p (ssd_of m))
        else Some m)
     }"

text \<open>The interrupt handler, on the state of the main loop.\<close>

definition main_irq :: "platform \<Rightarrow> main_state \<Rightarrow> main_state" where
  "main_irq p m =
     (let (t, i) = dev_irq_handler p (status (g_nvmeTask m), io (ssd_of m))
      in m\<lparr>g_nvmeTask := set_status t (g_nvmeTask m), ssd_of := (ssd_of m)\<lparr>io := i\<rparr>\<rparr>)"

text \<open>The firmware as a transition system.\<close>

inductive main_step :: "platform \<Rightarrow> main_state \<Rightarrow> main_state \<Rightarrow> bool" for p where
  Iteration: "main_iteration p m = Some m' \<Longrightarrow> main_step p m m'"
| Interrupt: "main_step p m (main_irq p m)"

definition nvme_main_start ::
  "platform \<Rightarrow> nat \<Rightarrow> (nat \<Rightarrow> nat) \<Rightarrow> char \<Rightarrow> nvme_context \<Rightarrow> (nat \<Rightarrow> nat option) \<times> ssd \<Rightarrow>
   main_state option" where
  "nvme_main_start p connected nsc_base inbyte g st =
     do {
       (regs, s) \<leftarrow> InitFTL p connected nsc_base inbyte st;
       Some \<lparr>g_nvmeTask = g, rstCnt = 0, ssd_of = s\<rparr>
     }"

section \<open>Memory attributes\<close>

datatype mem_attr = Cached_Buffered | Uncached_Nonbuffered

text \<open>The attribute of the megabyte \<open>u\<close> of the address space.\<close>

definition tlb_attributes :: "nat \<Rightarrow> mem_attr" where
  "tlb_attributes u =
     (if u < 0x2 then Cached_Buffered
      else if u < 0x180 then Uncached_Nonbuffered
      else if u < 0x400 then Cached_Buffered
      else Uncached_Nonbuffered)"

end
