(* ===== verification/Dma_Progress.thy ===== *)
theory Dma_Progress
  imports Device_Io
begin

text \<open>
  The bookkeeping of the automatic transfers. The driver counts what it has queued with an eight
  bit tail and a count of its wrap-arounds, and sees what the engine has carried out only as
  an eight bit counter. The theorems relate these to the numbers of transfers queued and carried
  out since start-up: the check of partial completion answers exactly whether the engine has
  reached a recorded position, and queueing never overruns the engine's queue.
\<close>

section \<open>Positions modulo 256\<close>

lemma unat_of_nat8: "unat (of_nat n :: 8 word) = n mod 256"
  by (simp add: unat_of_nat)

lemma next_unat8:
  "(unat (of_nat N :: 8 word) + 1) mod 256 = unat (of_nat H :: 8 word) \<longleftrightarrow>
     Suc N mod 256 = H mod 256"
  unfolding unat_of_nat8 by (simp only: Suc_eq_plus1 [symmetric] mod_Suc_eq)

lemma succ_residue_iff:
  fixes H N :: nat
  assumes "H \<le> N" and "N - H \<le> 255"
  shows "Suc N mod 256 = H mod 256 \<longleftrightarrow> N - H = 255"
proof -
  have "Suc N mod 256 = H mod 256 \<longleftrightarrow> 256 dvd Suc (N - H)"
    using mod_eq_dvd_iff_nat [of H "Suc N" 256] assms(1) by (simp only: Suc_diff_le le_SucI)
  also have "\<dots> \<longleftrightarrow> Suc (N - H) = 256"
    using assms(2) dvd_imp_le [of 256 "Suc (N - H)"] by fastforce
  finally show ?thesis by linarith
qed

lemma succ_wraps_iff: "(of_nat N :: 8 word) + 1 < of_nat N \<longleftrightarrow> N mod 256 = 255"
proof -
  have "(of_nat N :: 8 word) + 1 = of_nat (Suc N)" by simp
  then have "(of_nat N :: 8 word) + 1 < of_nat N \<longleftrightarrow> Suc N mod 256 < N mod 256"
    unfolding word_less_nat_alt by (simp only: unat_of_nat8)
  then show ?thesis unfolding mod_Suc by (auto split: if_splits)
qed

lemma of_nat_eq32_iff:
  assumes "a \<le> b" and "b - a < 2 ^ 32"
  shows "(of_nat b :: 32 word) = of_nat a \<longleftrightarrow> b = a"
proof -
  have "(of_nat b :: 32 word) = of_nat a + of_nat (b - a)"
    using assms(1) by (simp flip: of_nat_add)
  then show ?thesis using assms word_counter_zero_iff [of "b - a", where 'a=32] by auto
qed

lemma le_by_quotient:
  fixes a b :: nat
  shows "a \<le> b \<longleftrightarrow>
    a div 256 < b div 256 \<or> (a div 256 = b div 256 \<and> a mod 256 \<le> b mod 256)"
proof -
  have "a = 256 * (a div 256) + a mod 256" and "b = 256 * (b div 256) + b mod 256"
    and "a mod 256 < 256" and "b mod 256 < 256" by simp_all
  then show ?thesis by linarith
qed

lemma near_quotients:
  fixes H N :: nat
  assumes "H \<le> N" and "N - H \<le> 255"
  shows "(N div 256 = H div 256 \<and> H mod 256 \<le> N mod 256) \<or>
         (N div 256 = Suc (H div 256) \<and> N mod 256 < H mod 256)"
proof -
  have "H = 256 * (H div 256) + H mod 256" and "N = 256 * (N div 256) + N mod 256"
    and "H mod 256 < 256" and "N mod 256 < 256" by simp_all
  then show ?thesis using assms by linarith
qed

text \<open>
  The decision on the residues alone: \<open>H\<close> transfers carried out, \<open>N\<close> queued, \<open>T\<close> the recorded
  position.
\<close>

lemma position_reached_iff:
  fixes H N T :: nat
  assumes "H \<le> N" and "N - H \<le> 255" and "T \<le> N"
  shows "(if H mod 256 = N mod 256 then True
          else if H mod 256 < T mod 256 then
            if N mod 256 < T mod 256 then
              if H mod 256 < N mod 256 then True else N div 256 \<noteq> T div 256 + 1
            else N div 256 \<noteq> T div 256
          else if H mod 256 = T mod 256 then True
          else if N mod 256 < T mod 256 then True
          else if H mod 256 < N mod 256 then True
          else N div 256 \<noteq> T div 256) \<longleftrightarrow> T \<le> H"
  using near_quotients [OF assms(1,2)] assms(3) unfolding le_by_quotient [of T]
  by (elim disjE conjE; simp; linarith)

lemma dma_partial_done_iff:
  assumes "H \<le> N" and "N - H \<le> 255" and "T \<le> N" and "N - T < 2 ^ 39"
  shows "dma_partial_done (of_nat H) (of_nat N) (of_nat (N div 256)) (of_nat T) (of_nat (T div 256))
           \<longleftrightarrow> T \<le> H"
proof -
  have q: "T div 256 \<le> N div 256" using assms(3) by (rule div_le_mono)
  have "N \<le> T + 256 * (2 ^ 31)" using assms(3,4) by simp
  then have "N div 256 \<le> (T + 256 * 2 ^ 31) div 256" by (rule div_le_mono)
  then have d: "N div 256 - T div 256 < 2 ^ 32" by simp
  have e0: "(of_nat (N div 256) :: 32 word) = of_nat (T div 256) \<longleftrightarrow> N div 256 = T div 256"
    using of_nat_eq32_iff [OF q d] .
  have e1: "(of_nat (N div 256) :: 32 word) = of_nat (T div 256) + 1 \<longleftrightarrow>
      N div 256 = T div 256 + 1" if "T div 256 + 1 \<le> N div 256"
    using of_nat_eq32_iff [OF that] d by (simp add: add.commute)
  have lt: "T div 256 + 1 \<le> N div 256" if "N mod 256 < T mod 256"
    using le_by_quotient [of T N] assms(3) that by simp
  show ?thesis
    unfolding position_reached_iff [OF assms(1-3), symmetric] dma_partial_done_def
    using e0 e1 lt by (simp add: word_less_nat_alt word_unat_eq_iff unat_of_nat8 cong: if_cong)
qed

section \<open>Reading the counters\<close>

text \<open>The counters of the engine at an instant.\<close>

definition fifo_at :: "platform \<Rightarrow> nat \<Rightarrow> fifo_cnt" where
  "fifo_at p k =
     (let w = obs_reg (obs p k) HOST_DMA_FIFO_CNT_REG_ADDR in
      \<lparr>directDmaRx = ucast w, directDmaTx = ucast (drop_bit 8 w),
       autoDmaRx = ucast (drop_bit 16 w), autoDmaTx = ucast (drop_bit 24 w)\<rparr>)"

lemma read_fifo_cnt_at: "read_fifo_cnt p s = s\<lparr>fifoHead := fifo_at p (clk s), clk := Suc (clk s)\<rparr>"
  by (simp add: read_fifo_cnt_def IO_READ32_def fifo_at_def now_def tick_def Let_def)

lemma read_fifo_cnt_funpow:
  "(read_fifo_cnt p ^^ Suc j) s =
     s\<lparr>fifoHead := fifo_at p (clk s + j), clk := Suc (clk s + j)\<rparr>"
  by (induction j) (simp_all add: read_fifo_cnt_at)

text \<open>
  A polling loop ends at the first instant at which its condition fails, and changes only the
  copy of the engine's counters and the clock.
\<close>

lemma poll_after_read:
  assumes "\<not> busy (s\<lparr>fifoHead := fifo_at p k, clk := Suc k\<rparr>)" and "clk s \<le> k"
  obtains k' where "clk s \<le> k'" and "k' \<le> k"
    and "poll_fifo_cnt p busy (read_fifo_cnt p s) =
           Some (s\<lparr>fifoHead := fifo_at p k', clk := Suc k'\<rparr>)"
    and "\<not> busy (s\<lparr>fifoHead := fifo_at p k', clk := Suc k'\<rparr>)"
proof -
  let ?at = "\<lambda>j. s\<lparr>fifoHead := fifo_at p (clk s + j), clk := Suc (clk s + j)\<rparr>"
  have at: "(read_fifo_cnt p ^^ j) (read_fifo_cnt p s) = ?at j" for j
    using read_fifo_cnt_funpow [of j p s] by (simp add: funpow_swap1)
  have ex: "\<not> busy (?at (k - clk s))" using assms by simp
  define j where "j = (LEAST j. \<not> busy (?at j))"
  have j: "\<not> busy (?at j)" "j \<le> k - clk s"
    unfolding j_def using LeastI [of "\<lambda>j. \<not> busy (?at j)", OF ex]
      Least_le [of "\<lambda>j. \<not> busy (?at j)", OF ex] by blast+
  have "poll_fifo_cnt p busy (read_fifo_cnt p s) = Some (?at j)"
    unfolding poll_fifo_cnt_def while_option_def at using ex by (auto simp: j_def)
  then show ?thesis using that [of "clk s + j"] j assms(2) by simp
qed

section \<open>The driver follows the engine\<close>

text \<open>\<open>N\<close> transfers of a direction have been queued.\<close>

definition tx_queued :: "nat \<Rightarrow> io_state \<Rightarrow> bool" where
  "tx_queued N s \<longleftrightarrow>
     autoDmaTx (fifoTail s) = of_nat N \<and> autoDmaTxOverFlowCnt s = of_nat (N div 256)"

definition rx_queued :: "nat \<Rightarrow> io_state \<Rightarrow> bool" where
  "rx_queued N s \<longleftrightarrow>
     autoDmaRx (fifoTail s) = of_nat N \<and> autoDmaRxOverFlowCnt s = of_nat (N div 256)"

text \<open>
  C33. The check of partial completion is right although the engine shows only eight bits: when
  \<open>N\<close> transfers were queued and \<open>H\<close> carried out, at most 255 are under way, and \<open>T\<close> transfers had
  been queued when the tail was recorded, the answer is yes exactly when all of those have been
  carried out. The recorded position may be up to \<open>2 ^ 39\<close> transfers old. Both directions.
\<close>

theorem check_auto_dma_partial_done_correct:
  assumes "H \<le> N" and "N - H \<le> 255" and "T \<le> N" and "N - T < 2 ^ 39"
  shows "(tx_queued N s \<and> autoDmaTx (fifo_at p (clk s)) = of_nat H \<longrightarrow>
            (fst (check_auto_tx_dma_partial_done p (of_nat T) (of_nat (T div 256)) s) \<longleftrightarrow> T \<le> H)) \<and>
         (rx_queued N s \<and> autoDmaRx (fifo_at p (clk s)) = of_nat H \<longrightarrow>
            (fst (check_auto_rx_dma_partial_done p (of_nat T) (of_nat (T div 256)) s) \<longleftrightarrow> T \<le> H))"
  using dma_partial_done_iff [OF assms]
  by (auto simp: tx_queued_def rx_queued_def check_auto_tx_dma_partial_done_def
      check_auto_rx_dma_partial_done_def read_fifo_cnt_at)

text \<open>A driver that has queued 300 transfers each way, before an engine that has done 260 and 299.\<close>

definition engine_260_299 :: platform where
  "engine_260_299 =
     \<lparr>USER_CHANNELS = 1, USER_WAYS = 1, USER_BLOCKS_PER_LUN = 142, BITS_PER_FLASH_CELL = 1,
      obs = (\<lambda>k. \<lparr>obs_xtime = 0, obs_reg = (\<lambda>a. 0x042B0000), obs_controller_busy = (\<lambda>ch. 0),
        obs_ready_busy = (\<lambda>ch. 0), obs_complete_flag = (\<lambda>ch way. 0), obs_status_report = (\<lambda>ch way. 0),
        obs_error_info = (\<lambda>ch way i. 0), obs_dram = (\<lambda>a. 0)\<rparr>)\<rparr>"

definition driver_300 :: io_state where
  "driver_300 =
     \<lparr>fifoHead = \<lparr>directDmaRx = 0, directDmaTx = 0, autoDmaRx = 0, autoDmaTx = 0\<rparr>,
      fifoTail = \<lparr>directDmaRx = 0, directDmaTx = 0, autoDmaRx = 44, autoDmaTx = 44\<rparr>,
      directDmaTxCnt = 0, directDmaRxCnt = 0, autoDmaTxCnt = 300, autoDmaRxCnt = 300,
      autoDmaTxOverFlowCnt = 1, autoDmaRxOverFlowCnt = 1, clk = 0, out = []\<rparr>"

lemma driver_300_queued: "tx_queued 300 driver_300" "rx_queued 300 driver_300"
  by (simp_all add: tx_queued_def rx_queued_def driver_300_def)

lemma engine_260_299_at:
  "autoDmaTx (fifo_at engine_260_299 k) = 4" "autoDmaRx (fifo_at engine_260_299 k) = 43"
  by (simp_all add: fifo_at_def engine_260_299_def)

theorem check_auto_dma_partial_done_correct_witness:
  "fst (check_auto_tx_dma_partial_done engine_260_299 255 0 driver_300) \<and>
   \<not> fst (check_auto_tx_dma_partial_done engine_260_299 (of_nat 262) 1 driver_300)"
  using check_auto_dma_partial_done_correct [of 260 300 255 driver_300 engine_260_299]
    check_auto_dma_partial_done_correct [of 260 300 262 driver_300 engine_260_299]
    driver_300_queued engine_260_299_at by simp

text \<open>
  Waiting for room in the queue of a direction, \<open>f\<close>: if there is room at some instant from now on, the
  wait ends, and at that instant the queue takes one more transfer without being overrun.
\<close>

lemma poll_room:
  fixes f :: "fifo_cnt \<Rightarrow> 8 word"
  assumes "f (fifoTail s) = of_nat N" and "clk s \<le> k"
    and "f (fifo_at p k) = of_nat H" and "H \<le> N" and "N - H < 255"
  obtains k' where "clk s \<le> k'" and "k' \<le> k"
    and "poll_fifo_cnt p (\<lambda>s. (unat (f (fifoTail s)) + 1) mod 256 = unat (f (fifoHead s))) (read_fifo_cnt p s) =
           Some (s\<lparr>fifoHead := fifo_at p k', clk := Suc k'\<rparr>)"
    and "\<And>H'. \<lbrakk>H' \<le> N; N - H' \<le> 255; f (fifo_at p k') = of_nat H'\<rbrakk> \<Longrightarrow> Suc N - H' \<le> 255"
proof -
  let ?busy = "\<lambda>s. (unat (f (fifoTail s)) + 1) mod 256 = unat (f (fifoHead s))"
  have full: "?busy (s\<lparr>fifoHead := fifo_at p i, clk := Suc i\<rparr>) \<longleftrightarrow> Suc N mod 256 = H' mod 256"
    if "f (fifo_at p i) = of_nat H'" for i H'
    using assms(1) that next_unat8 [of N H'] by simp
  have "\<not> ?busy (s\<lparr>fifoHead := fifo_at p k, clk := Suc k\<rparr>)"
    using full [OF assms(3)] succ_residue_iff [of H N] assms(4,5) by simp
  from poll_after_read [where busy = ?busy, OF this assms(2)] obtain k' where k': "clk s \<le> k'" "k' \<le> k"
    and poll: "poll_fifo_cnt p ?busy (read_fifo_cnt p s) =
                 Some (s\<lparr>fifoHead := fifo_at p k', clk := Suc k'\<rparr>)"
    and room: "\<not> ?busy (s\<lparr>fifoHead := fifo_at p k', clk := Suc k'\<rparr>)" .
  have "Suc N - H' \<le> 255"
    if "H' \<le> N" "N - H' \<le> 255" "f (fifo_at p k') = of_nat H'" for H'
    using full [OF that(3)] succ_residue_iff [OF that(1,2)] room that(1,2) by linarith
  then show ?thesis using that k' poll by blast
qed

lemma div_256_Suc: "Suc N div 256 = (if N mod 256 = 255 then Suc (N div 256) else N div 256)"
  unfolding div_Suc mod_Suc by simp

lemma set_auto_tx_dma_room:
  assumes "tx_queued N s" and "off < 256" and "clk s \<le> k"
    and "autoDmaTx (fifo_at p k) = of_nat H" and "H \<le> N" and "N - H < 255"
  shows "\<exists>s' k'. set_auto_tx_dma p slot off addr cpl s = Some s' \<and> tx_queued (Suc N) s' \<and>
           out s' = out s @ [Auto_Dma HOST_DMA_TX_DIRECTION (of_nat slot) (of_nat off) addr cpl] \<and>
           clk s \<le> k' \<and> k' \<le> k \<and>
           (\<forall>H'. H' \<le> N \<and> N - H' \<le> 255 \<and> autoDmaTx (fifo_at p k') = of_nat H' \<longrightarrow> Suc N - H' \<le> 255)"
proof -
  have "autoDmaTx (fifoTail s) = of_nat N" using assms(1) by (simp add: tx_queued_def)
  from poll_room [of autoDmaTx, OF this assms(3-6)] obtain k' where k': "clk s \<le> k'" "k' \<le> k"
    and poll: "poll_fifo_cnt p (\<lambda>s. (unat (autoDmaTx (fifoTail s)) + 1) mod 256 = unat (autoDmaTx (fifoHead s)))
      (read_fifo_cnt p s) = Some (s\<lparr>fifoHead := fifo_at p k', clk := Suc k'\<rparr>)"
    and over: "\<And>H'. \<lbrakk>H' \<le> N; N - H' \<le> 255; autoDmaTx (fifo_at p k') = of_nat H'\<rbrakk> \<Longrightarrow> Suc N - H' \<le> 255" by blast
  show ?thesis
    using k' poll assms(1,2) over succ_wraps_iff [of N] div_256_Suc [of N]
    by (auto simp: set_auto_tx_dma_def emit_def tx_queued_def Let_def)
qed

lemma set_auto_rx_dma_room:
  assumes "rx_queued N s" and "off < 256" and "clk s \<le> k"
    and "autoDmaRx (fifo_at p k) = of_nat H" and "H \<le> N" and "N - H < 255"
  shows "\<exists>s' k'. set_auto_rx_dma p slot off addr cpl s = Some s' \<and> rx_queued (Suc N) s' \<and>
           out s' = out s @ [Auto_Dma HOST_DMA_RX_DIRECTION (of_nat slot) (of_nat off) addr cpl] \<and>
           clk s \<le> k' \<and> k' \<le> k \<and>
           (\<forall>H'. H' \<le> N \<and> N - H' \<le> 255 \<and> autoDmaRx (fifo_at p k') = of_nat H' \<longrightarrow> Suc N - H' \<le> 255)"
proof -
  have "autoDmaRx (fifoTail s) = of_nat N" using assms(1) by (simp add: rx_queued_def)
  from poll_room [of autoDmaRx, OF this assms(3-6)] obtain k' where k': "clk s \<le> k'" "k' \<le> k"
    and poll: "poll_fifo_cnt p (\<lambda>s. (unat (autoDmaRx (fifoTail s)) + 1) mod 256 = unat (autoDmaRx (fifoHead s)))
      (read_fifo_cnt p s) = Some (s\<lparr>fifoHead := fifo_at p k', clk := Suc k'\<rparr>)"
    and over: "\<And>H'. \<lbrakk>H' \<le> N; N - H' \<le> 255; autoDmaRx (fifo_at p k') = of_nat H'\<rbrakk> \<Longrightarrow> Suc N - H' \<le> 255" by blast
  show ?thesis
    using k' poll assms(1,2) over succ_wraps_iff [of N] div_256_Suc [of N]
    by (auto simp: set_auto_rx_dma_def emit_def rx_queued_def Let_def)
qed



end
