(* ===== verification/Dma_Issue.thy ===== *)
theory Dma_Issue
  imports Nvme_Cmd Dma_Progress
begin

text \<open>
  What \<^verbatim>\<open>IssueNvmeDmaReq\<close> of \<^verbatim>\<open>request_schedule.c\<close> writes to the DMA engine, and that it returns: the
  blocks of a request become one engine command each, in order; the read of an RW command waits for
  its write; and a command within the advertised transfer size never trips the range check of the
  engine's driver.
\<close>

section \<open>The commands of a request\<close>

definition dma_commands ::
  "dma_direction \<Rightarrow> nat \<Rightarrow> nat \<Rightarrow> nat \<Rightarrow> nat \<Rightarrow> bool \<Rightarrow> device_write list" where
  "dma_commands dir slot idx a n auto =
     map (\<lambda>k. Auto_Dma dir (of_nat slot) (of_nat (idx + k)) (of_nat (a + k * BYTES_PER_NVME_BLOCK)) auto) [0..<n]"

lemma dma_commands_simps [simp]:
  "dma_commands dir slot idx a 0 auto = []"
  "dma_commands dir slot idx a (Suc n) auto =
     Auto_Dma dir (of_nat slot) (of_nat idx) (of_nat a) auto #
     dma_commands dir slot (Suc idx) (a + BYTES_PER_NVME_BLOCK) n auto"
  unfolding dma_commands_def upt_conv_Cons [OF zero_less_Suc]
  by (simp_all add: map_Suc_upt [symmetric] algebra_simps del: upt_Suc)

lemma poll_fifo_cnt_frame:
  assumes "poll_fifo_cnt p busy s = Some s'"
  shows "out s' = out s" and "fifoTail s' = fifoTail s"
proof -
  have "out s' = out s \<and> fifoTail s' = fifoTail s"
    using assms unfolding poll_fifo_cnt_def
    by (rule while_option_rule [where P = "\<lambda>i. out i = out s \<and> fifoTail i = fifoTail s", rotated])
      (simp_all add: read_fifo_cnt_at)
  then show "out s' = out s" and "fifoTail s' = fifoTail s" by simp_all
qed

lemma set_auto_dma_emits:
  "set_auto_rx_dma p slot off a cpl i = Some i' \<Longrightarrow> off < 256 \<and>
     out i' = out i @ [Auto_Dma HOST_DMA_RX_DIRECTION (of_nat slot) (of_nat off) a cpl]"
  "set_auto_tx_dma p slot off a cpl i = Some i' \<Longrightarrow> off < 256 \<and>
     out i' = out i @ [Auto_Dma HOST_DMA_TX_DIRECTION (of_nat slot) (of_nat off) a cpl]"
  by (auto simp: set_auto_rx_dma_def set_auto_tx_dma_def emit_def Let_def read_fifo_cnt_at
      elim!: bind_SomeE split: if_splits dest!: poll_fifo_cnt_frame(1))

text \<open>Marking the request: only the request itself and the counters of its slot change.\<close>

lemma mark_issued_simps [simp]:
  "io (mark_issued_rx t s) = io s" "io (mark_issued_tx t s) = io s"
  "issuedFlag (nvmeDmaInfo (req (mark_issued_rx t s) t))"
  "issuedFlag (nvmeDmaInfo (req (mark_issued_tx t s) t))"
  "nvmeCmdSlotTag (req (mark_issued_rx t s) t) = nvmeCmdSlotTag (req s t)"
  "nvmeCmdSlotTag (req (mark_issued_tx t s) t) = nvmeCmdSlotTag (req s t)"
  "ropt (mark_issued_rx t s) t = ropt s t" "ropt (mark_issued_tx t s) t = ropt s t"
  by (auto simp: mark_issued_rx_def mark_issued_tx_def set_issued_def IssuedRxforCustomIoCmd_def
      IssuedTxforCustomIoCmd_def Let_def split: prod.splits)

lemma issue_rx_blocks_emits:
  assumes "issue_rx_blocks p t n idx a s = Some s'"
  shows "out (io s') = out (io s) @
      dma_commands HOST_DMA_RX_DIRECTION (nvmeCmdSlotTag (req s t)) idx a n (\<not> customCmd (ropt s t)) \<and>
    (0 < n \<longrightarrow> idx + n \<le> 256 \<and> issuedFlag (nvmeDmaInfo (req s' t)))"
  using assms
proof (induction n arbitrary: idx a s)
  case (Suc n)
  from Suc.prems obtain i where i: "set_auto_rx_dma p (nvmeCmdSlotTag (req s t)) idx (of_nat a)
      (\<not> customCmd (ropt s t)) (io s) = Some i"
    and rest: "issue_rx_blocks p t n (Suc idx) (a + BYTES_PER_NVME_BLOCK)
      (if n = 0 then mark_issued_rx t (s\<lparr>io := i\<rparr>) else s\<lparr>io := i\<rparr>) = Some s'"
    by (auto simp: Let_def elim!: bind_SomeE)
  show ?case
    using set_auto_dma_emits(1) [OF i] Suc.IH [OF rest] rest by (cases "n = 0") auto
qed simp

lemma issue_tx_blocks_emits:
  assumes "issue_tx_blocks p t n idx a s = Some (s', all)" and "0 < n"
  shows "if customCmd (ropt s t) \<and> notCompletedRxCount (cct s (nvmeCmdSlotTag (req s t))) \<noteq> 0
    then s' = s \<and> \<not> all
    else all \<and> out (io s') = out (io s) @
      dma_commands HOST_DMA_TX_DIRECTION (nvmeCmdSlotTag (req s t)) idx a n (\<not> customCmd (ropt s t)) \<and>
      idx + n \<le> 256 \<and> issuedFlag (nvmeDmaInfo (req s' t))"
  using assms
proof (induction n arbitrary: idx a s)
  case (Suc n)
  show ?case
  proof (cases "customCmd (ropt s t) \<and> notCompletedRxCount (cct s (nvmeCmdSlotTag (req s t))) \<noteq> 0")
    case False
    then obtain i where i: "set_auto_tx_dma p (nvmeCmdSlotTag (req s t)) idx (of_nat a)
        (\<not> customCmd (ropt s t)) (io s) = Some i"
      and rest: "issue_tx_blocks p t n (Suc idx) (a + BYTES_PER_NVME_BLOCK)
        (if n = 0 then mark_issued_tx t (s\<lparr>io := i\<rparr>) else s\<lparr>io := i\<rparr>) = Some (s', all)"
      using Suc.prems(1) by (auto simp: Let_def elim!: bind_SomeE)
    show ?thesis
      using False set_auto_dma_emits(2) [OF i] Suc.IH [OF rest] rest by (cases "n = 0") auto
  qed (use Suc.prems(1) in auto)
qed simp

section \<open>The engine takes them\<close>

text \<open>
  The engine keeps up with \<open>n\<close> more transfers of a direction: for each of them, from any instant on,
  it will at some time have carried out enough of the ones before.
\<close>

definition keeps_up :: "(fifo_cnt \<Rightarrow> 8 word) \<Rightarrow> platform \<Rightarrow> nat \<Rightarrow> nat \<Rightarrow> bool" where
  "keeps_up f p N n \<longleftrightarrow>
     (\<forall>i < n. \<forall>k. \<exists>k' H. k \<le> k' \<and> f (fifo_at p k') = of_nat H \<and> H \<le> N + i \<and> N + i - H < 255)"

lemma keeps_up_Suc:
  "keeps_up f p N (Suc n) \<longleftrightarrow>
     (\<forall>k. \<exists>k' H. k \<le> k' \<and> f (fifo_at p k') = of_nat H \<and> H \<le> N \<and> N - H < 255) \<and>
     keeps_up f p (Suc N) n"
  by (simp add: keeps_up_def All_less_Suc2)

lemma issue_rx_blocks_returns:
  assumes "rx_queued N (io s)" and "keeps_up autoDmaRx p N n" and "idx + n \<le> 256"
  shows "issue_rx_blocks p t n idx a s \<noteq> None"
  using assms
proof (induction n arbitrary: N idx a s)
  case (Suc n)
  obtain k H where "clk (io s) \<le> k" "autoDmaRx (fifo_at p k) = of_nat H" "H \<le> N" "N - H < 255"
    using Suc.prems(2) unfolding keeps_up_Suc by blast
  moreover have "idx < 256" using Suc.prems(3) by simp
  ultimately obtain i where i: "set_auto_rx_dma p (nvmeCmdSlotTag (req s t)) idx (of_nat a) (\<not> customCmd (ropt s t)) (io s)
      = Some i" "rx_queued (Suc N) i"
    using set_auto_rx_dma_room [OF Suc.prems(1)] by blast
  have "issue_rx_blocks p t n (Suc idx) (a + BYTES_PER_NVME_BLOCK)
      (if n = 0 then mark_issued_rx t (s\<lparr>io := i\<rparr>) else s\<lparr>io := i\<rparr>) \<noteq> None"
    using Suc.prems i(2) by (intro Suc.IH [of "Suc N"]) (auto simp: keeps_up_Suc)
  then show ?case using i(1) by (simp add: Let_def)
qed simp

lemma issue_tx_blocks_returns:
  assumes "tx_queued N (io s)" and "keeps_up autoDmaTx p N n" and "idx + n \<le> 256"
  shows "issue_tx_blocks p t n idx a s \<noteq> None"
  using assms
proof (induction n arbitrary: N idx a s)
  case (Suc n)
  obtain k H where "clk (io s) \<le> k" "autoDmaTx (fifo_at p k) = of_nat H" "H \<le> N" "N - H < 255"
    using Suc.prems(2) unfolding keeps_up_Suc by blast
  moreover have "idx < 256" using Suc.prems(3) by simp
  ultimately obtain i where i: "set_auto_tx_dma p (nvmeCmdSlotTag (req s t)) idx (of_nat a) (\<not> customCmd (ropt s t)) (io s)
      = Some i" "tx_queued (Suc N) i"
    using set_auto_tx_dma_room [OF Suc.prems(1)] by blast
  have "issue_tx_blocks p t n (Suc idx) (a + BYTES_PER_NVME_BLOCK)
      (if n = 0 then mark_issued_tx t (s\<lparr>io := i\<rparr>) else s\<lparr>io := i\<rparr>) \<noteq> None"
    using Suc.prems i(2) by (intro Suc.IH [of "Suc N"]) (auto simp: keeps_up_Suc)
  then show ?case using i(1) by (auto simp: Let_def)
qed simp

section \<open>Commands within the transfer size\<close>

lemma nvme_slices_index:
  assumes "(lsa, idx, offs, n) \<in> set (nvme_slices lba nlb)" and "nlb + 1 < 2 ^ 32"
  shows "idx + n \<le> nlb + 1" and "0 < n"
proof -
  note cover = nvme_slices_blocks [OF assms(2), of lba]
  show n: "0 < n" using cover assms(1) by auto
  have "(idx + (n - 1), lsa * 4 + offs + (n - 1)) \<in> set (part_blocks (lsa, idx, offs, n))"
    using n by (auto simp: blocks_def intro!: image_eqI [of _ _ "n - 1"])
  then have "(idx + (n - 1), lsa * 4 + offs + (n - 1)) \<in> set (blocks 0 lba (nlb + 1))"
    unfolding conjunct1 [OF cover, symmetric] using assms(1) by force
  then show "idx + n \<le> nlb + 1" using n by (auto simp: blocks_def)
qed

text \<open>Two blocks for the host, before an engine at rest.\<close>

definition two_blocks :: ssd where
  "two_blocks = blank_ssd\<lparr>rq := no_requests\<lparr>reqPool := (\<lambda>t. no_request\<lparr>reqType := REQ_TYPE_NVME_DMA,
     reqCode := REQ_CODE_TxDMA, nvmeCmdSlotTag := 5,
     reqOpt := (reqOpt no_request)\<lparr>dataBufFormat := REQ_OPT_DATA_BUF_ENTRY\<rparr>,
     nvmeDmaInfo := (nvmeDmaInfo no_request)\<lparr>nvmeBlockOffset := 2, numOfNvmeBlock := 2\<rparr>\<rparr>)\<rparr>\<rparr>"

lemma two_blocks_simps [simp]:
  "req two_blocks t = no_request\<lparr>reqType := REQ_TYPE_NVME_DMA, reqCode := REQ_CODE_TxDMA, nvmeCmdSlotTag := 5,
     reqOpt := (reqOpt no_request)\<lparr>dataBufFormat := REQ_OPT_DATA_BUF_ENTRY\<rparr>,
     nvmeDmaInfo := (nvmeDmaInfo no_request)\<lparr>nvmeBlockOffset := 2, numOfNvmeBlock := 2\<rparr>\<rparr>"
  "io two_blocks = quiet_io"
  by (simp_all add: two_blocks_def blank_ssd_def)

lemma quiet_engine:
  "tx_queued 0 quiet_io" "keeps_up autoDmaTx (small_platform (\<lambda>k. quiet)) 0 2"
proof -
  have "autoDmaTx (fifo_at (small_platform (\<lambda>k. quiet)) k) = of_nat 0" for k
    by (simp add: fifo_at_def small_platform_def quiet_def Let_def)
  then show "keeps_up autoDmaTx (small_platform (\<lambda>k. quiet)) 0 2"
    unfolding keeps_up_def by (intro allI impI exI conjI) (rule order_refl | assumption | simp)+
qed (simp add: tx_queued_def quiet_io_def)

lemma two_blocks_address:
  "GenerateDataBufAddr c two_blocks t = Some (DATA_BUFFER_BASE_ADDR + 2 * BYTES_PER_NVME_BLOCK)"
  by (simp add: GenerateDataBufAddr_def no_request_def)

text \<open>
  C7. Issuing a host transfer. Whenever \<^verbatim>\<open>IssueNvmeDmaReq\<close> returns, for a request of at least one
  block: if the request is the read of an RW command whose write data have not all arrived, nothing at
  all happens, so the host buffer that the two share is not overwritten early. Otherwise the engine
  got one command for each block, in order, between the blocks of the host command from the start index of the
  request on and the buffer entry of the request from its block offset on, with the completion left to the engine
  exactly for ordinary commands; no offset exceeded the range of the engine, and the request is marked as issued.
\<close>

theorem IssueNvmeDmaReq_transfers:
  assumes "IssueNvmeDmaReq p t s = Some s'" and "0 < numOfNvmeBlock (nvmeDmaInfo (req s t))"
  shows "\<exists>a. GenerateDataBufAddr p s t = Some a \<and>
    (if reqCode (req s t) = REQ_CODE_TxDMA \<and> customCmd (ropt s t) \<and>
        notCompletedRxCount (cct s (nvmeCmdSlotTag (req s t))) \<noteq> 0
     then s' = s
     else out (io s') = out (io s) @
       dma_commands (if reqCode (req s t) = REQ_CODE_RxDMA then HOST_DMA_RX_DIRECTION else HOST_DMA_TX_DIRECTION)
         (nvmeCmdSlotTag (req s t)) (startIndex (nvmeDmaInfo (req s t))) a
         (numOfNvmeBlock (nvmeDmaInfo (req s t))) (\<not> customCmd (ropt s t)) \<and>
       startIndex (nvmeDmaInfo (req s t)) + numOfNvmeBlock (nvmeDmaInfo (req s t)) \<le> 256 \<and>
       issuedFlag (nvmeDmaInfo (req s' t)))"
proof -
  obtain a where a: "GenerateDataBufAddr p s t = Some a"
    using assms(1) by (auto simp: IssueNvmeDmaReq_def Let_def elim!: bind_SomeE)
  consider (rx) "reqCode (req s t) = REQ_CODE_RxDMA" | (tx) "reqCode (req s t) = REQ_CODE_TxDMA"
    using assms(1) by (auto simp: IssueNvmeDmaReq_def Let_def elim!: bind_SomeE split: if_splits)
  then show ?thesis
  proof cases
    case rx
    then obtain s1 where "issue_rx_blocks p t (numOfNvmeBlock (nvmeDmaInfo (req s t)))
        (startIndex (nvmeDmaInfo (req s t))) a s = Some s1"
      and "s' = on_rq (set_req_tail t (autoDmaRx (fifoTail (io s1))) (autoDmaRxOverFlowCnt (io s1))) s1"
      using assms(1) a by (auto simp: IssueNvmeDmaReq_def Let_def elim!: bind_SomeE)
    then show ?thesis using issue_rx_blocks_emits assms(2) rx a by (auto simp: set_req_tail_def)
  next
    case tx
    then obtain s1 all where blk: "issue_tx_blocks p t (numOfNvmeBlock (nvmeDmaInfo (req s t)))
        (startIndex (nvmeDmaInfo (req s t))) a s = Some (s1, all)"
      and "s' = (if all then on_rq (set_req_tail t (autoDmaTx (fifoTail (io s1)))
                   (autoDmaTxOverFlowCnt (io s1))) s1 else s1)"
      using assms(1) a by (auto simp: IssueNvmeDmaReq_def Let_def elim!: bind_SomeE)
    with blk show ?thesis
      using issue_tx_blocks_emits [OF blk assms(2)] tx a
      by (auto simp: set_req_tail_def split: if_splits)
  qed
qed

theorem IssueNvmeDmaReq_transfers_witness:
  "\<exists>s'. IssueNvmeDmaReq (small_platform (\<lambda>k. quiet)) 0 two_blocks = Some s' \<and>
     out (io s') = [Auto_Dma HOST_DMA_TX_DIRECTION 5 0 0x10002000 True,
                    Auto_Dma HOST_DMA_TX_DIRECTION 5 1 0x10003000 True]"
proof -
  let ?p = "small_platform (\<lambda>k. quiet)"
  have "issue_tx_blocks ?p 0 2 0 (DATA_BUFFER_BASE_ADDR + 2 * BYTES_PER_NVME_BLOCK) two_blocks \<noteq> None"
    using quiet_engine by (intro issue_tx_blocks_returns [where N = 0]) simp_all
  then obtain s' where s': "IssueNvmeDmaReq ?p 0 two_blocks = Some s'"
    by (auto simp: IssueNvmeDmaReq_def Let_def two_blocks_address no_request_def)
  from IssueNvmeDmaReq_transfers [OF this] show ?thesis
    using s' by (auto simp: two_blocks_address no_request_def quiet_io_def numeral_2_eq_2
        DATA_BUFFER_BASE_ADDR_def BYTES_PER_NVME_BLOCK_def)
qed

text \<open>
  C20. A host command within the transfer size that the controller advertises (\<^verbatim>\<open>MDTS\<close>, 256 blocks) can be
  transferred: for each slice request of the command, when the engine keeps up with the blocks of the request,
  the issue of its transfers returns; the assertion on the block offset in the engine's driver never fails.
\<close>

theorem IssueNvmeDmaReq_returns:
  assumes "nlb + 1 \<le> 2 ^ unat MDTS" and "(lsa, idx, offs, n) \<in> set (nvme_slices lba nlb)"
    and "startIndex (nvmeDmaInfo (req s t)) = u16 idx" and "numOfNvmeBlock (nvmeDmaInfo (req s t)) = u16 n"
    and "reqType (req s t) = REQ_TYPE_NVME_DMA" and "dataBufFormat (ropt s t) = REQ_OPT_DATA_BUF_ENTRY"
    and "reqCode (req s t) = REQ_CODE_RxDMA \<and> rx_queued N (io s) \<and> keeps_up autoDmaRx p N n \<or>
         reqCode (req s t) = REQ_CODE_TxDMA \<and> tx_queued N (io s) \<and> keeps_up autoDmaTx p N n"
  shows "\<exists>s'. IssueNvmeDmaReq p t s = Some s'"
proof -
  have mdts: "nlb + 1 \<le> 256" using assms(1) by (simp add: MDTS_def)
  then have idx: "idx + n \<le> 256" using nvme_slices_index [OF assms(2)] by simp
  then have u: "u16 idx = idx" "u16 n = n" by simp_all
  obtain a where a: "GenerateDataBufAddr p s t = Some a"
    using assms(5,6) by (simp add: GenerateDataBufAddr_def Let_def)
  show ?thesis
    using assms(7) issue_rx_blocks_returns [of N s p n idx t a] issue_tx_blocks_returns [of N s p n idx t a] idx
    by (auto simp: IssueNvmeDmaReq_def Let_def a assms(3,4) u)
qed

theorem IssueNvmeDmaReq_returns_witness:
  "\<exists>s'. IssueNvmeDmaReq (small_platform (\<lambda>k. quiet)) 0 two_blocks = Some s'"
  by (rule IssueNvmeDmaReq_returns [of 4 1 0 2 2 6 two_blocks 0 0])
    (simp_all add: MDTS_def nvme_slices_def no_request_def quiet_engine)

end
