(* ===== verification/Nvme_Theorems.thy ===== *)
theory Nvme_Theorems
  imports Nvme_Main Dma_Issue
begin

text \<open>
  The runs of the main loop with interrupts between its iterations, and the answers to admin
  commands.
\<close>

section \<open>Runs of the main loop\<close>

abbreviation task :: "main_state \<Rightarrow> nvme_task" where
  "task m \<equiv> status (g_nvmeTask m)"

inductive_cases main_stepE: "main_step p m m'"

definition cc_en :: "platform \<Rightarrow> main_state \<Rightarrow> bool" where
  "cc_en p m \<longleftrightarrow> bit (obs_reg (now p (io (ssd_of m))) NVME_STATUS_REG_ADDR) 0"

lemma admin_cmd_status:
  assumes "handle_nvme_admin_cmd p c (g, s) = Some (g', s')"
  shows "status g' = status g"
  using assms
  by (auto simp: handle_nvme_admin_cmd_def run_admin_cmd_def handle_set_features_def get_num_of_queue_def
      handle_create_io_cq_def handle_create_io_sq_def handle_delete_io_cq_def handle_delete_io_sq_def
      on_io_def Let_def elim!: bind_SomeE split: if_splits)

lemma main_running_task: "main_running p m = Some (m', b) \<Longrightarrow> task m' = task m"
  by (auto simp: main_running_def Let_def elim!: bind_SomeE dest!: admin_cmd_status
      split: option.splits prod.splits if_splits)

text \<open>The task after an iteration is decided by the task before it and two bits of the controller's status.\<close>

lemma main_task_next:
  assumes "main_task p m = Some (m', b)"
  shows "task m' = (case task m of
      NVME_TASK_WAIT_CC_EN \<Rightarrow> if cc_en p m then NVME_TASK_RUNNING else NVME_TASK_WAIT_CC_EN
    | NVME_TASK_SHUTDOWN \<Rightarrow>
        if bits_at 1 2 (obs_reg (now p (io (ssd_of m))) NVME_STATUS_REG_ADDR) \<noteq> 0
        then NVME_TASK_WAIT_RESET else NVME_TASK_SHUTDOWN
    | NVME_TASK_WAIT_RESET \<Rightarrow> if cc_en p m then NVME_TASK_WAIT_RESET else NVME_TASK_IDLE
    | NVME_TASK_RESET \<Rightarrow> NVME_TASK_IDLE
    | t \<Rightarrow> t)"
  using assms main_running_task [of p m m' b]
  by (auto simp: main_task_def main_wait_cc_en_def main_shutdown_def main_wait_reset_def main_reset_def
      check_nvme_cc_en_def IO_READ32_def cc_en_def set_status_def Let_def elim!: bind_SomeE
      split: nvme_task.splits if_splits prod.splits)

lemma main_iteration_task:
  assumes "main_iteration p m = Some m'"
  obtains m1 b where "main_task p m = Some (m1, b)" and "task m' = task m1"
  using assms by (auto simp: main_iteration_def elim!: bind_SomeE split: if_splits)

lemma dev_irq_task:
  "fst (dev_irq_handler p (t, i)) \<in> {t, NVME_TASK_RESET, NVME_TASK_WAIT_CC_EN, NVME_TASK_SHUTDOWN}"
  by (simp add: dev_irq_handler_def IO_READ32_def Let_def split_def del: fold_simps)

lemma main_irq_task:
  "task (main_irq p m) \<in> {task m, NVME_TASK_RESET, NVME_TASK_WAIT_CC_EN, NVME_TASK_SHUTDOWN}"
  using dev_irq_task [of p "task m" "io (ssd_of m)"]
  by (auto simp: main_irq_def set_status_def split: prod.splits)

lemma running_entered:
  assumes "main_step p m m'" and "task m' = NVME_TASK_RUNNING" and "task m \<noteq> NVME_TASK_RUNNING"
  shows "main_iteration p m = Some m'" and "task m = NVME_TASK_WAIT_CC_EN" and "cc_en p m"
proof -
  from assms(1) have "main_iteration p m = Some m' \<and> task m = NVME_TASK_WAIT_CC_EN \<and> cc_en p m"
  proof (rule main_stepE)
    assume it: "main_iteration p m = Some m'"
    then obtain m1 b where m1: "main_task p m = Some (m1, b)" "task m' = task m1"
      by (rule main_iteration_task)
    show ?thesis using main_task_next [OF m1(1)] m1(2) assms(2,3) it
      by (auto split: nvme_task.splits if_splits)
  next
    assume "m' = main_irq p m"
    then show ?thesis using main_irq_task [of p m] assms(2,3) by auto
  qed
  then show "main_iteration p m = Some m'" and "task m = NVME_TASK_WAIT_CC_EN" and "cc_en p m" by simp_all
qed

text \<open>The writes with which the controller reports that it is ready: the admin queues are switched on before.\<close>

definition enable_writes :: "platform \<Rightarrow> main_state \<Rightarrow> device_write list" where
  "enable_writes p m =
     (let k = clk (io (ssd_of m)) in
      [Reg_Write NVME_ADMIN_QUEUE_SET_REG_ADDR (set_bits_at 2 1 1 (set_bits_at 0 1 1 (set_bits_at 1 1 1
         (obs_reg (obs p (k + 1)) NVME_ADMIN_QUEUE_SET_REG_ADDR)))),
       Reg_Write NVME_STATUS_REG_ADDR (set_bits_at 4 1 1 (obs_reg (obs p (k + 2)) NVME_STATUS_REG_ADDR))])"

lemma main_task_enables:
  assumes "task m = NVME_TASK_WAIT_CC_EN" and "cc_en p m"
  shows "\<exists>m1. main_task p m = Some (m1, True) \<and> task m1 = NVME_TASK_RUNNING \<and>
    out (io (ssd_of m1)) = out (io (ssd_of m)) @ enable_writes p m"
  using assms
  by (simp add: main_task_def main_wait_cc_en_def check_nvme_cc_en_def IO_READ32_def cc_en_def set_status_def
      set_nvme_csts_rdy_def set_nvme_admin_queue_def IO_WRITE32_def emit_def tick_def now_def enable_writes_def
      Let_def)

text \<open>A step that starts and ends with the task running.\<close>

definition stays_running :: "platform \<Rightarrow> main_state \<Rightarrow> main_state \<Rightarrow> bool" where
  "stays_running p m m' \<longleftrightarrow> main_step p m m' \<and> task m = NVME_TASK_RUNNING \<and> task m' = NVME_TASK_RUNNING"

text \<open>A controller that the host has enabled, and a main loop that waits for it.\<close>

definition enabled_platform :: platform where
  "enabled_platform = small_platform (\<lambda>k. quiet\<lparr>obs_reg := (\<lambda>a. if a = NVME_STATUS_REG_ADDR then 1 else 0)\<rparr>)"

definition no_context :: nvme_context where
  "no_context = \<lparr>status = NVME_TASK_WAIT_CC_EN, cacheEn = 0, numOfIOSubmissionQueuesAllocated = 0,
     numOfIOCompletionQueuesAllocated = 0,
     ioSqInfo = (\<lambda>q. \<lparr>sqValid = 0, cqVector = 0, sqSize = 0, sqBaseL = 0, sqBaseH = 0\<rparr>),
     ioCqInfo = (\<lambda>q. \<lparr>cqValid = 0, irqEn = 0, irqVector = 0, cqSize = 0, cqBaseL = 0, cqBaseH = 0\<rparr>)\<rparr>"

definition waiting_main :: main_state where
  "waiting_main = \<lparr>g_nvmeTask = no_context, rstCnt = 0, ssd_of = blank_ssd\<rparr>"

text \<open>
  C22. Commands are fetched only from an enabled controller. In every run of the main loop, with interrupts
  anywhere between its iterations, that comes from a state in which the task is not running to one in which
  it is, there is an iteration that found \<^verbatim>\<open>CC.EN\<close> set while waiting for it, switched the admin queues
  on and then reported the controller ready; and since that iteration the task has been running.
\<close>

theorem running_after_enable:
  assumes "(main_step p)\<^sup>*\<^sup>* m0 m" and "task m0 \<noteq> NVME_TASK_RUNNING" and "task m = NVME_TASK_RUNNING"
  shows "\<exists>m1 mt m2. (main_step p)\<^sup>*\<^sup>* m0 m1 \<and> task m1 = NVME_TASK_WAIT_CC_EN \<and> cc_en p m1 \<and>
    main_task p m1 = Some (mt, True) \<and>
    out (io (ssd_of mt)) = out (io (ssd_of m1)) @ enable_writes p m1 \<and>
    main_iteration p m1 = Some m2 \<and> task m2 = NVME_TASK_RUNNING \<and> (stays_running p)\<^sup>*\<^sup>* m2 m"
  using assms
proof (induction rule: rtranclp_induct)
  case (step y z)
  show ?case
  proof (cases "task y = NVME_TASK_RUNNING")
    case True
    then have "stays_running p y z" using step by (simp add: stays_running_def)
    with step.IH [OF step.prems(1) True] show ?thesis by (meson rtranclp.rtrancl_into_rtrancl)
  next
    case False
    note e = running_entered [OF step.hyps(2) step.prems(2) False]
    show ?thesis using main_task_enables [OF e(2,3)] e step.hyps(1) step.prems(2) by blast
  qed
qed simp

theorem running_after_enable_witness:
  "\<exists>m. (main_step enabled_platform)\<^sup>*\<^sup>* waiting_main m \<and> task m = NVME_TASK_RUNNING \<and>
     (\<exists>m1 (mt :: main_state) m2. (main_step enabled_platform)\<^sup>*\<^sup>* waiting_main m1 \<and> cc_en enabled_platform m1 \<and>
        out (io (ssd_of mt)) = out (io (ssd_of m1)) @ enable_writes enabled_platform m1 \<and>
        (stays_running enabled_platform)\<^sup>*\<^sup>* m2 m)"
proof -
  have w: "task waiting_main = NVME_TASK_WAIT_CC_EN" by (simp add: waiting_main_def no_context_def)
  have "cc_en enabled_platform waiting_main"
    by (simp add: cc_en_def now_def enabled_platform_def small_platform_def)
  from main_task_enables [OF w this] obtain m where m: "main_task enabled_platform waiting_main = Some (m, True)"
    "task m = NVME_TASK_RUNNING" by blast
  have "rq (ssd_of m) = no_requests"
    using m(1) w by (auto simp: main_task_def main_wait_cc_en_def waiting_main_def blank_ssd_def
        split: prod.splits if_splits)
  then have "\<not> low_level_pending (ssd_of m)"
    by (simp add: low_level_pending_def no_requests_def empty_queue_def)
  then have "main_step enabled_platform waiting_main m"
    using m(1) by (intro main_step.Iteration) (simp add: main_iteration_def)
  then have run: "(main_step enabled_platform)\<^sup>*\<^sup>* waiting_main m" by simp
  have "task waiting_main \<noteq> NVME_TASK_RUNNING" using w by simp
  from running_after_enable [OF run this m(2)] show ?thesis
    by (elim exE conjE) (intro exI conjI, rule run, rule m(2), assumption+)
qed

section \<open>Answers to admin commands\<close>

fun is_answer :: "device_write \<Rightarrow> bool" where
  "is_answer (Auto_Cpl slot w st) = True"
| "is_answer (Slot_Release slot) = True"
| "is_answer (Only_Cpl cid q w st) = True"
| "is_answer _ = False"

lemma write_image_answers: "filter is_answer (out (write_image a m i)) = filter is_answer (out i)"
proof -
  have "filter is_answer (out (fold (\<lambda>i. emit (Dram_Write (a + i) (m i))) xs i)) = filter is_answer (out i)" for xs
    by (induction xs arbitrary: i) (simp_all add: emit_def)
  then show ?thesis by (simp add: write_image_def)
qed

lemma handle_identify_answers:
  assumes "handle_identify p cmd s = Some (c, s')"
  shows "filter is_answer (out (io s')) = filter is_answer (out (io s))" and "statusFieldWord c = 0"
  using assms
  by (auto simp: handle_identify_def Let_def set_direct_tx_dma_def emit_def check_direct_tx_dma_done_def
      write_image_answers cpl_ok_def elim!: bind_SomeE split: if_splits dest!: poll_fifo_cnt_frame(1))

text \<open>The one word that answers a command that the controller supports.\<close>

definition admin_answer :: "nvme_command \<Rightarrow> nvme_completion \<Rightarrow> device_write" where
  "admin_answer cmd c =
     (if OPC cmd = ADMIN_ASYNCHRONOUS_EVENT_REQUEST then Slot_Release (of_nat (cmdSlotTag cmd))
      else if OPC cmd = ADMIN_SECURITY_RECEIVE \<or> OPC cmd = ADMIN_DOORBELL_BUFFER_CONFIG
      then Only_Cpl (CID cmd) (qID cmd) (specific c) (statusFieldWord c)
      else Auto_Cpl (of_nat (cmdSlotTag cmd)) (specific c) (statusFieldWord c))"

lemma run_admin_cmd_answers:
  assumes "run_admin_cmd p cmd (g, s) = Some (a, c, g', s')"
  shows "filter is_answer (out (io s')) = filter is_answer (out (io s))"
    and "a = (if OPC cmd = ADMIN_ASYNCHRONOUS_EVENT_REQUEST then Slot_Release_Only
              else if OPC cmd = ADMIN_SECURITY_RECEIVE \<or> OPC cmd = ADMIN_DOORBELL_BUFFER_CONFIG
              then Completion_Only else Auto_Completion)"
    and "statusFieldWord c \<in> {0, status_SC SC_INVALID_FIELD_IN_COMMAND}"
proof -
  note admin_opcodes = ADMIN_DELETE_IO_SQ_def ADMIN_CREATE_IO_SQ_def ADMIN_GET_LOG_PAGE_def
    ADMIN_DELETE_IO_CQ_def ADMIN_CREATE_IO_CQ_def ADMIN_IDENTIFY_def ADMIN_SET_FEATURES_def
    ADMIN_GET_FEATURES_def ADMIN_ASYNCHRONOUS_EVENT_REQUEST_def ADMIN_DOORBELL_BUFFER_CONFIG_def
    ADMIN_SECURITY_RECEIVE_def
  show "filter is_answer (out (io s')) = filter is_answer (out (io s))"
    using assms
    by (auto simp: run_admin_cmd_def on_io_def handle_create_io_cq_def handle_create_io_sq_def
        handle_delete_io_cq_def handle_delete_io_sq_def set_io_cq_def set_io_sq_def emit_def Let_def
        dest!: handle_identify_answers(1) split: if_splits)
  show "a = (if OPC cmd = ADMIN_ASYNCHRONOUS_EVENT_REQUEST then Slot_Release_Only
              else if OPC cmd = ADMIN_SECURITY_RECEIVE \<or> OPC cmd = ADMIN_DOORBELL_BUFFER_CONFIG
              then Completion_Only else Auto_Completion)"
    using assms by (auto simp: run_admin_cmd_def on_io_def admin_opcodes split: if_splits)
  show "statusFieldWord c \<in> {0, status_SC SC_INVALID_FIELD_IN_COMMAND}"
    using assms
    by (auto simp: run_admin_cmd_def on_io_def handle_create_io_cq_def handle_create_io_sq_def
        handle_delete_io_cq_def handle_delete_io_sq_def handle_set_features_def get_num_of_queue_def
        handle_get_features_def handle_get_log_page_def cpl_ok_def Let_def
        dest!: handle_identify_answers(2) split: if_splits)
qed

text \<open>
  C9. Every admin command that is carried out is answered exactly once, and nothing else is: the answers
  that the controller gets are the ones from before and then one for this command, which names its slot, or its
  queue and command identifier for the two commands that are completed without releasing the slot, or
  only releases the slot of a request for asynchronous events. The status in the answer is success or the code for an
  invalid field, and the task of the main loop is not changed.
\<close>

theorem admin_cmd_answered_once:
  assumes "handle_nvme_admin_cmd p cmd (g, s) = Some (g', s')"
  shows "\<exists>c. filter is_answer (out (io s')) = filter is_answer (out (io s)) @ [admin_answer cmd c] \<and>
    statusFieldWord c \<in> {0, status_SC SC_INVALID_FIELD_IN_COMMAND} \<and> status g' = status g"
proof -
  obtain a c s1 where r: "run_admin_cmd p cmd (g, s) = Some (a, c, g', s1)"
    and s': "s' = s1\<lparr>io := (case a of
           Auto_Completion \<Rightarrow> set_auto_nvme_cpl (cmdSlotTag cmd) (specific c) (statusFieldWord c) (io s1)
         | Slot_Release_Only \<Rightarrow> set_nvme_slot_release (cmdSlotTag cmd) (io s1)
         | Completion_Only \<Rightarrow> set_nvme_cpl (qID cmd) (CID cmd) (specific c) (statusFieldWord c) (io s1))\<rparr>"
    using assms by (auto simp: handle_nvme_admin_cmd_def elim!: bind_SomeE)
  show ?thesis
    using run_admin_cmd_answers [OF r] admin_cmd_status [OF assms]
    by (auto simp: s' admin_answer_def set_auto_nvme_cpl_def set_nvme_slot_release_def set_nvme_cpl_def emit_def)
qed

definition get_cache_cmd :: nvme_command where
  "get_cache_cmd = \<lparr>qID = 0, cmdSlotTag = 3, cmdSeqNum = 0,
     cmdDword = (\<lambda>i. if i = 0 then 0x0A else if i = 10 then 0x06 else 0)\<rparr>"

theorem admin_cmd_answered_once_witness:
  "\<exists>g' s'. handle_nvme_admin_cmd enabled_platform get_cache_cmd (no_context, blank_ssd) = Some (g', s') \<and>
     length (filter is_answer (out (io s'))) = 1"
proof -
  have "run_admin_cmd enabled_platform get_cache_cmd (no_context, blank_ssd) =
      Some (Auto_Completion, cpl_ok 0, no_context, blank_ssd)"
    by (simp add: run_admin_cmd_def get_cache_cmd_def OPC_def bits_at_def handle_get_features_def
        ADMIN_CREATE_IO_CQ_def ADMIN_CREATE_IO_SQ_def ADMIN_IDENTIFY_def ADMIN_SET_FEATURES_def
        ADMIN_GET_FEATURES_def LBA_RANGE_TYPE_def TEMPERATURE_THRESHOLD_def VOLATILE_WRITE_CACHE_def
        no_context_def)
  then obtain g' s' where r: "handle_nvme_admin_cmd enabled_platform get_cache_cmd (no_context, blank_ssd) = Some (g', s')"
    by (simp add: handle_nvme_admin_cmd_def)
  from admin_cmd_answered_once [OF r] r show ?thesis by (auto simp: blank_ssd_def quiet_io_def)
qed

end
