(* ===== verification/Buffer_Coherence.thy ===== *)
theory Buffer_Coherence
  imports Request_Transform
begin

text \<open>
  The two buffers together. The data buffer and the read buffer are looked up one after the other,
  and a miss in both decides by the kind of the request which one gets the slice. The invariant is
  that no slice is ever in both: then a write finds the only copy there is, and a read sees it.
\<close>

section \<open>The shape of a buffer\<close>

text \<open>What lookups and replacement depend on: the links and the slices, not the dirty bits or the ends of chains.\<close>

definition buf_shape :: "data_buf \<Rightarrow> nat links \<times> (nat \<Rightarrow> nat links) \<times> (nat \<Rightarrow> nat)" where
  "buf_shape b = (lru_view b, hash_view b, lsa_of b)"

lemma buf_shape_upd [simp]:
  "buf_shape (upd_buf e (\<lambda>r. r\<lparr>blockingReqTail := t\<rparr>) b) = buf_shape b"
  "buf_shape (upd_buf e (\<lambda>r. r\<lparr>dirty := d\<rparr>) b) = buf_shape b"
  by (auto simp: buf_shape_def lru_view_def hash_view_def fun_eq_iff)

lemma buf_inv_shape: "buf_shape b' = buf_shape b \<Longrightarrow> buf_inv n b L D \<Longrightarrow> buf_inv n b' L D"
  by (rule buf_inv_payload) (auto simp: buf_shape_def fun_eq_iff)

lemma cached_shape: "buf_shape b' = buf_shape b \<Longrightarrow> cached n b' D = cached n b D"
proof -
  assume "buf_shape b' = buf_shape b"
  then have "lsa_of b' e = lsa_of b e" for e by (auto simp: buf_shape_def fun_eq_iff)
  then show ?thesis by (simp add: cached_def listed_def)
qed

lemma hash_put_shape:
  assumes "buf_shape b' = buf_shape b"
  shows "buf_shape (hash_put n e (set_lsa e l b')) = buf_shape (hash_put n e (set_lsa e l b))"
proof -
  have "tailEntry (dataBufHash b' h) = tailEntry (dataBufHash b h)"
    "headEntry (dataBufHash b' h) = headEntry (dataBufHash b h)" for h
    using assms by (auto simp: buf_shape_def hash_view_def fun_eq_iff)
  moreover have "lruList b' = lruList b" using assms by (simp add: buf_shape_def lru_view_def)
  moreover have "prevEntry (dataBuf b' x) = prevEntry (dataBuf b x)"
    "nextEntry (dataBuf b' x) = nextEntry (dataBuf b x)"
    "hashPrevEntry (dataBuf b' x) = hashPrevEntry (dataBuf b x)"
    "hashNextEntry (dataBuf b' x) = hashNextEntry (dataBuf b x)" "lsa_of b' x = lsa_of b x" for x
    using assms by (auto simp: buf_shape_def hash_view_def lru_view_def fun_eq_iff)
  ultimately show ?thesis
    by (auto simp: buf_shape_def lru_view_def hash_view_def hash_put_def Let_def set_lsa_def fun_eq_iff)
qed

section \<open>Views that ignore the dirty bits and the address maps\<close>

locale buffer_view = low_level_view v for v :: "ssd \<Rightarrow> 'v" +
  assumes v_am [simp]: "v (s\<lparr>am := m\<rparr>) = v s"
    and v_dirty_db [simp]: "db s = b \<Longrightarrow> v (s\<lparr>db := upd_buf e (\<lambda>r. r\<lparr>dirty := d\<rparr>) b\<rparr>) = v s"
    and v_dirty_cb [simp]: "cb s = b \<Longrightarrow> v (s\<lparr>cb := upd_buf e (\<lambda>r. r\<lparr>dirty := d\<rparr>) b\<rparr>) = v s"
begin

lemma fill_req_view [simp]: "v (fill_req t f s) = v s"
  by (simp add: fill_req_def)

lemma EraseBlock_view: "EraseBlock p d b s = Some s' \<Longrightarrow> v s' = v s"
  by (auto simp: EraseBlock_def Let_def elim!: bind_SomeE dest!: low_level_views)

lemma gc_copy_view: "gc_copy p d b pg s = Some s' \<Longrightarrow> v s' = v s"
  by (auto simp: gc_copy_def Let_def elim!: bind_SomeE split: if_splits dest!: low_level_views)

lemma gc_loop_view: "ofold (gc_copy p d b) xs s = Some s' \<Longrightarrow> v s' = v s"
  by (rule ofold_frame [where f = "gc_copy p d b"]) (rule gc_copy_view)

lemma GarbageCollection_view: "GarbageCollection p d s = Some s' \<Longrightarrow> v s' = v s"
  by (auto simp: GarbageCollection_def Let_def elim!: bind_SomeE split: if_splits
      dest!: EraseBlock_view gc_loop_view)

lemma ready_block_view: "ready_block p d s = Some s' \<Longrightarrow> v s' = v s"
  by (auto simp: ready_block_def Let_def elim!: bind_SomeE split: if_splits prod.splits
      dest!: GarbageCollection_view)

lemma AddrTransWrite_view: "AddrTransWrite p l s = Some (s', a) \<Longrightarrow> v s' = v s"
  by (auto simp: AddrTransWrite_def FindFreeVirtualSlice_def Let_def elim!: bind_SomeE
      split: if_splits prod.splits dest!: ready_block_view)

lemma count_nand_req_view: "count_nand_req p t s = Some s' \<Longrightarrow> v s' = v s"
  by (auto simp: count_nand_req_def elim!: bind_SomeE split: if_splits)

lemmas request_views = low_level_views AddrTransWrite_view count_nand_req_view

lemma Evict_view:
  "EvictDataBufEntry p t s = Some s' \<Longrightarrow> v s' = v s"
  "EvictCcmdDataBufEntry p t s = Some s' \<Longrightarrow> v s' = v s"
  by (auto simp: EvictDataBufEntry_def EvictCcmdDataBufEntry_def Let_def elim!: bind_SomeE
      split: if_splits dest!: request_views)

lemma ReadFromNand_view:
  "DataReadFromNand p t s = Some s' \<Longrightarrow> v s' = v s"
  "CcmdDataReadFromNand p t s = Some s' \<Longrightarrow> v s' = v s"
  by (auto simp: DataReadFromNand_def CcmdDataReadFromNand_def Let_def elim!: bind_SomeE
      split: if_splits dest!: request_views)

lemma use_entry_view [simp]: "v (use_entry t e c s) = v s"
  by (simp add: use_entry_def)

lemma mark_dirty_view [simp]: "v (mark_dirty c e s) = v s"
  by (simp add: mark_dirty_def)

lemma announce_dma_view: "announce_dma p t s = Some s' \<Longrightarrow> v s' = v s"
  by (auto simp: announce_dma_def Let_def elim!: bind_SomeE split: if_splits)

lemma slice_to_dma_view: "slice_to_dma p t e s = Some s' \<Longrightarrow> v s' = v s"
  by (auto simp: slice_to_dma_def Let_def elim!: bind_SomeE split: req_code.splits if_splits
      dest!: request_views announce_dma_view)

end

interpretation db_shape: buffer_view "\<lambda>s. buf_shape (db s)"
  by unfold_locales simp_all

interpretation cb_shape: buffer_view "\<lambda>s. buf_shape (cb s)"
  by unfold_locales simp_all

interpretation cap_b: buffer_view storageCapacity
  by unfold_locales simp_all

section \<open>One slice request\<close>

definition bufs_ok :: "platform \<Rightarrow> ssd \<Rightarrow> bool" where
  "bufs_ok p s \<longleftrightarrow>
     (\<exists>L. buf_inv (AVAILABLE_DATA_BUFFER_ENTRY_COUNT p) (db s) L {}) \<and>
     (\<exists>L. buf_inv (AVAILABLE_CCMD_DATA_BUFFER_ENTRY_COUNT p) (cb s) L {})"

definition in_db :: "platform \<Rightarrow> ssd \<Rightarrow> nat set" where
  "in_db p s = cached (AVAILABLE_DATA_BUFFER_ENTRY_COUNT p) (db s) {}"

definition in_cb :: "platform \<Rightarrow> ssd \<Rightarrow> nat set" where
  "in_cb p s = cached (AVAILABLE_CCMD_DATA_BUFFER_ENTRY_COUNT p) (cb s) {}"

text \<open>States with the same buffers up to dirty bits and chains.\<close>

definition same_shape :: "ssd \<Rightarrow> ssd \<Rightarrow> bool" where
  "same_shape s s' \<longleftrightarrow> buf_shape (db s') = buf_shape (db s) \<and> buf_shape (cb s') = buf_shape (cb s)"

lemma same_shape_bufs:
  assumes "same_shape s s'"
  shows "bufs_ok p s \<Longrightarrow> bufs_ok p s'" and "in_db p s' = in_db p s" and "in_cb p s' = in_cb p s"
proof -
  have sh: "buf_shape (db s') = buf_shape (db s)" "buf_shape (cb s') = buf_shape (cb s)"
    using assms by (simp_all add: same_shape_def)
  show "bufs_ok p s \<Longrightarrow> bufs_ok p s'"
    using buf_inv_shape [OF sh(1)] buf_inv_shape [OF sh(2)] unfolding bufs_ok_def by blast
  show "in_db p s' = in_db p s" "in_cb p s' = in_cb p s"
    by (simp_all add: in_db_def in_cb_def cached_shape [OF sh(1)] cached_shape [OF sh(2)])
qed

lemma buf_inv_snoc:
  assumes "buf_inv n b L D"
  obtains xs e where "L = xs @ [e]"
  using assms by (cases L rule: rev_cases) (auto simp: buf_inv_def)

text \<open>Installing a slice that is in neither buffer, with anything in between that keeps the shape.\<close>

lemma install_shape:
  assumes "slice_cache n check alloc put" and "\<And>e b. put e b = hash_put n e b"
    and "buf_inv n b0 L {}" and "lsa \<noteq> LSA_NONE" and "lsa \<notin> cached n b0 {}"
    and "alloc b0 = Some (b, e)" and "buf_shape b' = buf_shape b"
  shows "\<exists>L l. buf_inv n (put e (set_lsa e lsa b')) L {} \<and>
    cached n (put e (set_lsa e lsa b')) {} = insert lsa (cached n b0 {} - {l})"
proof -
  obtain xs x where L: "L = xs @ [x]" using buf_inv_snoc [OF assms(3)] .
  obtain b1 where b1: "alloc b0 = Some (b1, x)" "buf_inv n (put x (set_lsa x lsa b1)) (x # xs) {}"
      "cached n (put x (set_lsa x lsa b1)) {} = insert lsa (cached n b0 {} - {lsa_of b0 x})"
    using slice_cache.install [OF assms(1) assms(3) [unfolded L] assms(4,5)] by blast
  then have "e = x" "b = b1" using assms(6) by simp_all
  then have sh: "buf_shape (put e (set_lsa e lsa b')) = buf_shape (put x (set_lsa x lsa b1))"
    using hash_put_shape [OF assms(7)] assms(2) by simp
  show ?thesis using buf_inv_shape [OF sh b1(2)] cached_shape [OF sh] b1(3) by metis
qed

lemma install_db:
  assumes "bufs_ok p s" and "lsa \<noteq> LSA_NONE" and "lsa \<notin> in_db p s"
    and "AllocateDataBuf p (db s) = Some (b, e)" and "buf_shape b' = buf_shape b"
  shows "\<exists>L l. buf_inv (AVAILABLE_DATA_BUFFER_ENTRY_COUNT p) (PutToDataBufHashList p e (set_lsa e lsa b')) L {} \<and>
    cached (AVAILABLE_DATA_BUFFER_ENTRY_COUNT p) (PutToDataBufHashList p e (set_lsa e lsa b')) {} =
      insert lsa (in_db p s - {l})"
proof -
  obtain L where "buf_inv (AVAILABLE_DATA_BUFFER_ENTRY_COUNT p) (db s) L {}"
    using assms(1) by (auto simp: bufs_ok_def)
  from install_shape [OF dbuf.slice_cache_axioms _ this assms(2) _ assms(4,5)] assms(3)
  show ?thesis by (simp add: in_db_def PutToDataBufHashList_def)
qed

lemma install_cb:
  assumes "bufs_ok p s" and "lsa \<noteq> LSA_NONE" and "lsa \<notin> in_cb p s"
    and "AllocateCcmdDataBuf p (cb s) = Some (b, e)" and "buf_shape b' = buf_shape b"
  shows "\<exists>L l. buf_inv (AVAILABLE_CCMD_DATA_BUFFER_ENTRY_COUNT p)
      (PutToCcmdDataBufHashList p e (set_lsa e lsa b')) L {} \<and>
    cached (AVAILABLE_CCMD_DATA_BUFFER_ENTRY_COUNT p) (PutToCcmdDataBufHashList p e (set_lsa e lsa b')) {} =
      insert lsa (in_cb p s - {l})"
proof -
  obtain L where "buf_inv (AVAILABLE_CCMD_DATA_BUFFER_ENTRY_COUNT p) (cb s) L {}"
    using assms(1) by (auto simp: bufs_ok_def)
  from install_shape [OF rbuf.slice_cache_axioms _ this assms(2) _ assms(4,5)] assms(3)
  show ?thesis by (simp add: in_cb_def PutToCcmdDataBufHashList_def)
qed

text \<open>A miss in both buffers.\<close>

lemma slice_miss_read_bufs:
  assumes ok: "bufs_ok p s" and lsa: "logicalSliceAddr (req s t) \<noteq> LSA_NONE"
      "logicalSliceAddr (req s t) \<notin> in_cb p s"
    and run: "slice_miss_read p t s = Some (s', e)"
  shows "bufs_ok p s' \<and> in_db p s' = in_db p s \<and>
    (\<exists>l. in_cb p s' = insert (logicalSliceAddr (req s t)) (in_cb p s - {l}))"
proof -
  let ?l = "logicalSliceAddr (req s t)"
  obtain b s1 s2 where al: "AllocateCcmdDataBuf p (cb s) = Some (b, e)"
    and ev: "EvictCcmdDataBufEntry p t (use_entry t e True (s\<lparr>cb := b\<rparr>)) = Some s1"
    and s2: "s2 = s1\<lparr>cb := PutToCcmdDataBufHashList p e (set_lsa e ?l (cb s1))\<rparr>"
    and rd: "CcmdDataReadFromNand p t s2 = Some s'"
    using run by (auto simp: slice_miss_read_def Let_def elim!: bind_SomeE)
  have s1: "buf_shape (cb s1) = buf_shape b" "buf_shape (db s1) = buf_shape (db s)"
    using cb_shape.Evict_view(2) [OF ev] db_shape.Evict_view(2) [OF ev] by simp_all
  obtain L l where inst: "buf_inv (AVAILABLE_CCMD_DATA_BUFFER_ENTRY_COUNT p) (cb s2) L {}"
      "in_cb p s2 = insert ?l (in_cb p s - {l})"
    using install_cb [OF ok lsa al s1(1)] by (auto simp: s2 in_cb_def)
  have "bufs_ok p s2" "in_db p s2 = in_db p s"
    using ok inst(1) buf_inv_shape [OF s1(2)] cached_shape [OF s1(2)]
    by (auto simp: bufs_ok_def s2 in_db_def)
  moreover have "same_shape s2 s'"
    using db_shape.ReadFromNand_view(2) [OF rd] cb_shape.ReadFromNand_view(2) [OF rd]
    by (simp add: same_shape_def)
  ultimately show ?thesis using same_shape_bufs [of s2 s' p] inst(2) by auto
qed

lemma slice_miss_write_bufs:
  assumes ok: "bufs_ok p s" and lsa: "logicalSliceAddr (req s t) \<noteq> LSA_NONE"
      "logicalSliceAddr (req s t) \<notin> in_db p s"
    and run: "slice_miss_write p t s = Some (s', e)"
  shows "bufs_ok p s' \<and> in_cb p s' = in_cb p s \<and>
    (\<exists>l. in_db p s' = insert (logicalSliceAddr (req s t)) (in_db p s - {l}))"
proof -
  let ?l = "logicalSliceAddr (req s t)"
  obtain b s1 s2 where al: "AllocateDataBuf p (db s) = Some (b, e)"
    and ev: "EvictDataBufEntry p t (use_entry t e False (s\<lparr>db := b\<rparr>)) = Some s1"
    and s2: "s2 = s1\<lparr>db := PutToDataBufHashList p e (set_lsa e ?l (db s1))\<rparr>"
    and rd: "DataReadFromNand p t s2 = Some s' \<or> s' = s2"
    using run by (auto simp: slice_miss_write_def Let_def elim!: bind_SomeE split: if_splits)
  have s1: "buf_shape (db s1) = buf_shape b" "buf_shape (cb s1) = buf_shape (cb s)"
    using cb_shape.Evict_view(1) [OF ev] db_shape.Evict_view(1) [OF ev] by simp_all
  obtain L l where inst: "buf_inv (AVAILABLE_DATA_BUFFER_ENTRY_COUNT p) (db s2) L {}"
      "in_db p s2 = insert ?l (in_db p s - {l})"
    using install_db [OF ok lsa al s1(1)] by (auto simp: s2 in_db_def)
  have "bufs_ok p s2" "in_cb p s2 = in_cb p s"
    using ok inst(1) buf_inv_shape [OF s1(2)] cached_shape [OF s1(2)]
    by (auto simp: bufs_ok_def s2 in_cb_def)
  moreover have "same_shape s2 s'"
    using rd db_shape.ReadFromNand_view(1) [of p t s2 s'] cb_shape.ReadFromNand_view(1) [of p t s2 s']
    by (auto simp: same_shape_def)
  ultimately show ?thesis using same_shape_bufs [of s2 s' p] inst(2) by auto
qed

text \<open>The lookup in both buffers, with the three outcomes.\<close>

definition placed :: "platform \<Rightarrow> nat \<Rightarrow> bool \<Rightarrow> ssd \<Rightarrow> ssd \<Rightarrow> bool" where
  "placed p lsa isRead s s' \<longleftrightarrow>
     (if lsa \<in> in_db p s \<union> in_cb p s then in_db p s' = in_db p s \<and> in_cb p s' = in_cb p s
      else if isRead then in_db p s' = in_db p s \<and> (\<exists>l. in_cb p s' = insert lsa (in_cb p s - {l}))
      else in_cb p s' = in_cb p s \<and> (\<exists>l. in_db p s' = insert lsa (in_db p s - {l})))"

lemma lookup_db:
  assumes "bufs_ok p s" and "lsa \<noteq> LSA_NONE" and "CheckDataBufHit p lsa (db s) = Some (b, e)"
  shows "bufs_ok p (s\<lparr>db := b\<rparr>)" and "in_db p (s\<lparr>db := b\<rparr>) = in_db p s"
    and "in_cb p (s\<lparr>db := b\<rparr>) = in_cb p s" and "e \<noteq> DATA_BUF_FAIL \<longleftrightarrow> lsa \<in> in_db p s"
proof -
  let ?n = "AVAILABLE_DATA_BUFFER_ENTRY_COUNT p"
  obtain L where inv: "buf_inv ?n (db s) L {}" using assms(1) by (auto simp: bufs_ok_def)
  have pay: "same_payload (db s) b" and res: "if lsa \<in> cached ?n (db s) {}
      then listed ?n (db s) {} e \<and> lsa_of (db s) e = lsa \<and> buf_inv ?n b (e # remove1 e L) {}
      else e = DATA_BUF_FAIL \<and> b = db s"
    using dbuf.check_total [OF inv assms(2)] assms(3) by auto
  show "bufs_ok p (s\<lparr>db := b\<rparr>)" using res inv assms(1) by (auto simp: bufs_ok_def split: if_splits)
  show "in_db p (s\<lparr>db := b\<rparr>) = in_db p s" using cached_payload [OF pay] by (simp add: in_db_def)
  show "in_cb p (s\<lparr>db := b\<rparr>) = in_cb p s" by (simp add: in_cb_def)
  show "e \<noteq> DATA_BUF_FAIL \<longleftrightarrow> lsa \<in> in_db p s"
    using res buf_inv_entry_not_NONE [OF inv, of e] by (auto simp: in_db_def listed_def split: if_splits)
qed

lemma lookup_cb:
  assumes "bufs_ok p s" and "lsa \<noteq> LSA_NONE" and "CheckCcmdDataBufHit p lsa (cb s) = Some (b, e)"
  shows "bufs_ok p (s\<lparr>cb := b\<rparr>)" and "in_cb p (s\<lparr>cb := b\<rparr>) = in_cb p s"
    and "in_db p (s\<lparr>cb := b\<rparr>) = in_db p s" and "e \<noteq> DATA_BUF_FAIL \<longleftrightarrow> lsa \<in> in_cb p s"
proof -
  let ?n = "AVAILABLE_CCMD_DATA_BUFFER_ENTRY_COUNT p"
  obtain L where inv: "buf_inv ?n (cb s) L {}" using assms(1) by (auto simp: bufs_ok_def)
  have pay: "same_payload (cb s) b" and res: "if lsa \<in> cached ?n (cb s) {}
      then listed ?n (cb s) {} e \<and> lsa_of (cb s) e = lsa \<and> buf_inv ?n b (e # remove1 e L) {}
      else e = DATA_BUF_FAIL \<and> b = cb s"
    using rbuf.check_total [OF inv assms(2)] assms(3) by auto
  show "bufs_ok p (s\<lparr>cb := b\<rparr>)" using res inv assms(1) by (auto simp: bufs_ok_def split: if_splits)
  show "in_cb p (s\<lparr>cb := b\<rparr>) = in_cb p s" using cached_payload [OF pay] by (simp add: in_cb_def)
  show "in_db p (s\<lparr>cb := b\<rparr>) = in_db p s" by (simp add: in_db_def)
  show "e \<noteq> DATA_BUF_FAIL \<longleftrightarrow> lsa \<in> in_cb p s"
    using res buf_inv_entry_not_NONE [OF inv, of e] by (auto simp: in_cb_def listed_def split: if_splits)
qed

lemma use_entry_same: "same_shape s (use_entry t e c s)"
  by (simp add: same_shape_def)

lemma slice_buffer_bufs:
  assumes ok: "bufs_ok p s" and lsa: "lsa = logicalSliceAddr (req s t)" "lsa \<noteq> LSA_NONE"
    and run: "slice_buffer p t s = Some (s', e)"
  shows "bufs_ok p s'" and "placed p lsa (reqCode (req s t) = REQ_CODE_READ) s s'"
proof -
  obtain b1 e1 where c1: "CheckDataBufHit p lsa (db s) = Some (b1, e1)"
    using run lsa(1) by (auto simp: slice_buffer_def elim!: bind_SomeE)
  define s1 where "s1 = s\<lparr>db := b1\<rparr>"
  note l1 = lookup_db [OF ok lsa(2) c1, folded s1_def]
  have req1: "req s1 t = req s t" by (simp add: s1_def)
  have "bufs_ok p s' \<and> placed p lsa (reqCode (req s t) = REQ_CODE_READ) s s'"
  proof (cases "lsa \<in> in_db p s")
    case True
    then have s': "s' = use_entry t e1 False s1"
      using run l1(4) c1 lsa(1) by (auto simp: slice_buffer_def s1_def)
    show ?thesis using same_shape_bufs [OF use_entry_same [of s1 t e1 False], of p] l1 True
      by (simp add: s' placed_def)
  next
    case False
    then obtain b2 e2 where c2: "CheckCcmdDataBufHit p lsa (cb s1) = Some (b2, e2)"
      using run l1(4) c1 lsa(1) by (auto simp: slice_buffer_def s1_def elim!: bind_SomeE)
    define s2 where "s2 = s1\<lparr>cb := b2\<rparr>"
    note l2 = lookup_cb [OF l1(1) lsa(2) c2, folded s2_def]
    have req2: "req s2 t = req s t" by (simp add: s2_def req1)
    have rest: "(if e2 \<noteq> DATA_BUF_FAIL then Some (use_entry t e2 True s2, e2)
        else if reqCode (req s t) = REQ_CODE_READ then slice_miss_read p t s2
        else slice_miss_write p t s2) = Some (s', e)"
      using run False l1(4) c1 c2 lsa(1) by (simp add: slice_buffer_def s1_def s2_def Let_def cong: if_cong)
    show ?thesis
    proof (cases "lsa \<in> in_cb p s")
      case True
      then show ?thesis
        using rest l2 l1 same_shape_bufs [OF use_entry_same [of s2 t e2 True], of p]
        by (auto simp: placed_def)
    next
      case miss: False
      have l: "logicalSliceAddr (req s2 t) = lsa" using req2 lsa(1) by simp
      show ?thesis
        using rest miss False l1 l2 lsa(2) slice_miss_read_bufs [OF l2(1), of t s' e, unfolded l]
          slice_miss_write_bufs [OF l2(1), of t s' e, unfolded l]
        by (auto simp: placed_def split: if_splits)
    qed
  qed
  then show "bufs_ok p s'" "placed p lsa (reqCode (req s t) = REQ_CODE_READ) s s'" by simp_all
qed

lemma slice_to_dma_same: "slice_to_dma p t e s = Some s' \<Longrightarrow> same_shape s s'"
  using db_shape.slice_to_dma_view [of p t e s s'] cb_shape.slice_to_dma_view [of p t e s s']
  by (simp add: same_shape_def)

text \<open>A device whose buffers were initialised, with a host read of a slice that was never written.\<close>

definition fresh_read :: ssd where
  "fresh_read =
     blank_ssd\<lparr>db := InitDataBuf (small_platform (\<lambda>k. quiet)) blank_data_buf,
       cb := InitCcmdDataBuf (small_platform (\<lambda>k. quiet)) blank_data_buf,
       am := (blank_addr_map 0 0)\<lparr>logicalSlice := (\<lambda>l. VSA_NONE)\<rparr>,
       rq := no_requests\<lparr>reqPool := (\<lambda>t. no_request\<lparr>logicalSliceAddr := 7,
         nvmeDmaInfo := (nvmeDmaInfo no_request)\<lparr>numOfNvmeBlock := 1\<rparr>\<rparr>)\<rparr>\<rparr>"

lemma buf_init_payload:
  "e < n \<Longrightarrow> \<not> dirty (dataBuf (buf_init n b) e)"
  "e < n \<Longrightarrow> blockingReqTail (dataBuf (buf_init n b) e) = REQ_SLOT_TAG_NONE"
  by (auto simp: buf_init_def Let_def array_for_def)

lemma set_auto_tx_dma_quiet:
  assumes "autoDmaTx (fifoTail s) = 0" and "i < 256"
  shows "set_auto_tx_dma (small_platform (\<lambda>k. quiet)) slot i a ac s \<noteq> None"
  using assms by (simp add: set_auto_tx_dma_def poll_fifo_cnt_def while_option_unfold read_fifo_cnt_def
      IO_READ32_def now_def small_platform_def quiet_def tick_def Let_def)

lemma SelectLowLevelReqQ_quiet:
  assumes "reqType (req s t) = REQ_TYPE_NVME_DMA" and "reqCode (req s t) = REQ_CODE_TxDMA"
    and "\<not> customCmd (ropt s t)" and "dataBufFormat (ropt s t) = REQ_OPT_DATA_BUF_ENTRY"
    and "numOfNvmeBlock (nvmeDmaInfo (req s t)) = 1" and "startIndex (nvmeDmaInfo (req s t)) = 0"
    and "autoDmaTx (fifoTail (io s)) = 0"
  shows "SelectLowLevelReqQ (small_platform (\<lambda>k. quiet)) t s \<noteq> None"
proof -
  let ?p = "small_platform (\<lambda>k. quiet)"
  obtain a where a: "GenerateDataBufAddr ?p s t = Some a"
    using assms(1,4) by (simp add: GenerateDataBufAddr_def Let_def)
  obtain io' where "set_auto_tx_dma ?p (nvmeCmdSlotTag (req s t)) 0 (of_nat a) True (io s) = Some io'"
    using set_auto_tx_dma_quiet [OF assms(7), of 0] by fastforce
  with a assms show ?thesis by (simp add: SelectLowLevelReqQ_def IssueNvmeDmaReq_def)
qed

text \<open>
  C1. The data buffer and the read buffer never hold the same slice. Let the two buffers be well
  formed and share no slice. When the transformation of a slice request returns, both are well
  formed and share no slice again, and the slice of the request is in one of them. A slice that was
  in one of them stays where it was and nothing else is moved; on a miss a read replaces at most
  one slice of the read buffer, a write at most one slice of the data buffer, and the other buffer is not
  touched, whatever garbage collection, eviction and polling of the devices happen in between.
\<close>

theorem trans_slice_one_copy:
  assumes "bufs_ok p s" and "in_db p s \<inter> in_cb p s = {}"
    and "logicalSliceAddr (req s t) \<noteq> LSA_NONE" and "trans_slice p t s = Some s'"
  shows "bufs_ok p s' \<and> in_db p s' \<inter> in_cb p s' = {} \<and>
    logicalSliceAddr (req s t) \<in> in_db p s' \<union> in_cb p s' \<and>
    placed p (logicalSliceAddr (req s t)) (reqCode (req s t) = REQ_CODE_READ) s s'"
proof -
  obtain s1 e where s1: "slice_buffer p t s = Some (s1, e)" "slice_to_dma p t e s1 = Some s'"
    using assms(4) by (auto simp: trans_slice_def elim!: bind_SomeE)
  note b = slice_buffer_bufs [OF assms(1) refl assms(3) s1(1)]
  note same = same_shape_bufs [OF slice_to_dma_same [OF s1(2)], of p]
  have pl: "placed p (logicalSliceAddr (req s t)) (reqCode (req s t) = REQ_CODE_READ) s s'"
    using b(2) same(2,3) by (simp add: placed_def)
  then show ?thesis using same(1) [OF b(1)] assms(2) by (auto simp: placed_def split: if_splits)
qed

theorem trans_slice_one_copy_witness:
  "\<exists>s'. trans_slice (small_platform (\<lambda>k. quiet)) 0 fresh_read = Some s' \<and>
     7 \<in> in_cb (small_platform (\<lambda>k. quiet)) s' \<and> in_db (small_platform (\<lambda>k. quiet)) s' = {}"
proof -
  let ?p = "small_platform (\<lambda>k. quiet)"
  have wf: "wf_config ?p" by (simp add: wf_config_def small_platform_def nand_consts)
  have sz: "7 < SLICES_PER_SSD ?p"
    by (simp add: small_platform_def SLICES_PER_SSD_product USER_DIES_def USER_BLOCKS_PER_DIE_def
        USER_PAGES_PER_BLOCK_def nand_consts)
  note dinit = InitDataBuf_inv [OF wf, of blank_data_buf]
  note cinit = InitCcmdDataBuf_inv [OF wf, of blank_data_buf]
  have ok: "bufs_ok ?p fresh_read" "in_db ?p fresh_read = {}" "in_cb ?p fresh_read = {}"
    using dinit cinit by (auto simp: bufs_ok_def in_db_def in_cb_def fresh_read_def)
  have lsa: "logicalSliceAddr (req fresh_read 0) = 7" "7 \<noteq> LSA_NONE"
      "reqCode (req fresh_read 0) = REQ_CODE_READ"
    by (simp_all add: fresh_read_def LSA_NONE_def no_request_def)
  let ?n = "AVAILABLE_CCMD_DATA_BUFFER_ENTRY_COUNT ?p"
  have c1: "CheckDataBufHit ?p 7 (db fresh_read) = Some (db fresh_read, DATA_BUF_FAIL)"
    using dbuf.check_miss [OF dinit(1) lsa(2)] dinit(2) by (simp add: fresh_read_def)
  have c2: "CheckCcmdDataBufHit ?p 7 (cb fresh_read) = Some (cb fresh_read, DATA_BUF_FAIL)"
    using rbuf.check_miss [OF cinit(1) lsa(2)] cinit(2) by (simp add: fresh_read_def)
  have inv: "buf_inv ?n (cb fresh_read) ([0..<?n - 1] @ [?n - 1]) {}"
    using cinit(1) AVAILABLE_CCMD_DATA_BUFFER_bounds [OF wf] upt_snoc [of ?n] by (simp add: fresh_read_def)
  obtain b where b: "AllocateCcmdDataBuf ?p (cb fresh_read) = Some (b, ?n - 1)"
      "same_payload (cb fresh_read) b"
    using rbuf.alloc_tail [OF inv] by auto
  have e: "\<not> dirty (dataBuf b (?n - 1))" "blockingReqTail (dataBuf b (?n - 1)) = REQ_SLOT_TAG_NONE"
    using b(2) AVAILABLE_CCMD_DATA_BUFFER_bounds [OF wf]
      buf_init_payload [of "?n - 1" ?n blank_data_buf]
    by (simp_all add: same_payload_def fresh_read_def InitCcmdDataBuf_def)
  note bufs = slice_buffer_def slice_miss_read_def EvictCcmdDataBufEntry_def CcmdDataReadFromNand_def
    use_entry_def fill_req_def AddrTransRead_def
  let ?s = "fill_req 0 (\<lambda>r. r\<lparr>dataBufInfo := ?n - 1, reqOpt := (reqOpt r)\<lparr>ccmdDataBuf := True\<rparr>\<rparr>)
     (fresh_read\<lparr>cb := PutToCcmdDataBufHashList ?p (?n - 1) (set_lsa (?n - 1) 7 b)\<rparr>)"
  have sb: "slice_buffer ?p 0 fresh_read = Some (?s, ?n - 1)"
    using c1 c2 b(1) e sz by (simp add: bufs lsa(1)) (simp add: fresh_read_def no_request_def)
  have "slice_to_dma ?p 0 (?n - 1) ?s \<noteq> None"
    unfolding slice_to_dma_def announce_dma_def
    by (simp add: fill_req_def fresh_read_def no_request_def no_requests_def)
      (rule SelectLowLevelReqQ_quiet [THEN not_None_eq [THEN iffD1]];
        simp add: UpdateCcmdDataBufEntryInfoBlockingReq_def Let_def stamp_def UpdateBlockingReq_def
         tick_def blank_ssd_def quiet_io_def)
  then obtain s' where run: "trans_slice ?p 0 fresh_read = Some s'"
    using sb by (auto simp: trans_slice_def)
  from trans_slice_one_copy [OF ok(1) _ _ run] ok lsa show ?thesis
    using run by (auto simp: placed_def split: if_splits)
qed

end
