(* ===== verification/Startup_Theorems.thy ===== *)
theory Startup_Theorems
  imports Bad_Block_Table Buffer_Coherence
begin

text \<open>
  Properties of start-up and shut down: the table of bad blocks that shut down writes is the one that the next
  start-up reads back, and start-up leaves the tables in the states in which the other theorems start.
\<close>

section \<open>The table of bad blocks\<close>

text \<open>The contents of the DRAM after the firmware's writes.\<close>

fun dram_step :: "device_write \<Rightarrow> (nat \<Rightarrow> 8 word) \<Rightarrow> nat \<Rightarrow> 8 word" where
  "dram_step (Dram_Write a v) m = m(a := v)"
| "dram_step _ m = m"

definition dram_after :: "device_write list \<Rightarrow> (nat \<Rightarrow> 8 word) \<Rightarrow> nat \<Rightarrow> 8 word" where
  "dram_after ws m = fold dram_step ws m"

lemma dram_after_append: "dram_after (ws @ ws') m = dram_after ws' (dram_after ws m)"
  by (simp add: dram_after_def)

lemma dram_after_writes:
  assumes "inj_on g (insert x (set xs))"
  shows "dram_after (map (\<lambda>x. Dram_Write (g x) (h x)) xs) m (g x) = (if x \<in> set xs then h x else m (g x))"
  using assms
proof (induction xs arbitrary: m)
  case (Cons y ys)
  have "inj_on g (insert x (set ys))" by (rule inj_on_subset [OF Cons.prems]) auto
  moreover have "g x = g y \<longleftrightarrow> x = y" using Cons.prems by (auto dest: inj_onD)
  moreover have "dram_after (map (\<lambda>x. Dram_Write (g x) (h x)) (y # ys)) m =
    dram_after (map (\<lambda>x. Dram_Write (g x) (h x)) ys) (m(g y := h y))"
    by (simp add: dram_after_def)
  ultimately show ?case using Cons.IH by simp
qed (simp add: dram_after_def)

definition bbt_byte :: "ssd \<Rightarrow> nat \<Rightarrow> nat \<Rightarrow> 8 word" where
  "bbt_byte s d b =
     (if b \<noteq> bbt_block s d \<and> phyBad (phyBlock (pb s) d b) then of_nat BLOCK_STATE_BAD else of_nat BLOCK_STATE_NORMAL)"

lemma write_bbt_fold:
  "pb (fold (write_bbt a d) bs s) = pb s \<and>
   out (io (fold (write_bbt a d) bs s)) =
     out (io s) @ map (\<lambda>b. Dram_Write (bbt_buf_addr a d + b) (bbt_byte s d b)) bs"
proof (induction bs arbitrary: s)
  case (Cons b bs)
  have "pb (write_bbt a d b s) = pb s" "bbt_byte (write_bbt a d b s) d = bbt_byte s d"
    "out (io (write_bbt a d b s)) = out (io s) @ [Dram_Write (bbt_buf_addr a d + b) (bbt_byte s d b)]"
    by (simp_all add: write_bbt_def bbt_byte_def bbt_block_def emit_def fun_eq_iff)
  then show ?case using Cons [of "write_bbt a d b s"] by simp
qed simp

lemma write_bbts_fold:
  "pb (fold (\<lambda>d. fold (write_bbt a d) bs) ds s) = pb s \<and>
   out (io (fold (\<lambda>d. fold (write_bbt a d) bs) ds s)) =
     out (io s) @ map (\<lambda>(d, b). Dram_Write (bbt_buf_addr a d + b) (bbt_byte s d b)) (List.product ds bs)"
proof (induction ds arbitrary: s)
  case (Cons d ds)
  have "bbt_byte (fold (write_bbt a d) bs s) = bbt_byte s"
    using write_bbt_fold [of a d bs s] by (simp add: bbt_byte_def bbt_block_def fun_eq_iff)
  then show ?case using Cons [of "fold (write_bbt a d) bs s"] write_bbt_fold [of a d bs s] by (simp add: comp_def)
qed simp

lemma bbt_addr_inj:
  "inj_on (\<lambda>(d, b). bbt_buf_addr a d + b) (UNIV \<times> {..<TOTAL_BLOCKS_PER_DIE})"
proof -
  have addr: "bbt_buf_addr a d + b = a + (d * 16640 + b)" for d b
    by (simp add: bbt_buf_addr_def bbt_entry_size_def USED_PAGES_FOR_BAD_BLOCK_TABLE_PER_DIE_def nand_consts)
  have small: "b < 16640" if "b < TOTAL_BLOCKS_PER_DIE" for b
    using that by (simp add: nand_consts)
  show ?thesis
    by (rule inj_on_inverseI [where g = "\<lambda>x. ((x - a) div 16640, (x - a) mod 16640)"])
      (auto simp: addr dest!: small)
qed

lemma fold_set_phy_bad:
  assumes "distinct bs"
  shows "phyBad (phyBlock (pb (fold (\<lambda>b. set_phy_bad d b (f b)) bs s)) d' b) =
    (if d' = d \<and> b \<in> set bs then f b else phyBad (phyBlock (pb s) d' b))"
  using assms by (induction bs arbitrary: s) (auto simp: set_phy_bad_def upd_phy_def)

text \<open>
  C21. The table of bad blocks survives a restart. Take a die with blocks that went bad in use. If the buffer of the
  die's table holds, when start-up examines it, the bytes that shut down left there (this is what saving the
  page and reading it gives back), then start-up finds a table, and marks as bad exactly the blocks that were marked at
  shut down, the block of the table itself excepted. The tables of different dies do not overlap, so the
  updates of the other dies make no difference.
\<close>

theorem bad_block_table_roundtrip:
  assumes "d < USER_DIES p" and "grownBadUpdate (bbtInfo (pb s) d)"
    and "\<And>b. b < TOTAL_BLOCKS_PER_DIE \<Longrightarrow>
      obs_dram (now p (io r)) (bbt_buf_addr a d + b) =
      dram_after (out (io (write_bbts p a s))) m (bbt_buf_addr a d + b)"
  shows "snd (check_bbt p a d (r, st)) d = DIE_STATE_BAD_BLOCK_TABLE_EXIST \<and>
    (\<forall>b < TOTAL_BLOCKS_PER_DIE. phyBad (phyBlock (pb (fst (check_bbt p a d (r, st)))) d b) =
       (phyBad (phyBlock (pb s) d b) \<and> b \<noteq> bbt_block s d))"
proof -
  let ?xs = "List.product (booked_dies p s) [0..<TOTAL_BLOCKS_PER_DIE]"
  let ?g = "\<lambda>(d, b). bbt_buf_addr a d + b" and ?h = "\<lambda>(d, b). bbt_byte s d b"
  have out: "out (io (write_bbts p a s)) = out (io s) @ map (\<lambda>x. Dram_Write (?g x) (?h x)) ?xs"
    using write_bbts_fold [of a "[0..<TOTAL_BLOCKS_PER_DIE]" "booked_dies p s" s]
    by (simp add: write_bbts_def case_prod_unfold)
  have mem: "obs_dram (now p (io r)) (bbt_buf_addr a d + b) = bbt_byte s d b" if b: "b < TOTAL_BLOCKS_PER_DIE" for b
  proof -
    have x: "(d, b) \<in> set ?xs" using assms(1,2) b by (simp add: booked_dies_def)
    have "inj_on ?g (insert (d, b) (set ?xs))" by (rule inj_on_subset [OF bbt_addr_inj]) (use b in auto)
    from dram_after_writes [OF this] show ?thesis
      using assms(3) [OF b] x by (simp add: out dram_after_append)
  qed
  have bytes: "unat (bbt_byte s d b) = (if phyBad (phyBlock (pb s) d b) \<and> b \<noteq> bbt_block s d then 1 else 0)" for b
    by (simp add: bbt_byte_def BLOCK_STATE_BAD_def BLOCK_STATE_NORMAL_def)
  have "0 < TOTAL_BLOCKS_PER_DIE" by (simp add: nand_consts)
  from mem [OF this] have "obs_dram (now p (io r)) (bbt_buf_addr a d) = bbt_byte s d 0" by simp
  then have "check_bbt p a d (r, st) =
    (fold (\<lambda>b. set_phy_bad d b (odd (unat (obs_dram (now p (io r)) (bbt_buf_addr a d + b)))))
       [0..<TOTAL_BLOCKS_PER_DIE] (look r), st(d := DIE_STATE_BAD_BLOCK_TABLE_EXIST))"
    by (simp add: check_bbt_def Let_def bytes BLOCK_STATE_BAD_def BLOCK_STATE_NORMAL_def)
  then show ?thesis by (simp add: fold_set_phy_bad mem bytes)
qed

text \<open>A die whose block 5 went bad, and a device whose DRAM holds what shut down wrote for it.\<close>

definition worn_ssd :: ssd where
  "worn_ssd = blank_ssd\<lparr>pb := \<lparr>phyBlock = (\<lambda>d b. \<lparr>remappedPhyBlock = b, phyBad = (b = 5)\<rparr>),
     bbtInfo = (\<lambda>d. \<lparr>bbtPhyBlock = 1, grownBadUpdate = True\<rparr>), mbPerbadBlockSpace = 0\<rparr>\<rparr>"

definition remembering :: platform where
  "remembering = small_platform (\<lambda>k. quiet\<lparr>obs_dram :=
     dram_after (out (io (write_bbts (small_platform (\<lambda>k. quiet)) 0 worn_ssd))) (\<lambda>a. 0)\<rparr>)"

theorem bad_block_table_roundtrip_witness:
  "phyBad (phyBlock (pb (fst (check_bbt remembering 0 0 (blank_ssd, \<lambda>d. DIE_STATE_BAD_BLOCK_TABLE_HOLD)))) 0 5) \<and>
   \<not> phyBad (phyBlock (pb (fst (check_bbt remembering 0 0 (blank_ssd, \<lambda>d. DIE_STATE_BAD_BLOCK_TABLE_HOLD)))) 0 0)"
proof -
  have dies: "USER_DIES remembering = 1" "write_bbts remembering = write_bbts (small_platform (\<lambda>k. quiet))"
    by (simp_all add: remembering_def small_platform_def USER_DIES_def write_bbts_def booked_dies_def fun_eq_iff)
  have "obs_dram (now remembering i) =
    dram_after (out (io (write_bbts remembering 0 worn_ssd))) (\<lambda>a. 0)" for i
    unfolding dies by (simp add: remembering_def small_platform_def now_def)
  then show ?thesis
    using bad_block_table_roundtrip [of 0 remembering worn_ssd blank_ssd 0 "\<lambda>a. 0"]
    by (simp add: dies worn_ssd_def bbt_block_def nand_consts)
qed

section \<open>The state that start-up leaves\<close>

declare read_bbt_pages.simps [simp del] save_bbt_pages.simps [simp del]

lemma submit_am: "submit p f s = Some s' \<Longrightarrow> am s' = am s"
  by (auto simp: submit_def fill_req_def elim!: bind_SomeE split: prod.splits dest!: am_view.low_level_views)

lemma ofold_submit_am: "ofold (\<lambda>x. submit p (f x)) xs s = Some s' \<Longrightarrow> am s' = am s"
  by (rule ofold_frame [where v = am]) (rule submit_am)

lemma read_bbt_pages_am: "read_bbt_pages p a e l pg n s = Some s' \<Longrightarrow> am s' = am s"
proof (induction p a e l pg n s rule: read_bbt_pages.induct)
  case (1 p a e l pg n s)
  from 1(2) show ?case
    by (subst (asm) read_bbt_pages.simps) (auto elim!: bind_SomeE split: if_splits
        simp: 1(1) dest: ofold_submit_am)
qed

lemma save_bbt_page_am: "save_bbt_page p a e l pg d s = Some s' \<Longrightarrow> am s' = am s"
  by (auto simp: save_bbt_page_def elim!: bind_SomeE split: if_splits dest!: submit_am)

lemma save_bbt_dies_am: "ofold (save_bbt_page p a e l pg) ds s = Some s' \<Longrightarrow> am s' = am s"
  by (rule ofold_frame [where v = am]) (rule save_bbt_page_am)

lemma save_bbt_pages_am: "save_bbt_pages p ds a e l pg n s = Some s' \<Longrightarrow> am s' = am s"
proof (induction p ds a e l pg n s rule: save_bbt_pages.induct)
  case (1 p ds a e l pg n s)
  from 1(2) show ?case
    by (subst (asm) save_bbt_pages.simps) (auto elim!: bind_SomeE split: if_splits
        simp: 1(1) dest: save_bbt_dies_am)
qed

lemma fold_am: "(\<And>x s. am (fst (f x s)) = am (fst s)) \<Longrightarrow> am (fst (fold f xs s)) = am (fst s)"
  by (induction xs arbitrary: s) auto

lemma find_bad_row_am: "find_bad_row p ds a a' b r = Some r' \<Longrightarrow> am (fst r') = am (fst r)"
proof -
  have first: "am (fst r') = am (fst r)" if "check_first_mark p a' b d r = Some r'" for d r r'
    using that by (auto simp: check_first_mark_def submit_mark_read_def look_def elim!: bind_SomeE
        split: prod.splits if_splits dest!: submit_am)
  have second: "am (fst (check_second_mark p a a' b d r)) = am (fst r)" for d r
    by (simp add: check_second_mark_def set_phy_bad_def look_def Let_def split: prod.splits)
  have marks: "am s' = am s" if "ofold (submit_mark_read p a' b pg) ds s = Some s'" for pg s s'
    using that by (rule ofold_frame [where v = am, rotated]) (simp add: submit_mark_read_def submit_am)
  have firsts: "am (fst r') = am (fst r)" if "ofold (check_first_mark p a' b) ds r = Some r'" for r r'
    using that by (rule ofold_frame [where v = "\<lambda>r. am (fst r)", rotated]) (rule first)
  show "find_bad_row p ds a a' b r = Some r' \<Longrightarrow> am (fst r') = am (fst r)"
    by (auto simp: find_bad_row_def Let_def fold_am [OF second] elim!: bind_SomeE
        split: prod.splits dest!: marks am_view.Sync_view firsts)
qed

lemma find_bad_rows_am: "ofold (find_bad_row p ds a a') bs r = Some r' \<Longrightarrow> am (fst r') = am (fst r)"
  by (rule ofold_frame [where v = "\<lambda>r. am (fst r)"]) (rule find_bad_row_am)

lemma check_bbt_am: "am (fst (check_bbt p a d r)) = am (fst r)"
proof -
  have "am (fold (\<lambda>b. set_phy_bad d b (f b)) bs s) = am s" for f bs s
    by (induction bs arbitrary: s) (simp_all add: set_phy_bad_def)
  then show ?thesis by (simp add: check_bbt_def look_def Let_def split: prod.splits)
qed

lemma RecoverBadBlockTable_am:
  assumes "RecoverBadBlockTable p a s = Some s'"
  shows "am s' = am s"
proof -
  have find: "am s' = am s" if "FindBadBlock p st a a' s = Some s'" for st a a' s s'
    using that by (auto simp: FindBadBlock_def elim!: bind_SomeE split: prod.splits
        dest!: find_bad_rows_am)
  have check: "am s' = am s" if "fold (check_bbt p a) ds (s, st) = (s', st')" for ds s st s' st'
    using fold_am [of "check_bbt p a" ds "(s, st)"] check_bbt_am that by simp
  show ?thesis
    using assms by (auto simp: RecoverBadBlockTable_def ReadBadBlockTable_def SaveBadBlockTable_def elim!: bind_SomeE
        split: prod.splits if_splits dest!: check find read_bbt_pages_am save_bbt_pages_am am_view.Sync_view)
qed

lemma ofold_ofold_am:
  "(\<And>x y s s'. f x y s = Some s' \<Longrightarrow> am s' = am s) \<Longrightarrow> ofold (\<lambda>x. ofold (f x) ys) xs s = Some s' \<Longrightarrow> am s' = am s"
  by (rule ofold_frame [where v = am]) (rule ofold_frame [where v = am])

lemma Erase_am:
  "EraseTotalBlockSpace p s = Some s' \<Longrightarrow> am s' = am s"
  "EraseUserBlockSpace p s = Some s' \<Longrightarrow> am s' = am s"
  "InitNandArray p s = Some s' \<Longrightarrow> am s' = am s"
proof -
  have "am s' = am s" if "erase_user_block p b d s = Some s'" for b d s s'
    using that by (auto simp: erase_user_block_def split: if_splits dest!: submit_am)
  moreover have "am s' = am s" if "init_nand_way p ch way s = Some s'" for ch way s s'
    using that by (auto simp: init_nand_way_def elim!: bind_SomeE dest!: submit_am)
  ultimately show "EraseTotalBlockSpace p s = Some s' \<Longrightarrow> am s' = am s" "EraseUserBlockSpace p s = Some s' \<Longrightarrow> am s' = am s"
    "InitNandArray p s = Some s' \<Longrightarrow> am s' = am s"
    by (auto simp: EraseTotalBlockSpace_def EraseUserBlockSpace_def InitNandArray_def elim!: bind_SomeE
        dest!: am_view.Sync_view ofold_ofold_am [rotated] intro: submit_am)
qed

text \<open>
  Start-up checks the configuration, and when it is through, the address maps are those that \<^const>\<open>startup_map\<close>
  builds for some table of physical blocks, and both buffers are well formed and hold no slice: a state from which the
  theorems on single requests start.
\<close>

lemma InitBlockDieMap_am:
  assumes "InitBlockDieMap p key s = Some s'"
  shows "\<exists>pm. InitCurrentBlockOfDieMap p (InitBlockMap p pm (InitDieMap p (am s))) = Some (am s')"
  using assms by (auto simp: InitBlockDieMap_def elim!: bind_SomeE split: if_splits
      dest!: RecoverBadBlockTable_am Erase_am)

lemma InitFTL_ready:
  assumes "InitFTL p connected nsc_base key (regs, s) = Some (regs', s')"
  shows "\<exists>pm. startup_map p pm (am s) = Some (am s')"
    and "wf_config p \<Longrightarrow> bufs_ok p s' \<and> in_db p s' = {} \<and> in_cb p s' = {}"
proof -
  obtain m d pm m' where "FindDieForFreeSliceAllocation p (am s) = (m, d)" "am s' = InitGcVictimMap p m'"
    "InitCurrentBlockOfDieMap p (InitBlockMap p pm
       (InitDieMap p (InitSliceMap p (m\<lparr>sliceAllocationTargetDie := d\<rparr>)))) = Some m'"
    using assms by (auto simp: InitFTL_def InitAddressMap_def InitDependencyTable_def Let_def
        elim!: bind_SomeE split: prod.splits dest!: InitBlockDieMap_am Erase_am)
  then have "startup_map p pm (am s) = Some (am s')" by (simp add: startup_map_def)
  then show "\<exists>pm. startup_map p pm (am s) = Some (am s')" ..
  obtain b b' where b: "db s' = InitDataBuf p b" "cb s' = InitCcmdDataBuf p b'"
    using assms by (auto simp: InitFTL_def Let_def elim!: bind_SomeE)
  assume wf: "wf_config p"
  note InitDataBuf_inv [OF wf, of b] InitCcmdDataBuf_inv [OF wf, of b']
  then show "bufs_ok p s' \<and> in_db p s' = {} \<and> in_cb p s' = {}"
    unfolding bufs_ok_def in_db_def in_cb_def b by blast
qed

end
