(* ===== verification/Rw_Command.thy ===== *)
theory Rw_Command
  imports Nvme_Cmd
begin

text \<open>
  The sending side of the RW command in InnoDB: \<^verbatim>\<open>rw/rw0rw.cc\<close> turns a file offset into a block
  address of the device, and \<^verbatim>\<open>os_rw_io_func\<close> of \<^verbatim>\<open>os/os0file.cc\<close> builds the command and hands it
  to the device driver. \<^verbatim>\<open>fstat\<close>, the \<^verbatim>\<open>FIBMAP\<close> call and the pass-through call of the driver belong
  to the operating system and are parameters: \<open>blksize\<close> gives the block size of a file, \<open>fibmap\<close> the
  block of the volume that holds a block of a file (\<^term>\<open>None\<close> when the call fails) and \<open>send\<close>
  the effect of the pass-through call on the world (\<^term>\<open>None\<close> when it returns -1). \<^term>\<open>None\<close> as a result
  of the functions is \<^verbatim>\<open>ut_error\<close>, which stops the server.
\<close>

section \<open>Addresses\<close>

definition START_SECTOR :: "64 word" where "START_SECTOR = 2048"

definition buf_get_lba ::
  "('f \<Rightarrow> 64 word) \<Rightarrow> ('f \<Rightarrow> 64 word \<Rightarrow> 64 word option) \<Rightarrow> 'f \<Rightarrow> 64 word \<Rightarrow> 64 word option" where
  "buf_get_lba blksize fibmap f offs =
     do {
       ret \<leftarrow> (if blksize f = 0 then None else fibmap f (offs div blksize f));
       Some ((ret * 8 + START_SECTOR) div 8)
     }"

section \<open>The command\<close>

record nvme_passthru_cmd =
  opcode :: "8 word"
  flags :: "8 word"
  rsvd1 :: "16 word"
  nsid :: "32 word"
  cdw2 :: "32 word"
  cdw3 :: "32 word"
  metadata :: "64 word"
  addr :: "64 word"
  metadata_len :: "32 word"
  data_len :: "32 word"
  cdw10 :: "32 word"
  cdw11 :: "32 word"
  cdw12 :: "32 word"
  cdw13 :: "32 word"
  cdw14 :: "32 word"
  cdw15 :: "32 word"
  timeout_ms :: "32 word"
  passthru_result :: "32 word"

definition rw_passthru_cmd ::
  "64 word \<Rightarrow> 64 word \<Rightarrow> 64 word \<Rightarrow> 64 word \<Rightarrow> 64 word \<Rightarrow> nvme_passthru_cmd" where
  "rw_passthru_cmd buf_w n_w n_r write_lba read_lba =
     (let nlb_w = ucast n_w div 4096 - 1; nlb_r = ucast n_r div 4096 - 1 in
      \<lparr>opcode = 0x66, flags = 0, rsvd1 = 0, nsid = 0, cdw2 = 0, cdw3 = 0, metadata = 0, addr = buf_w,
       metadata_len = 0, data_len = ucast n_w, cdw10 = ucast write_lba, cdw11 = 0, cdw12 = nlb_w,
       cdw13 = nlb_r, cdw14 = ucast read_lba, cdw15 = 0, timeout_ms = 0, passthru_result = 0\<rparr>)"

record os_io_stats =
  os_n_file_reads :: "64 word"
  os_n_file_writes :: "64 word"
  os_n_pending_reads :: "64 word"
  os_file_n_pending_preads :: "64 word"
  os_n_pending_writes :: "64 word"
  os_file_n_pending_pwrites :: "64 word"

definition OS_FILE_READ :: nat where "OS_FILE_READ = 10"
definition OS_FILE_WRITE :: nat where "OS_FILE_WRITE = 11"

definition os_rw_io_func ::
  "64 word \<Rightarrow> ('f \<Rightarrow> 64 word) \<Rightarrow> ('f \<Rightarrow> 64 word \<Rightarrow> 64 word option) \<Rightarrow>
   (nvme_passthru_cmd \<Rightarrow> 'd \<Rightarrow> 'd option) \<Rightarrow>
   nat \<Rightarrow> 'f \<Rightarrow> 64 word \<Rightarrow> 64 word \<Rightarrow> 64 word \<Rightarrow> 'f \<Rightarrow> 64 word \<Rightarrow> 64 word \<Rightarrow>
   os_io_stats \<times> 'd \<Rightarrow> (os_io_stats \<times> 'd) option" where
  "os_rw_io_func UNIV_PAGE_SIZE blksize fibmap send type node_w buf_w offset_w n_w node_r offset_r n_r
     = (\<lambda>(st, d).
     if type \<noteq> OS_FILE_WRITE then None
     else do {
       let st = st\<lparr>os_n_file_reads := os_n_file_reads st + 1,
                   os_n_file_writes := os_n_file_writes st + 1\<rparr>;
       let st = st\<lparr>os_n_pending_reads := os_n_pending_reads st + 1,
                   os_file_n_pending_preads := os_file_n_pending_preads st + 1,
                   os_n_pending_writes := os_n_pending_writes st + 1,
                   os_file_n_pending_pwrites := os_file_n_pending_pwrites st + 1\<rparr>;
       d \<leftarrow> (if n_w = UNIV_PAGE_SIZE then
               do {
                 write_lba \<leftarrow> buf_get_lba blksize fibmap node_w offset_w;
                 read_lba \<leftarrow> buf_get_lba blksize fibmap node_r offset_r;
                 send (rw_passthru_cmd buf_w n_w n_r write_lba read_lba) d
               }
             else None);
       let st = st\<lparr>os_n_pending_reads := os_n_pending_reads st - 1,
                   os_file_n_pending_preads := os_file_n_pending_preads st - 1,
                   os_n_pending_writes := os_n_pending_writes st - 1,
                   os_file_n_pending_pwrites := os_file_n_pending_pwrites st - 1\<rparr>;
       Some (st, d)
     })"

section \<open>From the host to the device\<close>

text \<open>
  What the driver documents of a pass-through command: the entry \<open>c\<close> that the device fetches has
  the opcode and the words 10 to 15 of the command; the driver fills in the data pointers, as
  \<open>prp_ok\<close> demands for a buffer that is aligned to 16 bytes in the first 48 bits of memory.
\<close>

definition passed_through :: "nvme_passthru_cmd \<Rightarrow> nvme_command \<Rightarrow> bool" where
  "passed_through cmd c \<longleftrightarrow>
     bits_at 0 8 (cmdDword c 0) = ucast (opcode cmd) \<and>
     cmdDword c 10 = cdw10 cmd \<and> cmdDword c 11 = cdw11 cmd \<and> cmdDword c 12 = cdw12 cmd \<and>
     cmdDword c 13 = cdw13 cmd \<and> cmdDword c 14 = cdw14 cmd \<and> cmdDword c 15 = cdw15 cmd \<and>
     prp_ok 0xF c"

text \<open>The driver and the device as one receiver: the device handles the entry that the driver makes.\<close>

definition device_send ::
  "platform \<Rightarrow> (nvme_passthru_cmd \<Rightarrow> nvme_command) \<Rightarrow> nvme_passthru_cmd \<Rightarrow> ssd \<Rightarrow> ssd option" where
  "device_send p driver cmd s = handle_nvme_io_cmd p (driver cmd) s"

lemma buf_get_lba_Some:
  assumes "blksize f \<noteq> 0" and "fibmap f (offs div blksize f) = Some blk" and "unat blk < 2 ^ 60"
  shows "buf_get_lba blksize fibmap f offs = Some (blk + 256)"
proof -
  have "unat (blk * 8 + 2048) = unat blk * 8 + 2048"
    using assms(3) by (simp add: unat_word_ariths)
  moreover have "unat (blk + 256) = unat blk + 256"
    using assms(3) by (simp add: unat_word_ariths)
  ultimately have "(blk * 8 + 2048) div 8 = blk + 256"
    by (simp add: word_unat_eq_iff unat_div)
  then show ?thesis using assms(1,2) by (simp add: buf_get_lba_def START_SECTOR_def)
qed

text \<open>The number of blocks of a page, as the command carries it.\<close>

lemma page_nlb:
  assumes "4096 dvd ps" and "0 < ps" and "ps \<le> 65536"
  shows "unat (ucast (of_nat ps :: 64 word) div 4096 - 1 :: 32 word) = ps div 4096 - 1"
proof -
  have "unat (ucast (of_nat ps :: 64 word) :: 32 word) = ps"
    using assms(3) by (simp add: unsigned_ucast_eq unsigned_of_nat take_bit_eq_mod)
  then have d: "unat (ucast (of_nat ps :: 64 word) div 4096 :: 32 word) = ps div 4096"
    by (simp add: unat_div)
  have "1 \<le> ps div 4096" using assms(1,2) by (auto elim!: dvdE)
  then show ?thesis using d by (simp add: unat_sub word_le_nat_alt)
qed

lemma small_word_fields:
  assumes "unat w < 16"
  shows "NLB w = unat w" and "\<not> FUA w"
proof -
  show "NLB w = unat w"
    using assms by (simp add: NLB_def low16_def bits_at_def unsigned_take_bit_eq take_bit_nat_eq_self)
  have "\<not> bit (unat w) 30"
    using assms by (simp add: bit_iff_odd)
  then show "\<not> FUA w" by (simp add: FUA_def bit_unsigned_iff possible_bit_def)
qed

lemma device_lba:
  assumes "unat blk + 256 < unat (c :: 32 word)"
  shows "ucast (blk + 256 :: 64 word) < c" and "unat (ucast (blk + 256 :: 64 word) :: 32 word) = unat blk + 256"
proof -
  have b: "unat blk + 256 < 2 ^ 32" using assms unsigned_less [of c, where ?'a = nat] by simp
  then have "unat (blk + 256) = unat blk + 256" by (simp add: unat_word_ariths)
  then show e: "unat (ucast (blk + 256 :: 64 word) :: 32 word) = unat blk + 256"
    using b by (simp add: unsigned_ucast_eq take_bit_nat_eq_self)
  then show "ucast (blk + 256 :: 64 word) < c" using assms by (simp add: word_less_nat_alt)
qed

text \<open>A driver that passes the words on, and a file that lies 1000 blocks into its volume.\<close>

definition plain_driver :: "nvme_passthru_cmd \<Rightarrow> nvme_command" where
  "plain_driver cmd = \<lparr>qID = 1, cmdSlotTag = 3, cmdSeqNum = 0,
     cmdDword = (\<lambda>i. if i = 0 then ucast (opcode cmd) else if i = 10 then cdw10 cmd
       else if i = 11 then cdw11 cmd else if i = 12 then cdw12 cmd else if i = 13 then cdw13 cmd
       else if i = 14 then cdw14 cmd else if i = 15 then cdw15 cmd else 0)\<rparr>"

lemma plain_driver_passes: "passed_through cmd (plain_driver cmd)"
proof -
  have "take_bit 8 (ucast (opcode cmd) :: 32 word) = ucast (opcode cmd)"
    by (auto simp: bit_eq_iff bit_take_bit_iff bit_ucast_iff dest: bit_imp_le_length)
  then show ?thesis by (simp add: passed_through_def plain_driver_def prp_ok_def bits_at_def)
qed

text \<open>
  C4. The RW command that InnoDB sends is the one that the device carries out. For a page of 4 to 64
  KB whose write and read side lie on the blocks \<open>wblk\<close> and \<open>rblk\<close> of the volume, inside the
  device, \<^verbatim>\<open>os_rw_io_func\<close> counts one read and one write, leaves no transfer pending, and makes the
  device do exactly this: cut the whole page at the write address into slice requests of writes,
  and then the whole page at the read address into slice requests of reads, both marked as parts of a
  custom command, without forced unit access, for the same slot.
\<close>

theorem rw_command_reaches_device:
  fixes ps :: nat
  assumes "4096 dvd ps" and "0 < ps" and "ps \<le> 65536"
    and "blksize w \<noteq> 0" and "fibmap w (offw div blksize w) = Some wblk"
    and "blksize r \<noteq> 0" and "fibmap r (offr div blksize r) = Some rblk"
    and "unat wblk + 256 < unat (storageCapacity s)" and "unat rblk + 256 < unat (storageCapacity s)"
    and "\<And>cmd. passed_through cmd (driver cmd)"
  shows "\<exists>slot. os_rw_io_func (of_nat ps) blksize fibmap (device_send p driver) OS_FILE_WRITE
      w buf offw (of_nat ps) r offr (of_nat ps) (st, s) =
    do {
      s \<leftarrow> ReqTransNvmeToSlice p slot (unat wblk + 256) (ps div 4096 - 1) IO_NVM_WRITE False True s;
      s \<leftarrow> ReqTransNvmeToSlice p slot (unat rblk + 256) (ps div 4096 - 1) IO_NVM_READ False True s;
      Some (st\<lparr>os_n_file_reads := os_n_file_reads st + 1,
               os_n_file_writes := os_n_file_writes st + 1\<rparr>, s)
    }"
proof -
  define cmd where "cmd = rw_passthru_cmd buf (of_nat ps) (of_nat ps) (wblk + 256) (rblk + 256)"
  define nlb :: "32 word" where "nlb = ucast (of_nat ps :: 64 word) div 4096 - 1"
  have blk: "unat b < 2 ^ 60" if "unat b + 256 < unat (storageCapacity s)" for b :: "64 word"
    using that unsigned_less [of "storageCapacity s", where ?'a = nat] by simp
  note lba = buf_get_lba_Some [of blksize w fibmap, OF assms(4,5) blk [OF assms(8)]]
    buf_get_lba_Some [of blksize r fibmap, OF assms(6,7) blk [OF assms(9)]]
  have nlb: "unat nlb = ps div 4096 - 1" "unat nlb < 16"
    using page_nlb [OF assms(1-3)] assms(3) by (simp_all add: nlb_def)
  note d = assms(10) [of cmd, unfolded passed_through_def]
  have "handle_nvme_io_cmd p (driver cmd) s =
    do {
      s \<leftarrow> ReqTransNvmeToSlice p (cmdSlotTag (driver cmd)) (unat wblk + 256) (ps div 4096 - 1)
             IO_NVM_WRITE False True s;
      ReqTransNvmeToSlice p (cmdSlotTag (driver cmd)) (unat rblk + 256) (ps div 4096 - 1)
        IO_NVM_READ False True s
    }"
    using d device_lba [OF assms(8)] device_lba [OF assms(9)] nlb small_word_fields [OF nlb(2)]
    by (simp add: handle_nvme_io_cmd_def handle_nvme_io_write_read_def OPC_def cmd_def rw_passthru_cmd_def
        IO_NVM_FLUSH_def IO_NVM_WRITE_def IO_NVM_READ_def IO_NVM_WRITE_READ_def lba_ok_def
        flip: nlb_def)
  then have "device_send p driver cmd s = \<dots>" by (simp add: device_send_def)
  then show ?thesis
    using lba by (auto simp: os_rw_io_func_def cmd_def Let_def intro!: exI [of _ "cmdSlotTag (driver cmd)"])
qed

theorem rw_command_reaches_device_witness:
  "\<exists>slot. os_rw_io_func 8192 (\<lambda>f. 4096) (\<lambda>f b. Some (b + 1000))
      (device_send (small_platform (\<lambda>k. quiet)) plain_driver) OS_FILE_WRITE
      ''a.ibd'' 0xABC000 0x5000 8192 ''b.ibd'' 0x9000 8192
      (\<lparr>os_n_file_reads = 0, os_n_file_writes = 0, os_n_pending_reads = 0, os_file_n_pending_preads = 0,
        os_n_pending_writes = 0, os_file_n_pending_pwrites = 0\<rparr>, blank_ssd\<lparr>storageCapacity := 0x100000\<rparr>) =
    do {
      s \<leftarrow> ReqTransNvmeToSlice (small_platform (\<lambda>k. quiet)) slot 1261 1 IO_NVM_WRITE False True
             (blank_ssd\<lparr>storageCapacity := 0x100000\<rparr>);
      s \<leftarrow> ReqTransNvmeToSlice (small_platform (\<lambda>k. quiet)) slot 1265 1 IO_NVM_READ False True s;
      Some (\<lparr>os_n_file_reads = 1, os_n_file_writes = 1, os_n_pending_reads = 0, os_file_n_pending_preads = 0,
        os_n_pending_writes = 0, os_file_n_pending_pwrites = 0\<rparr>, s)
    }"
  using rw_command_reaches_device [where ps = 8192 and blksize = "\<lambda>f. 4096" and w = "''a.ibd''"
      and fibmap = "\<lambda>f b. Some (b + 1000)" and offw = "0x5000" and wblk = 1005
      and r = "''b.ibd''" and offr = "0x9000" and rblk = 1009
      and s = "blank_ssd\<lparr>storageCapacity := 0x100000\<rparr>" and driver = plain_driver
      and p = "small_platform (\<lambda>k. quiet)" and buf = "0xABC000"
      and st = "\<lparr>os_n_file_reads = 0, os_n_file_writes = 0, os_n_pending_reads = 0,
        os_file_n_pending_preads = 0, os_n_pending_writes = 0, os_file_n_pending_pwrites = 0\<rparr>"]
  by (simp add: plain_driver_passes)

end
