(* ===== verification/Fil_Io.thy ===== *)
theory Fil_Io
  imports Rw_Command
begin

text \<open>
  The tablespace memory cache of InnoDB as far as an RW command goes through it, \<^verbatim>\<open>fil/fil0fil.cc\<close>: the file
  nodes and spaces, the list of open files without pending i/o, opening and closing of files, the bookkeeping before
  and after an i/o, and \<^verbatim>\<open>fil_io_with_rw_cmd\<close>, which writes one page and reads another with one command.

  The functions run with the mutex of the cache held, so they are functions on the cache. What happens to the cache
  while the mutex is released (other threads, and \<^verbatim>\<open>fil_flush_file_spaces\<close>) is a parameter, as are the calls
  of the operating system. \<^term>\<open>None\<close> is a failed \<^verbatim>\<open>ut_a\<close> or \<^verbatim>\<open>ut_error\<close>: the server stops.
\<close>

section \<open>The cache\<close>

datatype fil_purpose = FIL_TABLESPACE | FIL_LOG

text \<open>A node names its space by its id, and a space its nodes by their addresses.\<close>

record fil_node_t =
  node_space :: nat
  node_name :: string
  node_open :: bool
  node_handle :: nat
  node_size :: nat
  n_pending :: nat
  node_n_pending_flushes :: nat
  being_extended :: bool
  node_modification_counter :: int
  flush_counter :: int

record fil_space_t =
  stop_ios :: bool
  purpose :: fil_purpose
  chain :: "nat list"
  space_size :: nat
  space_flags :: nat
  is_in_unflushed_spaces :: bool

text \<open>The lists have their first element first. The last two fields are global variables.\<close>

record fil_system_t =
  spaces :: "nat \<Rightarrow> fil_space_t option"
  nodes :: "nat \<Rightarrow> fil_node_t"
  fil_LRU :: "nat list"
  unflushed_spaces :: "nat list"
  n_open :: nat
  max_n_open :: nat
  sys_modification_counter :: int
  fil_n_file_opened :: nat
  log_fd :: nat

text \<open>The settings of the server that the functions read.\<close>

record srv_settings =
  srv_undo_tablespaces_open :: nat
  o_direct_no_fsync :: bool
  srv_fast_shutdown :: nat
  srv_page_size_shift :: nat

definition UNIV_PAGE_SIZE :: "srv_settings \<Rightarrow> nat" where
  "UNIV_PAGE_SIZE srv = 2 ^ srv_page_size_shift srv"

text \<open>
  The calls on files: opening for reading and for reading and writing (a handle and whether it worked), the size,
  the space id and flags in the header of the first page, and closing.
\<close>

record os_files =
  os_file_create_simple :: "string \<Rightarrow> nat \<times> bool"
  os_file_get_size :: "nat \<Rightarrow> nat option"
  fsp_header :: "nat \<Rightarrow> nat \<times> nat"
  os_file_create :: "string \<Rightarrow> nat \<times> bool"
  os_file_close :: "nat \<Rightarrow> bool"

definition upd_node :: "nat \<Rightarrow> (fil_node_t \<Rightarrow> fil_node_t) \<Rightarrow> fil_system_t \<Rightarrow> fil_system_t" where
  "upd_node n f sys = sys\<lparr>nodes := (nodes sys)(n := f (nodes sys n))\<rparr>"

definition upd_space :: "nat \<Rightarrow> (fil_space_t \<Rightarrow> fil_space_t) \<Rightarrow> fil_system_t \<Rightarrow> fil_system_t" where
  "upd_space i f sys = sys\<lparr>spaces := (spaces sys)(i := map_option f (spaces sys i))\<rparr>"

section \<open>Kinds of spaces\<close>

definition fil_is_user_tablespace_id :: "srv_settings \<Rightarrow> nat \<Rightarrow> bool" where
  "fil_is_user_tablespace_id srv i \<longleftrightarrow> srv_undo_tablespaces_open srv < i"

definition fil_space_belongs_in_lru :: "srv_settings \<Rightarrow> nat \<Rightarrow> fil_space_t \<Rightarrow> bool" where
  "fil_space_belongs_in_lru srv i sp \<longleftrightarrow> purpose sp = FIL_TABLESPACE \<and> fil_is_user_tablespace_id srv i"

definition fil_buffering_disabled :: "srv_settings \<Rightarrow> fil_space_t \<Rightarrow> bool" where
  "fil_buffering_disabled srv sp \<longleftrightarrow> purpose sp = FIL_TABLESPACE \<and> o_direct_no_fsync srv"

definition fsp_flags_get_zip_size :: "nat \<Rightarrow> nat" where
  "fsp_flags_get_zip_size flags' =
     (let ssize = (flags' div 2) mod 16 in if ssize \<noteq> 0 then 512 * 2 ^ ssize else 0)"

definition fsp_flags_is_compressed :: "nat \<Rightarrow> bool" where
  "fsp_flags_is_compressed flags' \<longleftrightarrow> (flags' div 2) mod 16 \<noteq> 0"

definition fsp_flags_get_page_size :: "nat \<Rightarrow> nat" where
  "fsp_flags_get_page_size flags' =
     (let ssize = (flags' div 64) mod 16 in if ssize \<noteq> 0 then 512 * 2 ^ ssize else 16384)"

section \<open>Opening and closing files\<close>

definition FIL_IBD_FILE_INITIAL_SIZE :: nat where "FIL_IBD_FILE_INITIAL_SIZE = 4"

definition ULINT_UNDEFINED :: nat where "ULINT_UNDEFINED = 2 ^ 64 - 1"

text \<open>The size of a file of a single-table tablespace is learnt when the file is opened for the first time.\<close>

definition learn_node_size ::
  "srv_settings \<Rightarrow> os_files \<Rightarrow> nat \<Rightarrow> nat \<Rightarrow> fil_space_t \<Rightarrow> fil_system_t \<Rightarrow> (bool \<times> fil_system_t) option" where
  "learn_node_size srv os n i sp sys =
     (let (h, success) = os_file_create_simple os (node_name (nodes sys n));
          sys = upd_node n (\<lambda>r. r\<lparr>node_handle := h\<rparr>) sys in
      if \<not> success then Some (False, sys)
      else do {
        size_bytes \<leftarrow> os_file_get_size os h;
        let (id', flags') = fsp_header os h;
        (if purpose sp = FIL_LOG \<or> \<not> fil_is_user_tablespace_id srv i \<or>
            size_bytes < FIL_IBD_FILE_INITIAL_SIZE * UNIV_PAGE_SIZE srv \<or>
            id' \<noteq> i \<or> id' = ULINT_UNDEFINED \<or> id' = 0 \<or>
            fsp_flags_get_page_size (space_flags sp) \<noteq> fsp_flags_get_page_size flags' \<or>
            space_flags sp \<noteq> flags'
         then None
         else
           let size_bytes = (if 1024 * 1024 \<le> size_bytes
                             then size_bytes div (1024 * 1024) * (1024 * 1024) else size_bytes);
               size = (if \<not> fsp_flags_is_compressed flags' then size_bytes div UNIV_PAGE_SIZE srv
                       else size_bytes div fsp_flags_get_zip_size flags');
               sys = upd_node n (\<lambda>r. r\<lparr>node_size := size\<rparr>) sys
           in Some (True, upd_space i (\<lambda>r. r\<lparr>space_size := space_size r + size\<rparr>) sys))
      })"

text \<open>
  The file is opened for reading and writing, whatever its kind. One tablespace of the benchmark is remembered by
  name.
\<close>

definition open_node :: "srv_settings \<Rightarrow> os_files \<Rightarrow> nat \<Rightarrow> nat \<Rightarrow> fil_space_t \<Rightarrow> fil_system_t \<Rightarrow> fil_system_t option" where
  "open_node srv os n i sp sys =
     (let (h, ret) = os_file_create os (node_name (nodes sys n)) in
      if \<not> ret then None
      else
        let sys = upd_node n (\<lambda>r. r\<lparr>node_handle := h, node_open := True\<rparr>) sys;
            sys = sys\<lparr>n_open := n_open sys + 1, fil_n_file_opened := fil_n_file_opened sys + 1\<rparr>;
            sys = (if fil_space_belongs_in_lru srv i sp then sys\<lparr>fil_LRU := n # fil_LRU sys\<rparr> else sys)
        in Some (if node_name (nodes sys n) = ''./tpcc10_4k/warehouse.ibd''
                 then sys\<lparr>log_fd := i\<rparr> else sys))"

definition fil_node_open_file ::
  "srv_settings \<Rightarrow> os_files \<Rightarrow> nat \<Rightarrow> nat \<Rightarrow> fil_system_t \<Rightarrow> (bool \<times> fil_system_t) option" where
  "fil_node_open_file srv os n i sys =
     do {
       sp \<leftarrow> spaces sys i;
       (if n_pending (nodes sys n) \<noteq> 0 \<or> node_open (nodes sys n) then None
        else do {
          (known, sys) \<leftarrow> (if node_size (nodes sys n) = 0 then learn_node_size srv os n i sp sys
                          else Some (True, sys));
          (if \<not> known then Some (False, sys)
           else do { sys \<leftarrow> open_node srv os n i sp sys; Some (True, sys) })
        })
     }"

definition fil_node_close_file :: "srv_settings \<Rightarrow> os_files \<Rightarrow> nat \<Rightarrow> fil_system_t \<Rightarrow> fil_system_t option" where
  "fil_node_close_file srv os n sys =
     (let nd = nodes sys n in
      if \<not> node_open nd \<or> n_pending nd \<noteq> 0 \<or> node_n_pending_flushes nd \<noteq> 0 \<or> being_extended nd \<or>
         \<not> (node_modification_counter nd = flush_counter nd \<or> srv_fast_shutdown srv = 2) \<or>
         \<not> os_file_close os (node_handle nd) \<or> n_open sys = 0
      then None
      else do {
        let sys = upd_node n (\<lambda>r. r\<lparr>node_open := False\<rparr>) sys;
        let sys = sys\<lparr>n_open := n_open sys - 1, fil_n_file_opened := fil_n_file_opened sys - 1\<rparr>;
        sp \<leftarrow> spaces sys (node_space nd);
        (if fil_space_belongs_in_lru srv (node_space nd) sp
         then if fil_LRU sys = [] then None else Some (sys\<lparr>fil_LRU := remove1 n (fil_LRU sys)\<rparr>)
         else Some sys)
      })"

text \<open>The list is searched from its end, the file that was used least recently.\<close>

definition closeable :: "fil_node_t \<Rightarrow> bool" where
  "closeable nd \<longleftrightarrow> node_modification_counter nd = flush_counter nd \<and> node_n_pending_flushes nd = 0 \<and>
     \<not> being_extended nd"

definition fil_try_to_close_file_in_LRU ::
  "srv_settings \<Rightarrow> os_files \<Rightarrow> fil_system_t \<Rightarrow> (bool \<times> fil_system_t) option" where
  "fil_try_to_close_file_in_LRU srv os sys =
     (case find (\<lambda>n. closeable (nodes sys n)) (rev (fil_LRU sys)) of
        Some n \<Rightarrow> do { sys \<leftarrow> fil_node_close_file srv os n sys; Some (True, sys) }
      | None \<Rightarrow> Some (False, sys))"

lemma fil_node_close_file_n_open:
  "fil_node_close_file srv os n sys = Some sys' \<Longrightarrow> n_open sys = Suc (n_open sys')"
  by (auto simp: fil_node_close_file_def Let_def upd_node_def elim!: bind_SomeE split: if_splits)

lemma fil_try_to_close_n_open:
  "fil_try_to_close_file_in_LRU srv os sys = Some (True, sys') \<Longrightarrow> n_open sys' < n_open sys"
  by (auto simp: fil_try_to_close_file_in_LRU_def elim!: bind_SomeE split: option.splits
      dest!: fil_node_close_file_n_open)

function close_more :: "srv_settings \<Rightarrow> os_files \<Rightarrow> fil_system_t \<Rightarrow> fil_system_t option" where
  "close_more srv os sys =
     do {
       (success, sys') \<leftarrow> fil_try_to_close_file_in_LRU srv os sys;
       (if success \<and> max_n_open sys' \<le> n_open sys' then close_more srv os sys' else Some sys')
     }"
  by pat_completeness auto
termination
  by (relation "measure (\<lambda>(srv, os, sys). n_open sys)") (auto dest: fil_try_to_close_n_open)

declare close_more.simps [simp del]

section \<open>Before and after an i/o\<close>

definition SRV_LOG_SPACE_FIRST_ID :: nat where "SRV_LOG_SPACE_FIRST_ID = 0xFFFFFFF0"

text \<open>
  With too many files open, nothing is closed when a space is missing or one of the two has its first file open
  already. A space without a file has no first file to look at.
\<close>

definition first_node_open :: "fil_system_t \<Rightarrow> fil_space_t \<Rightarrow> bool option" where
  "first_node_open sys sp = (case chain sp of [] \<Rightarrow> None | n # _ \<Rightarrow> Some (node_open (nodes sys n)))"

definition nothing_to_close :: "fil_system_t \<Rightarrow> fil_space_t option \<Rightarrow> fil_space_t option \<Rightarrow> bool option" where
  "nothing_to_close sys space space_to_read =
     (case space of
        None \<Rightarrow> Some True
      | Some sp \<Rightarrow>
          do {
            opened \<leftarrow> first_node_open sys sp;
            (if opened then Some True
             else case space_to_read of None \<Rightarrow> Some True | Some sp' \<Rightarrow> first_node_open sys sp')
          })"

text \<open>
  \<open>others k\<close> is what happens to the cache during the \<open>k\<close>-th release of the mutex; the function returns with the
  mutex held. \<open>count\<close> and \<open>count2\<close> are its local counters.
\<close>

partial_function (option) prepare_rw_retry ::
  "srv_settings \<Rightarrow> os_files \<Rightarrow> (nat \<Rightarrow> fil_system_t \<Rightarrow> fil_system_t) \<Rightarrow> nat \<Rightarrow> nat \<Rightarrow> nat \<Rightarrow> nat \<Rightarrow> fil_system_t \<Rightarrow>
   fil_system_t option" where
  [code]: "prepare_rw_retry srv os others space_id space_id_to_read count count2 sys =
     (if space_id = 0 \<or> SRV_LOG_SPACE_FIRST_ID \<le> space_id \<or>
         space_id_to_read = 0 \<or> SRV_LOG_SPACE_FIRST_ID \<le> space_id_to_read
      then Some sys
      else
        let space = spaces sys space_id; space_to_read = spaces sys space_id_to_read in
        if space \<noteq> None \<and> stop_ios (the space) \<and> space_to_read \<noteq> None \<and> stop_ios (the space_to_read)
        then prepare_rw_retry srv os others space_id space_id_to_read count (count2 + 1)
               (others (count + count2) sys)
        else if n_open sys < max_n_open sys then Some sys
        else do {
          done \<leftarrow> nothing_to_close sys space space_to_read;
          (if done then Some sys
           else do {
             sys \<leftarrow> close_more srv os sys;
             (if n_open sys < max_n_open sys \<or> 2 \<le> count then Some sys
              else prepare_rw_retry srv os others space_id space_id_to_read (count + 1) count2
                     (others (count + count2) sys))
           })
        })"

definition fil_mutex_enter_and_prepare_for_rw_io ::
  "srv_settings \<Rightarrow> os_files \<Rightarrow> (nat \<Rightarrow> fil_system_t \<Rightarrow> fil_system_t) \<Rightarrow> nat \<Rightarrow> nat \<Rightarrow> fil_system_t \<Rightarrow>
   fil_system_t option" where
  "fil_mutex_enter_and_prepare_for_rw_io srv os others space_id space_id_to_read =
     prepare_rw_retry srv os others space_id space_id_to_read 0 0"

text \<open>An i/o on an open file takes it off the list and is counted.\<close>

definition start_io :: "srv_settings \<Rightarrow> nat \<Rightarrow> nat \<Rightarrow> fil_system_t \<Rightarrow> fil_system_t option" where
  "start_io srv n i sys =
     do {
       sp \<leftarrow> spaces sys i;
       sys \<leftarrow> (if n_pending (nodes sys n) = 0 \<and> fil_space_belongs_in_lru srv i sp
              then if fil_LRU sys = [] then None else Some (sys\<lparr>fil_LRU := remove1 n (fil_LRU sys)\<rparr>)
              else Some sys);
       Some (upd_node n (\<lambda>r. r\<lparr>n_pending := n_pending r + 1\<rparr>) sys)
     }"

definition fil_node_prepare_for_io ::
  "srv_settings \<Rightarrow> os_files \<Rightarrow> nat \<Rightarrow> nat \<Rightarrow> fil_system_t \<Rightarrow> (bool \<times> fil_system_t) option" where
  "fil_node_prepare_for_io srv os n i sys =
     do {
       (opened, sys) \<leftarrow> (if \<not> node_open (nodes sys n) then fil_node_open_file srv os n i sys else Some (True, sys));
       (if \<not> opened then Some (False, sys)
        else do { sys \<leftarrow> start_io srv n i sys; Some (True, sys) })
     }"

definition mark_modified :: "srv_settings \<Rightarrow> nat \<Rightarrow> fil_system_t \<Rightarrow> fil_system_t option" where
  "mark_modified srv n sys =
     do {
       let i = node_space (nodes sys n);
       sp \<leftarrow> spaces sys i;
       let sys = sys\<lparr>sys_modification_counter := sys_modification_counter sys + 1\<rparr>;
       let sys = upd_node n (\<lambda>r. r\<lparr>node_modification_counter := sys_modification_counter sys\<rparr>) sys;
       Some (if fil_buffering_disabled srv sp
             then upd_node n (\<lambda>r. r\<lparr>flush_counter := node_modification_counter r\<rparr>) sys
             else if \<not> is_in_unflushed_spaces sp
             then upd_space i (\<lambda>r. r\<lparr>is_in_unflushed_spaces := True\<rparr>)
                    (sys\<lparr>unflushed_spaces := i # unflushed_spaces sys\<rparr>)
             else sys)
     }"

definition fil_node_complete_io :: "srv_settings \<Rightarrow> nat \<Rightarrow> nat \<Rightarrow> fil_system_t \<Rightarrow> fil_system_t option" where
  "fil_node_complete_io srv n type sys =
     (if n_pending (nodes sys n) = 0 then None
      else do {
        let sys = upd_node n (\<lambda>r. r\<lparr>n_pending := n_pending r - 1\<rparr>) sys;
        sys \<leftarrow> (if type = OS_FILE_WRITE then mark_modified srv n sys else Some sys);
        sp \<leftarrow> spaces sys (node_space (nodes sys n));
        Some (if n_pending (nodes sys n) = 0 \<and> fil_space_belongs_in_lru srv (node_space (nodes sys n)) sp
              then sys\<lparr>fil_LRU := n # fil_LRU sys\<rparr> else sys)
      })"

section \<open>The i/o of an RW command\<close>

datatype dberr_t = DB_SUCCESS | DB_ERROR | DB_TABLESPACE_DELETED

text \<open>
  The walk along the files of a space to the one with a page: the node, and the page's number in its file.
\<close>

fun find_node :: "srv_settings \<Rightarrow> fil_system_t \<Rightarrow> nat \<Rightarrow> nat list \<Rightarrow> nat \<Rightarrow> (nat \<times> nat) option" where
  "find_node srv sys i [] offset = None"
| "find_node srv sys i (n # ns) offset =
     (if fil_is_user_tablespace_id srv i \<and> node_size (nodes sys n) = 0 then Some (n, offset)
      else if offset < node_size (nodes sys n) then Some (n, offset)
      else find_node srv sys i ns (offset - node_size (nodes sys n)))"

definition OS_AIO_SIMULATED_WAKE_LATER :: nat where "OS_AIO_SIMULATED_WAKE_LATER = 512"
definition BUF_READ_IGNORE_NONEXISTENT_PAGES :: nat where "BUF_READ_IGNORE_NONEXISTENT_PAGES = 1024"
definition OS_FILE_LOG_BLOCK_SIZE :: nat where "OS_FILE_LOG_BLOCK_SIZE = 512"

text \<open>Subtraction of the 64-bit \<^verbatim>\<open>ulint\<close>, and the pages that a transfer needs.\<close>

definition usub64 :: "nat \<Rightarrow> nat \<Rightarrow> nat" where
  "usub64 a b = (a + (2 ^ 64 - b mod 2 ^ 64)) mod 2 ^ 64"

definition page_shift :: "srv_settings \<Rightarrow> nat \<Rightarrow> nat option" where
  "page_shift srv zip_size =
     (if zip_size = 0 then Some (srv_page_size_shift srv)
      else if zip_size = 1024 then Some 10 else if zip_size = 2048 then Some 11
      else if zip_size = 4096 then Some 12 else if zip_size = 8192 then Some 13
      else if zip_size = 16384 then Some 14 else None)"

definition pages_needed :: "srv_settings \<Rightarrow> nat \<Rightarrow> nat \<Rightarrow> nat \<Rightarrow> nat" where
  "pages_needed srv zip_size byte_offset len =
     (if zip_size = 0 then (byte_offset + len + (UNIV_PAGE_SIZE srv - 1)) div UNIV_PAGE_SIZE srv
      else (len + (zip_size - 1)) div zip_size)"

text \<open>Opening the file of one side; the result is \<^term>\<open>False\<close> when the data file of a user tablespace is missing.\<close>

definition prepare_side ::
  "srv_settings \<Rightarrow> os_files \<Rightarrow> nat \<Rightarrow> nat \<Rightarrow> fil_system_t \<Rightarrow> (bool \<times> fil_system_t) option" where
  "prepare_side srv os n i sys =
     do {
       sp \<leftarrow> spaces sys i;
       (ok, sys) \<leftarrow> fil_node_prepare_for_io srv os n i sys;
       (if \<not> ok \<and> \<not> (purpose sp = FIL_TABLESPACE \<and> fil_is_user_tablespace_id srv i) then None
        else Some (ok, sys))
     }"

definition outside :: "fil_system_t \<Rightarrow> nat \<Rightarrow> nat \<Rightarrow> nat \<Rightarrow> bool" where
  "outside sys i n offset \<longleftrightarrow>
     node_size (nodes sys n) \<le> offset \<and> i \<noteq> 0 \<and> (\<exists>sp. spaces sys i = Some sp \<and> purpose sp = FIL_TABLESPACE)"

text \<open>
  The transfer between two open files, and the end of the i/o; \<open>during\<close> is what the other threads do to the
  cache meanwhile.
\<close>

definition rw_transfer ::
  "srv_settings \<Rightarrow> (fil_system_t \<Rightarrow> fil_system_t) \<Rightarrow> (nat \<Rightarrow> 64 word) \<Rightarrow> (nat \<Rightarrow> 64 word \<Rightarrow> 64 word option) \<Rightarrow>
   (nvme_passthru_cmd \<Rightarrow> 'd \<Rightarrow> 'd option) \<Rightarrow> nat \<Rightarrow> nat \<Rightarrow> nat \<Rightarrow> nat \<Rightarrow> 64 word \<Rightarrow> nat \<times> nat \<Rightarrow> nat \<times> nat \<Rightarrow>
   fil_system_t \<times> os_io_stats \<times> 'd \<Rightarrow> (fil_system_t \<times> os_io_stats \<times> 'd) option" where
  "rw_transfer srv during blksize fibmap send type zip_size byte_offset len buf =
     (\<lambda>(node_r, off_r) (node_w, off_w) (sys, w).
     do {
       shift \<leftarrow> page_shift srv zip_size;
       (if usub64 (node_size (nodes sys node_r)) off_r < pages_needed srv zip_size byte_offset len \<or>
           usub64 (node_size (nodes sys node_w)) off_w < pages_needed srv zip_size byte_offset len \<or>
           byte_offset mod OS_FILE_LOG_BLOCK_SIZE \<noteq> 0 \<or> len mod OS_FILE_LOG_BLOCK_SIZE \<noteq> 0
        then None
        else do {
          let offset_r = push_bit shift (of_nat off_r) + of_nat byte_offset;
          let offset_w = push_bit shift (of_nat off_w) + of_nat byte_offset;
          w \<leftarrow> os_rw_io_func (of_nat (UNIV_PAGE_SIZE srv)) blksize fibmap send type
                 (node_handle (nodes sys node_w)) buf offset_w (of_nat len)
                 (node_handle (nodes sys node_r)) offset_r (of_nat len) w;
          let sys = during sys;
          sys \<leftarrow> fil_node_complete_io srv node_w type sys;
          sys \<leftarrow> fil_node_complete_io srv node_r type sys;
          Some (sys, w)
        })
     })"

text \<open>Both files are prepared, the one to read first.\<close>

definition rw_on_nodes ::
  "srv_settings \<Rightarrow> os_files \<Rightarrow> (fil_system_t \<Rightarrow> fil_system_t) \<Rightarrow> (nat \<Rightarrow> 64 word) \<Rightarrow>
   (nat \<Rightarrow> 64 word \<Rightarrow> 64 word option) \<Rightarrow> (nvme_passthru_cmd \<Rightarrow> 'd \<Rightarrow> 'd option) \<Rightarrow> nat \<Rightarrow> nat \<Rightarrow> nat \<Rightarrow> nat \<Rightarrow> nat \<Rightarrow>
   64 word \<Rightarrow> nat \<Rightarrow> nat \<times> nat \<Rightarrow> nat \<times> nat \<Rightarrow> fil_system_t \<times> os_io_stats \<times> 'd \<Rightarrow>
   (dberr_t \<times> fil_system_t \<times> os_io_stats \<times> 'd) option" where
  "rw_on_nodes srv os during blksize fibmap send type space_id zip_size byte_offset len buf space_id_to_read =
     (\<lambda>(node_r, off_r) (node_w, off_w) (sys, w).
     do {
       (ok_r, sys) \<leftarrow> prepare_side srv os node_r space_id_to_read sys;
       (if \<not> ok_r then Some (DB_TABLESPACE_DELETED, sys, w)
        else do {
          (ok_w, sys) \<leftarrow> prepare_side srv os node_w space_id sys;
          (if \<not> ok_w then Some (DB_TABLESPACE_DELETED, sys, w)
           else if outside sys space_id_to_read node_r off_r \<or> outside sys space_id node_w off_w then None
           else do {
             (sys, w) \<leftarrow> rw_transfer srv during blksize fibmap send type zip_size byte_offset len buf
                          (node_r, off_r) (node_w, off_w) (sys, w);
             Some (DB_SUCCESS, sys, w)
           })
        })
     })"

definition fil_io_with_rw_cmd ::
  "srv_settings \<Rightarrow> os_files \<Rightarrow> (nat \<Rightarrow> fil_system_t \<Rightarrow> fil_system_t) \<Rightarrow> (fil_system_t \<Rightarrow> fil_system_t) \<Rightarrow>
   (nat \<Rightarrow> 64 word) \<Rightarrow> (nat \<Rightarrow> 64 word \<Rightarrow> 64 word option) \<Rightarrow> (nvme_passthru_cmd \<Rightarrow> 'd \<Rightarrow> 'd option) \<Rightarrow>
   nat \<Rightarrow> nat \<Rightarrow> nat \<Rightarrow> nat \<Rightarrow> nat \<Rightarrow> nat \<Rightarrow> 64 word \<Rightarrow> nat \<Rightarrow> nat \<Rightarrow>
   fil_system_t \<times> os_io_stats \<times> 'd \<Rightarrow> (dberr_t \<times> fil_system_t \<times> os_io_stats \<times> 'd) option" where
  "fil_io_with_rw_cmd srv os others during blksize fibmap send type space_id zip_size block_offset byte_offset len buf
     space_id_to_read offset_to_read = (\<lambda>(sys, w).
     do {
       let ignore_nonexistent_pages = bit type 10;
       let type = unset_bit 10 (unset_bit 9 type);
       sys \<leftarrow> fil_mutex_enter_and_prepare_for_rw_io srv os others space_id space_id_to_read sys;
       space_w \<leftarrow> spaces sys space_id;
       space_r \<leftarrow> spaces sys space_id_to_read;
       (case (find_node srv sys space_id_to_read (chain space_r) offset_to_read,
              find_node srv sys space_id (chain space_w) block_offset) of
          (Some found_r, Some found_w) \<Rightarrow>
            rw_on_nodes srv os during blksize fibmap send type space_id zip_size byte_offset len buf space_id_to_read
              found_r found_w (sys, w)
        | _ \<Rightarrow> if ignore_nonexistent_pages then Some (DB_ERROR, sys, w) else None)
     })"

section \<open>The invariant of the cache\<close>

definition cache_nodes :: "fil_system_t \<Rightarrow> nat set" where
  "cache_nodes sys = {n. \<exists>i sp. spaces sys i = Some sp \<and> n \<in> set (chain sp)}"

definition in_lru :: "srv_settings \<Rightarrow> fil_system_t \<Rightarrow> nat \<Rightarrow> bool" where
  "in_lru srv sys n \<longleftrightarrow>
     n \<in> cache_nodes sys \<and> node_open (nodes sys n) \<and> n_pending (nodes sys n) = 0 \<and>
     (\<exists>sp. spaces sys (node_space (nodes sys n)) = Some sp \<and>
           fil_space_belongs_in_lru srv (node_space (nodes sys n)) sp)"

definition fil_inv :: "srv_settings \<Rightarrow> fil_system_t \<Rightarrow> bool" where
  "fil_inv srv sys \<longleftrightarrow>
     finite (cache_nodes sys) \<and>
     (\<forall>i sp. spaces sys i = Some sp \<longrightarrow> (\<forall>n \<in> set (chain sp). node_space (nodes sys n) = i)) \<and>
     n_open sys = card {n \<in> cache_nodes sys. node_open (nodes sys n)} \<and>
     (\<forall>n \<in> cache_nodes sys. 0 < n_pending (nodes sys n) \<longrightarrow> node_open (nodes sys n)) \<and>
     distinct (fil_LRU sys) \<and> set (fil_LRU sys) = {n. in_lru srv sys n} \<and>
     distinct (unflushed_spaces sys) \<and>
     (\<forall>i. i \<in> set (unflushed_spaces sys) \<longleftrightarrow> (\<exists>sp. spaces sys i = Some sp \<and> is_in_unflushed_spaces sp))"

text \<open>The parts of the cache that the operations change one at a time.\<close>

lemma upd_node_fields [simp]:
  "spaces (upd_node n f sys) = spaces sys" "fil_LRU (upd_node n f sys) = fil_LRU sys"
  "n_open (upd_node n f sys) = n_open sys" "unflushed_spaces (upd_node n f sys) = unflushed_spaces sys"
  "max_n_open (upd_node n f sys) = max_n_open sys" "cache_nodes (upd_node n f sys) = cache_nodes sys"
  "nodes (upd_node n f sys) = (nodes sys)(n := f (nodes sys n))"
  by (simp_all add: upd_node_def cache_nodes_def)

lemma upd_space_fields [simp]:
  "nodes (upd_space i f sys) = nodes sys" "fil_LRU (upd_space i f sys) = fil_LRU sys"
  "n_open (upd_space i f sys) = n_open sys" "unflushed_spaces (upd_space i f sys) = unflushed_spaces sys"
  "max_n_open (upd_space i f sys) = max_n_open sys"
  "spaces (upd_space i f sys) = (spaces sys)(i := map_option f (spaces sys i))"
  by (simp_all add: upd_space_def)

lemma cache_nodes_fields [simp]:
  "cache_nodes (sys\<lparr>n_open := k\<rparr>) = cache_nodes sys" "cache_nodes (sys\<lparr>fil_LRU := l\<rparr>) = cache_nodes sys"
  "cache_nodes (sys\<lparr>fil_n_file_opened := k\<rparr>) = cache_nodes sys" "cache_nodes (sys\<lparr>log_fd := k\<rparr>) = cache_nodes sys"
  "cache_nodes (sys\<lparr>unflushed_spaces := l\<rparr>) = cache_nodes sys"
  "cache_nodes (sys\<lparr>sys_modification_counter := c\<rparr>) = cache_nodes sys"
  by (simp_all add: cache_nodes_def)

lemma cache_nodes_upd_space [simp]:
  assumes "\<And>sp. chain (f sp) = chain sp"
  shows "cache_nodes (upd_space i f sys) = cache_nodes sys"
proof -
  have "(\<exists>sp. spaces (upd_space i f sys) j = Some sp \<and> n \<in> set (chain sp)) \<longleftrightarrow>
    (\<exists>sp. spaces sys j = Some sp \<and> n \<in> set (chain sp))" for j n
    using assms by (cases "spaces sys i") auto
  then show ?thesis by (simp add: cache_nodes_def del: upd_space_fields)
qed

text \<open>The invariant looks at these parts of the cache only.\<close>

definition space_core :: "fil_space_t \<Rightarrow> fil_purpose \<times> nat list \<times> bool" where
  "space_core sp = (purpose sp, chain sp, is_in_unflushed_spaces sp)"

definition node_core :: "fil_node_t \<Rightarrow> nat \<times> bool \<times> nat" where
  "node_core nd = (node_space nd, node_open nd, n_pending nd)"

definition fil_core :: "fil_system_t \<Rightarrow> (nat \<Rightarrow> (fil_purpose \<times> nat list \<times> bool) option) \<times>
    (nat \<Rightarrow> nat \<times> bool \<times> nat) \<times> nat list \<times> nat list \<times> nat" where
  "fil_core sys = (\<lambda>i. map_option space_core (spaces sys i), \<lambda>n. node_core (nodes sys n), fil_LRU sys,
     unflushed_spaces sys, n_open sys)"

lemma fil_inv_core:
  assumes "fil_core sys' = fil_core sys"
  shows "cache_nodes sys' = cache_nodes sys" and "fil_inv srv sys' = fil_inv srv sys"
proof -
  have eq: "map_option space_core (spaces sys' i) = map_option space_core (spaces sys i)"
    "node_core (nodes sys' n) = node_core (nodes sys n)" "fil_LRU sys' = fil_LRU sys"
    "unflushed_spaces sys' = unflushed_spaces sys" "n_open sys' = n_open sys" for i n
    using assms by (auto simp: fil_core_def dest: fun_cong)
  have sp: "(\<exists>sp. spaces sys' i = Some sp \<and> P (space_core sp)) \<longleftrightarrow> (\<exists>sp. spaces sys i = Some sp \<and> P (space_core sp))"
    for P i using eq(1) [of i] by (cases "spaces sys' i"; cases "spaces sys i") auto
  have nd: "node_space (nodes sys' n) = node_space (nodes sys n)" "node_open (nodes sys' n) = node_open (nodes sys n)"
    "n_pending (nodes sys' n) = n_pending (nodes sys n)" for n using eq(2) [of n] by (simp_all add: node_core_def)
  have N: "cache_nodes sys' = cache_nodes sys"
    using sp [of _ "\<lambda>(p, c, u). n \<in> set c" for n] by (simp add: cache_nodes_def space_core_def)
  have L: "in_lru srv sys' n = in_lru srv sys n" for n
    using sp [of "node_space (nodes sys n)" "\<lambda>(p, c, u). p = FIL_TABLESPACE"]
    by (simp add: in_lru_def N nd fil_space_belongs_in_lru_def space_core_def) metis
  have C: "(\<forall>i sp. spaces s i = Some sp \<longrightarrow> (\<forall>n \<in> set (chain sp). node_space (nodes sys n) = i)) \<longleftrightarrow>
    (\<forall>i n. (\<exists>sp. spaces s i = Some sp \<and> n \<in> set (chain sp)) \<longrightarrow> node_space (nodes sys n) = i)" for s by blast
  show "fil_inv srv sys' = fil_inv srv sys"
    unfolding fil_inv_def N nd eq L C
    using sp [of _ "\<lambda>(p, c, u). n \<in> set c" for n] sp [of _ "\<lambda>(p, c, u). u"] by (simp add: space_core_def)
  show "cache_nodes sys' = cache_nodes sys" by (rule N)
qed

text \<open>
  An operation moves one node at a time: the invariant says what the fields of the node, the counter and the list must
  be afterwards.
\<close>

lemma fil_inv_node:
  assumes inv: "fil_inv srv sys" and n: "n \<in> cache_nodes sys" and frame: "spaces sys' = spaces sys"
    "unflushed_spaces sys' = unflushed_spaces sys" "nodes sys' = (nodes sys)(n := nd)"
    and nd: "node_space nd = node_space (nodes sys n)" "0 < n_pending nd \<Longrightarrow> node_open nd"
    and opened: "n_open sys' + (if node_open (nodes sys n) then 1 else 0) = n_open sys + (if node_open nd then 1 else 0)"
    and lru: "distinct (fil_LRU sys')" "set (fil_LRU sys') - {n} = set (fil_LRU sys) - {n}"
      "n \<in> set (fil_LRU sys') \<longleftrightarrow> in_lru srv sys' n"
  shows "fil_inv srv sys'"
proof -
  have N: "cache_nodes sys' = cache_nodes sys" using frame by (simp add: cache_nodes_def)
  let ?O = "\<lambda>s. {m \<in> cache_nodes s. node_open (nodes s m)}"
  have fin: "finite (?O sys)" and cnt: "n_open sys = card (?O sys)" using inv by (auto simp: fil_inv_def)
  have "?O sys' = (if node_open nd then insert n (?O sys) else ?O sys - {n})"
    using n N frame by (auto split: if_splits)
  then have "n_open sys' = card (?O sys')"
    using opened cnt fin n by (auto simp: card_insert_if card_Diff_singleton_if split: if_splits)
  moreover have "set (fil_LRU sys') = {m. in_lru srv sys' m}"
  proof (rule set_eqI)
    fix m
    have "in_lru srv sys' m = in_lru srv sys m" if "m \<noteq> n" using that frame N by (simp add: in_lru_def)
    moreover have "m \<in> set (fil_LRU sys) \<longleftrightarrow> in_lru srv sys m" using inv by (simp add: fil_inv_def)
    ultimately show "m \<in> set (fil_LRU sys') \<longleftrightarrow> m \<in> {m. in_lru srv sys' m}"
      using lru(2,3) by (cases "m = n") auto
  qed
  ultimately show ?thesis
    using inv frame N nd lru(1) unfolding fil_inv_def by auto
qed

lemma fil_inv_chain: "fil_inv srv sys \<Longrightarrow> spaces sys i = Some sp \<Longrightarrow> n \<in> set (chain sp) \<Longrightarrow>
  n \<in> cache_nodes sys \<and> node_space (nodes sys n) = i"
  by (auto simp: fil_inv_def cache_nodes_def)

lemma fil_core_upd [simp]:
  "(\<And>r. node_core (f r) = node_core r) \<Longrightarrow> fil_core (upd_node n f sys) = fil_core sys"
  "(\<And>r. space_core (g r) = space_core r) \<Longrightarrow> fil_core (upd_space i g sys) = fil_core sys"
  "fil_core (sys\<lparr>log_fd := k\<rparr>) = fil_core sys" "fil_core (sys\<lparr>fil_n_file_opened := k\<rparr>) = fil_core sys"
  "fil_core (sys\<lparr>sys_modification_counter := c\<rparr>) = fil_core sys"
  by (auto simp: fil_core_def fun_eq_iff option.map_comp comp_def intro: option.map_cong)

lemma learn_node_size_core:
  assumes "learn_node_size srv os n i sp sys = Some (b, sys')"
  shows "fil_core sys' = fil_core sys"
  using assms by (auto simp: learn_node_size_def Let_def node_core_def space_core_def
      elim!: bind_SomeE split: prod.splits if_splits)

text \<open>What no operation changes: the kinds and files of the spaces, and the spaces of the files.\<close>

definition fil_frame :: "fil_system_t \<Rightarrow> (nat \<Rightarrow> (fil_purpose \<times> nat list) option) \<times> (nat \<Rightarrow> nat)" where
  "fil_frame sys = (\<lambda>i. map_option (\<lambda>sp. (purpose sp, chain sp)) (spaces sys i), \<lambda>n. node_space (nodes sys n))"

lemma fil_frame_core: "fil_core sys' = fil_core sys \<Longrightarrow> fil_frame sys' = fil_frame sys"
proof -
  assume "fil_core sys' = fil_core sys"
  then have "map_option space_core (spaces sys' i) = map_option space_core (spaces sys i)"
    "node_core (nodes sys' n) = node_core (nodes sys n)" for i n
    by (auto simp: fil_core_def dest: fun_cong)
  then have "map_option (\<lambda>(p, c, u). (p, c)) (map_option space_core (spaces sys' i)) =
      map_option (\<lambda>(p, c, u). (p, c)) (map_option space_core (spaces sys i))"
    "fst (node_core (nodes sys' n)) = fst (node_core (nodes sys n))" for i n by simp_all
  then show ?thesis by (simp add: fil_frame_def option.map_comp comp_def space_core_def node_core_def)
qed

lemma fil_frame_upd [simp]:
  "(\<And>r. node_space (f r) = node_space r) \<Longrightarrow> fil_frame (upd_node n f sys) = fil_frame sys"
  "(\<And>r. purpose (g r) = purpose r) \<Longrightarrow> (\<And>r. chain (g r) = chain r) \<Longrightarrow> fil_frame (upd_space i g sys) = fil_frame sys"
  "fil_frame (sys\<lparr>log_fd := k\<rparr>) = fil_frame sys" "fil_frame (sys\<lparr>fil_n_file_opened := k\<rparr>) = fil_frame sys"
  "fil_frame (sys\<lparr>sys_modification_counter := c\<rparr>) = fil_frame sys" "fil_frame (sys\<lparr>fil_LRU := l\<rparr>) = fil_frame sys"
  "fil_frame (sys\<lparr>n_open := k\<rparr>) = fil_frame sys" "fil_frame (sys\<lparr>unflushed_spaces := l\<rparr>) = fil_frame sys"
  by (auto simp: fil_frame_def fun_eq_iff option.map_comp comp_def intro: option.map_cong)

lemma fil_frameD:
  assumes "fil_frame sys' = fil_frame sys"
  shows "cache_nodes sys' = cache_nodes sys" and "node_space (nodes sys' n) = node_space (nodes sys n)"
    and "map_option (\<lambda>sp. (purpose sp, chain sp)) (spaces sys' i) = map_option (\<lambda>sp. (purpose sp, chain sp)) (spaces sys i)"
proof -
  show sp: "map_option (\<lambda>sp. (purpose sp, chain sp)) (spaces sys' i) = map_option (\<lambda>sp. (purpose sp, chain sp)) (spaces sys i)"
    and "node_space (nodes sys' n) = node_space (nodes sys n)" for i n
    using assms by (auto simp: fil_frame_def dest: fun_cong)
  have "(\<exists>sp. spaces sys' i = Some sp \<and> n \<in> set (chain sp)) \<longleftrightarrow> (\<exists>sp. spaces sys i = Some sp \<and> n \<in> set (chain sp))" for i n
    using sp [of i] by (cases "spaces sys' i"; cases "spaces sys i") auto
  then show "cache_nodes sys' = cache_nodes sys" by (simp add: cache_nodes_def)
qed

lemma fil_inv_space:
  assumes "fil_inv srv sys" and "n \<in> cache_nodes sys"
  obtains sp where "spaces sys (node_space (nodes sys n)) = Some sp" and "n \<in> set (chain sp)"
  using assms by (auto simp: fil_inv_def cache_nodes_def)

lemma in_lru_here:
  assumes "fil_inv srv sys" and "n \<in> cache_nodes sys" and "spaces sys (node_space (nodes sys n)) = Some sp"
  shows "n \<in> set (fil_LRU sys) \<longleftrightarrow> node_open (nodes sys n) \<and> n_pending (nodes sys n) = 0 \<and>
    fil_space_belongs_in_lru srv (node_space (nodes sys n)) sp"
  using assms by (auto simp: fil_inv_def in_lru_def)

lemma open_node_effect:
  assumes "open_node srv os n i sp sys = Some sys'"
  shows "spaces sys' = spaces sys" and "unflushed_spaces sys' = unflushed_spaces sys"
    and "\<exists>h. nodes sys' = (nodes sys)(n := (nodes sys n)\<lparr>node_handle := h, node_open := True\<rparr>)"
    and "n_open sys' = n_open sys + 1"
    and "fil_LRU sys' = (if fil_space_belongs_in_lru srv i sp then n # fil_LRU sys else fil_LRU sys)"
  using assms by (auto simp: open_node_def Let_def split: if_splits prod.splits)

lemma open_node_inv:
  assumes inv: "fil_inv srv sys" and n: "n \<in> cache_nodes sys" "\<not> node_open (nodes sys n)" "n_pending (nodes sys n) = 0"
    and sp: "spaces sys (node_space (nodes sys n)) = Some sp'" "purpose sp' = purpose sp"
    and run: "open_node srv os n (node_space (nodes sys n)) sp sys = Some sys'"
  shows "fil_inv srv sys'"
proof -
  note e = open_node_effect [OF run]
  obtain h where h: "nodes sys' = (nodes sys)(n := (nodes sys n)\<lparr>node_handle := h, node_open := True\<rparr>)" using e(3) ..
  have out: "n \<notin> set (fil_LRU sys)" and "distinct (fil_LRU sys)"
    using in_lru_here [OF inv n(1) sp(1)] n(2) inv by (auto simp: fil_inv_def)
  then have lru: "distinct (fil_LRU sys')" "set (fil_LRU sys') - {n} = set (fil_LRU sys) - {n}"
    using e(5) by auto
  have "cache_nodes sys' = cache_nodes sys" by (simp add: cache_nodes_def e(1))
  then have "in_lru srv sys' n = fil_space_belongs_in_lru srv (node_space (nodes sys n)) sp"
    using n sp by (simp add: in_lru_def e(1) h fil_space_belongs_in_lru_def)
  then have here: "n \<in> set (fil_LRU sys') \<longleftrightarrow> in_lru srv sys' n" using e(5) out by simp
  show ?thesis by (rule fil_inv_node [OF inv n(1) e(1,2) h _ _ _ lru here]) (use n e(4) in simp_all)
qed

lemma fil_node_open_file_inv:
  assumes inv: "fil_inv srv sys" and n: "n \<in> cache_nodes sys" and i: "node_space (nodes sys n) = i"
    and run: "fil_node_open_file srv os n i sys = Some (b, sys')"
  shows "fil_inv srv sys'" and "fil_frame sys' = fil_frame sys" and "node_open (nodes sys' n) = b"
    and "n_pending (nodes sys' m) = n_pending (nodes sys m)"
proof -
  obtain sp known sys1 where sp: "spaces sys i = Some sp" and closed: "n_pending (nodes sys n) = 0" "\<not> node_open (nodes sys n)"
    and learn: "(if node_size (nodes sys n) = 0 then learn_node_size srv os n i sp sys else Some (True, sys)) = Some (known, sys1)"
    and rest: "(if \<not> known then Some (False, sys1)
                else do { sys \<leftarrow> open_node srv os n i sp sys1; Some (True, sys) }) = Some (b, sys')"
    using run by (auto simp: fil_node_open_file_def elim!: bind_SomeE split: if_splits prod.splits)
  have core: "fil_core sys1 = fil_core sys"
    using learn learn_node_size_core by (auto split: if_splits)
  have inv1: "fil_inv srv sys1" and N1: "n \<in> cache_nodes sys1" using fil_inv_core [OF core] inv n by simp_all
  have c1: "node_core (nodes sys1 m) = node_core (nodes sys m)" for m
    using core by (auto simp: fil_core_def dest: fun_cong)
  then have n1: "node_space (nodes sys1 n) = i" "n_pending (nodes sys1 n) = 0" "\<not> node_open (nodes sys1 n)"
    using i closed by (simp_all add: node_core_def)
  obtain sp1 where sp1: "spaces sys1 i = Some sp1" "purpose sp1 = purpose sp"
    using fil_frameD(3) [OF fil_frame_core [OF core], of i] sp by auto
  have "fil_inv srv sys2" if "open_node srv os n i sp sys1 = Some sys2" for sys2
    using open_node_inv [OF inv1 N1] n1 sp1 that by blast
  then show "fil_inv srv sys'" using rest inv1 by (auto elim!: bind_SomeE split: if_splits)
  show "fil_frame sys' = fil_frame sys" "node_open (nodes sys' n) = b"
     "n_pending (nodes sys' m) = n_pending (nodes sys m)"
    using rest fil_frame_core [OF core] c1 [of n] c1 [of m] closed
    by (auto simp: open_node_def node_core_def Let_def elim!: bind_SomeE split: if_splits prod.splits)
qed

lemma fil_node_close_file_inv:
  assumes inv: "fil_inv srv sys" and n: "n \<in> cache_nodes sys" and run: "fil_node_close_file srv os n sys = Some sys'"
  shows "fil_inv srv sys'" and "fil_frame sys' = fil_frame sys" and "n_pending (nodes sys' m) = n_pending (nodes sys m)"
proof -
  obtain sp where sp: "spaces sys (node_space (nodes sys n)) = Some sp" using fil_inv_space [OF inv n] by blast
  let ?bel = "fil_space_belongs_in_lru srv (node_space (nodes sys n)) sp"
  have o: "node_open (nodes sys n)" "n_pending (nodes sys n) = 0" and
    e: "spaces sys' = spaces sys" "unflushed_spaces sys' = unflushed_spaces sys"
      "nodes sys' = (nodes sys)(n := (nodes sys n)\<lparr>node_open := False\<rparr>)" "n_open sys = Suc (n_open sys')"
      "fil_LRU sys' = (if ?bel then remove1 n (fil_LRU sys) else fil_LRU sys)"
    using run sp by (auto simp: fil_node_close_file_def Let_def split: if_splits)
  have lru: "distinct (fil_LRU sys)" "n \<in> set (fil_LRU sys) \<longleftrightarrow> ?bel"
    using in_lru_here [OF inv n sp] o inv by (auto simp: fil_inv_def)
  have "distinct (fil_LRU sys')" "set (fil_LRU sys') - {n} = set (fil_LRU sys) - {n}"
    "n \<in> set (fil_LRU sys') \<longleftrightarrow> in_lru srv sys' n"
    using lru e(3,5) by (auto simp: in_lru_def)
  then show "fil_inv srv sys'" by (rule fil_inv_node [OF inv n e(1-3), rotated -3]) (use o e(4) in simp_all)
  show "fil_frame sys' = fil_frame sys" "n_pending (nodes sys' m) = n_pending (nodes sys m)"
    using e(1,3) by (auto simp: fil_frame_def fun_eq_iff)
qed

lemma fil_try_to_close_inv:
  assumes inv: "fil_inv srv sys" and run: "fil_try_to_close_file_in_LRU srv os sys = Some (b, sys')"
  shows "fil_inv srv sys' \<and> fil_frame sys' = fil_frame sys \<and> (\<forall>m. n_pending (nodes sys' m) = n_pending (nodes sys m))"
proof (cases "find (\<lambda>n. closeable (nodes sys n)) (rev (fil_LRU sys))")
  case (Some n)
  then have "n \<in> set (fil_LRU sys)" by (auto simp: find_Some_iff) (metis nth_mem set_rev length_rev)
  then have "n \<in> cache_nodes sys" using inv by (auto simp: fil_inv_def in_lru_def)
  then show ?thesis
    using run Some fil_node_close_file_inv [OF inv] by (auto simp: fil_try_to_close_file_in_LRU_def elim!: bind_SomeE)
qed (use assms in \<open>simp add: fil_try_to_close_file_in_LRU_def\<close>)

lemma close_more_inv:
  assumes "fil_inv srv sys" and "close_more srv os sys = Some sys'"
  shows "fil_inv srv sys' \<and> fil_frame sys' = fil_frame sys \<and> (\<forall>m. n_pending (nodes sys' m) = n_pending (nodes sys m))"
  using assms
proof (induction srv os sys rule: close_more.induct)
  case (1 srv os sys)
  obtain b sys1 where step: "fil_try_to_close_file_in_LRU srv os sys = Some (b, sys1)"
    and rest: "(if b \<and> max_n_open sys1 \<le> n_open sys1 then close_more srv os sys1 else Some sys1) = Some sys'"
    using 1(3) by (subst (asm) close_more.simps) (auto elim!: bind_SomeE)
  note one = fil_try_to_close_inv [OF 1(2) step]
  show ?case
    using rest one 1(1) [OF step refl] by (cases "b \<and> max_n_open sys1 \<le> n_open sys1") auto
qed

lemma prepare_rw_retry_inv:
  assumes "prepare_rw_retry srv os others w r c c2 sys = Some sys'" and "fil_inv srv sys"
    and "\<And>k s. fil_inv srv s \<Longrightarrow> fil_inv srv (others k s)"
  shows "fil_inv srv sys'"
  using assms
proof (induction rule: prepare_rw_retry.raw_induct [rotated, consumes 1, case_names step])
  case (step prepare srv os others w r c c2 sys sys')
  have again: "fil_inv srv y" if "prepare srv os others w r c c2 s = Some y" "fil_inv srv s" for c c2 s y
    using step(1) [OF that step(4)] .
  have close: "fil_inv srv y" if "close_more srv os sys = Some y" for y
    using close_more_inv [OF step(3) that] by blast
  from step(2,3) show ?case
    by (auto simp: Let_def elim!: bind_SomeE split: if_splits dest!: again close intro!: step(4))
qed

text \<open>An i/o starts.\<close>

lemma start_io_inv:
  assumes inv: "fil_inv srv sys" and n: "n \<in> cache_nodes sys" "node_open (nodes sys n)"
    and run: "start_io srv n (node_space (nodes sys n)) sys = Some sys'"
  shows "fil_inv srv sys'" and "fil_frame sys' = fil_frame sys"
    and "n_pending (nodes sys' m) = n_pending (nodes sys m) + (if m = n then 1 else 0)"
    and "node_open (nodes sys' m) = node_open (nodes sys m)" and "node_size (nodes sys' m) = node_size (nodes sys m)"
    and "node_handle (nodes sys' m) = node_handle (nodes sys m)"
proof -
  obtain sp where sp: "spaces sys (node_space (nodes sys n)) = Some sp" using fil_inv_space [OF inv n(1)] by blast
  let ?off = "n_pending (nodes sys n) = 0 \<and> fil_space_belongs_in_lru srv (node_space (nodes sys n)) sp"
  have e: "spaces sys' = spaces sys" "unflushed_spaces sys' = unflushed_spaces sys"
      "nodes sys' = (nodes sys)(n := (nodes sys n)\<lparr>n_pending := n_pending (nodes sys n) + 1\<rparr>)"
      "n_open sys' = n_open sys" "fil_LRU sys' = (if ?off then remove1 n (fil_LRU sys) else fil_LRU sys)"
    using run sp by (cases ?off; auto simp: start_io_def split: if_splits)+
  have "distinct (fil_LRU sys)" "n \<in> set (fil_LRU sys) \<longleftrightarrow> ?off"
    using in_lru_here [OF inv n(1) sp] n(2) inv by (auto simp: fil_inv_def)
  then have "distinct (fil_LRU sys')" "set (fil_LRU sys') - {n} = set (fil_LRU sys) - {n}"
    "n \<in> set (fil_LRU sys') \<longleftrightarrow> in_lru srv sys' n"
    using e(3,5) by (auto simp: in_lru_def)
  then show "fil_inv srv sys'" by (rule fil_inv_node [OF inv n(1) e(1-3), rotated -3]) (use e(4) n(2) in simp_all)
  show "fil_frame sys' = fil_frame sys" "n_pending (nodes sys' m) = n_pending (nodes sys m) + (if m = n then 1 else 0)"
    "node_open (nodes sys' m) = node_open (nodes sys m)" "node_size (nodes sys' m) = node_size (nodes sys m)"
    "node_handle (nodes sys' m) = node_handle (nodes sys m)"
    using e(1,3) by (auto simp: fil_frame_def fun_eq_iff)
qed

lemma start_io_returns:
  assumes inv: "fil_inv srv sys" and n: "n \<in> cache_nodes sys" "node_open (nodes sys n)"
  shows "\<exists>sys'. start_io srv n (node_space (nodes sys n)) sys = Some sys'"
proof -
  obtain sp where sp: "spaces sys (node_space (nodes sys n)) = Some sp" using fil_inv_space [OF inv n(1)] by blast
  have "fil_LRU sys \<noteq> []" if "n_pending (nodes sys n) = 0" "fil_space_belongs_in_lru srv (node_space (nodes sys n)) sp"
    using in_lru_here [OF inv n(1) sp] n(2) that by auto
  then show ?thesis using sp by (simp add: start_io_def)
qed

lemma fil_node_prepare_for_io_inv:
  assumes inv: "fil_inv srv sys" and n: "n \<in> cache_nodes sys" "node_space (nodes sys n) = i"
    and run: "fil_node_prepare_for_io srv os n i sys = Some (b, sys')"
  shows "fil_inv srv sys' \<and> fil_frame sys' = fil_frame sys \<and>
    (\<forall>m. n_pending (nodes sys' m) = n_pending (nodes sys m) + (if b \<and> m = n then 1 else 0))"
proof -
  obtain sys1 where open1: "(if \<not> node_open (nodes sys n) then fil_node_open_file srv os n i sys else Some (True, sys)) =
      Some (b, sys1)" and rest: "(if \<not> b then Some sys1 else start_io srv n i sys1) = Some sys'"
    using run by (auto simp: fil_node_prepare_for_io_def elim!: bind_SomeE split: if_splits prod.splits)
  have one: "fil_inv srv sys1" "fil_frame sys1 = fil_frame sys" "b \<Longrightarrow> node_open (nodes sys1 n)"
    "n_pending (nodes sys1 m) = n_pending (nodes sys m)" for m
    using open1 inv fil_node_open_file_inv [OF inv n] by (auto split: if_splits)
  have n1: "n \<in> cache_nodes sys1" "node_space (nodes sys1 n) = i" using n fil_frameD [OF one(2)] by simp_all
  show ?thesis
  proof (cases b)
    case True
    then show ?thesis using start_io_inv [OF one(1) n1(1)] one n1(2) rest by simp
  qed (use one rest in simp)
qed

text \<open>An i/o ends.\<close>

lemma fil_inv_flag:
  assumes inv: "fil_inv srv sys" and i: "spaces sys i = Some sp" "\<not> is_in_unflushed_spaces sp"
  shows "fil_inv srv (upd_space i (\<lambda>r. r\<lparr>is_in_unflushed_spaces := True\<rparr>) (sys\<lparr>unflushed_spaces := i # unflushed_spaces sys\<rparr>))"
    (is "fil_inv srv ?s")
proof -
  have sps: "spaces ?s j = (if j = i then Some (sp\<lparr>is_in_unflushed_spaces := True\<rparr>) else spaces sys j)" for j
    using i by simp
  have N: "cache_nodes ?s = cache_nodes sys" by simp
  have L: "in_lru srv ?s n = in_lru srv sys n" for n
    using i unfolding in_lru_def N sps by (auto simp: fil_space_belongs_in_lru_def)
  have "i \<notin> set (unflushed_spaces sys)" using inv i by (auto simp: fil_inv_def)
  then show ?thesis
    using inv i unfolding fil_inv_def N L sps by (auto split: if_splits)
qed

lemma mark_modified_inv:
  assumes inv: "fil_inv srv sys" and run: "mark_modified srv n sys = Some sys'"
  shows "fil_inv srv sys'" and "fil_frame sys' = fil_frame sys" and "node_core (nodes sys' m) = node_core (nodes sys m)"
proof -
  let ?i = "node_space (nodes sys n)"
  let ?s = "upd_node n (\<lambda>r. r\<lparr>node_modification_counter := sys_modification_counter sys + 1\<rparr>)
    (sys\<lparr>sys_modification_counter := sys_modification_counter sys + 1\<rparr>)"
  obtain sp where sp: "spaces sys ?i = Some sp" using run by (auto simp: mark_modified_def Let_def elim!: bind_SomeE)
  show "fil_frame sys' = fil_frame sys" "node_core (nodes sys' m) = node_core (nodes sys m)" for m
    using run by (auto simp: mark_modified_def node_core_def Let_def elim!: bind_SomeE split: if_splits)
  have "fil_core ?s = fil_core sys" by (simp add: node_core_def)
  then have s: "fil_inv srv ?s" using fil_inv_core(2) inv by blast
  then have "fil_inv srv (upd_node n (\<lambda>r. r\<lparr>flush_counter := node_modification_counter r\<rparr>) ?s)"
    using fil_inv_core(2) [OF fil_core_upd(1)] by (simp add: node_core_def)
  moreover have "fil_inv srv (upd_space ?i (\<lambda>r. r\<lparr>is_in_unflushed_spaces := True\<rparr>)
      (?s\<lparr>unflushed_spaces := ?i # unflushed_spaces ?s\<rparr>))" if "\<not> is_in_unflushed_spaces sp"
    by (rule fil_inv_flag [OF s]) (use sp that in simp_all)
  ultimately show "fil_inv srv sys'"
    using run s sp by (auto simp: mark_modified_def Let_def split: if_splits)
qed

lemma mark_modified_commute:
  "mark_modified srv n (upd_node n (\<lambda>r. r\<lparr>n_pending := n_pending r - 1\<rparr>) sys) =
   map_option (upd_node n (\<lambda>r. r\<lparr>n_pending := n_pending r - 1\<rparr>)) (mark_modified srv n sys)"
  by (cases "spaces sys (node_space (nodes sys n))")
    (auto simp: mark_modified_def upd_node_def upd_space_def Let_def intro!: fil_system_t.equality ext fil_node_t.equality)

lemma end_io_inv:
  assumes inv: "fil_inv srv sys" and n: "n \<in> cache_nodes sys" "0 < n_pending (nodes sys n)"
    and sp: "spaces sys (node_space (nodes sys n)) = Some sp"
  defines "s \<equiv> upd_node n (\<lambda>r. r\<lparr>n_pending := n_pending r - 1\<rparr>) sys"
  shows "fil_inv srv (if n_pending (nodes s n) = 0 \<and> fil_space_belongs_in_lru srv (node_space (nodes s n)) sp
                      then s\<lparr>fil_LRU := n # fil_LRU s\<rparr> else s)" (is "fil_inv srv ?s")
proof -
  have o: "node_open (nodes sys n)" and out: "n \<notin> set (fil_LRU sys)" and "distinct (fil_LRU sys)"
    using inv n in_lru_here [OF inv n(1) sp] by (auto simp: fil_inv_def)
  then have "distinct (fil_LRU ?s)" "set (fil_LRU ?s) - {n} = set (fil_LRU sys) - {n}"
    "n \<in> set (fil_LRU ?s) \<longleftrightarrow> in_lru srv ?s n"
    using n sp by (auto simp: s_def in_lru_def)
  then show ?thesis
    by (rule fil_inv_node [OF inv n(1), where nd = "(nodes sys n)\<lparr>n_pending := n_pending (nodes sys n) - 1\<rparr>", rotated -3])
      (use o in \<open>simp_all add: s_def\<close>)
qed

lemma fil_node_complete_io_inv:
  assumes inv: "fil_inv srv sys" and n: "n \<in> cache_nodes sys" and run: "fil_node_complete_io srv n type sys = Some sys'"
  shows "fil_inv srv sys' \<and> fil_frame sys' = fil_frame sys \<and>
    (\<forall>m. n_pending (nodes sys' m) = n_pending (nodes sys m) - (if m = n then 1 else 0))"
proof -
  let ?dec = "upd_node n (\<lambda>r. r\<lparr>n_pending := n_pending r - 1\<rparr>)"
  have pos: "0 < n_pending (nodes sys n)" using run by (auto simp: fil_node_complete_io_def split: if_splits)
  obtain u where u: "(if type = OS_FILE_WRITE then mark_modified srv n sys else Some sys) = Some u"
    using run by (auto simp: fil_node_complete_io_def mark_modified_commute [unfolded One_nat_def] Let_def elim!: bind_SomeE split: if_splits)
  have one: "fil_inv srv u" "fil_frame u = fil_frame sys" "node_core (nodes u m) = node_core (nodes sys m)" for m
    using u inv mark_modified_inv [OF inv, of n] by (auto split: if_splits)
  have n1: "n \<in> cache_nodes u" "0 < n_pending (nodes u n)" "n_pending (nodes u m) = n_pending (nodes sys m)" for m
    using n pos fil_frameD(1) [OF one(2)] one(3) by (simp_all add: node_core_def)
  obtain sp where sp: "spaces u (node_space (nodes u n)) = Some sp" using fil_inv_space [OF one(1) n1(1)] by blast
  have "fil_node_complete_io srv n type sys =
      Some (if n_pending (nodes (?dec u) n) = 0 \<and> fil_space_belongs_in_lru srv (node_space (nodes (?dec u) n)) sp
            then (?dec u)\<lparr>fil_LRU := n # fil_LRU (?dec u)\<rparr> else ?dec u)"
    using u pos sp by (cases "type = OS_FILE_WRITE") (simp_all add: fil_node_complete_io_def mark_modified_commute [unfolded One_nat_def] Let_def)
  then show ?thesis using end_io_inv [OF one(1) n1(1,2) sp] run one(2) n1(3) by auto
qed

lemma fil_node_complete_io_returns:
  assumes inv: "fil_inv srv sys" and n: "n \<in> cache_nodes sys" "0 < n_pending (nodes sys n)"
  shows "\<exists>sys'. fil_node_complete_io srv n type sys = Some sys'"
proof -
  obtain sp where "spaces sys (node_space (nodes sys n)) = Some sp" using fil_inv_space [OF inv n(1)] by blast
  then show ?thesis using n(2) by (simp add: fil_node_complete_io_def mark_modified_def Let_def)
qed

section \<open>The whole i/o\<close>

lemma find_node_chain: "find_node srv sys i ns k = Some (n, k') \<Longrightarrow> n \<in> set ns"
  by (induction ns arbitrary: k) (auto split: if_splits)

text \<open>The files of a space hold its pages one after the other.\<close>

lemma find_node_page:
  assumes "\<And>m. m \<in> set pre \<Longrightarrow> 0 < node_size (nodes sys m)" and "k < node_size (nodes sys n)"
  shows "find_node srv sys i (pre @ n # post) (sum_list (map (\<lambda>m. node_size (nodes sys m)) pre) + k) = Some (n, k)"
  using assms
proof (induction pre)
  case (Cons a pre)
  have pos: "node_size (nodes sys a) \<noteq> 0" using Cons.prems(1) [of a] by simp
  show ?case using Cons by (simp add: pos)
qed simp

lemma prepare_side_inv:
  assumes "fil_inv srv sys" and "n \<in> cache_nodes sys" and "node_space (nodes sys n) = i"
    and "prepare_side srv os n i sys = Some (b, sys')"
  shows "fil_inv srv sys' \<and> fil_frame sys' = fil_frame sys \<and>
    (\<forall>m. n_pending (nodes sys' m) = n_pending (nodes sys m) + (if b \<and> m = n then 1 else 0))"
  using fil_node_prepare_for_io_inv [OF assms(1-3), of os b sys'] assms(4)
  by (auto simp: prepare_side_def elim!: bind_SomeE split: if_splits)

text \<open>
  What the other threads may do to the cache while the mutex is free: anything that keeps the invariant, where a file
  with pending i/o stays in the cache with at least as many i/o's pending.
\<close>

definition well_behaved :: "srv_settings \<Rightarrow> (fil_system_t \<Rightarrow> fil_system_t) \<Rightarrow> bool" where
  "well_behaved srv f \<longleftrightarrow>
     (\<forall>s. fil_inv srv s \<longrightarrow> fil_inv srv (f s) \<and>
        (\<forall>n \<in> cache_nodes s. 0 < n_pending (nodes s n) \<longrightarrow>
           n \<in> cache_nodes (f s) \<and> n_pending (nodes s n) \<le> n_pending (nodes (f s) n)))"

lemma rw_transfer_inv:
  assumes inv: "fil_inv srv sys" and r: "r \<in> cache_nodes sys" "0 < n_pending (nodes sys r)"
    and w: "w \<in> cache_nodes sys" "0 < n_pending (nodes sys w)" and resp: "well_behaved srv during"
    and run: "rw_transfer srv during blksize fibmap send type zip_size boff len buf (r, kr) (w, kw) (sys, st) = Some (sys', st')"
  shows "fil_inv srv sys'"
proof -
  have d: "fil_inv srv (during sys)" "r \<in> cache_nodes (during sys)" "w \<in> cache_nodes (during sys)"
    using resp inv r w by (auto simp: well_behaved_def)
  obtain u where u: "fil_node_complete_io srv w type (during sys) = Some u" "fil_node_complete_io srv r type u = Some sys'"
    using run by (auto simp: rw_transfer_def Let_def elim!: bind_SomeE split: if_splits prod.splits)
  note one = fil_node_complete_io_inv [OF d(1,3) u(1)]
  then have "r \<in> cache_nodes u" using d(2) fil_frameD(1) by blast
  then show ?thesis using fil_node_complete_io_inv [OF _ _ u(2)] one by blast
qed

lemma rw_on_nodes_inv:
  assumes inv: "fil_inv srv s0" and r: "r \<in> cache_nodes s0" "node_space (nodes s0 r) = ri"
    and w: "w \<in> cache_nodes s0" "node_space (nodes s0 w) = wi" and resp: "well_behaved srv during"
    and run: "rw_on_nodes srv os during blksize fibmap send type wi zip_size boff len buf ri (r, kr) (w, kw) (s0, st) =
      Some (err, sys', st')"
  shows "fil_inv srv sys'"
proof -
  obtain br s1 where s1: "prepare_side srv os r ri s0 = Some (br, s1)"
    using run by (auto simp: rw_on_nodes_def elim!: bind_SomeE)
  note i1 = prepare_side_inv [OF inv r s1]
  have w1: "w \<in> cache_nodes s1" "node_space (nodes s1 w) = wi" using w fil_frameD [of s1 s0] i1 by simp_all
  show ?thesis
  proof (cases br)
    case True
    obtain bw s2 where s2: "prepare_side srv os w wi s1 = Some (bw, s2)"
      using run s1 True by (auto simp: rw_on_nodes_def elim!: bind_SomeE)
    note i2 = prepare_side_inv [OF conjunct1 [OF i1] w1 s2]
    have n2: "r \<in> cache_nodes s2" "w \<in> cache_nodes s2"
      using r w fil_frameD(1) [of s1 s0] fil_frameD(1) [of s2 s1] i1 i2 by simp_all
    have p2: "bw \<Longrightarrow> 0 < n_pending (nodes s2 r)" "bw \<Longrightarrow> 0 < n_pending (nodes s2 w)" using i1 i2 True by simp_all
    show ?thesis
      using run s1 s2 True i2 by (auto simp: rw_on_nodes_def elim!: bind_SomeE split: if_splits
          dest: rw_transfer_inv [OF conjunct1 [OF i2] n2(1) p2(1) n2(2) p2(2) resp])
  qed (use run s1 i1 in \<open>simp add: rw_on_nodes_def\<close>)
qed

end
