(* ===== verification/Fil_Theorems.thy ===== *)
theory Fil_Theorems
  imports Fil_Io
begin

text \<open>
  Properties of the i/o of an RW command in the tablespace cache: the cache stays consistent, the two pages
  are found and transferred, and what an error leaves behind.
\<close>

section \<open>A cache with two open files\<close>

definition small_srv :: srv_settings where
  "small_srv = \<lparr>srv_undo_tablespaces_open = 8, o_direct_no_fsync = False, srv_fast_shutdown = 1,
     srv_page_size_shift = 12\<rparr>"

definition small_space :: "nat list \<Rightarrow> fil_space_t" where
  "small_space ns = \<lparr>stop_ios = False, purpose = FIL_TABLESPACE, chain = ns, space_size = 100, space_flags = 0,
     is_in_unflushed_spaces = False\<rparr>"

definition small_node :: "nat \<Rightarrow> fil_node_t" where
  "small_node n = \<lparr>node_space = n + 9, node_name = ''t.ibd'', node_open = True, node_handle = n, node_size = 100,
     n_pending = 0, node_n_pending_flushes = 0, being_extended = False, node_modification_counter = 0,
     flush_counter = 0\<rparr>"

definition two_files :: fil_system_t where
  "two_files = \<lparr>spaces = (\<lambda>i. if i = 10 then Some (small_space [1]) else if i = 11 then Some (small_space [2]) else None),
     nodes = small_node, fil_LRU = [1, 2], unflushed_spaces = [], n_open = 2, max_n_open = 300,
     sys_modification_counter = 0, fil_n_file_opened = 2, log_fd = 0\<rparr>"

lemma two_files_nodes: "cache_nodes two_files = {1, 2}"
proof -
  have "1 \<in> cache_nodes two_files" "2 \<in> cache_nodes two_files"
    by (auto simp: cache_nodes_def two_files_def small_space_def intro: exI [of _ "10 :: nat"] exI [of _ "11 :: nat"])
  moreover have "cache_nodes two_files \<subseteq> {1, 2}"
    by (auto simp: cache_nodes_def two_files_def small_space_def split: if_splits)
  ultimately show ?thesis by blast
qed

lemma two_files_inv: "fil_inv small_srv two_files"
proof -
  have "in_lru small_srv two_files n \<longleftrightarrow> n = 1 \<or> n = 2" for n
    unfolding in_lru_def two_files_nodes
    by (auto simp: two_files_def small_node_def small_space_def small_srv_def fil_space_belongs_in_lru_def
        fil_is_user_tablespace_id_def)
  moreover have "{n \<in> {1, 2}. node_open (nodes two_files n)} = {1, 2 :: nat}" by (auto simp: two_files_def small_node_def)
  ultimately show ?thesis
    unfolding fil_inv_def two_files_nodes by (auto simp: two_files_def small_space_def small_node_def split: if_splits)
qed

lemma id_well_behaved: "well_behaved srv (\<lambda>s. s)"
  by (simp add: well_behaved_def)

text \<open>A driver and device that accept every command and remember it.\<close>

definition log_send :: "nvme_passthru_cmd \<Rightarrow> nvme_passthru_cmd list \<Rightarrow> nvme_passthru_cmd list option" where
  "log_send cmd cmds = Some (cmds @ [cmd])"

definition no_stats :: os_io_stats where
  "no_stats = \<lparr>os_n_file_reads = 0, os_n_file_writes = 0, os_n_pending_reads = 0, os_file_n_pending_preads = 0,
     os_n_pending_writes = 0, os_file_n_pending_pwrites = 0\<rparr>"

definition all_open :: os_files where
  "all_open = \<lparr>os_file_create_simple = (\<lambda>nm. (0, False)), os_file_get_size = (\<lambda>h. None), fsp_header = (\<lambda>h. (0, 0)),
     os_file_create = (\<lambda>nm. (0, True)), os_file_close = (\<lambda>h. True)\<rparr>"

section \<open>Pages\<close>

lemma open_side:
  assumes inv: "fil_inv srv sys" and n: "n \<in> cache_nodes sys" "node_open (nodes sys n)"
  shows "\<exists>sys'. prepare_side srv os n (node_space (nodes sys n)) sys = Some (True, sys') \<and> fil_inv srv sys' \<and>
    fil_frame sys' = fil_frame sys \<and>
    (\<forall>m. n_pending (nodes sys' m) = n_pending (nodes sys m) + (if m = n then 1 else 0) \<and>
         node_open (nodes sys' m) = node_open (nodes sys m) \<and> node_size (nodes sys' m) = node_size (nodes sys m) \<and>
         node_handle (nodes sys' m) = node_handle (nodes sys m))"
proof -
  obtain sys' where run: "start_io srv n (node_space (nodes sys n)) sys = Some sys'" using start_io_returns [OF assms] ..
  moreover obtain sp where "spaces sys (node_space (nodes sys n)) = Some sp" using fil_inv_space [OF inv n(1)] by blast
  ultimately have "prepare_side srv os n (node_space (nodes sys n)) sys = Some (True, sys')"
    using n(2) by (simp add: prepare_side_def fil_node_prepare_for_io_def)
  then show ?thesis using start_io_inv [OF assms run] by blast
qed

lemma usub64_small: "b < a \<Longrightarrow> a < 2 ^ 64 \<Longrightarrow> usub64 a b = a - b"
proof -
  assume ab: "b < a" "a < 2 ^ 64"
  then have e: "a + (2 ^ 64 - b mod 2 ^ 64) = (a - b) + 2 ^ 64" by simp
  show ?thesis unfolding usub64_def e using ab by (simp only: mod_add_self2) simp
qed

text \<open>The end of the i/o on the two files, in any cache that still has them and counts the i/o's.\<close>

lemma complete_both:
  assumes inv: "fil_inv srv s" and r: "r \<in> cache_nodes s" and w: "w \<in> cache_nodes s"
    and pend: "\<And>m. n_pending (nodes s m) = k m + (if m = r then 1 else 0) + (if m = w then 1 else 0)"
  shows "\<exists>s'. do { s \<leftarrow> fil_node_complete_io srv w type s; fil_node_complete_io srv r type s } = Some s' \<and>
    fil_inv srv s' \<and> (\<forall>m. n_pending (nodes s' m) = k m)"
proof -
  obtain s1 where s1: "fil_node_complete_io srv w type s = Some s1"
    using fil_node_complete_io_returns [OF inv w] pend [of w] by auto
  note i1 = fil_node_complete_io_inv [OF inv w s1]
  then have r1: "r \<in> cache_nodes s1" using r fil_frameD(1) by blast
  have p1: "n_pending (nodes s1 m) = k m + (if m = r then 1 else 0)" for m using i1 pend [of m] by auto
  obtain s2 where s2: "fil_node_complete_io srv r type s1 = Some s2"
    using fil_node_complete_io_returns [OF conjunct1 [OF i1] r1] p1 [of r] by auto
  show ?thesis using s1 s2 fil_node_complete_io_inv [OF conjunct1 [OF i1] r1 s2] p1 by simp
qed


lemma prepare_rw_quick:
  assumes "\<not> (\<exists>sw sr. spaces sys wi = Some sw \<and> spaces sys ri = Some sr \<and> stop_ios sw \<and> stop_ios sr)"
    and "n_open sys < max_n_open sys"
  shows "fil_mutex_enter_and_prepare_for_rw_io srv os others wi ri sys = Some sys"
  using assms unfolding fil_mutex_enter_and_prepare_for_rw_io_def
  by (subst prepare_rw_retry.simps) (auto simp: Let_def)

text \<open>Other threads that leave the pending i/o's of every file as they are.\<close>

definition leaves_io :: "srv_settings \<Rightarrow> (fil_system_t \<Rightarrow> fil_system_t) \<Rightarrow> bool" where
  "leaves_io srv f \<longleftrightarrow>
     (\<forall>s. fil_inv srv s \<longrightarrow> fil_inv srv (f s) \<and> fil_frame (f s) = fil_frame s \<and>
        (\<forall>m. n_pending (nodes (f s) m) = n_pending (nodes s m)))"

text \<open>A page of a space, as a page of one of its files: files before it have a known size.\<close>

definition holds_page :: "fil_system_t \<Rightarrow> nat \<Rightarrow> nat \<Rightarrow> nat \<Rightarrow> nat \<Rightarrow> bool" where
  "holds_page sys i pg n k \<longleftrightarrow>
     (\<exists>sp pre post. spaces sys i = Some sp \<and> chain sp = pre @ n # post \<and>
        (\<forall>m \<in> set pre. 0 < node_size (nodes sys m)) \<and>
        pg = sum_list (map (\<lambda>m. node_size (nodes sys m)) pre) + k \<and> k < node_size (nodes sys n))"

lemma rw_transfer_page:
  assumes inv: "fil_inv srv s" and r: "r \<in> cache_nodes s" and w: "w \<in> cache_nodes s"
    and pend: "\<And>m. n_pending (nodes s m) = k m + (if m = r then 1 else 0) + (if m = w then 1 else 0)"
    and size: "kr < node_size (nodes s r)" "node_size (nodes s r) < 2 ^ 64" "kw < node_size (nodes s w)" "node_size (nodes s w) < 2 ^ 64"
    and shift: "9 \<le> srv_page_size_shift srv" and keep: "leaves_io srv during"
    and os: "os_rw_io_func (of_nat (UNIV_PAGE_SIZE srv)) blksize fibmap send type
      (node_handle (nodes s w)) buf (of_nat (kw * UNIV_PAGE_SIZE srv)) (of_nat (UNIV_PAGE_SIZE srv))
      (node_handle (nodes s r)) (of_nat (kr * UNIV_PAGE_SIZE srv)) (of_nat (UNIV_PAGE_SIZE srv)) st = Some st'"
  shows "\<exists>s'. rw_transfer srv during blksize fibmap send type 0 0 (UNIV_PAGE_SIZE srv) buf (r, kr) (w, kw) (s, st) = Some (s', st') \<and>
    fil_inv srv s' \<and> (\<forall>m. n_pending (nodes s' m) = k m)"
proof -
  have "512 dvd UNIV_PAGE_SIZE srv"
    using shift le_imp_power_dvd [of 9 "srv_page_size_shift srv" 2] by (simp add: UNIV_PAGE_SIZE_def)
  then have "UNIV_PAGE_SIZE srv mod 512 = 0" by simp
  moreover have "pages_needed srv 0 0 (UNIV_PAGE_SIZE srv) = 1"
    by (simp add: pages_needed_def UNIV_PAGE_SIZE_def div_nat_eqI)
  moreover have "push_bit (srv_page_size_shift srv) (of_nat j :: 64 word) = of_nat (j * UNIV_PAGE_SIZE srv)" for j
    by (simp add: push_bit_eq_mult UNIV_PAGE_SIZE_def)
  moreover have "\<exists>s'. do { s \<leftarrow> fil_node_complete_io srv w type (during s); fil_node_complete_io srv r type s } = Some s' \<and>
      fil_inv srv s' \<and> (\<forall>m. n_pending (nodes s' m) = k m)"
    by (rule complete_both) (use keep inv r w pend fil_frameD(1) [of "during s" s] in \<open>auto simp: leaves_io_def\<close>)
  ultimately show ?thesis
    using os size
    by (auto simp: rw_transfer_def page_shift_def usub64_small OS_FILE_LOG_BLOCK_SIZE_def Let_def elim!: bind_SomeE)
qed

lemma holds_pageD:
  assumes "fil_inv srv sys" and "holds_page sys i pg n k"
  shows "\<exists>sp. spaces sys i = Some sp \<and> find_node srv sys i (chain sp) pg = Some (n, k)"
    and "n \<in> cache_nodes sys" and "node_space (nodes sys n) = i" and "k < node_size (nodes sys n)"
  using assms find_node_page [of _ sys k n srv i] fil_inv_chain [OF assms(1), of i]
  by (auto simp: holds_page_def)

lemma rw_pages:
  assumes "fil_inv srv sys" and "holds_page sys wi wp w kw" and "holds_page sys ri rp r kr"
    and "node_open (nodes sys w)" and "node_open (nodes sys r)"
    and "\<And>n. node_size (nodes sys n) < 2 ^ 64" and "9 \<le> srv_page_size_shift srv"
    and "\<not> (\<exists>sw sr. spaces sys wi = Some sw \<and> spaces sys ri = Some sr \<and> stop_ios sw \<and> stop_ios sr)"
    and "n_open sys < max_n_open sys" and "leaves_io srv during"
    and "os_rw_io_func (of_nat (UNIV_PAGE_SIZE srv)) blksize fibmap send OS_FILE_WRITE
      (node_handle (nodes sys w)) buf (of_nat (kw * UNIV_PAGE_SIZE srv)) (of_nat (UNIV_PAGE_SIZE srv))
      (node_handle (nodes sys r)) (of_nat (kr * UNIV_PAGE_SIZE srv)) (of_nat (UNIV_PAGE_SIZE srv)) st = Some st'"
  shows "\<exists>sys'. fil_io_with_rw_cmd srv os others during blksize fibmap send OS_FILE_WRITE wi 0 wp 0 (UNIV_PAGE_SIZE srv) buf
      ri rp (sys, st) = Some (DB_SUCCESS, sys', st') \<and>
    fil_inv srv sys' \<and> (\<forall>m. n_pending (nodes sys' m) = n_pending (nodes sys m))"
proof -
  note W = holds_pageD [OF assms(1,2)] and R = holds_pageD [OF assms(1,3)]
  obtain s1 where s1: "prepare_side srv os r ri sys = Some (True, s1)" "fil_inv srv s1" "fil_frame s1 = fil_frame sys"
    "\<And>m. n_pending (nodes s1 m) = n_pending (nodes sys m) + (if m = r then 1 else 0)"
    "\<And>m. node_open (nodes s1 m) = node_open (nodes sys m)" "\<And>m. node_size (nodes s1 m) = node_size (nodes sys m)"
    "\<And>m. node_handle (nodes s1 m) = node_handle (nodes sys m)"
    using open_side [OF assms(1) R(2) assms(5), of os] R(3) by auto
  have w1: "w \<in> cache_nodes s1" "node_open (nodes s1 w)" "node_space (nodes s1 w) = wi"
    using W(2,3) assms(4) s1(5) fil_frameD [OF s1(3)] by simp_all
  obtain s2 where s2: "prepare_side srv os w wi s1 = Some (True, s2)" "fil_inv srv s2" "fil_frame s2 = fil_frame s1"
    "\<And>m. n_pending (nodes s2 m) = n_pending (nodes s1 m) + (if m = w then 1 else 0)"
    "\<And>m. node_size (nodes s2 m) = node_size (nodes s1 m)" "\<And>m. node_handle (nodes s2 m) = node_handle (nodes s1 m)"
    using open_side [OF s1(2) w1(1,2), of os] w1(3) by auto
  have N: "r \<in> cache_nodes s2" "w \<in> cache_nodes s2"
    using W(2) R(2) fil_frameD(1) [OF s1(3)] fil_frameD(1) [OF s2(3)] by simp_all
  have "\<exists>s'. rw_transfer srv during blksize fibmap send OS_FILE_WRITE 0 0 (UNIV_PAGE_SIZE srv) buf (r, kr) (w, kw) (s2, st) =
      Some (s', st') \<and> fil_inv srv s' \<and> (\<forall>m. n_pending (nodes s' m) = n_pending (nodes sys m))"
    by (rule rw_transfer_page [OF s2(2) N]) (use W(4) R(4) assms(6,7,10,11) s1(4,6,7) s2(4-6) in simp_all)
  moreover have "\<not> outside s2 ri r kr" "\<not> outside s2 wi w kw" using W(4) R(4) s1(6) s2(5) by (simp_all add: outside_def)
  ultimately have "\<exists>s'. rw_on_nodes srv os during blksize fibmap send OS_FILE_WRITE wi 0 0 (UNIV_PAGE_SIZE srv) buf ri (r, kr) (w, kw)
      (sys, st) = Some (DB_SUCCESS, s', st') \<and> fil_inv srv s' \<and> (\<forall>m. n_pending (nodes s' m) = n_pending (nodes sys m))"
    using s1(1) s2(1) by (auto simp: rw_on_nodes_def)
  moreover have "unset_bit 10 (unset_bit 9 OS_FILE_WRITE) = OS_FILE_WRITE"
    by (simp add: OS_FILE_WRITE_def unset_bit_eq_idem_iff)
  ultimately show ?thesis
    using W(1) R(1) prepare_rw_quick [OF assms(8,9)] by (auto simp: fil_io_with_rw_cmd_def Let_def)
qed

text \<open>
  C14. An RW command transfers the two pages it was asked for. Let both pages lie in open files of the cache, let not
  both spaces be stopped and the limit of open files not be reached. Then \<^verbatim>\<open>fil_io_with_rw_cmd\<close> makes one
  call, for the handles of the two files that hold the pages and the byte offsets of the pages in these files,
  also when a space has several files; it returns success with the result of that call; and every file has as many
  i/o's pending as before.
\<close>

theorem fil_io_with_rw_cmd_pages:
  assumes "fil_inv srv sys" and "holds_page sys wi wp w kw" and "holds_page sys ri rp r kr"
    and "node_open (nodes sys w)" and "node_open (nodes sys r)"
    and "\<And>n. node_size (nodes sys n) < 2 ^ 64" and "9 \<le> srv_page_size_shift srv"
    and "\<not> (\<exists>sw sr. spaces sys wi = Some sw \<and> spaces sys ri = Some sr \<and> stop_ios sw \<and> stop_ios sr)"
    and "n_open sys < max_n_open sys" and "leaves_io srv during"
    and "os_rw_io_func (of_nat (UNIV_PAGE_SIZE srv)) blksize fibmap send OS_FILE_WRITE
      (node_handle (nodes sys w)) buf (of_nat (kw * UNIV_PAGE_SIZE srv)) (of_nat (UNIV_PAGE_SIZE srv))
      (node_handle (nodes sys r)) (of_nat (kr * UNIV_PAGE_SIZE srv)) (of_nat (UNIV_PAGE_SIZE srv)) st = Some st'"
  shows "\<exists>sys'. fil_io_with_rw_cmd srv os others during blksize fibmap send OS_FILE_WRITE wi 0 wp 0 (UNIV_PAGE_SIZE srv) buf
      ri rp (sys, st) = Some (DB_SUCCESS, sys', st') \<and>
    fil_inv srv sys' \<and> (\<forall>m. n_pending (nodes sys' m) = n_pending (nodes sys m))"
  using rw_pages [OF assms] .

lemma two_files_page: "holds_page two_files 10 5 1 5" "holds_page two_files 11 7 2 7"
  by (auto simp: holds_page_def two_files_def small_space_def small_node_def intro!: exI [of _ "[] :: nat list"])

lemma two_files_quick:
  "node_size (nodes two_files n) < 2 ^ 64" "9 \<le> srv_page_size_shift small_srv" "n_open two_files < max_n_open two_files"
  "\<not> (\<exists>sw sr. spaces two_files i = Some sw \<and> spaces two_files j = Some sr \<and> stop_ios sw \<and> stop_ios sr)"
  "node_open (nodes two_files n)" "leaves_io small_srv (\<lambda>s. s)"
  by (auto simp: two_files_def small_space_def small_node_def small_srv_def leaves_io_def split: if_splits)

lemma two_files_os:
  fixes h h' :: nat
  shows "\<exists>st'. os_rw_io_func (of_nat (UNIV_PAGE_SIZE small_srv)) (\<lambda>f. 4096) (\<lambda>f b. Some (b + 1000)) log_send OS_FILE_WRITE
     h 0 off (of_nat (UNIV_PAGE_SIZE small_srv)) h' off' (of_nat (UNIV_PAGE_SIZE small_srv)) st = Some st'"
  by (cases st) (simp add: os_rw_io_func_def buf_get_lba_def log_send_def Let_def)

theorem fil_io_with_rw_cmd_pages_witness:
  "\<exists>sys' st'. fil_io_with_rw_cmd small_srv all_open (\<lambda>k s. s) (\<lambda>s. s) (\<lambda>f. 4096) (\<lambda>f b. Some (b + 1000)) log_send
      OS_FILE_WRITE 10 0 5 0 (UNIV_PAGE_SIZE small_srv) 0 11 7 (two_files, no_stats, []) = Some (DB_SUCCESS, sys', st') \<and>
    n_pending (nodes sys' 1) = 0 \<and> n_pending (nodes sys' 2) = 0"
proof -
  obtain st' where "os_rw_io_func (of_nat (UNIV_PAGE_SIZE small_srv)) (\<lambda>f. 4096) (\<lambda>f b. Some (b + 1000)) log_send OS_FILE_WRITE
      (node_handle (nodes two_files 1)) 0 (of_nat (5 * UNIV_PAGE_SIZE small_srv)) (of_nat (UNIV_PAGE_SIZE small_srv))
      (node_handle (nodes two_files 2)) (of_nat (7 * UNIV_PAGE_SIZE small_srv)) (of_nat (UNIV_PAGE_SIZE small_srv))
      (no_stats, []) = Some st'" using two_files_os by blast
  from fil_io_with_rw_cmd_pages [OF two_files_inv two_files_page two_files_quick(5) two_files_quick(5) two_files_quick(1,2,4,3,6) this,
      of all_open "\<lambda>k s. s"]
  show ?thesis by (auto simp: two_files_def small_node_def)
qed



section \<open>A missing data file\<close>

lemma missing_side:
  assumes "spaces sys i = Some sp" and "purpose sp = FIL_TABLESPACE" and "fil_is_user_tablespace_id srv i"
    and "\<not> node_open (nodes sys n)" and "n_pending (nodes sys n) = 0" and "node_size (nodes sys n) = 0"
    and "os_file_create_simple os (node_name (nodes sys n)) = (h, False)"
  shows "prepare_side srv os n i sys = Some (False, upd_node n (\<lambda>r. r\<lparr>node_handle := h\<rparr>) sys)"
  using assms by (simp add: prepare_side_def fil_node_prepare_for_io_def fil_node_open_file_def learn_node_size_def Let_def)

text \<open>
  C40. What an RW command leaves behind when the file to write is missing. The file to read is prepared first; when
  opening the file to write then fails, \<^verbatim>\<open>fil_io_with_rw_cmd\<close> returns the error without any transfer, but the
  i/o that it announced on the file to read stays counted for good: the file is off the list of files that may be closed,
  and an attempt to close it fails the assertion on pending i/o.
\<close>

theorem failed_rw_cmd_leaves_pending:
  assumes "fil_inv srv sys" and "holds_page sys ri rp r kr" and "node_open (nodes sys r)"
    and "spaces sys wi = Some sw" and "purpose sw = FIL_TABLESPACE" and "fil_is_user_tablespace_id srv wi"
    and "chain sw = w # ns" and "\<not> node_open (nodes sys w)" and "node_size (nodes sys w) = 0"
    and "\<And>nm. os_file_create_simple os nm = (h, False)"
    and "\<not> (\<exists>sw sr. spaces sys wi = Some sw \<and> spaces sys ri = Some sr \<and> stop_ios sw \<and> stop_ios sr)"
    and "n_open sys < max_n_open sys"
  shows "\<exists>sys'. fil_io_with_rw_cmd srv os others during blksize fibmap send OS_FILE_WRITE wi 0 wp 0 (UNIV_PAGE_SIZE srv) buf
      ri rp (sys, st) = Some (DB_TABLESPACE_DELETED, sys', st) \<and>
    n_pending (nodes sys' r) = n_pending (nodes sys r) + 1 \<and> r \<notin> set (fil_LRU sys') \<and>
    fil_node_close_file srv os' r sys' = None"
proof -
  note R = holds_pageD [OF assms(1,2)]
  obtain s1 where s1: "prepare_side srv os r ri sys = Some (True, s1)" "fil_inv srv s1" "fil_frame s1 = fil_frame sys"
    "\<And>m. n_pending (nodes s1 m) = n_pending (nodes sys m) + (if m = r then 1 else 0)"
    "\<And>m. node_open (nodes s1 m) = node_open (nodes sys m)" "\<And>m. node_size (nodes s1 m) = node_size (nodes sys m)"
    using open_side [OF assms(1) R(2) assms(3), of os] R(3) by auto
  have wr: "w \<noteq> r" using assms(3,8) by auto
  have "w \<in> cache_nodes sys" using fil_inv_chain [OF assms(1,4)] assms(7) by simp
  then have "n_pending (nodes sys w) = 0" using assms(1,8) by (auto simp: fil_inv_def)
  then have w1: "\<not> node_open (nodes s1 w)" "n_pending (nodes s1 w) = 0" "node_size (nodes s1 w) = 0"
    using s1(4-6) assms(8,9) wr by simp_all
  obtain sp1 where sp1: "spaces s1 wi = Some sp1" "purpose sp1 = FIL_TABLESPACE"
    using fil_frameD(3) [OF s1(3), of wi] assms(4,5) by auto
  let ?s = "upd_node w (\<lambda>r. r\<lparr>node_handle := h\<rparr>) s1"
  have side: "prepare_side srv os w wi s1 = Some (False, ?s)"
    using missing_side [OF sp1 assms(6) w1] assms(10) by blast
  have found: "find_node srv sys wi (chain sw) wp = Some (w, wp)" using assms(6,7,9) by simp
  have "unset_bit 10 (unset_bit 9 OS_FILE_WRITE) = OS_FILE_WRITE"
    by (simp add: OS_FILE_WRITE_def unset_bit_eq_idem_iff)
  then have "fil_io_with_rw_cmd srv os others during blksize fibmap send OS_FILE_WRITE wi 0 wp 0 (UNIV_PAGE_SIZE srv) buf
      ri rp (sys, st) = Some (DB_TABLESPACE_DELETED, ?s, st)"
    using R(1) prepare_rw_quick [OF assms(11,12)] s1(1) side found assms(4)
    by (auto simp: fil_io_with_rw_cmd_def rw_on_nodes_def Let_def)
  moreover have p: "n_pending (nodes ?s r) = n_pending (nodes sys r) + 1" using s1(4) wr by simp
  moreover have "r \<notin> set (fil_LRU ?s)" using s1(2,4) by (auto simp: fil_inv_def in_lru_def)
  moreover have "fil_node_close_file srv os' r ?s = None" using p by (simp add: fil_node_close_file_def Let_def)
  ultimately show ?thesis by blast
qed

definition one_missing :: fil_system_t where
  "one_missing = two_files\<lparr>nodes := (nodes two_files)(1 := (small_node 1)\<lparr>node_open := False, node_size := 0\<rparr>),
     fil_LRU := [2], n_open := 1\<rparr>"

lemma one_missing_inv: "fil_inv small_srv one_missing"
proof -
  have N: "cache_nodes one_missing = {1, 2}"
    using two_files_nodes by (simp add: cache_nodes_def one_missing_def)
  have "in_lru small_srv one_missing n \<longleftrightarrow> n = 2" for n
    unfolding in_lru_def N
    by (auto simp: one_missing_def two_files_def small_node_def small_space_def small_srv_def
        fil_space_belongs_in_lru_def fil_is_user_tablespace_id_def)
  moreover have "{n \<in> {1, 2}. node_open (nodes one_missing n)} = {2 :: nat}"
    by (auto simp: one_missing_def small_node_def two_files_def)
  ultimately show ?thesis
    unfolding fil_inv_def N by (auto simp: one_missing_def two_files_def small_space_def small_node_def split: if_splits)
qed

theorem failed_rw_cmd_leaves_pending_witness:
  "\<exists>sys'. fil_io_with_rw_cmd small_srv all_open (\<lambda>k s. s) (\<lambda>s. s) (\<lambda>f. 4096) (\<lambda>f b. Some (b + 1000)) log_send
      OS_FILE_WRITE 10 0 5 0 (UNIV_PAGE_SIZE small_srv) 0 11 7 (one_missing, no_stats, []) =
      Some (DB_TABLESPACE_DELETED, sys', no_stats, []) \<and>
    n_pending (nodes sys' 2) = 1 \<and> fil_node_close_file small_srv all_open 2 sys' = None"
proof -
  have "holds_page one_missing 11 7 2 7"
    by (auto simp: holds_page_def one_missing_def two_files_def small_space_def small_node_def intro!: exI [of _ "[] :: nat list"])
  moreover have "node_open (nodes one_missing 2)" "n_pending (nodes one_missing 2) = 0" "spaces one_missing 10 = Some (small_space [1])"
    "purpose (small_space [1]) = FIL_TABLESPACE" "fil_is_user_tablespace_id small_srv 10" "chain (small_space [1]) = 1 # []"
    "\<not> node_open (nodes one_missing 1)" "node_size (nodes one_missing 1) = 0" "os_file_create_simple all_open nm = (0, False)"
    "n_open one_missing < max_n_open one_missing"
    "\<not> (\<exists>sw sr. spaces one_missing 10 = Some sw \<and> spaces one_missing 11 = Some sr \<and> stop_ios sw \<and> stop_ios sr)" for nm
    by (simp_all add: one_missing_def two_files_def small_space_def small_node_def small_srv_def all_open_def
        fil_is_user_tablespace_id_def)
  ultimately show ?thesis
    using failed_rw_cmd_leaves_pending [OF one_missing_inv, where ri = 11 and rp = 7 and r = 2 and kr = 7 and wi = 10 and
        sw = "small_space [1]" and w = 1 and ns = "[]" and os = all_open and h = 0 and others = "\<lambda>k s. s" and
        during = "\<lambda>s. s" and blksize = "\<lambda>f. 4096" and fibmap = "\<lambda>f b. Some (b + 1000)" and send = log_send and
        wp = 5 and buf = 0 and st = "(no_stats, [])" and os' = all_open]
    by auto
qed

end
