(* ===== verification/Buf_Lru.thy ===== *)
theory Buf_Lru
  imports Fil_Theorems
begin

text \<open>
  The buffer pool of InnoDB (\<^verbatim>\<open>include/buf0buf.h\<close>) and its list of pages in the order of their use
  (\<^verbatim>\<open>buf/buf0lru.cc\<close>). The tail of the list, from \<^verbatim>\<open>LRU_old\<close> on, is the part of the old pages: pages are read in
  at its head, and victims are taken from its end. Every change of the list moves \<^verbatim>\<open>LRU_old\<close> so that the part keeps
  its share of the list. The invariant is the one that the debug version of the code checks.

  The operations run with the mutex of the pool held. A block is named by a number. No tablespace is compressed, so
  \<^verbatim>\<open>zip.data\<close> is always null and the lists of compressed and uncompressed copies are empty. \<^term>\<open>None\<close> is a failed
  \<^verbatim>\<open>ut_a\<close> or \<^verbatim>\<open>ut_error\<close>, or the use of a null pointer: the server stops.
\<close>

section \<open>The pool\<close>

datatype buf_page_state = BUF_BLOCK_POOL_WATCH | BUF_BLOCK_ZIP_PAGE | BUF_BLOCK_ZIP_DIRTY | BUF_BLOCK_NOT_USED |
  BUF_BLOCK_READY_FOR_USE | BUF_BLOCK_FILE_PAGE | BUF_BLOCK_MEMORY | BUF_BLOCK_REMOVE_HASH

datatype buf_io_fix = BUF_IO_NONE | BUF_IO_READ | BUF_IO_WRITE | BUF_IO_PIN

datatype buf_flush_t = BUF_FLUSH_LRU | BUF_FLUSH_LIST | BUF_FLUSH_SINGLE_PAGE

text \<open>
  A control block, with the fields of the page that it holds first. \<open>lock_word\<close> is the count of the latch of the
  frame, \<open>ahi_index\<close> tells whether there is an adaptive hash index on the page.
\<close>

record buf_block_t =
  pg_state :: buf_page_state
  pg_space :: nat
  pg_offset :: nat
  buf_fix_count :: nat
  io_fix :: buf_io_fix
  flush_type :: buf_flush_t
  newest_modification :: nat
  oldest_modification :: nat
  pg_old :: bool
  pg_freed_page_clock :: nat
  access_time :: nat
  target_rw_cmd :: bool
  frame :: "64 word"
  use_rw_cmd :: bool
  lock_word :: int
  lock_hash_val :: nat
  check_index_page_at_flush :: bool
  modify_clock :: "64 word"
  n_hash_helps :: nat
  n_fields :: nat
  n_bytes :: nat
  left_side :: bool
  ahi_index :: bool

text \<open>An entry of the page hash: a block, or the sentinel of a watch with its count.\<close>

datatype hashed = Page nat | Watch nat

record buf_pool_t =
  bblocks :: "nat \<Rightarrow> buf_block_t"
  curr_size :: nat
  page_hash :: "nat \<times> nat \<Rightarrow> hashed option"
  free_list :: "nat list"
  lru_list :: "nat list"
  flush_list :: "nat list"
  flush_list_hp :: "nat option"
  LRU_old :: "nat option"
  LRU_old_len :: nat
  LRU_old_ratio :: nat
  LRU_bytes :: "64 word"
  flush_list_bytes :: "64 word"
  n_flush :: "buf_flush_t \<Rightarrow> 64 word"
  init_flush :: "buf_flush_t \<Rightarrow> bool"
  pool_freed_page_clock :: nat
  try_LRU_scan :: bool
  n_pend_reads :: "64 word"
  n_pages_read :: nat
  n_pages_written :: nat
  n_pages_made_young :: nat
  n_ra_pages_evicted :: nat

definition upd_block :: "nat \<Rightarrow> (buf_block_t \<Rightarrow> buf_block_t) \<Rightarrow> buf_pool_t \<Rightarrow> buf_pool_t" where
  "upd_block b f pool = pool\<lparr>bblocks := (bblocks pool)(b := f (bblocks pool b))\<rparr>"

fun buf_page_in_file :: "buf_page_state \<Rightarrow> bool option" where
  "buf_page_in_file BUF_BLOCK_POOL_WATCH = None"
| "buf_page_in_file BUF_BLOCK_ZIP_PAGE = Some True"
| "buf_page_in_file BUF_BLOCK_ZIP_DIRTY = Some True"
| "buf_page_in_file BUF_BLOCK_FILE_PAGE = Some True"
| "buf_page_in_file BUF_BLOCK_NOT_USED = Some False"
| "buf_page_in_file BUF_BLOCK_READY_FOR_USE = Some False"
| "buf_page_in_file BUF_BLOCK_MEMORY = Some False"
| "buf_page_in_file BUF_BLOCK_REMOVE_HASH = Some False"

section \<open>Neighbours in a list\<close>

fun next_of :: "'a list \<Rightarrow> 'a \<Rightarrow> 'a option" where
  "next_of (x # y # xs) a = (if x = a then Some y else next_of (y # xs) a)"
| "next_of _ a = None"

fun prev_of :: "'a list \<Rightarrow> 'a \<Rightarrow> 'a option" where
  "prev_of (x # y # xs) a = (if y = a then Some x else prev_of (y # xs) a)"
| "prev_of _ a = None"

fun insert_after :: "'a \<Rightarrow> 'a \<Rightarrow> 'a list \<Rightarrow> 'a list" where
  "insert_after a b [] = []"
| "insert_after a b (x # xs) = (if x = a then x # b # xs else x # insert_after a b xs)"

section \<open>The part of the old pages\<close>

definition BUF_LRU_OLD_TOLERANCE :: nat where "BUF_LRU_OLD_TOLERANCE = 20"
definition BUF_LRU_NON_OLD_MIN_LEN :: nat where "BUF_LRU_NON_OLD_MIN_LEN = 5"
definition BUF_LRU_OLD_MIN_LEN :: nat where "BUF_LRU_OLD_MIN_LEN = 512"
definition BUF_LRU_OLD_RATIO_DIV :: nat where "BUF_LRU_OLD_RATIO_DIV = 1024"
definition BUF_LRU_OLD_RATIO_MAX :: nat where "BUF_LRU_OLD_RATIO_MAX = BUF_LRU_OLD_RATIO_DIV"
definition BUF_LRU_OLD_RATIO_MIN :: nat where "BUF_LRU_OLD_RATIO_MIN = 51"

definition buf_page_set_old :: "nat \<Rightarrow> bool \<Rightarrow> buf_pool_t \<Rightarrow> buf_pool_t option" where
  "buf_page_set_old b v pool =
     (if buf_page_in_file (pg_state (bblocks pool b)) = Some True
      then Some (upd_block b (\<lambda>k. k\<lparr>pg_old := v\<rparr>) pool) else None)"

text \<open>The length that the part is meant to have, and the loop that moves \<^verbatim>\<open>LRU_old\<close> one page at a time.\<close>

definition old_new_len :: "buf_pool_t \<Rightarrow> nat" where
  "old_new_len pool =
     min (length (lru_list pool) * LRU_old_ratio pool div BUF_LRU_OLD_RATIO_DIV)
         (usub64 (length (lru_list pool)) (BUF_LRU_OLD_TOLERANCE + BUF_LRU_NON_OLD_MIN_LEN))"

partial_function (option) old_adjust_loop :: "nat \<Rightarrow> buf_pool_t \<Rightarrow> buf_pool_t option" where
  [code]: "old_adjust_loop new_len pool =
     do {
       b \<leftarrow> LRU_old pool;
       (if LRU_old_len pool + BUF_LRU_OLD_TOLERANCE < new_len then
          do {
            p \<leftarrow> prev_of (lru_list pool) b;
            pool \<leftarrow> buf_page_set_old p True (pool\<lparr>LRU_old := Some p, LRU_old_len := LRU_old_len pool + 1\<rparr>);
            old_adjust_loop new_len pool
          }
        else if new_len + BUF_LRU_OLD_TOLERANCE < LRU_old_len pool then
          do {
            pool \<leftarrow> buf_page_set_old b False
              (pool\<lparr>LRU_old := next_of (lru_list pool) b, LRU_old_len := usub64 (LRU_old_len pool) 1\<rparr>);
            old_adjust_loop new_len pool
          }
        else Some pool)
     }"

definition buf_LRU_old_adjust_len :: "buf_pool_t \<Rightarrow> buf_pool_t option" where
  "buf_LRU_old_adjust_len pool = old_adjust_loop (old_new_len pool) pool"

definition set_all_old :: "bool \<Rightarrow> buf_pool_t \<Rightarrow> buf_pool_t" where
  "set_all_old v pool = fold (\<lambda>b. upd_block b (\<lambda>k. k\<lparr>pg_old := v\<rparr>)) (lru_list pool) pool"

definition buf_LRU_old_init :: "buf_pool_t \<Rightarrow> buf_pool_t option" where
  "buf_LRU_old_init pool =
     (if length (lru_list pool) = BUF_LRU_OLD_MIN_LEN then
        case lru_list pool of [] \<Rightarrow> None | b # _ \<Rightarrow>
          buf_LRU_old_adjust_len ((set_all_old True pool)\<lparr>LRU_old := Some b, LRU_old_len := length (lru_list pool)\<rparr>)
      else None)"

section \<open>Changes of the list\<close>

text \<open>When the head of the part is removed, the page before it takes its place first.\<close>

definition old_step_back :: "nat \<Rightarrow> buf_pool_t \<Rightarrow> buf_pool_t option" where
  "old_step_back b pool =
     (if LRU_old pool = Some b then
        do {
          p \<leftarrow> prev_of (lru_list pool) b;
          pool \<leftarrow> buf_page_set_old p True (pool\<lparr>LRU_old := Some p\<rparr>);
          Some (pool\<lparr>LRU_old_len := LRU_old_len pool + 1\<rparr>)
        }
      else Some pool)"

definition buf_LRU_remove_block :: "srv_settings \<Rightarrow> nat \<Rightarrow> buf_pool_t \<Rightarrow> buf_pool_t option" where
  "buf_LRU_remove_block srv b pool =
     (if buf_page_in_file (pg_state (bblocks pool b)) \<noteq> Some True then None
      else do {
        pool \<leftarrow> old_step_back b pool;
        let pool = pool\<lparr>lru_list := remove1 b (lru_list pool), LRU_bytes := LRU_bytes pool - of_nat (UNIV_PAGE_SIZE srv)\<rparr>;
        (if length (lru_list pool) < BUF_LRU_OLD_MIN_LEN
         then Some ((set_all_old False pool)\<lparr>LRU_old := None, LRU_old_len := 0\<rparr>)
         else buf_LRU_old_adjust_len
           (if pg_old (bblocks pool b) then pool\<lparr>LRU_old_len := usub64 (LRU_old_len pool) 1\<rparr> else pool))
      })"

text \<open>After an insertion: the flag of the new page, and the place of \<^verbatim>\<open>LRU_old\<close>.\<close>

definition lru_inserted :: "nat \<Rightarrow> bool \<Rightarrow> buf_pool_t \<Rightarrow> buf_pool_t option" where
  "lru_inserted b v pool =
     (if BUF_LRU_OLD_MIN_LEN < length (lru_list pool) then
        do { pool \<leftarrow> buf_page_set_old b v pool; buf_LRU_old_adjust_len pool }
      else if length (lru_list pool) = BUF_LRU_OLD_MIN_LEN then buf_LRU_old_init pool
      else buf_page_set_old b (LRU_old pool \<noteq> None) pool)"

definition buf_LRU_add_block_low :: "srv_settings \<Rightarrow> nat \<Rightarrow> bool \<Rightarrow> buf_pool_t \<Rightarrow> buf_pool_t option" where
  "buf_LRU_add_block_low srv b v pool =
     (if buf_page_in_file (pg_state (bblocks pool b)) \<noteq> Some True then None
      else do {
        pool \<leftarrow> (if \<not> v \<or> length (lru_list pool) < BUF_LRU_OLD_MIN_LEN
          then Some (upd_block b (\<lambda>k. k\<lparr>pg_freed_page_clock := pool_freed_page_clock pool mod 2 ^ 31\<rparr>)
                      (pool\<lparr>lru_list := b # lru_list pool\<rparr>))
          else do {
            h \<leftarrow> LRU_old pool;
            Some (pool\<lparr>lru_list := insert_after h b (lru_list pool), LRU_old_len := LRU_old_len pool + 1\<rparr>)
          });
        lru_inserted b v (pool\<lparr>LRU_bytes := LRU_bytes pool + of_nat (UNIV_PAGE_SIZE srv)\<rparr>)
      })"

definition buf_LRU_add_block_to_end_low :: "srv_settings \<Rightarrow> nat \<Rightarrow> buf_pool_t \<Rightarrow> buf_pool_t option" where
  "buf_LRU_add_block_to_end_low srv b pool =
     (if buf_page_in_file (pg_state (bblocks pool b)) \<noteq> Some True then None
      else let pool = pool\<lparr>lru_list := lru_list pool @ [b], LRU_bytes := LRU_bytes pool + of_nat (UNIV_PAGE_SIZE srv)\<rparr> in
        if BUF_LRU_OLD_MIN_LEN < length (lru_list pool) then
          do {
            pool \<leftarrow> buf_page_set_old b True pool;
            buf_LRU_old_adjust_len (pool\<lparr>LRU_old_len := LRU_old_len pool + 1\<rparr>)
          }
        else if length (lru_list pool) = BUF_LRU_OLD_MIN_LEN then buf_LRU_old_init pool
        else buf_page_set_old b (LRU_old pool \<noteq> None) pool)"

definition buf_LRU_make_block_young :: "srv_settings \<Rightarrow> nat \<Rightarrow> buf_pool_t \<Rightarrow> buf_pool_t option" where
  "buf_LRU_make_block_young srv b pool =
     do {
       let pool = (if pg_old (bblocks pool b) then pool\<lparr>n_pages_made_young := n_pages_made_young pool + 1\<rparr> else pool);
       pool \<leftarrow> buf_LRU_remove_block srv b pool;
       buf_LRU_add_block_low srv b False pool
     }"

definition buf_LRU_make_block_old :: "srv_settings \<Rightarrow> nat \<Rightarrow> buf_pool_t \<Rightarrow> buf_pool_t option" where
  "buf_LRU_make_block_old srv b pool =
     do {
       pool \<leftarrow> buf_LRU_remove_block srv b pool;
       buf_LRU_add_block_to_end_low srv b pool
     }"

text \<open>Setting the share of the part, in percent; the result is the share after rounding.\<close>

definition buf_LRU_old_ratio_update_instance :: "nat \<Rightarrow> bool \<Rightarrow> buf_pool_t \<Rightarrow> (nat \<times> buf_pool_t) option" where
  "buf_LRU_old_ratio_update_instance old_pct adjust pool =
     (let ratio = max BUF_LRU_OLD_RATIO_MIN (min BUF_LRU_OLD_RATIO_MAX (u32 (old_pct * BUF_LRU_OLD_RATIO_DIV) div 100)) in
      do {
        pool \<leftarrow> (if adjust then
                  if ratio \<noteq> LRU_old_ratio pool then
                    let pool = pool\<lparr>LRU_old_ratio := ratio\<rparr> in
                    if BUF_LRU_OLD_MIN_LEN \<le> length (lru_list pool) then buf_LRU_old_adjust_len pool else Some pool
                  else Some pool
                else Some (pool\<lparr>LRU_old_ratio := ratio\<rparr>));
        Some ((ratio * 100 + BUF_LRU_OLD_RATIO_DIV div 2) div BUF_LRU_OLD_RATIO_DIV, pool)
      })"

section \<open>The invariant\<close>

definition old_split :: "nat list \<Rightarrow> nat list \<Rightarrow> buf_pool_t \<Rightarrow> bool" where
  "old_split ys os pool \<longleftrightarrow>
     lru_list pool = ys @ os \<and> os \<noteq> [] \<and> LRU_old pool = Some (hd os) \<and> LRU_old_len pool = length os \<and>
     (\<forall>b \<in> set ys. \<not> pg_old (bblocks pool b)) \<and> (\<forall>b \<in> set os. pg_old (bblocks pool b))"

definition near :: "nat \<Rightarrow> nat \<Rightarrow> bool" where
  "near a b \<longleftrightarrow> a \<le> b + BUF_LRU_OLD_TOLERANCE \<and> b \<le> a + BUF_LRU_OLD_TOLERANCE"

definition lru_base :: "srv_settings \<Rightarrow> buf_pool_t \<Rightarrow> bool" where
  "lru_base srv pool \<longleftrightarrow>
     distinct (lru_list pool) \<and> length (lru_list pool) < 2 ^ 63 \<and>
     (\<forall>b \<in> set (lru_list pool). buf_page_in_file (pg_state (bblocks pool b)) = Some True) \<and>
     BUF_LRU_OLD_RATIO_MIN \<le> LRU_old_ratio pool \<and> LRU_old_ratio pool \<le> BUF_LRU_OLD_RATIO_MAX \<and>
     LRU_bytes pool = of_nat (length (lru_list pool)) * of_nat (UNIV_PAGE_SIZE srv)"

definition lru_inv :: "srv_settings \<Rightarrow> buf_pool_t \<Rightarrow> bool" where
  "lru_inv srv pool \<longleftrightarrow> lru_base srv pool \<and>
     (if length (lru_list pool) < BUF_LRU_OLD_MIN_LEN
      then LRU_old pool = None \<and> LRU_old_len pool = 0 \<and> (\<forall>b \<in> set (lru_list pool). \<not> pg_old (bblocks pool b))
      else (\<exists>ys os. old_split ys os pool) \<and> near (LRU_old_len pool) (old_new_len pool))"

text \<open>Everything but the list, its old part, the marks in the blocks and the count of pages made young.\<close>

definition lru_frame :: "buf_pool_t \<Rightarrow> buf_pool_t" where
  "lru_frame pool = pool\<lparr>bblocks := \<lambda>b. (bblocks pool b)\<lparr>pg_old := False, pg_freed_page_clock := 0\<rparr>,
     lru_list := [], LRU_old := None, LRU_old_len := 0, LRU_bytes := 0, n_pages_made_young := 0\<rparr>"

section \<open>Lists\<close>

lemma next_of_head [simp]: "next_of (x # xs) x = (case xs of [] \<Rightarrow> None | y # _ \<Rightarrow> Some y)"
  by (cases xs) auto

lemma next_of_append: "distinct (ys @ x # xs) \<Longrightarrow> next_of (ys @ x # xs) x = (case xs of [] \<Rightarrow> None | y # _ \<Rightarrow> Some y)"
proof (induction ys)
  case (Cons y ys)
  then show ?case by (cases ys) auto
qed simp

lemma prev_of_append: "distinct (ys @ y # x # xs) \<Longrightarrow> prev_of (ys @ y # x # xs) x = Some y"
proof (induction ys)
  case (Cons z ys)
  then show ?case by (cases ys) auto
qed simp

lemma insert_after_append: "a \<notin> set ys \<Longrightarrow> insert_after a b (ys @ a # xs) = ys @ a # b # xs"
  by (induction ys) auto

section \<open>Moving the old part\<close>

lemma upd_block_fields [simp]:
  "lru_list (upd_block b f pool) = lru_list pool" "LRU_old (upd_block b f pool) = LRU_old pool"
  "LRU_old_len (upd_block b f pool) = LRU_old_len pool" "LRU_old_ratio (upd_block b f pool) = LRU_old_ratio pool"
  "LRU_bytes (upd_block b f pool) = LRU_bytes pool" "page_hash (upd_block b f pool) = page_hash pool"
  "free_list (upd_block b f pool) = free_list pool" "flush_list (upd_block b f pool) = flush_list pool"
  "bblocks (upd_block b f pool) = (bblocks pool)(b := f (bblocks pool b))"
  by (simp_all add: upd_block_def)

lemma lru_frame_upd [simp]:
  "lru_frame (upd_block b (\<lambda>k. k\<lparr>pg_old := v\<rparr>) pool) = lru_frame pool"
  "lru_frame (upd_block b (\<lambda>k. k\<lparr>pg_freed_page_clock := c\<rparr>) pool) = lru_frame pool"
  "lru_frame (pool\<lparr>lru_list := l\<rparr>) = lru_frame pool" "lru_frame (pool\<lparr>LRU_old := x\<rparr>) = lru_frame pool"
  "lru_frame (pool\<lparr>LRU_old_len := n\<rparr>) = lru_frame pool" "lru_frame (pool\<lparr>LRU_bytes := w\<rparr>) = lru_frame pool"
  "lru_frame (pool\<lparr>n_pages_made_young := n\<rparr>) = lru_frame pool"
  by (auto simp: lru_frame_def upd_block_def fun_eq_iff)

lemma lru_frame_block:
  assumes "lru_frame pool' = lru_frame pool"
  shows "\<exists>v c. bblocks pool' b = (bblocks pool b)\<lparr>pg_old := v, pg_freed_page_clock := c\<rparr>"
proof -
  have "bblocks (lru_frame pool') b = bblocks (lru_frame pool) b" using assms by simp
  then have "(bblocks pool' b)\<lparr>pg_old := False, pg_freed_page_clock := 0\<rparr> =
    (bblocks pool b)\<lparr>pg_old := False, pg_freed_page_clock := 0\<rparr>" by (simp add: lru_frame_def)
  then have "bblocks pool' b = (bblocks pool b)\<lparr>pg_old := pg_old (bblocks pool' b),
    pg_freed_page_clock := pg_freed_page_clock (bblocks pool' b)\<rparr>"
    by (cases "bblocks pool' b"; cases "bblocks pool b") simp
  then show ?thesis by blast
qed

lemma lru_frame_state:
  assumes "lru_frame pool' = lru_frame pool"
  shows "pg_state (bblocks pool' b) = pg_state (bblocks pool b)" and "LRU_old_ratio pool' = LRU_old_ratio pool"
proof -
  show "pg_state (bblocks pool' b) = pg_state (bblocks pool b)" using lru_frame_block [OF assms, of b] by auto
  have "LRU_old_ratio (lru_frame pool') = LRU_old_ratio (lru_frame pool)" using assms by simp
  then show "LRU_old_ratio pool' = LRU_old_ratio pool" by (simp add: lru_frame_def)
qed

text \<open>What a move of the old part leaves alone, besides the frame.\<close>

definition same_list :: "buf_pool_t \<Rightarrow> buf_pool_t \<Rightarrow> bool" where
  "same_list pool' pool \<longleftrightarrow>
     lru_frame pool' = lru_frame pool \<and> lru_list pool' = lru_list pool \<and> LRU_bytes pool' = LRU_bytes pool"

lemma lru_base_same: "same_list pool' pool \<Longrightarrow> lru_base srv pool' = lru_base srv pool"
  using lru_frame_state [of pool' pool] by (auto simp: same_list_def lru_base_def)

lemma old_new_len_same: "same_list pool' pool \<Longrightarrow> old_new_len pool' = old_new_len pool"
  using lru_frame_state(2) [of pool' pool] by (simp add: same_list_def old_new_len_def)

lemma old_grow:
  assumes base: "lru_base srv pool" and split: "old_split (ys @ [p]) os pool"
  shows "\<exists>pool'. prev_of (lru_list pool) (hd os) = Some p \<and>
    buf_page_set_old p True (pool\<lparr>LRU_old := Some p, LRU_old_len := LRU_old_len pool + 1\<rparr>) = Some pool' \<and>
    old_split ys (p # os) pool' \<and> same_list pool' pool"
proof -
  obtain x xs where os: "os = x # xs" using split by (cases os) (auto simp: old_split_def)
  have l: "lru_list pool = ys @ p # x # xs" using split os by (simp add: old_split_def)
  then have "prev_of (lru_list pool) (hd os) = Some p" using base os by (simp add: lru_base_def prev_of_append)
  moreover have "buf_page_in_file (pg_state (bblocks pool p)) = Some True" using base l by (simp add: lru_base_def)
  ultimately show ?thesis
    using split base l by (auto simp: buf_page_set_old_def old_split_def same_list_def lru_base_def os)
qed

lemma old_shrink:
  assumes base: "lru_base srv pool" and split: "old_split ys (x # y # xs) pool"
  shows "\<exists>pool'. buf_page_set_old x False
      (pool\<lparr>LRU_old := next_of (lru_list pool) x, LRU_old_len := usub64 (LRU_old_len pool) 1\<rparr>) = Some pool' \<and>
    old_split (ys @ [x]) (y # xs) pool' \<and> same_list pool' pool"
proof -
  have l: "lru_list pool = ys @ x # y # xs" using split by (simp add: old_split_def)
  then have "next_of (lru_list pool) x = Some y" using base by (simp add: lru_base_def next_of_append)
  moreover have "buf_page_in_file (pg_state (bblocks pool x)) = Some True" using base l by (simp add: lru_base_def)
  moreover have "usub64 (LRU_old_len pool) 1 = LRU_old_len pool - 1"
    using split base l by (intro usub64_small) (auto simp: old_split_def lru_base_def)
  ultimately show ?thesis
    using split base l by (auto simp: buf_page_set_old_def old_split_def same_list_def lru_base_def)
qed

lemma same_list_trans: "same_list p q \<Longrightarrow> same_list q r \<Longrightarrow> same_list p r"
  by (simp add: same_list_def)

lemma old_adjust_grows:
  assumes "lru_base srv pool" and "old_split ys os pool" and "n \<le> length (lru_list pool)" and "length os + 20 \<le> n"
  shows "\<exists>pool' ys' os'. old_adjust_loop n pool = Some pool' \<and> old_split ys' os' pool' \<and> same_list pool' pool \<and>
    near (length os') n"
  using assms
proof (induction "n - length os" arbitrary: ys os pool rule: less_induct)
  case less
  show ?case
  proof (cases "length os + 20 = n")
    case True
    then have "old_adjust_loop n pool = Some pool"
      using less.prems(2) by (subst old_adjust_loop.simps) (simp add: old_split_def BUF_LRU_OLD_TOLERANCE_def)
    then show ?thesis using True less.prems(2)
      by (intro exI [of _ pool] exI [of _ ys] exI [of _ os]) (auto simp: same_list_def near_def BUF_LRU_OLD_TOLERANCE_def)
  next
    case False
    then obtain zs p where ys: "ys = zs @ [p]"
      using less.prems by (cases ys rule: rev_cases) (auto simp: old_split_def)
    obtain q where q: "prev_of (lru_list pool) (hd os) = Some p"
      "buf_page_set_old p True (pool\<lparr>LRU_old := Some p, LRU_old_len := LRU_old_len pool + 1\<rparr>) = Some q"
      "old_split zs (p # os) q" "same_list q pool"
      using old_grow [OF less.prems(1) less.prems(2) [unfolded ys]] by blast
    have step: "old_adjust_loop n pool = old_adjust_loop n q"
      using less.prems(2,4) False q(1,2)
      by (subst old_adjust_loop.simps) (simp add: old_split_def BUF_LRU_OLD_TOLERANCE_def)
    have base: "lru_base srv q" using less.prems(1) lru_base_same [OF q(4)] by simp
    have "\<exists>pool' ys' os'. old_adjust_loop n q = Some pool' \<and> old_split ys' os' pool' \<and> same_list pool' q \<and>
      near (length os') n"
      by (rule less.hyps [OF _ base q(3)]) (use less.prems(3,4) False q(4) in \<open>auto simp: same_list_def\<close>)
    then show ?thesis using step q(4) same_list_trans by metis
  qed
qed

lemma old_adjust_shrinks:
  assumes "lru_base srv pool" and "old_split ys os pool" and "n \<le> length os + 20"
  shows "\<exists>pool' ys' os'. old_adjust_loop n pool = Some pool' \<and> old_split ys' os' pool' \<and> same_list pool' pool \<and>
    near (length os') n"
  using assms
proof (induction os arbitrary: ys pool)
  case Nil
  then show ?case by (simp add: old_split_def)
next
  case (Cons x os)
  show ?case
  proof (cases "length (x # os) \<le> n + 20")
    case True
    then have "old_adjust_loop n pool = Some pool"
      using Cons.prems by (subst old_adjust_loop.simps) (auto simp: old_split_def BUF_LRU_OLD_TOLERANCE_def)
    then show ?thesis
      using True Cons.prems by (intro exI [of _ pool] exI [of _ ys] exI [of _ "x # os"])
        (auto simp: same_list_def near_def BUF_LRU_OLD_TOLERANCE_def)
  next
    case False
    then obtain y xs where os: "os = y # xs" by (cases os) auto
    obtain q where q: "buf_page_set_old x False
        (pool\<lparr>LRU_old := next_of (lru_list pool) x, LRU_old_len := usub64 (LRU_old_len pool) 1\<rparr>) = Some q"
      "old_split (ys @ [x]) os q" "same_list q pool"
      using old_shrink [OF Cons.prems(1) Cons.prems(2) [unfolded os]] os by blast
    have step: "old_adjust_loop n pool = old_adjust_loop n q"
      using Cons.prems(2,3) False q(1)
      by (subst old_adjust_loop.simps) (simp add: old_split_def BUF_LRU_OLD_TOLERANCE_def)
    have base: "lru_base srv q" using Cons.prems(1) lru_base_same [OF q(3)] by simp
    have "\<exists>pool' ys' os'. old_adjust_loop n q = Some pool' \<and> old_split ys' os' pool' \<and> same_list pool' q \<and>
      near (length os') n"
      by (rule Cons.IH [OF base q(2)]) (use False in simp)
    then show ?thesis using step q(3) same_list_trans by metis
  qed
qed

lemma old_new_len_bounds:
  assumes "lru_base srv pool" and "BUF_LRU_OLD_MIN_LEN \<le> length (lru_list pool)"
  shows "old_new_len pool \<le> length (lru_list pool) - 25" and "25 \<le> old_new_len pool"
proof -
  have u: "usub64 (length (lru_list pool)) 25 = length (lru_list pool) - 25"
    using assms by (intro usub64_small) (auto simp: lru_base_def BUF_LRU_OLD_MIN_LEN_def)
  then show "old_new_len pool \<le> length (lru_list pool) - 25"
    by (simp add: old_new_len_def BUF_LRU_OLD_TOLERANCE_def BUF_LRU_NON_OLD_MIN_LEN_def)
  have "512 * 51 \<le> length (lru_list pool) * LRU_old_ratio pool"
    using assms by (intro mult_le_mono) (auto simp: lru_base_def BUF_LRU_OLD_MIN_LEN_def BUF_LRU_OLD_RATIO_MIN_def)
  then have "512 * 51 div 1024 \<le> length (lru_list pool) * LRU_old_ratio pool div 1024" by (rule div_le_mono)
  then show "25 \<le> old_new_len pool"
    using u assms(2) by (simp add: old_new_len_def BUF_LRU_OLD_TOLERANCE_def BUF_LRU_NON_OLD_MIN_LEN_def
        BUF_LRU_OLD_RATIO_DIV_def BUF_LRU_OLD_MIN_LEN_def)
qed

lemma lru_inv_longI:
  assumes "lru_base srv pool" and "old_split ys os pool" and "near (length os) (old_new_len pool)"
    and "BUF_LRU_OLD_MIN_LEN \<le> length (lru_list pool)"
  shows "lru_inv srv pool"
proof -
  have "LRU_old_len pool = length os" using assms(2) by (simp add: old_split_def)
  then show ?thesis using assms by (auto simp: lru_inv_def)
qed

lemma adjust_len_inv:
  assumes base: "lru_base srv pool" and split: "old_split ys os pool" and len: "BUF_LRU_OLD_MIN_LEN \<le> length (lru_list pool)"
  shows "\<exists>pool'. buf_LRU_old_adjust_len pool = Some pool' \<and> lru_inv srv pool' \<and> same_list pool' pool"
proof -
  let ?n = "old_new_len pool"
  have n: "?n \<le> length (lru_list pool)" using old_new_len_bounds(1) [OF base len] by simp
  obtain q ys' os' where q: "old_adjust_loop ?n pool = Some q" "old_split ys' os' q" "same_list q pool" "near (length os') ?n"
    using old_adjust_grows [OF base split n] old_adjust_shrinks [OF base split, of ?n]
    by (metis nat_le_linear)
  have "lru_inv srv q"
    by (rule lru_inv_longI [OF _ q(2)])
      (use q lru_base_same [OF q(3)] base len old_new_len_same [OF q(3)] in \<open>simp_all add: same_list_def\<close>)
  then show ?thesis using q by (auto simp: buf_LRU_old_adjust_len_def)
qed

lemma set_all_old_fields [simp]:
  "lru_list (set_all_old v pool) = lru_list pool" "LRU_old_ratio (set_all_old v pool) = LRU_old_ratio pool"
  "LRU_bytes (set_all_old v pool) = LRU_bytes pool" "lru_frame (set_all_old v pool) = lru_frame pool"
  "bblocks (set_all_old v pool) b = (if b \<in> set (lru_list pool) then (bblocks pool b)\<lparr>pg_old := v\<rparr> else bblocks pool b)"
proof -
  define l where "l = lru_list pool"
  have "lru_list (fold (\<lambda>b. upd_block b (\<lambda>k. k\<lparr>pg_old := v\<rparr>)) l pool) = lru_list pool \<and>
    LRU_old_ratio (fold (\<lambda>b. upd_block b (\<lambda>k. k\<lparr>pg_old := v\<rparr>)) l pool) = LRU_old_ratio pool \<and>
    LRU_bytes (fold (\<lambda>b. upd_block b (\<lambda>k. k\<lparr>pg_old := v\<rparr>)) l pool) = LRU_bytes pool \<and>
    lru_frame (fold (\<lambda>b. upd_block b (\<lambda>k. k\<lparr>pg_old := v\<rparr>)) l pool) = lru_frame pool \<and>
    bblocks (fold (\<lambda>b. upd_block b (\<lambda>k. k\<lparr>pg_old := v\<rparr>)) l pool) b =
      (if b \<in> set l then (bblocks pool b)\<lparr>pg_old := v\<rparr> else bblocks pool b)"
    by (induction l arbitrary: pool) auto
  then show "lru_list (set_all_old v pool) = lru_list pool" "LRU_old_ratio (set_all_old v pool) = LRU_old_ratio pool"
    "LRU_bytes (set_all_old v pool) = LRU_bytes pool" "lru_frame (set_all_old v pool) = lru_frame pool"
    "bblocks (set_all_old v pool) b = (if b \<in> set (lru_list pool) then (bblocks pool b)\<lparr>pg_old := v\<rparr> else bblocks pool b)"
    by (simp_all add: set_all_old_def l_def)
qed

section \<open>Removal\<close>

lemma old_step_back_split:
  assumes inv: "lru_inv srv pool" and len: "BUF_LRU_OLD_MIN_LEN \<le> length (lru_list pool)"
  shows "\<exists>q ys os. old_step_back b pool = Some q \<and> old_split ys os q \<and> hd os \<noteq> b \<and> same_list q pool"
proof -
  have base: "lru_base srv pool" and near: "near (LRU_old_len pool) (old_new_len pool)"
    using inv len by (auto simp: lru_inv_def)
  obtain ys os where split: "old_split ys os pool" using inv len by (auto simp: lru_inv_def)
  show ?thesis
  proof (cases "hd os = b")
    case False
    then have "old_step_back b pool = Some pool" using split by (simp add: old_step_back_def old_split_def)
    then show ?thesis using False split by (auto simp: same_list_def)
  next
    case True
    have "length os < length (lru_list pool)"
      using old_new_len_bounds(1) [OF base len] near split len
      by (auto simp: near_def old_split_def BUF_LRU_OLD_TOLERANCE_def BUF_LRU_OLD_MIN_LEN_def)
    then obtain zs p where ys: "ys = zs @ [p]" using split by (cases ys rule: rev_cases) (auto simp: old_split_def)
    have "p \<noteq> b" using split base True ys by (cases os) (auto simp: old_split_def lru_base_def)
    moreover have "old_step_back b pool = buf_page_set_old p True (pool\<lparr>LRU_old := Some p, LRU_old_len := LRU_old_len pool + 1\<rparr>)"
      using old_grow [OF base split [unfolded ys]] split True
      by (auto simp: old_step_back_def old_split_def buf_page_set_old_def upd_block_def split: if_splits)
    ultimately show ?thesis using old_grow [OF base split [unfolded ys]] by fastforce
  qed
qed

lemma removed_split:
  fixes w :: "64 word"
  assumes base: "lru_base srv q" and split: "old_split ys os q" and b: "b \<in> set (lru_list q)" "hd os \<noteq> b"
  defines "r \<equiv> q\<lparr>lru_list := remove1 b (lru_list q), LRU_bytes := w\<rparr>"
  shows "\<exists>ys' os'. old_split ys' os' (if pg_old (bblocks r b) then r\<lparr>LRU_old_len := usub64 (LRU_old_len r) 1\<rparr> else r)"
proof (cases "b \<in> set ys")
  case True
  then have "\<not> pg_old (bblocks r b)" using split by (simp add: old_split_def r_def)
  moreover have "old_split (remove1 b ys) os r"
    using split True notin_set_remove1 by (auto simp: old_split_def r_def remove1_append)
  ultimately show ?thesis by auto
next
  case False
  then obtain x xs where os: "os = x # xs" "b \<in> set xs" "x \<noteq> b" using split b by (cases os) (auto simp: old_split_def)
  have "pg_old (bblocks r b)" using split os by (simp add: old_split_def r_def)
  moreover have "usub64 (LRU_old_len r) 1 = length (x # remove1 b xs)"
    using split os base
    by (subst usub64_small) (auto simp: old_split_def r_def lru_base_def length_remove1 dest: length_pos_if_in_set)
  moreover have "set (remove1 b xs) \<subseteq> set xs" by (rule set_remove1_subset)
  ultimately have "old_split ys (x # remove1 b xs) (r\<lparr>LRU_old_len := usub64 (LRU_old_len r) 1\<rparr>)"
    using split os False by (auto simp: old_split_def r_def remove1_append)
  then show ?thesis using \<open>pg_old (bblocks r b)\<close> by auto
qed

lemma remove_block_inv:
  assumes inv: "lru_inv srv pool" and b: "b \<in> set (lru_list pool)"
  shows "\<exists>pool'. buf_LRU_remove_block srv b pool = Some pool' \<and> lru_inv srv pool' \<and> lru_frame pool' = lru_frame pool \<and>
    lru_list pool' = remove1 b (lru_list pool)"
proof -
  have base: "lru_base srv pool" using inv by (simp add: lru_inv_def)
  have mapped: "buf_page_in_file (pg_state (bblocks pool b)) = Some True" using base b by (simp add: lru_base_def)
  obtain q where q: "old_step_back b pool = Some q" "same_list q pool"
    "BUF_LRU_OLD_MIN_LEN \<le> length (lru_list pool) \<Longrightarrow> \<exists>ys os. old_split ys os q \<and> hd os \<noteq> b"
  proof (cases "BUF_LRU_OLD_MIN_LEN \<le> length (lru_list pool)")
    case True
    then show ?thesis using old_step_back_split [OF inv True, of b] that by blast
  next
    case False
    then have "old_step_back b pool = Some pool" using inv by (simp add: lru_inv_def old_step_back_def)
    then show ?thesis using that [of pool] False by (simp add: same_list_def)
  qed
  define r where "r = q\<lparr>lru_list := remove1 b (lru_list q), LRU_bytes := LRU_bytes q - of_nat (UNIV_PAGE_SIZE srv)\<rparr>"
  have bq: "lru_base srv q" "b \<in> set (lru_list q)" "lru_list q = lru_list pool"
    using q(2) base b lru_base_same [OF q(2)] by (simp_all add: same_list_def)
  have br: "lru_base srv r"
  proof -
    have "LRU_bytes r = of_nat (length (lru_list r)) * of_nat (UNIV_PAGE_SIZE srv)"
      using bq(1) of_nat_length_remove1 [OF bq(2), where 'a = 64] by (simp add: r_def lru_base_def left_diff_distrib)
    then show ?thesis using bq set_remove1_subset [of b "lru_list q"]
      unfolding r_def lru_base_def by (auto simp: length_remove1)
  qed
  have run: "buf_LRU_remove_block srv b pool = (if length (lru_list r) < BUF_LRU_OLD_MIN_LEN
      then Some ((set_all_old False r)\<lparr>LRU_old := None, LRU_old_len := 0\<rparr>)
      else buf_LRU_old_adjust_len (if pg_old (bblocks r b) then r\<lparr>LRU_old_len := usub64 (LRU_old_len r) 1\<rparr> else r))"
    using mapped q(1) by (simp add: buf_LRU_remove_block_def r_def Let_def)
  have frame: "lru_frame r = lru_frame pool" "lru_list r = remove1 b (lru_list pool)"
    using q(2) by (simp_all add: r_def same_list_def)
  show ?thesis
  proof (cases "length (lru_list r) < BUF_LRU_OLD_MIN_LEN")
    case True
    then show ?thesis using run br frame by (auto simp: lru_inv_def lru_base_def)
  next
    case False
    define t where "t = (if pg_old (bblocks r b) then r\<lparr>LRU_old_len := usub64 (LRU_old_len r) 1\<rparr> else r)"
    have "BUF_LRU_OLD_MIN_LEN \<le> length (lru_list pool)" using False frame(2) by (simp add: length_remove1 split: if_splits)
    then obtain ys os where "old_split ys os q" "hd os \<noteq> b" using q(3) by blast
    then obtain ys' os' where split: "old_split ys' os' t"
      using removed_split [OF bq(1) _ bq(2), of ys os "LRU_bytes q - of_nat (UNIV_PAGE_SIZE srv)"] unfolding t_def r_def by blast
    have t: "lru_base srv t" "BUF_LRU_OLD_MIN_LEN \<le> length (lru_list t)" "lru_frame t = lru_frame r" "lru_list t = lru_list r"
      using br False by (simp_all add: t_def lru_base_def)
    obtain u where "buf_LRU_old_adjust_len t = Some u" "lru_inv srv u" "same_list u t"
      using adjust_len_inv [OF t(1) split t(2)] by blast
    moreover have "buf_LRU_remove_block srv b pool = buf_LRU_old_adjust_len t" using run False unfolding t_def by (simp only: if_False)
    ultimately show ?thesis using t(3,4) frame by (auto simp: same_list_def)
  qed
qed

section \<open>Insertion\<close>

lemma old_init_inv:
  assumes base: "lru_base srv pool" and len: "length (lru_list pool) = BUF_LRU_OLD_MIN_LEN"
  shows "\<exists>pool'. buf_LRU_old_init pool = Some pool' \<and> lru_inv srv pool' \<and> same_list pool' pool"
proof -
  obtain b l where l: "lru_list pool = b # l" using len by (cases "lru_list pool") (auto simp: BUF_LRU_OLD_MIN_LEN_def)
  define q where "q = (set_all_old True pool)\<lparr>LRU_old := Some b, LRU_old_len := length (lru_list pool)\<rparr>"
  have q: "same_list q pool" by (simp add: q_def same_list_def)
  have "old_split [] (b # l) q" by (simp add: old_split_def q_def l)
  then obtain r where "buf_LRU_old_adjust_len q = Some r" "lru_inv srv r" "same_list r q"
    using adjust_len_inv [of srv q "[]" "b # l"] lru_base_same [OF q] base len q by (auto simp: same_list_def)
  then show ?thesis using same_list_trans [OF _ q] len l by (auto simp: buf_LRU_old_init_def q_def)
qed

text \<open>The end of an insertion, for a list that has grown by one page.\<close>

lemma lru_inserted_inv:
  assumes base: "lru_base srv pool" and b: "b \<in> set (lru_list pool)"
    and short: "length (lru_list pool) < BUF_LRU_OLD_MIN_LEN \<Longrightarrow>
      LRU_old pool = None \<and> LRU_old_len pool = 0 \<and> (\<forall>a \<in> set (lru_list pool) - {b}. \<not> pg_old (bblocks pool a))"
    and long: "BUF_LRU_OLD_MIN_LEN < length (lru_list pool) \<Longrightarrow>
      \<exists>ys os. old_split ys os (upd_block b (\<lambda>k. k\<lparr>pg_old := v\<rparr>) pool)"
  shows "\<exists>pool'. lru_inserted b v pool = Some pool' \<and> lru_inv srv pool' \<and> same_list pool' pool"
proof -
  have mapped: "buf_page_in_file (pg_state (bblocks pool b)) = Some True" using base b by (simp add: lru_base_def)
  have same: "same_list (upd_block b (\<lambda>k. k\<lparr>pg_old := x\<rparr>) pool) pool" for x by (simp add: same_list_def)
  consider "length (lru_list pool) < BUF_LRU_OLD_MIN_LEN" | "length (lru_list pool) = BUF_LRU_OLD_MIN_LEN"
    | "BUF_LRU_OLD_MIN_LEN < length (lru_list pool)" by linarith
  then show ?thesis
  proof cases
    case 1
    let ?q = "upd_block b (\<lambda>k. k\<lparr>pg_old := False\<rparr>) pool"
    have "lru_inserted b v pool = Some ?q" using 1 short mapped by (simp add: lru_inserted_def buf_page_set_old_def)
    moreover have "lru_inv srv ?q" using 1 short base lru_base_same [OF same [of False]] by (auto simp: lru_inv_def)
    ultimately show ?thesis using same by blast
  next
    case 2
    then show ?thesis using old_init_inv [OF base 2] by (simp add: lru_inserted_def)
  next
    case 3
    let ?q = "upd_block b (\<lambda>k. k\<lparr>pg_old := v\<rparr>) pool"
    obtain ys os where split: "old_split ys os ?q" using long 3 by blast
    have "lru_base srv ?q" using base lru_base_same [OF same] by blast
    then obtain r where "buf_LRU_old_adjust_len ?q = Some r" "lru_inv srv r" "same_list r ?q"
      using adjust_len_inv [OF _ split] 3 by auto
    then show ?thesis using 3 mapped same_list_trans [OF _ same] by (auto simp: lru_inserted_def buf_page_set_old_def)
  qed
qed

lemma lru_base_insert:
  assumes "lru_base srv pool" and "b \<notin> set (lru_list pool)" and "buf_page_in_file (pg_state (bblocks pool b)) = Some True"
    and "length (lru_list pool) + 1 < 2 ^ 63" and "set l = insert b (set (lru_list pool))"
    and "length l = length (lru_list pool) + 1"
    and "lru_frame q = lru_frame pool" and "lru_list q = l" and "LRU_bytes q = LRU_bytes pool + of_nat (UNIV_PAGE_SIZE srv)"
  shows "lru_base srv q"
proof -
  have "card (set l) = length l" using assms(1,2,5,6) by (simp add: lru_base_def distinct_card)
  then have "distinct l" by (rule card_distinct)
  then show ?thesis
    using assms lru_frame_state [OF assms(7)] by (auto simp: lru_base_def algebra_simps)
qed

definition add_spec :: "nat \<Rightarrow> bool \<Rightarrow> buf_pool_t \<Rightarrow> nat list" where
  "add_spec b v pool =
     (if \<not> v \<or> length (lru_list pool) < BUF_LRU_OLD_MIN_LEN then b # lru_list pool
      else insert_after (the (LRU_old pool)) b (lru_list pool))"

definition can_add :: "nat \<Rightarrow> buf_pool_t \<Rightarrow> bool" where
  "can_add b pool \<longleftrightarrow> b \<notin> set (lru_list pool) \<and> buf_page_in_file (pg_state (bblocks pool b)) = Some True \<and>
     length (lru_list pool) + 1 < 2 ^ 63"

lemma add_block_inv:
  assumes inv: "lru_inv srv pool" and b: "can_add b pool"
  shows "\<exists>pool'. buf_LRU_add_block_low srv b v pool = Some pool' \<and> lru_inv srv pool' \<and>
    lru_frame pool' = lru_frame pool \<and> lru_list pool' = add_spec b v pool"
proof (cases "\<not> v \<or> length (lru_list pool) < BUF_LRU_OLD_MIN_LEN")
  case True
  define q where "q = upd_block b (\<lambda>k. k\<lparr>pg_freed_page_clock := pool_freed_page_clock pool mod 2 ^ 31\<rparr>)
    (pool\<lparr>lru_list := b # lru_list pool\<rparr>)\<lparr>LRU_bytes := LRU_bytes pool + of_nat (UNIV_PAGE_SIZE srv)\<rparr>"
  have run: "buf_LRU_add_block_low srv b v pool = lru_inserted b v q"
    using True b by (simp add: buf_LRU_add_block_low_def q_def can_add_def upd_block_def)
  have "lru_base srv q"
    by (rule lru_base_insert [of srv pool b]) (use inv b in \<open>simp_all add: q_def lru_inv_def can_add_def\<close>)
  moreover have "\<exists>ys os. old_split ys os (upd_block b (\<lambda>k. k\<lparr>pg_old := v\<rparr>) q)" if "BUF_LRU_OLD_MIN_LEN < length (lru_list q)"
  proof -
    from that have len: "\<not> length (lru_list pool) < BUF_LRU_OLD_MIN_LEN" by (simp add: q_def)
    then obtain ys os where "old_split ys os pool" using inv by (auto simp: lru_inv_def)
    then have "old_split (b # ys) os (upd_block b (\<lambda>k. k\<lparr>pg_old := v\<rparr>) q)"
      using True len b by (auto simp: old_split_def q_def can_add_def)
    then show ?thesis by blast
  qed
  ultimately obtain r where "lru_inserted b v q = Some r" "lru_inv srv r" "same_list r q"
    using lru_inserted_inv [of srv q b v] inv by (auto simp: q_def lru_inv_def)
  then show ?thesis using run True by (auto simp: same_list_def q_def add_spec_def)
next
  case False
  then have len: "\<not> length (lru_list pool) < BUF_LRU_OLD_MIN_LEN" by simp
  then obtain ys os where split: "old_split ys os pool" using inv by (auto simp: lru_inv_def)
  then obtain h t where os: "os = h # t" by (cases os) (auto simp: old_split_def)
  then have l: "lru_list pool = ys @ h # t" "LRU_old pool = Some h" using split by (auto simp: old_split_def)
  have h: "h \<notin> set ys" using inv l by (auto simp: lru_inv_def lru_base_def)
  define q where "q = pool\<lparr>lru_list := ys @ h # b # t, LRU_old_len := LRU_old_len pool + 1,
    LRU_bytes := LRU_bytes pool + of_nat (UNIV_PAGE_SIZE srv)\<rparr>"
  have run: "buf_LRU_add_block_low srv b v pool = lru_inserted b v q"
    using False b l h by (simp add: buf_LRU_add_block_low_def q_def can_add_def insert_after_append)
  have "lru_base srv q"
    by (rule lru_base_insert [of srv pool b]) (use inv b l in \<open>auto simp: q_def lru_inv_def can_add_def\<close>)
  moreover have "old_split ys (h # b # t) (upd_block b (\<lambda>k. k\<lparr>pg_old := v\<rparr>) q)"
    using False split os b l by (auto simp: old_split_def q_def can_add_def)
  ultimately obtain r where "lru_inserted b v q = Some r" "lru_inv srv r" "same_list r q"
    using lru_inserted_inv [of srv q b v] len l by (auto simp: q_def)
  then show ?thesis using run False l h by (auto simp: same_list_def q_def add_spec_def insert_after_append)
qed

lemma add_to_end_inv:
  assumes inv: "lru_inv srv pool" and b: "can_add b pool"
  shows "\<exists>pool'. buf_LRU_add_block_to_end_low srv b pool = Some pool' \<and> lru_inv srv pool' \<and>
    lru_frame pool' = lru_frame pool \<and> lru_list pool' = lru_list pool @ [b]"
proof -
  define q where "q = pool\<lparr>lru_list := lru_list pool @ [b],
    LRU_old_len := LRU_old_len pool + (if BUF_LRU_OLD_MIN_LEN \<le> length (lru_list pool) then 1 else 0),
    LRU_bytes := LRU_bytes pool + of_nat (UNIV_PAGE_SIZE srv)\<rparr>"
  have mapped: "buf_page_in_file (pg_state (bblocks pool b)) = Some True" using b by (simp add: can_add_def)
  have run: "buf_LRU_add_block_to_end_low srv b pool = lru_inserted b True q"
    using mapped unfolding buf_LRU_add_block_to_end_low_def lru_inserted_def q_def
    by (cases pool) (auto simp: Let_def buf_page_set_old_def upd_block_def)
  have "lru_base srv q"
    by (rule lru_base_insert [of srv pool b]) (use inv b in \<open>auto simp: q_def lru_inv_def can_add_def\<close>)
  moreover have "\<exists>ys os. old_split ys os (upd_block b (\<lambda>k. k\<lparr>pg_old := True\<rparr>) q)" if "BUF_LRU_OLD_MIN_LEN < length (lru_list q)"
  proof -
    from that have len: "\<not> length (lru_list pool) < BUF_LRU_OLD_MIN_LEN" by (simp add: q_def)
    then obtain ys os where "old_split ys os pool" using inv by (auto simp: lru_inv_def)
    then have "old_split ys (os @ [b]) (upd_block b (\<lambda>k. k\<lparr>pg_old := True\<rparr>) q)"
      using len b by (auto simp: old_split_def q_def can_add_def)
    then show ?thesis by blast
  qed
  ultimately obtain r where "lru_inserted b True q = Some r" "lru_inv srv r" "same_list r q"
    using lru_inserted_inv [of srv q b True] inv by (auto simp: q_def lru_inv_def)
  then show ?thesis using run by (auto simp: same_list_def q_def)
qed

section \<open>The contract of the list operations\<close>

text \<open>
  An operation on the list: when it is ready to run, it returns, keeps the invariant, changes nothing but the list and
  its marks, and gives the list a known value.
\<close>

locale lru_operation =
  fixes srv :: srv_settings and run :: "buf_pool_t \<Rightarrow> buf_pool_t option" and ready :: "buf_pool_t \<Rightarrow> bool"
    and result :: "buf_pool_t \<Rightarrow> nat list"
  assumes runs: "lru_inv srv pool \<Longrightarrow> ready pool \<Longrightarrow>
    \<exists>pool'. run pool = Some pool' \<and> lru_inv srv pool' \<and> lru_frame pool' = lru_frame pool \<and> lru_list pool' = result pool"
begin

lemma kept:
  assumes "lru_inv srv pool" and "ready pool" and "run pool = Some pool'"
  shows "lru_inv srv pool'" and "lru_frame pool' = lru_frame pool" and "lru_list pool' = result pool"
  using runs [OF assms(1,2)] assms(3) by auto

end

text \<open>Taking a block out and putting it back somewhere else is such an operation, too.\<close>

locale lru_move = take: lru_operation srv take_out ready taken + put: lru_operation srv put_in can_put put_result
  for srv and take_out put_in :: "buf_pool_t \<Rightarrow> buf_pool_t option" and ready can_put :: "buf_pool_t \<Rightarrow> bool"
    and taken put_result :: "buf_pool_t \<Rightarrow> nat list" +
  fixes placed :: "nat list \<Rightarrow> nat list"
  assumes can_put_back: "lru_inv srv pool \<Longrightarrow> ready pool \<Longrightarrow> lru_frame pool' = lru_frame pool \<Longrightarrow>
      lru_list pool' = taken pool \<Longrightarrow> can_put pool'"
    and put_placed: "put_result pool = placed (lru_list pool)"

sublocale lru_move \<subseteq> lru_operation srv "\<lambda>pool. do { pool \<leftarrow> take_out pool; put_in pool }" ready "\<lambda>pool. placed (taken pool)"
proof
  fix pool
  assume pool: "lru_inv srv pool" "ready pool"
  then obtain q where q: "take_out pool = Some q" "lru_inv srv q" "lru_frame q = lru_frame pool" "lru_list q = taken pool"
    using take.runs by blast
  then obtain r where "put_in q = Some r" "lru_inv srv r" "lru_frame r = lru_frame q" "lru_list r = put_result q"
    using put.runs can_put_back [OF pool q(3,4)] by blast
  then show "\<exists>pool'. do { pool \<leftarrow> take_out pool; put_in pool } = Some pool' \<and> lru_inv srv pool' \<and>
      lru_frame pool' = lru_frame pool \<and> lru_list pool' = placed (taken pool)"
    using q put_placed by auto
qed

interpretation lru_remove: lru_operation srv "buf_LRU_remove_block srv b" "\<lambda>pool. b \<in> set (lru_list pool)"
  "\<lambda>pool. remove1 b (lru_list pool)" for srv b
  by unfold_locales (rule remove_block_inv)

interpretation lru_add: lru_operation srv "buf_LRU_add_block_low srv b v" "can_add b" "add_spec b v" for srv b v
  by unfold_locales (rule add_block_inv)

interpretation lru_add_end: lru_operation srv "buf_LRU_add_block_to_end_low srv b" "can_add b" "\<lambda>pool. lru_list pool @ [b]" for srv b
  by unfold_locales (rule add_to_end_inv)

lemma can_add_removed:
  assumes "lru_inv srv pool" and "b \<in> set (lru_list pool)" and "lru_frame pool' = lru_frame pool"
    and "lru_list pool' = remove1 b (lru_list pool)"
  shows "can_add b pool'"
proof -
  have "0 < length (lru_list pool)" using assms(2) by (rule length_pos_if_in_set)
  then show ?thesis
    using assms lru_frame_state(1) [OF assms(3), of b]
    by (auto simp: can_add_def lru_inv_def lru_base_def set_remove1_distinct length_remove1)
qed

interpretation lru_old: lru_move srv "buf_LRU_remove_block srv b" "buf_LRU_add_block_to_end_low srv b"
  "\<lambda>pool. b \<in> set (lru_list pool)" "can_add b" "\<lambda>pool. remove1 b (lru_list pool)" "\<lambda>pool. lru_list pool @ [b]" "\<lambda>l. l @ [b]" for srv b
  by unfold_locales (auto intro: can_add_removed)

interpretation lru_young: lru_move srv "buf_LRU_remove_block srv b" "buf_LRU_add_block_low srv b False"
  "\<lambda>pool. b \<in> set (lru_list pool)" "can_add b" "\<lambda>pool. remove1 b (lru_list pool)" "add_spec b False" "\<lambda>l. b # l" for srv b
  by unfold_locales (auto intro: can_add_removed simp: add_spec_def)

lemma made_young_counted:
  "lru_inv srv (pool\<lparr>n_pages_made_young := n\<rparr>) = lru_inv srv pool"
  by (simp add: lru_inv_def lru_base_def old_split_def old_new_len_def)

lemma make_young_runs:
  assumes "lru_inv srv pool" and "b \<in> set (lru_list pool)"
  shows "\<exists>pool'. buf_LRU_make_block_young srv b pool = Some pool' \<and> lru_inv srv pool' \<and>
    lru_frame pool' = lru_frame pool \<and> lru_list pool' = b # remove1 b (lru_list pool)"
  using assms lru_young.runs [of srv pool b]
    lru_young.runs [of srv "pool\<lparr>n_pages_made_young := n_pages_made_young pool + 1\<rparr>" b]
  by (simp add: buf_LRU_make_block_young_def made_young_counted)

lemma make_old_runs:
  assumes "lru_inv srv pool" and "b \<in> set (lru_list pool)"
  shows "\<exists>pool'. buf_LRU_make_block_old srv b pool = Some pool' \<and> lru_inv srv pool' \<and>
    lru_frame pool' = lru_frame pool \<and> lru_list pool' = remove1 b (lru_list pool) @ [b]"
  using assms lru_old.runs [of srv pool b] by (simp add: buf_LRU_make_block_old_def)

lemma old_ratio_update_runs:
  assumes inv: "lru_inv srv pool"
  shows "\<exists>pct pool'. buf_LRU_old_ratio_update_instance old_pct True pool = Some (pct, pool') \<and> lru_inv srv pool' \<and>
    lru_list pool' = lru_list pool"
proof -
  define ratio where "ratio = max BUF_LRU_OLD_RATIO_MIN (min BUF_LRU_OLD_RATIO_MAX (u32 (old_pct * BUF_LRU_OLD_RATIO_DIV) div 100))"
  define q where "q = pool\<lparr>LRU_old_ratio := ratio\<rparr>"
  have base: "lru_base srv q"
    using inv by (simp add: lru_inv_def lru_base_def q_def ratio_def BUF_LRU_OLD_RATIO_MIN_def BUF_LRU_OLD_RATIO_MAX_def
        BUF_LRU_OLD_RATIO_DIV_def)
  have "\<exists>r. (if BUF_LRU_OLD_MIN_LEN \<le> length (lru_list q) then buf_LRU_old_adjust_len q else Some q) = Some r \<and>
    lru_inv srv r \<and> lru_list r = lru_list pool"
  proof (cases "BUF_LRU_OLD_MIN_LEN \<le> length (lru_list q)")
    case True
    then obtain ys os where "old_split ys os pool" using inv by (auto simp: lru_inv_def q_def)
    then have "old_split ys os q" by (simp add: old_split_def q_def)
    then show ?thesis using adjust_len_inv [OF base _ True] True by (auto simp: same_list_def q_def)
  next
    case False
    then show ?thesis using base inv by (auto simp: lru_inv_def q_def)
  qed
  then show ?thesis
    using inv unfolding buf_LRU_old_ratio_update_instance_def Let_def ratio_def [symmetric] q_def [symmetric]
    by (cases "ratio = LRU_old_ratio pool") auto
qed

section \<open>Sequences of changes\<close>

datatype lru_op = Put_In nat bool | Take_Out nat | Make_Young nat | Make_Old nat | Set_Share nat

fun lru_step :: "srv_settings \<Rightarrow> lru_op \<Rightarrow> buf_pool_t \<Rightarrow> buf_pool_t option" where
  "lru_step srv (Put_In b v) pool = buf_LRU_add_block_low srv b v pool"
| "lru_step srv (Take_Out b) pool = buf_LRU_remove_block srv b pool"
| "lru_step srv (Make_Young b) pool = buf_LRU_make_block_young srv b pool"
| "lru_step srv (Make_Old b) pool = buf_LRU_make_block_old srv b pool"
| "lru_step srv (Set_Share pct) pool = map_option snd (buf_LRU_old_ratio_update_instance pct True pool)"

text \<open>A block is put in only when it is not in the list and holds a page, and only a block of the list is moved.\<close>

fun lru_ready :: "lru_op \<Rightarrow> buf_pool_t \<Rightarrow> bool" where
  "lru_ready (Put_In b v) pool = can_add b pool"
| "lru_ready (Take_Out b) pool = (b \<in> set (lru_list pool))"
| "lru_ready (Make_Young b) pool = (b \<in> set (lru_list pool))"
| "lru_ready (Make_Old b) pool = (b \<in> set (lru_list pool))"
| "lru_ready (Set_Share pct) pool = True"

fun lru_result :: "lru_op \<Rightarrow> buf_pool_t \<Rightarrow> nat list" where
  "lru_result (Put_In b v) pool = add_spec b v pool"
| "lru_result (Take_Out b) pool = remove1 b (lru_list pool)"
| "lru_result (Make_Young b) pool = b # remove1 b (lru_list pool)"
| "lru_result (Make_Old b) pool = remove1 b (lru_list pool) @ [b]"
| "lru_result (Set_Share pct) pool = lru_list pool"

lemma lru_step_runs:
  assumes inv: "lru_inv srv pool" and ready: "lru_ready op pool"
  shows "\<exists>pool'. lru_step srv op pool = Some pool' \<and> lru_inv srv pool' \<and> lru_list pool' = lru_result op pool"
proof (cases op)
  case (Put_In b v)
  then show ?thesis using lru_add.runs [OF inv, of b v] ready by auto
next
  case (Take_Out b)
  then show ?thesis using lru_remove.runs [OF inv, of b] ready by auto
next
  case (Make_Young b)
  then show ?thesis using make_young_runs [OF inv, of b] ready by auto
next
  case (Make_Old b)
  then show ?thesis using make_old_runs [OF inv, of b] ready by auto
next
  case (Set_Share pct)
  then show ?thesis using old_ratio_update_runs [OF inv, of pct] by fastforce
qed

text \<open>
  C11. The list of pages in the order of their use. Whatever page is put in, taken out, made young or old, or whatever share is set
  for the old pages: the operation returns, so the loop that moves \<^verbatim>\<open>LRU_old\<close> ends, and no assertion in it
  fails; the list is the one that the operation is meant to give; and, in a list of at least 512 pages, \<^verbatim>\<open>LRU_old\<close> is
  the first page with the mark of an old one, all pages from it on have the mark and none before it, their
  number is \<^verbatim>\<open>LRU_old_len\<close>, and it is within the tolerance of the share. In a shorter list there are no marks.
\<close>

theorem LRU_old_kept:
  assumes "lru_inv srv pool" and "lru_ready op pool"
  shows "\<exists>pool'. lru_step srv op pool = Some pool' \<and> lru_list pool' = lru_result op pool \<and> lru_inv srv pool' \<and>
    (\<exists>ys os. lru_list pool' = ys @ os \<and> length os = LRU_old_len pool' \<and>
       LRU_old pool' = (if os = [] then None else Some (hd os)) \<and> (os = [] \<longleftrightarrow> length (lru_list pool') < 512) \<and>
       {b \<in> set (lru_list pool'). pg_old (bblocks pool' b)} = set os \<and>
       (os \<noteq> [] \<longrightarrow> length os \<le> old_new_len pool' + 20 \<and> old_new_len pool' \<le> length os + 20))"
proof -
  obtain q where q: "lru_step srv op pool = Some q" "lru_inv srv q" "lru_list q = lru_result op pool"
    using lru_step_runs [OF assms] by blast
  have "\<exists>ys os. lru_list q = ys @ os \<and> length os = LRU_old_len q \<and>
       LRU_old q = (if os = [] then None else Some (hd os)) \<and> (os = [] \<longleftrightarrow> length (lru_list q) < 512) \<and>
       {b \<in> set (lru_list q). pg_old (bblocks q b)} = set os \<and>
       (os \<noteq> [] \<longrightarrow> length os \<le> old_new_len q + 20 \<and> old_new_len q \<le> length os + 20)"
  proof (cases "length (lru_list q) < BUF_LRU_OLD_MIN_LEN")
    case True
    then show ?thesis using q(2)
      by (intro exI [of _ "lru_list q"] exI [of _ "[]"]) (auto simp: lru_inv_def BUF_LRU_OLD_MIN_LEN_def)
  next
    case False
    then obtain ys os where split: "old_split ys os q" "near (LRU_old_len q) (old_new_len q)"
      using q(2) by (auto simp: lru_inv_def)
    then show ?thesis using False
      by (intro exI [of _ ys] exI [of _ os])
        (auto simp: old_split_def near_def BUF_LRU_OLD_TOLERANCE_def BUF_LRU_OLD_MIN_LEN_def)
  qed
  then show ?thesis using q by blast
qed

text \<open>A pool in which 600 pages are in use, 221 of them old.\<close>

definition page_block :: "nat \<Rightarrow> buf_block_t" where
  "page_block b = \<lparr>pg_state = BUF_BLOCK_FILE_PAGE, pg_space = 10, pg_offset = b, buf_fix_count = 0, io_fix = BUF_IO_NONE,
     flush_type = BUF_FLUSH_LRU, newest_modification = 0, oldest_modification = 0, pg_old = False, pg_freed_page_clock = 0,
     access_time = 0, target_rw_cmd = False, frame = of_nat (b * 4096), use_rw_cmd = False, lock_word = 0x100000,
     lock_hash_val = 0, check_index_page_at_flush = False, modify_clock = 0, n_hash_helps = 0, n_fields = 1, n_bytes = 0,
     left_side = True, ahi_index = False\<rparr>"

definition empty_pool :: buf_pool_t where
  "empty_pool = \<lparr>bblocks = page_block, curr_size = 600, page_hash = (\<lambda>a. None), free_list = [], lru_list = [],
     flush_list = [], flush_list_hp = None, LRU_old = None, LRU_old_len = 0, LRU_old_ratio = 378, LRU_bytes = 0,
     flush_list_bytes = 0, n_flush = (\<lambda>t. 0), init_flush = (\<lambda>t. False), pool_freed_page_clock = 0, try_LRU_scan = False,
     n_pend_reads = 0, n_pages_read = 0, n_pages_written = 0, n_pages_made_young = 0, n_ra_pages_evicted = 0\<rparr>"

definition full_pool :: buf_pool_t where
  "full_pool = empty_pool\<lparr>bblocks := \<lambda>b. (page_block b)\<lparr>pg_old := 379 \<le> b\<rparr>, lru_list := [0..<600], LRU_old := Some 379,
     LRU_old_len := 221, LRU_bytes := of_nat 600 * of_nat (UNIV_PAGE_SIZE small_srv)\<rparr>"

lemma full_pool_inv: "lru_inv small_srv full_pool"
proof (rule lru_inv_longI)
  have l: "[0..<600] = [0..<379] @ [379..<600]" using upt_add_eq_append [of 0 379 221] by simp
  show "old_split [0..<379] [379..<600] full_pool"
    unfolding old_split_def by (auto simp: full_pool_def l simp del: upt_rec_numeral)
  show "lru_base small_srv full_pool"
    by (auto simp: lru_base_def full_pool_def empty_pool_def page_block_def BUF_LRU_OLD_RATIO_MIN_def BUF_LRU_OLD_RATIO_MAX_def
        BUF_LRU_OLD_RATIO_DIV_def simp del: upt_rec_numeral)
  show "near (length [379..<600]) (old_new_len full_pool)"
    by (simp add: near_def old_new_len_def full_pool_def empty_pool_def usub64_def BUF_LRU_OLD_TOLERANCE_def
        BUF_LRU_NON_OLD_MIN_LEN_def BUF_LRU_OLD_RATIO_DIV_def del: upt_rec_numeral)
  show "BUF_LRU_OLD_MIN_LEN \<le> length (lru_list full_pool)"
    by (simp add: full_pool_def BUF_LRU_OLD_MIN_LEN_def del: upt_rec_numeral)
qed

theorem LRU_old_kept_witness:
  "\<exists>pool'. lru_step small_srv (Make_Young 599) full_pool = Some pool' \<and> length (lru_list pool') = 600 \<and>
    hd (lru_list pool') = 599 \<and> LRU_old pool' \<noteq> None \<and> lru_inv small_srv pool'"
proof -
  have "599 \<in> set (lru_list full_pool)" "length (remove1 599 (lru_list full_pool)) = 599"
    by (simp_all add: full_pool_def length_remove1 del: upt_rec_numeral)
  then show ?thesis using LRU_old_kept [OF full_pool_inv, of "Make_Young 599"] by fastforce
qed

end
