(* ===== verification/Buf_Io.thy ===== *)
theory Buf_Io
  imports Buf_Lru
begin

text \<open>
  The state of the server on the path of a page read, the bytes of a page, the end of an i/o (\<^verbatim>\<open>buf_page_io_complete\<close>
  in \<^verbatim>\<open>buf/buf0buf.cc\<close>) and the freeing of clean pages (\<^verbatim>\<open>buf/buf0lru.cc\<close>).

  The functions are those of one thread. At each point at which it has released the mutex of the pool, the other
  threads may change the state in any way: \<open>elsewhere\<close> is that change. The parts of the server that the
  path only calls are parameters, too. No tablespace is compressed, and recovery is over, so there is no
  \<^verbatim>\<open>flush_rbt\<close>. Statistics of the monitors and messages are left out.
\<close>

section \<open>The state\<close>

text \<open>The memory of the server and the device, as the driver of the device sees them.\<close>

record 'd host =
  ram :: "64 word \<Rightarrow> 8 word"
  dev :: 'd

record 'd srv_state =
  bp :: buf_pool_t
  fs :: fil_system_t
  ios :: os_io_stats
  hm :: "'d host"
  dblwr_arr :: "nat \<Rightarrow> nat option"
  dblwr_in_use :: "nat \<Rightarrow> bool"
  s_reserved :: "64 word"
  b_reserved :: "64 word"
  dblwr_first_free :: nat
  batch_running :: bool
  lru_stat_io :: nat
  n_free_block :: nat
  n_bg_wait :: nat
  n_clean_block :: nat
  n_no_block :: nat
  n_rwcmd :: nat
  n_spf :: nat
  n_ckpt_batch :: nat
  n_lru_batch :: nat
  n_total_reads :: nat
  moment :: nat

datatype srv_checksum_algorithm_t = SRV_CHECKSUM_ALGORITHM_CRC32 | SRV_CHECKSUM_ALGORITHM_STRICT_CRC32 |
  SRV_CHECKSUM_ALGORITHM_INNODB | SRV_CHECKSUM_ALGORITHM_STRICT_INNODB | SRV_CHECKSUM_ALGORITHM_NONE |
  SRV_CHECKSUM_ALGORITHM_STRICT_NONE

text \<open>
  The settings, the operating system and the device (\<open>blksize\<close>, \<open>fibmap\<close>, \<open>send\<close>, as in \<open>Fil_Io\<close>), the other
  threads, and the functions of the server that are called on the path: an ordinary read of a page (\<^verbatim>\<open>fil_io\<close>), the
  force of the log, the checksums and the checks of a page, the insert buffer, deleted tablespaces, ordinary writes
  and flushes of files, and the batches of the doublewrite buffer, whose pages on disk start at the two blocks.
\<close>

record 'd buf_env =
  settings :: srv_settings
  files :: os_files
  fil_others :: "nat \<Rightarrow> fil_system_t \<Rightarrow> fil_system_t"
  fil_during :: "fil_system_t \<Rightarrow> fil_system_t"
  fil_flush_file_spaces :: "fil_system_t \<Rightarrow> fil_system_t"
  file_blksize :: "nat \<Rightarrow> 64 word"
  file_fibmap :: "nat \<Rightarrow> 64 word \<Rightarrow> 64 word option"
  nvme_send :: "nvme_passthru_cmd \<Rightarrow> 'd host \<Rightarrow> 'd host option"
  other_threads :: "nat \<Rightarrow> 'd srv_state \<Rightarrow> 'd srv_state"
  fil_io_read :: "nat \<Rightarrow> nat \<Rightarrow> nat \<Rightarrow> bool \<Rightarrow> 64 word \<Rightarrow> 'd srv_state \<Rightarrow> (dberr_t \<times> 'd srv_state) option"
  log_write_up_to :: "nat \<Rightarrow> 'd srv_state \<Rightarrow> 'd srv_state"
  srv_checksum_algorithm :: srv_checksum_algorithm_t
  buf_calc_page_crc32 :: "(nat \<Rightarrow> 8 word) \<Rightarrow> 32 word"
  buf_calc_page_new_checksum :: "(nat \<Rightarrow> 8 word) \<Rightarrow> 32 word"
  buf_calc_page_old_checksum :: "(nat \<Rightarrow> 8 word) \<Rightarrow> 32 word"
  buf_page_is_corrupted :: "(nat \<Rightarrow> 8 word) \<Rightarrow> bool"
  ignore_corrupt :: bool
  dict_set_corrupted_by_space :: "nat \<Rightarrow> bool"
  recv_no_ibuf_operations :: bool
  ibuf_merge_or_delete_for_page :: "nat \<Rightarrow> 'd srv_state \<Rightarrow> 'd srv_state"
  ibuf_page :: "nat \<Rightarrow> nat \<Rightarrow> bool"
  buf_dblwr_page_inside :: "nat \<Rightarrow> bool"
  use_doublewrite_buf :: bool
  srv_doublewrite_batch_size :: nat
  srv_LRU_scan_depth :: nat
  lock_rec_hash :: "nat \<Rightarrow> nat \<Rightarrow> nat"
  tablespace_deleted :: "nat \<Rightarrow> int \<Rightarrow> 'd srv_state \<Rightarrow> bool"
  fil_io_write :: "nat \<Rightarrow> bool \<Rightarrow> nat \<Rightarrow> nat \<Rightarrow> 64 word \<Rightarrow> 'd srv_state \<Rightarrow> 'd srv_state"
  fil_flush :: "nat \<Rightarrow> 'd srv_state \<Rightarrow> 'd srv_state"
  page_is_comp :: "(nat \<Rightarrow> 8 word) \<Rightarrow> bool"
  page_simple_validate_new :: "(nat \<Rightarrow> 8 word) \<Rightarrow> bool"
  page_simple_validate_old :: "(nat \<Rightarrow> 8 word) \<Rightarrow> bool"
  dblwr_block1 :: nat
  dblwr_block2 :: nat
  buf_dblwr_add_to_batch :: "nat \<Rightarrow> 'd srv_state \<Rightarrow> 'd srv_state"
  buf_dblwr_flush_buffered_writes :: "'d srv_state \<Rightarrow> 'd srv_state"
  buf_flush_wait_batch_end :: "'d srv_state \<Rightarrow> 'd srv_state"

definition elsewhere :: "'d buf_env \<Rightarrow> 'd srv_state \<Rightarrow> 'd srv_state" where
  "elsewhere env s = (other_threads env (moment s) s)\<lparr>moment := moment s + 1\<rparr>"

definition blk :: "'d srv_state \<Rightarrow> nat \<Rightarrow> buf_block_t" where
  "blk s b = bblocks (bp s) b"

definition set_blk :: "nat \<Rightarrow> (buf_block_t \<Rightarrow> buf_block_t) \<Rightarrow> 'd srv_state \<Rightarrow> 'd srv_state" where
  "set_blk b f s = s\<lparr>bp := upd_block b f (bp s)\<rparr>"

definition in_pool :: "(buf_pool_t \<Rightarrow> buf_pool_t option) \<Rightarrow> 'd srv_state \<Rightarrow> 'd srv_state option" where
  "in_pool f s = map_option (\<lambda>pool. s\<lparr>bp := pool\<rparr>) (f (bp s))"

definition set_ram :: "((64 word \<Rightarrow> 8 word) \<Rightarrow> 64 word \<Rightarrow> 8 word) \<Rightarrow> 'd srv_state \<Rightarrow> 'd srv_state" where
  "set_ram f s = s\<lparr>hm := (hm s)\<lparr>ram := f (ram (hm s))\<rparr>\<rparr>"

section \<open>Bytes of a page\<close>

definition FIL_PAGE_SPACE_OR_CHKSUM :: "64 word" where "FIL_PAGE_SPACE_OR_CHKSUM = 0"
definition FIL_PAGE_OFFSET :: "64 word" where "FIL_PAGE_OFFSET = 4"
definition FIL_PAGE_LSN :: "64 word" where "FIL_PAGE_LSN = 16"
definition FIL_PAGE_ARCH_LOG_NO_OR_SPACE_ID :: "64 word" where "FIL_PAGE_ARCH_LOG_NO_OR_SPACE_ID = 34"
definition FIL_PAGE_END_LSN_OLD_CHKSUM :: "64 word" where "FIL_PAGE_END_LSN_OLD_CHKSUM = 8"
definition BUF_NO_CHECKSUM_MAGIC :: "32 word" where "BUF_NO_CHECKSUM_MAGIC = 0xDEADBEEF"

definition mach_read_from_4 :: "(64 word \<Rightarrow> 8 word) \<Rightarrow> 64 word \<Rightarrow> nat" where
  "mach_read_from_4 m a = unat (m a) * 2 ^ 24 + unat (m (a + 1)) * 2 ^ 16 + unat (m (a + 2)) * 2 ^ 8 + unat (m (a + 3))"

definition mach_write_to_4 :: "64 word \<Rightarrow> 32 word \<Rightarrow> (64 word \<Rightarrow> 8 word) \<Rightarrow> 64 word \<Rightarrow> 8 word" where
  "mach_write_to_4 a n m =
     m(a := ucast (drop_bit 24 n), a + 1 := ucast (drop_bit 16 n), a + 2 := ucast (drop_bit 8 n), a + 3 := ucast n)"

definition mach_write_to_8 :: "64 word \<Rightarrow> 64 word \<Rightarrow> (64 word \<Rightarrow> 8 word) \<Rightarrow> 64 word \<Rightarrow> 8 word" where
  "mach_write_to_8 a n m = mach_write_to_4 (a + 4) (ucast n) (mach_write_to_4 a (ucast (drop_bit 32 n)) m)"

definition memset :: "64 word \<Rightarrow> 8 word \<Rightarrow> nat \<Rightarrow> (64 word \<Rightarrow> 8 word) \<Rightarrow> 64 word \<Rightarrow> 8 word" where
  "memset a v n m = (\<lambda>x. if unat (x - a) < n then v else m x)"

definition page_bytes :: "nat \<Rightarrow> (64 word \<Rightarrow> 8 word) \<Rightarrow> 64 word \<Rightarrow> nat \<Rightarrow> 8 word" where
  "page_bytes n m a = (\<lambda>k. if k < n then m (a + of_nat k) else 0)"

text \<open>The stamp of a page before it is written: log sequence number and checksums.\<close>

definition buf_flush_init_for_writing :: "'d buf_env \<Rightarrow> 64 word \<Rightarrow> nat \<Rightarrow> (64 word \<Rightarrow> 8 word) \<Rightarrow> 64 word \<Rightarrow> 8 word" where
  "buf_flush_init_for_writing env page newest_lsn m =
     (let size = UNIV_PAGE_SIZE (settings env); trailer = page + of_nat size - FIL_PAGE_END_LSN_OLD_CHKSUM;
          m = mach_write_to_8 (page + FIL_PAGE_LSN) (of_nat newest_lsn) m;
          m = mach_write_to_8 trailer (of_nat newest_lsn) m;
          (checksum, m) =
            (if srv_checksum_algorithm env \<in> {SRV_CHECKSUM_ALGORITHM_CRC32, SRV_CHECKSUM_ALGORITHM_STRICT_CRC32} then
               let c = buf_calc_page_crc32 env (page_bytes size m page) in (c, mach_write_to_4 (page + FIL_PAGE_SPACE_OR_CHKSUM) c m)
             else if srv_checksum_algorithm env \<in> {SRV_CHECKSUM_ALGORITHM_INNODB, SRV_CHECKSUM_ALGORITHM_STRICT_INNODB} then
               let m = mach_write_to_4 (page + FIL_PAGE_SPACE_OR_CHKSUM) (buf_calc_page_new_checksum env (page_bytes size m page)) m
               in (buf_calc_page_old_checksum env (page_bytes size m page), m)
             else (BUF_NO_CHECKSUM_MAGIC, mach_write_to_4 (page + FIL_PAGE_SPACE_OR_CHKSUM) BUF_NO_CHECKSUM_MAGIC m))
      in mach_write_to_4 trailer checksum m)"

section \<open>The end of an i/o\<close>

text \<open>The latch of a frame: an S-latch takes one from its count, an X-latch \<^verbatim>\<open>X_LOCK_DECR\<close>.\<close>

definition X_LOCK_DECR :: int where "X_LOCK_DECR = 0x00100000"

definition buf_flush_remove :: "srv_settings \<Rightarrow> nat \<Rightarrow> buf_pool_t \<Rightarrow> buf_pool_t option" where
  "buf_flush_remove srv b pool =
     do {
       pool \<leftarrow> (case pg_state (bblocks pool b) of
           BUF_BLOCK_ZIP_DIRTY \<Rightarrow>
             Some (upd_block b (\<lambda>k. k\<lparr>pg_state := BUF_BLOCK_ZIP_PAGE\<rparr>) (pool\<lparr>flush_list := remove1 b (flush_list pool)\<rparr>))
         | BUF_BLOCK_FILE_PAGE \<Rightarrow> Some (pool\<lparr>flush_list := remove1 b (flush_list pool)\<rparr>)
         | _ \<Rightarrow> None);
       let pool = pool\<lparr>flush_list_bytes := flush_list_bytes pool - of_nat (UNIV_PAGE_SIZE srv)\<rparr>;
       let pool = upd_block b (\<lambda>k. k\<lparr>oldest_modification := 0\<rparr>) pool;
       Some (if flush_list_hp pool = Some b then pool\<lparr>flush_list_hp := None\<rparr> else pool)
     }"

definition TRX_SYS_DOUBLEWRITE_BLOCK_SIZE :: "srv_settings \<Rightarrow> nat" where
  "TRX_SYS_DOUBLEWRITE_BLOCK_SIZE srv = 1048576 div UNIV_PAGE_SIZE srv"

text \<open>The slot of a block in the doublewrite buffer is given back; for a single page flush there must be one.\<close>

definition buf_dblwr_update :: "'d buf_env \<Rightarrow> nat \<Rightarrow> buf_flush_t \<Rightarrow> 'd srv_state \<Rightarrow> 'd srv_state option" where
  "buf_dblwr_update env b ft s =
     (if \<not> use_doublewrite_buf env then Some s
      else case ft of
        BUF_FLUSH_SINGLE_PAGE \<Rightarrow>
          (case filter (\<lambda>i. dblwr_arr s i = Some b)
                  [srv_doublewrite_batch_size env..<2 * TRX_SYS_DOUBLEWRITE_BLOCK_SIZE (settings env)] of
             [] \<Rightarrow> None
           | i # _ \<Rightarrow> Some (s\<lparr>s_reserved := s_reserved s - 1, dblwr_arr := (dblwr_arr s)(i := None),
               dblwr_in_use := (dblwr_in_use s)(i := False)\<rparr>))
      | _ \<Rightarrow>
          let s = s\<lparr>b_reserved := b_reserved s - 1\<rparr> in
          Some (if b_reserved s = 0
                then s\<lparr>fs := fil_flush_file_spaces env (fs s), dblwr_first_free := 0, batch_running := False\<rparr> else s))"

definition buf_flush_write_complete :: "'d buf_env \<Rightarrow> nat \<Rightarrow> 'd srv_state \<Rightarrow> 'd srv_state option" where
  "buf_flush_write_complete env b s =
     do {
       s \<leftarrow> in_pool (buf_flush_remove (settings env) b) s;
       let ft = flush_type (blk s b);
       let s = s\<lparr>bp := (bp s)\<lparr>n_flush := (n_flush (bp s))(ft := n_flush (bp s) ft - 1)\<rparr>\<rparr>;
       buf_dblwr_update env b ft s
     }"

section \<open>Blocks without a page\<close>

definition ULINT32_UNDEFINED :: nat where "ULINT32_UNDEFINED = 2 ^ 32 - 1"

definition wipe_page :: "8 word \<Rightarrow> 64 word \<Rightarrow> (64 word \<Rightarrow> 8 word) \<Rightarrow> 64 word \<Rightarrow> 8 word" where
  "wipe_page v a m = memset (a + FIL_PAGE_ARCH_LOG_NO_OR_SPACE_ID) v 4 (memset (a + FIL_PAGE_OFFSET) v 4 m)"

definition buf_LRU_block_free_non_file_page :: "nat \<Rightarrow> 'd srv_state \<Rightarrow> 'd srv_state option" where
  "buf_LRU_block_free_non_file_page b s =
     (if pg_state (blk s b) \<in> {BUF_BLOCK_MEMORY, BUF_BLOCK_READY_FOR_USE} then
        let s = set_blk b (\<lambda>k. k\<lparr>pg_state := BUF_BLOCK_NOT_USED\<rparr>) s;
            s = set_ram (wipe_page 0xfe (frame (blk s b))) s
        in Some (s\<lparr>bp := (bp s)\<lparr>free_list := b # free_list (bp s)\<rparr>\<rparr>)
      else None)"

definition page_addr :: "buf_block_t \<Rightarrow> nat \<times> nat" where
  "page_addr k = (pg_space k, pg_offset k)"

text \<open>
  Taking a page out of list and hash: what the ordinary removal and the one for an RW command have in common. A block of
  an uncompressed page must be clean and must be the one in the hash.
\<close>

definition unhash_block :: "srv_settings \<Rightarrow> nat \<Rightarrow> buf_pool_t \<Rightarrow> buf_pool_t option" where
  "unhash_block srv b pool =
     (if io_fix (bblocks pool b) \<noteq> BUF_IO_NONE \<or> buf_fix_count (bblocks pool b) \<noteq> 0 then None
      else do {
        pool \<leftarrow> buf_LRU_remove_block srv b pool;
        let pool = pool\<lparr>pool_freed_page_clock := pool_freed_page_clock pool + 1\<rparr>;
        (if pg_state (bblocks pool b) \<noteq> BUF_BLOCK_FILE_PAGE then None
         else
           let pool = upd_block b (\<lambda>k. k\<lparr>modify_clock := modify_clock k + 1\<rparr>) pool in
           if oldest_modification (bblocks pool b) \<noteq> 0 \<or> page_hash pool (page_addr (bblocks pool b)) \<noteq> Some (Page b) then None
           else Some (pool\<lparr>page_hash := (page_hash pool)(page_addr (bblocks pool b) := None)\<rparr>))
      })"

definition buf_LRU_block_remove_hashed :: "'d buf_env \<Rightarrow> nat \<Rightarrow> 'd srv_state \<Rightarrow> 'd srv_state option" where
  "buf_LRU_block_remove_hashed env b s =
     do {
       s \<leftarrow> in_pool (unhash_block (settings env) b) s;
       let s = set_ram (wipe_page 0xff (frame (blk s b))) s;
       Some (set_blk b (\<lambda>k. k\<lparr>pg_state := BUF_BLOCK_REMOVE_HASH, pg_space := ULINT32_UNDEFINED,
         pg_offset := ULINT32_UNDEFINED\<rparr>) s)
     }"

definition buf_LRU_block_remove_hashed_for_rw_cmd :: "'d buf_env \<Rightarrow> nat \<Rightarrow> 'd srv_state \<Rightarrow> 'd srv_state option" where
  "buf_LRU_block_remove_hashed_for_rw_cmd env b s =
     do {
       let s = set_blk b (\<lambda>k. k\<lparr>target_rw_cmd := False, use_rw_cmd := True\<rparr>) s;
       s \<leftarrow> in_pool (unhash_block (settings env) b) s;
       Some (set_blk b (\<lambda>k. k\<lparr>pg_state := BUF_BLOCK_READY_FOR_USE, pg_space := ULINT32_UNDEFINED,
         pg_offset := ULINT32_UNDEFINED\<rparr>) s)
     }"

definition buf_LRU_block_free_hashed_page :: "nat \<Rightarrow> 'd srv_state \<Rightarrow> 'd srv_state option" where
  "buf_LRU_block_free_hashed_page b s =
     buf_LRU_block_free_non_file_page b (set_blk b (\<lambda>k. k\<lparr>pg_state := BUF_BLOCK_MEMORY\<rparr>) s)"

definition buf_LRU_free_one_page :: "'d buf_env \<Rightarrow> nat \<Rightarrow> 'd srv_state \<Rightarrow> 'd srv_state option" where
  "buf_LRU_free_one_page env b s =
     do { s \<leftarrow> buf_LRU_block_remove_hashed env b s; buf_LRU_block_free_hashed_page b s }"

text \<open>Freeing a clean page; the mutex of the pool is free while the adaptive hash index on the page is dropped.\<close>

definition buf_LRU_free_page :: "'d buf_env \<Rightarrow> nat \<Rightarrow> 'd srv_state \<Rightarrow> (bool \<times> 'd srv_state) option" where
  "buf_LRU_free_page env b s =
     (if use_rw_cmd (blk s b) \<or> target_rw_cmd (blk s b) \<or> io_fix (blk s b) \<noteq> BUF_IO_NONE \<or> buf_fix_count (blk s b) \<noteq> 0 \<or>
         oldest_modification (blk s b) \<noteq> 0
      then Some (False, s)
      else do {
        s \<leftarrow> buf_LRU_block_remove_hashed env b s;
        let s = set_blk b (\<lambda>k. k\<lparr>io_fix := BUF_IO_PIN\<rparr>) s;
        let s = elsewhere env s;
        let s = set_blk b (\<lambda>k. k\<lparr>ahi_index := False\<rparr>) s;
        let s = set_blk b (\<lambda>k. k\<lparr>io_fix := BUF_IO_NONE\<rparr>) s;
        s \<leftarrow> buf_LRU_block_free_hashed_page b s;
        Some (True, s)
      })"

fun free_from_tail :: "'d buf_env \<Rightarrow> bool \<Rightarrow> nat \<Rightarrow> nat list \<Rightarrow> 'd srv_state \<Rightarrow> (bool \<times> 'd srv_state) option" where
  "free_from_tail env scan_all scanned [] s = Some (False, s)"
| "free_from_tail env scan_all scanned (b # bs) s =
     (if \<not> scan_all \<and> srv_LRU_scan_depth env \<le> scanned then Some (False, s)
      else do {
        let accessed = (access_time (blk s b) \<noteq> 0);
        (freed, s) \<leftarrow> buf_LRU_free_page env b s;
        (if freed then Some (True, if accessed then s
                              else s\<lparr>bp := (bp s)\<lparr>n_ra_pages_evicted := n_ra_pages_evicted (bp s) + 1\<rparr>\<rparr>)
         else free_from_tail env scan_all (scanned + 1) bs s)
      })"

definition buf_LRU_free_from_common_LRU_list :: "'d buf_env \<Rightarrow> bool \<Rightarrow> 'd srv_state \<Rightarrow> (bool \<times> 'd srv_state) option" where
  "buf_LRU_free_from_common_LRU_list env scan_all s = free_from_tail env scan_all 1 (rev (lru_list (bp s))) s"

text \<open>There are no uncompressed copies of compressed pages to free first.\<close>

definition buf_LRU_scan_and_free_block :: "'d buf_env \<Rightarrow> bool \<Rightarrow> 'd srv_state \<Rightarrow> (bool \<times> 'd srv_state) option" where
  "buf_LRU_scan_and_free_block env scan_all s = buf_LRU_free_from_common_LRU_list env scan_all s"

definition buf_mark_space_corrupt :: "'d buf_env \<Rightarrow> nat \<Rightarrow> 'd srv_state \<Rightarrow> (bool \<times> 'd srv_state) option" where
  "buf_mark_space_corrupt env b s =
     do {
       let uncompressed = (pg_state (blk s b) = BUF_BLOCK_FILE_PAGE);
       let space = pg_space (blk s b);
       let s = set_blk b (\<lambda>k. k\<lparr>io_fix := BUF_IO_NONE, lock_word := lock_word k + (if uncompressed then X_LOCK_DECR else 0)\<rparr>) s;
       (ret, s) \<leftarrow> (if dict_set_corrupted_by_space env space
                    then map_option (Pair True) (buf_LRU_free_one_page env b s) else Some (False, s));
       Some (ret, s\<lparr>bp := (bp s)\<lparr>n_pend_reads := n_pend_reads (bp s) - 1\<rparr>\<rparr>)
     }"

text \<open>
  The end of a read or write of a page. The frame of a page that was read is checked first, and buffered changes
  are merged into it; the result \<^term>\<open>False\<close> means that the page was corrupt and its table was marked so.
\<close>

definition read_checked :: "'d buf_env \<Rightarrow> nat \<Rightarrow> 'd srv_state \<Rightarrow> (bool \<times> 'd srv_state) option" where
  "read_checked env b s =
     (if pg_state (blk s b) \<noteq> BUF_BLOCK_FILE_PAGE then None
      else do {
        (ok, s) \<leftarrow> (if buf_page_is_corrupted env (page_bytes (UNIV_PAGE_SIZE (settings env)) (ram (hm s)) (frame (blk s b))) \<and>
                      \<not> ignore_corrupt env then
                      if pg_space (blk s b) = 0 then None
                      else do {
                        (marked, s) \<leftarrow> buf_mark_space_corrupt env b s;
                        (if marked then Some (False, s) else None)
                      }
                    else Some (True, s));
        Some (ok, if ok \<and> \<not> recv_no_ibuf_operations env then ibuf_merge_or_delete_for_page env b s else s)
      })"

definition buf_page_io_complete :: "'d buf_env \<Rightarrow> nat \<Rightarrow> 'd srv_state \<Rightarrow> (bool \<times> 'd srv_state) option" where
  "buf_page_io_complete env b s =
     (if buf_page_in_file (pg_state (blk s b)) \<noteq> Some True then None
      else let uncompressed = (pg_state (blk s b) = BUF_BLOCK_FILE_PAGE) in
        case io_fix (blk s b) of
          BUF_IO_READ \<Rightarrow>
            do {
              (ok, s) \<leftarrow> read_checked env b s;
              (if \<not> ok then Some (False, s)
               else
                 let s = set_blk b (\<lambda>k. k\<lparr>io_fix := BUF_IO_NONE\<rparr>) s;
                     s = s\<lparr>bp := (bp s)\<lparr>n_pend_reads := n_pend_reads (bp s) - 1, n_pages_read := n_pages_read (bp s) + 1\<rparr>,
                           n_total_reads := n_total_reads s + 1\<rparr>
                 in Some (True, set_blk b (\<lambda>k. k\<lparr>lock_word := lock_word k + (if uncompressed then X_LOCK_DECR else 0)\<rparr>) s))
            }
        | BUF_IO_WRITE \<Rightarrow>
            do {
              let s = set_blk b (\<lambda>k. k\<lparr>io_fix := BUF_IO_NONE\<rparr>) s;
              s \<leftarrow> buf_flush_write_complete env b s;
              let s = set_blk b (\<lambda>k. k\<lparr>lock_word := lock_word k + (if uncompressed then 1 else 0)\<rparr>) s;
              Some (True, s\<lparr>bp := (bp s)\<lparr>n_pages_written := n_pages_written (bp s) + 1\<rparr>\<rparr>)
            }
        | _ \<Rightarrow> None)"

end
