(* ===== verification/Buf_Flush.thy ===== *)
theory Buf_Flush
  imports Buf_Io
begin

text \<open>
  The ordinary write of one dirty page and the freeing of its block (\<^verbatim>\<open>buf_flush_single_page_from_LRU\<close> in
  \<^verbatim>\<open>buf/buf0flu.cc\<close>), with the slots of the doublewrite buffer for single pages (\<^verbatim>\<open>buf/buf0dblwr.cc\<close>). The read of a page
  falls back to it when there is no victim for an RW command.
\<close>

section \<open>Pages that can be replaced or flushed\<close>

definition buf_flush_ready_for_replace :: "buf_block_t \<Rightarrow> bool option" where
  "buf_flush_ready_for_replace k =
     map_option (\<lambda>f. f \<and> oldest_modification k = 0 \<and> buf_fix_count k = 0 \<and> \<not> target_rw_cmd k \<and> \<not> use_rw_cmd k \<and>
       io_fix k = BUF_IO_NONE) (buf_page_in_file (pg_state k))"

definition buf_flush_ready_for_flush :: "buf_block_t \<Rightarrow> bool option" where
  "buf_flush_ready_for_flush k =
     (if use_rw_cmd k \<or> target_rw_cmd k \<or> pg_state k = BUF_BLOCK_MEMORY then Some False
      else if buf_page_in_file (pg_state k) \<noteq> Some True then None
      else Some (oldest_modification k \<noteq> 0 \<and> io_fix k = BUF_IO_NONE))"

section \<open>The doublewrite buffer\<close>

text \<open>The check of a page before it is written; the comparison of the log sequence numbers only prints.\<close>

definition buf_dblwr_check_block :: "'d buf_env \<Rightarrow> nat \<Rightarrow> 'd srv_state \<Rightarrow> 'd srv_state option" where
  "buf_dblwr_check_block env b s =
     (if pg_state (blk s b) \<noteq> BUF_BLOCK_FILE_PAGE \<or> \<not> check_index_page_at_flush (blk s b) then Some s
      else let p = page_bytes (UNIV_PAGE_SIZE (settings env)) (ram (hm s)) (frame (blk s b)) in
        if (if page_is_comp env p then page_simple_validate_new env p else page_simple_validate_old env p) then Some s else None)"

text \<open>A slot for a page. When all are taken, the thread waits until another one has given one back.\<close>

partial_function (option) dblwr_reserve :: "'d buf_env \<Rightarrow> nat \<Rightarrow> 'd srv_state \<Rightarrow> (nat \<times> 'd srv_state) option" where
  [code]: "dblwr_reserve env b s =
     (let size = 2 * TRX_SYS_DOUBLEWRITE_BLOCK_SIZE (settings env) in
      if s_reserved s = of_nat (size - srv_doublewrite_batch_size env) then dblwr_reserve env b (elsewhere env s)
      else case filter (\<lambda>i. \<not> dblwr_in_use s i) [srv_doublewrite_batch_size env..<size] of
          [] \<Rightarrow> None
        | i # _ \<Rightarrow> Some (i, s\<lparr>dblwr_in_use := (dblwr_in_use s)(i := True), s_reserved := s_reserved s + 1,
            dblwr_arr := (dblwr_arr s)(i := Some b)\<rparr>))"

definition buf_dblwr_write_block_to_datafile :: "'d buf_env \<Rightarrow> nat \<Rightarrow> bool \<Rightarrow> 'd srv_state \<Rightarrow> 'd srv_state option" where
  "buf_dblwr_write_block_to_datafile env b sync s =
     (if buf_page_in_file (pg_state (blk s b)) \<noteq> Some True \<or> pg_state (blk s b) \<noteq> BUF_BLOCK_FILE_PAGE then None
      else Some (fil_io_write env (OS_FILE_WRITE + (if sync then 0 else OS_AIO_SIMULATED_WAKE_LATER)) sync
             (pg_space (blk s b)) (pg_offset (blk s b)) (frame (blk s b)) s))"

definition buf_dblwr_write_single_page :: "'d buf_env \<Rightarrow> nat \<Rightarrow> bool \<Rightarrow> 'd srv_state \<Rightarrow> 'd srv_state option" where
  "buf_dblwr_write_single_page env b sync s =
     (let n = TRX_SYS_DOUBLEWRITE_BLOCK_SIZE (settings env) in
      if buf_page_in_file (pg_state (blk s b)) \<noteq> Some True \<or> \<not> use_doublewrite_buf env \<or>
         2 * n \<le> srv_doublewrite_batch_size env then None
      else do {
        s \<leftarrow> buf_dblwr_check_block env b s;
        (i, s) \<leftarrow> dblwr_reserve env b s;
        let offset = (if i < n then dblwr_block1 env + i else dblwr_block2 env + i - n);
        let s = fil_io_write env OS_FILE_WRITE True 0 offset (frame (blk s b)) s;
        let s = fil_flush env 0 s;
        buf_dblwr_write_block_to_datafile env b sync s
      })"

section \<open>The write\<close>

definition buf_flush_write_block_low :: "'d buf_env \<Rightarrow> nat \<Rightarrow> buf_flush_t \<Rightarrow> bool \<Rightarrow> 'd srv_state \<Rightarrow> 'd srv_state option" where
  "buf_flush_write_block_low env b ft sync s =
     do {
       let s = log_write_up_to env (newest_modification (blk s b)) s;
       s \<leftarrow> (if pg_state (blk s b) \<noteq> BUF_BLOCK_FILE_PAGE then None
             else Some (set_ram (buf_flush_init_for_writing env (frame (blk s b)) (newest_modification (blk s b))) s));
       s \<leftarrow> (if \<not> use_doublewrite_buf env then
               Some (fil_io_write env (OS_FILE_WRITE + OS_AIO_SIMULATED_WAKE_LATER) sync (pg_space (blk s b)) (pg_offset (blk s b))
                 (frame (blk s b)) s)
             else if ft = BUF_FLUSH_SINGLE_PAGE then buf_dblwr_write_single_page env b sync s
             else Some (buf_dblwr_add_to_batch env b s));
       s \<leftarrow> (if sync then map_option snd (buf_page_io_complete env b (elsewhere env (fil_flush env (pg_space (blk s b)) s))) else Some s);
       Some (s\<lparr>lru_stat_io := lru_stat_io s + 1\<rparr>)
     }"

text \<open>
  A page of a batch from the flush list gets its S-latch only after the mutex is free; when that fails at once, the writes in the
  doublewrite buffer are sent first. The model does not wait for the latch.
\<close>

definition buf_flush_page :: "'d buf_env \<Rightarrow> nat \<Rightarrow> buf_flush_t \<Rightarrow> bool \<Rightarrow> 'd srv_state \<Rightarrow> (bool \<times> 'd srv_state) option" where
  "buf_flush_page env b ft sync s =
     (let uncompressed = (pg_state (blk s b) = BUF_BLOCK_FILE_PAGE);
          s_lock = set_blk b (\<lambda>k. k\<lparr>lock_word := lock_word k - 1\<rparr>);
          (flush, s) =
            (if \<not> uncompressed then (True, s)
             else if \<not> (buf_fix_count (blk s b) = 0 \<or> ft = BUF_FLUSH_LIST) then (False, s)
             else if ft \<noteq> BUF_FLUSH_LIST then if 0 < lock_word (blk s b) then (True, s_lock s) else (False, s)
             else (True, s))
      in if \<not> flush then Some (False, s)
      else do {
        let s = set_blk b (\<lambda>k. k\<lparr>io_fix := BUF_IO_WRITE, flush_type := ft\<rparr>) s;
        let s = s\<lparr>bp := (bp s)\<lparr>n_flush := (n_flush (bp s))(ft := n_flush (bp s) ft + 1)\<rparr>\<rparr>;
        let s = elsewhere env s;
        s \<leftarrow> (if ft = BUF_FLUSH_LIST \<and> uncompressed then
                if 0 < lock_word (blk s b) then Some (s_lock s)
                else let s = buf_dblwr_flush_buffered_writes env s in if 0 < lock_word (blk s b) then Some (s_lock s) else None
              else Some s);
        let s = (if ft = BUF_FLUSH_LIST then s\<lparr>n_ckpt_batch := n_ckpt_batch s + 1\<rparr> else s);
        let s = (if ft = BUF_FLUSH_LRU then s\<lparr>n_lru_batch := n_lru_batch s + 1\<rparr> else s);
        s \<leftarrow> buf_flush_write_block_low env b ft sync s;
        Some (True, s)
      })"

text \<open>The last dirty page is written; then the last page that can be replaced, which may be another one by now, is freed.\<close>

fun flush_from_tail :: "'d buf_env \<Rightarrow> nat list \<Rightarrow> 'd srv_state \<Rightarrow> (bool \<times> 'd srv_state) option" where
  "flush_from_tail env [] s = Some (False, s)"
| "flush_from_tail env (b # bs) s =
     (if target_rw_cmd (blk s b) \<or> use_rw_cmd (blk s b) then flush_from_tail env bs s
      else do {
        ready \<leftarrow> buf_flush_ready_for_flush (blk s b);
        (flushed, s) \<leftarrow> (if ready then buf_flush_page env b BUF_FLUSH_SINGLE_PAGE True s else Some (False, s));
        (if flushed then Some (True, s) else flush_from_tail env bs s)
      })"

fun free_replaceable :: "'d buf_env \<Rightarrow> nat list \<Rightarrow> 'd srv_state \<Rightarrow> (bool \<times> 'd srv_state) option" where
  "free_replaceable env [] s = Some (False, s)"
| "free_replaceable env (b # bs) s =
     do {
       ready \<leftarrow> buf_flush_ready_for_replace (blk s b);
       (if ready then buf_LRU_free_page env b s else free_replaceable env bs s)
     }"

definition buf_flush_single_page_from_LRU :: "'d buf_env \<Rightarrow> 'd srv_state \<Rightarrow> (bool \<times> 'd srv_state) option" where
  "buf_flush_single_page_from_LRU env s =
     do {
       (flushed, s) \<leftarrow> flush_from_tail env (rev (lru_list (bp s))) s;
       (if \<not> flushed then Some (False, s)
        else let s = elsewhere env s in free_replaceable env (rev (lru_list (bp s))) s)
     }"

end
