(* ===== verification/Buf_Rw.thy ===== *)
theory Buf_Rw
  imports Buf_Flush
begin

text \<open>
  The path of a page read through the buffer pool of InnoDB, from \<^verbatim>\<open>buf_read_page_low\<close> (\<^verbatim>\<open>buf/buf0rea.cc\<close>) down to
  the RW command: when the pool has no free block, \<^verbatim>\<open>buf_LRU_get_free_block\<close> (\<^verbatim>\<open>buf/buf0lru.cc\<close>) picks a dirty
  victim, \<^verbatim>\<open>buf_flush_page_with_rw_cmd\<close> (\<^verbatim>\<open>buf/buf0flu.cc\<close>) writes it and reads the wanted page into its frame with one
  command, and \<^verbatim>\<open>buf_page_init_for_read\<close> (\<^verbatim>\<open>buf/buf0buf.cc\<close>) gives the block to the page without a second read.
\<close>

section \<open>The victim and the command\<close>

definition buf_flush_page_with_rw_cmd ::
  "'d buf_env \<Rightarrow> nat \<Rightarrow> buf_flush_t \<Rightarrow> nat \<Rightarrow> nat \<Rightarrow> 'd srv_state \<Rightarrow> (bool \<times> 'd srv_state) option" where
  "buf_flush_page_with_rw_cmd env b ft space offset s =
     (if lock_word (blk s b) \<le> 0 then Some (False, s)
      else do {
        let s = set_blk b (\<lambda>k. k\<lparr>lock_word := lock_word k - 1, io_fix := BUF_IO_WRITE, flush_type := ft\<rparr>) s;
        let s = s\<lparr>bp := (bp s)\<lparr>n_flush := (n_flush (bp s))(ft := n_flush (bp s) ft + 1)\<rparr>\<rparr>;
        let s = elsewhere env s;
        let s = log_write_up_to env (newest_modification (blk s b)) s;
        (if pg_state (blk s b) \<noteq> BUF_BLOCK_FILE_PAGE then None
         else do {
           let s = set_ram (buf_flush_init_for_writing env (frame (blk s b)) (newest_modification (blk s b))) s;
           (err, sys, st, h) \<leftarrow> fil_io_with_rw_cmd (settings env) (files env) (fil_others env) (fil_during env)
             (file_blksize env) (file_fibmap env) (nvme_send env) OS_FILE_WRITE (pg_space (blk s b)) 0 (pg_offset (blk s b)) 0
             (UNIV_PAGE_SIZE (settings env)) (frame (blk s b)) space offset (fs s, ios s, hm s);
           (if err \<noteq> DB_SUCCESS then None
            else do {
              let s = elsewhere env (s\<lparr>fs := sys, ios := st, hm := h\<rparr>);
              (ok, s) \<leftarrow> buf_page_io_complete env b s;
              Some (True, s\<lparr>lru_stat_io := lru_stat_io s + 1\<rparr>)
            })
         })
      })"

text \<open>
  The victim is the last page of the list that is dirty, not fixed and not in use by another i/o, and whose frame is
  not latched. Pages of the spaces below \<^verbatim>\<open>log_fd\<close> are passed over.
\<close>

fun rw_victim_loop :: "'d buf_env \<Rightarrow> nat \<Rightarrow> nat \<Rightarrow> nat list \<Rightarrow> 'd srv_state \<Rightarrow> (nat option \<times> 'd srv_state) option" where
  "rw_victim_loop env space offset [] s = Some (None, s)"
| "rw_victim_loop env space offset (b # bs) s =
     (if pg_space (blk s b) < log_fd (fs s) then rw_victim_loop env space offset bs s
      else do {
        ready \<leftarrow> (if buf_fix_count (blk s b) = 0 then buf_flush_ready_for_flush (blk s b) else Some False);
        (if ready then do {
           (flushed, s) \<leftarrow> buf_flush_page_with_rw_cmd env b BUF_FLUSH_SINGLE_PAGE space offset
                             (set_blk b (\<lambda>k. k\<lparr>target_rw_cmd := True\<rparr>) s);
           (if flushed then Some (Some b, s)
            else rw_victim_loop env space offset bs (set_blk b (\<lambda>k. k\<lparr>target_rw_cmd := False\<rparr>) s))
         }
         else rw_victim_loop env space offset bs s)
      })"

definition buf_flush_single_page_with_rw_cmd ::
  "'d buf_env \<Rightarrow> nat \<Rightarrow> nat \<Rightarrow> 'd srv_state \<Rightarrow> (nat option \<times> 'd srv_state) option" where
  "buf_flush_single_page_with_rw_cmd env space offset s = rw_victim_loop env space offset (rev (lru_list (bp s))) s"

section \<open>A block for a page\<close>

definition buf_LRU_get_free_only :: "nat \<Rightarrow> buf_pool_t \<Rightarrow> buf_pool_t option" where
  "buf_LRU_get_free_only b pool =
     (if buf_page_in_file (pg_state (bblocks pool b)) \<noteq> Some False then None
      else Some (upd_block b (\<lambda>k. k\<lparr>pg_state := BUF_BLOCK_READY_FOR_USE\<rparr>) (pool\<lparr>free_list := remove1 b (free_list pool)\<rparr>)))"

definition buf_LRU_check_size_of_non_data_objects :: "buf_pool_t \<Rightarrow> bool" where
  "buf_LRU_check_size_of_non_data_objects pool \<longleftrightarrow>
     \<not> length (free_list pool) + length (lru_list pool) < curr_size pool div 20"

text \<open>The scan for a clean page, in the first round only if an earlier scan has not failed.\<close>

definition lru_scan_round :: "'d buf_env \<Rightarrow> nat \<Rightarrow> 'd srv_state \<Rightarrow> (bool \<times> 'd srv_state) option" where
  "lru_scan_round env n_iterations s =
     (if try_LRU_scan (bp s) \<or> 0 < n_iterations then
        do {
          (freed, s) \<leftarrow> buf_LRU_scan_and_free_block env (0 < n_iterations) s;
          Some (freed, if \<not> freed \<and> n_iterations = 0 then s\<lparr>bp := (bp s)\<lparr>try_LRU_scan := False\<rparr>\<rparr> else s)
        }
      else Some (False, s))"

partial_function (option) buf_LRU_get_free_block ::
  "'d buf_env \<Rightarrow> nat \<Rightarrow> nat \<Rightarrow> nat \<Rightarrow> 'd srv_state \<Rightarrow> (nat \<times> 'd srv_state) option" where
  [code]: "buf_LRU_get_free_block env space offset n_iterations s =
     (if \<not> buf_LRU_check_size_of_non_data_objects (bp s) then None
      else if free_list (bp s) \<noteq> [] then
        do {
          s' \<leftarrow> in_pool (buf_LRU_get_free_only (hd (free_list (bp s)))) s;
          Some (hd (free_list (bp s)), s'\<lparr>n_free_block := n_free_block s' + 1\<rparr>)
        }
      else if init_flush (bp s) BUF_FLUSH_LRU \<and> use_doublewrite_buf env then
        let s = buf_flush_wait_batch_end env s in
        buf_LRU_get_free_block env space offset n_iterations (s\<lparr>n_bg_wait := n_bg_wait s + 1\<rparr>)
      else do {
        (freed, s) \<leftarrow> lru_scan_round env n_iterations s;
        let s = elsewhere env s;
        (if freed then buf_LRU_get_free_block env space offset n_iterations (s\<lparr>n_clean_block := n_clean_block s + 1\<rparr>)
         else do {
           (found, s) \<leftarrow> buf_flush_single_page_with_rw_cmd env space offset s;
           (case found of
              Some b \<Rightarrow> do {
                s \<leftarrow> buf_LRU_block_remove_hashed_for_rw_cmd env b (elsewhere env s);
                Some (b, s\<lparr>n_rwcmd := n_rwcmd s + 1, n_no_block := n_no_block s + 1\<rparr>)
              }
            | None \<Rightarrow> do {
                (flushed, s) \<leftarrow> buf_flush_single_page_from_LRU env (elsewhere env s);
                let s = (if flushed then s\<lparr>n_spf := n_spf s + 1, n_no_block := n_no_block s + 1\<rparr> else s);
                buf_LRU_get_free_block env space offset (n_iterations + 1) (elsewhere env s)
              })
         })
      })"

definition buf_block_init_low_with_rw_cmd :: "buf_block_t \<Rightarrow> buf_block_t" where
  "buf_block_init_low_with_rw_cmd k =
     k\<lparr>check_index_page_at_flush := False, ahi_index := False, n_hash_helps := 0, n_fields := 1, n_bytes := 0, left_side := True\<rparr>"

definition buf_block_init_low :: "buf_block_t \<Rightarrow> buf_block_t" where
  "buf_block_init_low k =
     k\<lparr>check_index_page_at_flush := False, ahi_index := False, n_hash_helps := 0, n_fields := 1, n_bytes := 0, left_side := True,
       use_rw_cmd := False\<rparr>"

definition buf_page_init_low :: "buf_block_t \<Rightarrow> buf_block_t" where
  "buf_page_init_low k =
     k\<lparr>flush_type := BUF_FLUSH_LRU, io_fix := BUF_IO_NONE, buf_fix_count := 0, pg_freed_page_clock := 0, access_time := 0,
       newest_modification := 0, oldest_modification := 0, target_rw_cmd := False\<rparr>"

definition buf_block_set_file_page :: "nat \<Rightarrow> nat \<Rightarrow> buf_block_t \<Rightarrow> buf_block_t" where
  "buf_block_set_file_page space page_no k =
     k\<lparr>pg_state := BUF_BLOCK_FILE_PAGE, pg_space := u32 space, pg_offset := u32 page_no\<rparr>"

text \<open>The insertion into the page hash; the block inherits the count of a watch on the page.\<close>

definition hash_new_page :: "nat \<Rightarrow> nat \<Rightarrow> nat \<Rightarrow> buf_pool_t \<Rightarrow> buf_pool_t option" where
  "hash_new_page space offset b pool =
     do {
       pool \<leftarrow> (case page_hash pool (space, offset) of
           None \<Rightarrow> Some pool
         | Some (Watch n) \<Rightarrow> if n = 0 then None
             else Some (upd_block b (\<lambda>k. k\<lparr>buf_fix_count := buf_fix_count k + n\<rparr>)
                         (pool\<lparr>page_hash := (page_hash pool)((space, offset) := None)\<rparr>))
         | Some (Page a) \<Rightarrow> None);
       Some (pool\<lparr>page_hash := (page_hash pool)(page_addr (bblocks pool b) := Some (Page b))\<rparr>)
     }"

definition buf_page_init_with_rw_cmd :: "'d buf_env \<Rightarrow> nat \<Rightarrow> nat \<Rightarrow> nat \<Rightarrow> buf_pool_t \<Rightarrow> buf_pool_t option" where
  "buf_page_init_with_rw_cmd env space offset b pool =
     hash_new_page space offset b (upd_block b
       (\<lambda>k. buf_page_init_low ((buf_block_init_low_with_rw_cmd (buf_block_set_file_page space offset k))
              \<lparr>lock_hash_val := lock_rec_hash env space offset\<rparr>)) pool)"

definition buf_page_init :: "'d buf_env \<Rightarrow> nat \<Rightarrow> nat \<Rightarrow> nat \<Rightarrow> buf_pool_t \<Rightarrow> buf_pool_t option" where
  "buf_page_init env space offset b pool =
     (if pg_state (bblocks pool b) = BUF_BLOCK_FILE_PAGE then None
      else hash_new_page space offset b (upd_block b
        (\<lambda>k. buf_page_init_low ((buf_block_init_low (buf_block_set_file_page space offset k))
               \<lparr>lock_hash_val := lock_rec_hash env space offset\<rparr>)) pool))"

definition BUF_READ_IBUF_PAGES_ONLY :: nat where "BUF_READ_IBUF_PAGES_ONLY = 131"
definition BUF_READ_ANY_PAGE :: nat where "BUF_READ_ANY_PAGE = 132"

text \<open>Whether the frame of a block holds the page, by the header of the page.\<close>

definition holds_header :: "'d srv_state \<Rightarrow> nat \<Rightarrow> nat \<Rightarrow> nat \<Rightarrow> bool" where
  "holds_header s b space offset \<longleftrightarrow>
     mach_read_from_4 (ram (hm s)) (frame (blk s b) + FIL_PAGE_ARCH_LOG_NO_OR_SPACE_ID) = space \<and>
     mach_read_from_4 (ram (hm s)) (frame (blk s b) + FIL_PAGE_OFFSET) = offset"

text \<open>
  The X-latch of a block that is new in the pool must be free; the model does not wait for it. A page that came with an RW
  command goes to the head of the list, any other to the old part.
\<close>

definition install_block :: "'d buf_env \<Rightarrow> nat \<Rightarrow> nat \<Rightarrow> nat \<Rightarrow> 'd srv_state \<Rightarrow> 'd srv_state option" where
  "install_block env space offset b s =
     do {
       s \<leftarrow> in_pool (if use_rw_cmd (blk s b) \<and> holds_header s b space offset
                    then buf_page_init_with_rw_cmd env space offset b else buf_page_init env space offset b) s;
       s \<leftarrow> in_pool (buf_LRU_add_block_low (settings env) b (\<not> use_rw_cmd (blk s b))) s;
       (if lock_word (blk s b) \<noteq> X_LOCK_DECR then None
        else
          let s = set_blk b (\<lambda>k. k\<lparr>lock_word := lock_word k - X_LOCK_DECR, io_fix := BUF_IO_READ\<rparr>) s
          in Some (s\<lparr>bp := (bp s)\<lparr>n_pend_reads := n_pend_reads (bp s) + 1\<rparr>\<rparr>))
     }"

definition read_err_exit :: "nat \<Rightarrow> dberr_t \<Rightarrow> 'd srv_state \<Rightarrow> (dberr_t \<times> nat option \<times> 'd srv_state) option" where
  "read_err_exit b err s =
     do {
       s \<leftarrow> (if \<not> use_rw_cmd (blk s b) \<and> \<not> target_rw_cmd (blk s b) then buf_LRU_block_free_non_file_page b s else Some s);
       Some (err, None, s)
     }"

definition buf_page_init_for_read ::
  "'d buf_env \<Rightarrow> nat \<Rightarrow> nat \<Rightarrow> int \<Rightarrow> nat \<Rightarrow> bool \<Rightarrow> 'd srv_state \<Rightarrow> (dberr_t \<times> nat option \<times> 'd srv_state) option" where
  "buf_page_init_for_read env mode space tablespace_version offset sync s =
     (if mode = BUF_READ_IBUF_PAGES_ONLY \<and> \<not> recv_no_ibuf_operations env \<and> \<not> ibuf_page env space offset
      then Some (DB_SUCCESS, None, s)
      else do {
        (b, s) \<leftarrow> (if sync then buf_LRU_get_free_block env space offset 0 s else buf_LRU_get_free_block env 0 0 0 s);
        let s = elsewhere env s;
        (case page_hash (bp s) (space, offset) of
           Some (Page a) \<Rightarrow> read_err_exit b DB_SUCCESS s
         | _ \<Rightarrow>
           if tablespace_deleted env space tablespace_version s then read_err_exit b DB_TABLESPACE_DELETED s
           else do {
             s \<leftarrow> install_block env space offset b s;
             Some (DB_SUCCESS, Some b, s)
           })
      })"

section \<open>Reading a page\<close>

definition ibuf_bitmap_page :: "srv_settings \<Rightarrow> nat \<Rightarrow> bool" where
  "ibuf_bitmap_page srv page_no \<longleftrightarrow> page_no mod UNIV_PAGE_SIZE srv = 1"

definition trx_sys_hdr_page :: "nat \<Rightarrow> nat \<Rightarrow> bool" where
  "trx_sys_hdr_page space page_no \<longleftrightarrow> space = 0 \<and> page_no = 5"

definition buf_read_page_handle_error :: "'d buf_env \<Rightarrow> nat \<Rightarrow> 'd srv_state \<Rightarrow> 'd srv_state option" where
  "buf_read_page_handle_error env b s =
     do {
       let uncompressed = (pg_state (blk s b) = BUF_BLOCK_FILE_PAGE);
       let s = set_blk b (\<lambda>k. k\<lparr>io_fix := BUF_IO_NONE, lock_word := lock_word k + (if uncompressed then X_LOCK_DECR else 0)\<rparr>) s;
       s \<leftarrow> buf_LRU_free_one_page env b s;
       Some (s\<lparr>bp := (bp s)\<lparr>n_pend_reads := n_pend_reads (bp s) - 1\<rparr>\<rparr>)
     }"

text \<open>The result is the number of reads issued and the error code.\<close>

definition buf_read_page_low ::
  "'d buf_env \<Rightarrow> bool \<Rightarrow> nat \<Rightarrow> nat \<Rightarrow> int \<Rightarrow> nat \<Rightarrow> 'd srv_state \<Rightarrow> (nat \<times> dberr_t \<times> 'd srv_state) option" where
  "buf_read_page_low env sync mode space tablespace_version offset s =
     (let ignore_nonexistent_pages = bit mode 10; wake_later = bit mode 9;
          mode = unset_bit 10 (unset_bit 9 mode);
          sync = (sync \<or> ibuf_bitmap_page (settings env) offset \<or> trx_sys_hdr_page space offset)
      in if space = 0 \<and> buf_dblwr_page_inside env offset then Some (0, DB_SUCCESS, s)
      else do {
        (err, found, s) \<leftarrow> buf_page_init_for_read env mode space tablespace_version offset sync s;
        (case found of
           None \<Rightarrow> Some (0, err, s)
         | Some b \<Rightarrow>
           do {
             let s = elsewhere env s;
             (err, s) \<leftarrow> (if use_rw_cmd (blk s b) then Some (DB_SUCCESS, s)
               else if pg_state (blk s b) \<noteq> BUF_BLOCK_FILE_PAGE then None
               else fil_io_read env (OS_FILE_READ + (if wake_later then OS_AIO_SIMULATED_WAKE_LATER else 0) +
                      (if ignore_nonexistent_pages then BUF_READ_IGNORE_NONEXISTENT_PAGES else 0)) space offset sync
                      (frame (blk s b)) s);
             (if err \<noteq> DB_SUCCESS then
                if ignore_nonexistent_pages \<or> err = DB_TABLESPACE_DELETED then
                  do {
                    s \<leftarrow> buf_read_page_handle_error env b s;
                    Some (0, err, set_blk b (\<lambda>k. k\<lparr>use_rw_cmd := False\<rparr>) s)
                  }
                else None
              else if sync then
                do {
                  (ok, s) \<leftarrow> buf_page_io_complete env b (set_blk b (\<lambda>k. k\<lparr>use_rw_cmd := False\<rparr>) s);
                  Some (if ok then 1 else 0, err, s)
                }
              else Some (1, err, s))
           })
      })"

end
