(* ===== verification/Buf_Inv.thy ===== *)
theory Buf_Inv
  imports Buf_Rw
begin

text \<open>
  The invariant of the buffer pool: the list of pages with its old part, the page hash, the flush list and the free list
  fit together. It is kept when a page is no longer dirty, is taken out of list and hash, or is new in them.
\<close>

section \<open>The invariant of the pool\<close>

definition pool_inv :: "srv_settings \<Rightarrow> buf_pool_t \<Rightarrow> bool" where
  "pool_inv srv pool \<longleftrightarrow> lru_inv srv pool \<and>
     (\<forall>b \<in> set (lru_list pool). b < curr_size pool \<and> pg_state (bblocks pool b) = BUF_BLOCK_FILE_PAGE \<and>
        page_hash pool (page_addr (bblocks pool b)) = Some (Page b)) \<and> curr_size pool < 2 ^ 62 \<and>
     (\<forall>a b. page_hash pool a = Some (Page b) \<longrightarrow> b \<in> set (lru_list pool) \<and> page_addr (bblocks pool b) = a) \<and>
     distinct (flush_list pool) \<and>
     (\<forall>b. b \<in> set (flush_list pool) \<longleftrightarrow> b \<in> set (lru_list pool) \<and> oldest_modification (bblocks pool b) \<noteq> 0) \<and>
     distinct (free_list pool) \<and> (\<forall>b \<in> set (free_list pool). pg_state (bblocks pool b) = BUF_BLOCK_NOT_USED)"

text \<open>The parts of the pool that the invariant reads.\<close>

definition block_key :: "buf_block_t \<Rightarrow> buf_page_state \<times> (nat \<times> nat) \<times> bool \<times> bool" where
  "block_key k = (pg_state k, page_addr k, pg_old k, oldest_modification k = 0)"

definition same_core :: "buf_pool_t \<Rightarrow> buf_pool_t \<Rightarrow> bool" where
  "same_core pool' pool \<longleftrightarrow>
     (\<forall>b. block_key (bblocks pool' b) = block_key (bblocks pool b)) \<and> curr_size pool' = curr_size pool \<and>
     page_hash pool' = page_hash pool \<and> free_list pool' = free_list pool \<and> lru_list pool' = lru_list pool \<and>
     flush_list pool' = flush_list pool \<and> LRU_old pool' = LRU_old pool \<and> LRU_old_len pool' = LRU_old_len pool \<and>
     LRU_old_ratio pool' = LRU_old_ratio pool \<and> LRU_bytes pool' = LRU_bytes pool"

lemma lru_inv_cong:
  assumes "lru_list pool' = lru_list pool" "LRU_old pool' = LRU_old pool" "LRU_old_len pool' = LRU_old_len pool"
    "LRU_old_ratio pool' = LRU_old_ratio pool" "LRU_bytes pool' = LRU_bytes pool"
    and blocks: "\<And>b. b \<in> set (lru_list pool) \<Longrightarrow>
      pg_state (bblocks pool' b) = pg_state (bblocks pool b) \<and> pg_old (bblocks pool' b) = pg_old (bblocks pool b)"
  shows "lru_inv srv pool' = lru_inv srv pool"
proof -
  have "old_split ys os pool' = old_split ys os pool" for ys os
  proof (cases "lru_list pool = ys @ os")
    case True
    then have "b \<in> set ys \<union> set os \<Longrightarrow> pg_old (bblocks pool' b) = pg_old (bblocks pool b)" for b using blocks by auto
    then show ?thesis using assms(1-3) by (auto simp: old_split_def)
  qed (use assms(1) in \<open>simp add: old_split_def\<close>)
  moreover have "old_new_len pool' = old_new_len pool" using assms by (simp add: old_new_len_def)
  moreover have "lru_base srv pool' = lru_base srv pool" using assms by (auto simp: lru_base_def)
  ultimately show ?thesis using assms by (simp add: lru_inv_def cong: ball_cong)
qed

lemma pool_inv_core:
  assumes "same_core pool' pool"
  shows "lru_inv srv pool' = lru_inv srv pool" and "pool_inv srv pool' = pool_inv srv pool"
proof -
  have k: "pg_state (bblocks pool' b) = pg_state (bblocks pool b)" "page_addr (bblocks pool' b) = page_addr (bblocks pool b)"
    "pg_old (bblocks pool' b) = pg_old (bblocks pool b)"
    "(oldest_modification (bblocks pool' b) = 0) = (oldest_modification (bblocks pool b) = 0)" for b
    using assms by (simp_all add: same_core_def block_key_def)
  show l: "lru_inv srv pool' = lru_inv srv pool"
    by (rule lru_inv_cong) (use assms k in \<open>simp_all add: same_core_def\<close>)
  show "pool_inv srv pool' = pool_inv srv pool"
    using assms k l by (simp add: same_core_def pool_inv_def)
qed

lemma same_core_upd_block:
  assumes "block_key (f (bblocks pool b)) = block_key (bblocks pool b)"
  shows "same_core (upd_block b f pool) pool"
  using assms by (simp add: same_core_def upd_block_def)

lemma same_core_trans: "same_core p q \<Longrightarrow> same_core q r \<Longrightarrow> same_core p r"
  by (simp add: same_core_def)

lemma lru_frame_fields:
  assumes "lru_frame pool' = lru_frame pool"
  shows "page_hash pool' = page_hash pool" "flush_list pool' = flush_list pool" "free_list pool' = free_list pool"
    "curr_size pool' = curr_size pool"
proof -
  have "page_hash (lru_frame pool') = page_hash (lru_frame pool)" "flush_list (lru_frame pool') = flush_list (lru_frame pool)"
    "free_list (lru_frame pool') = free_list (lru_frame pool)" "curr_size (lru_frame pool') = curr_size (lru_frame pool)"
    using assms by simp_all
  then show "page_hash pool' = page_hash pool" "flush_list pool' = flush_list pool" "free_list pool' = free_list pool"
    "curr_size pool' = curr_size pool" by (simp_all add: lru_frame_def)
qed

text \<open>A block up to the marks of the list.\<close>

definition unmarked :: "buf_block_t \<Rightarrow> buf_block_t" where
  "unmarked k = k\<lparr>pg_old := False, pg_freed_page_clock := 0\<rparr>"

lemma unmarked_frame:
  assumes "lru_frame pool' = lru_frame pool"
  shows "unmarked (bblocks pool' b) = unmarked (bblocks pool b)"
proof -
  have "bblocks (lru_frame pool') b = bblocks (lru_frame pool) b" using assms by simp
  then show ?thesis by (simp add: lru_frame_def unmarked_def)
qed

lemma unmarked_fields:
  assumes "unmarked k' = unmarked k"
  shows "pg_state k' = pg_state k" "page_addr k' = page_addr k" "oldest_modification k' = oldest_modification k"
    "buf_fix_count k' = buf_fix_count k" "io_fix k' = io_fix k" "frame k' = frame k" "use_rw_cmd k' = use_rw_cmd k"
    "target_rw_cmd k' = target_rw_cmd k" "lock_word k' = lock_word k" "flush_type k' = flush_type k"
    "newest_modification k' = newest_modification k" "pg_space k' = pg_space k" "pg_offset k' = pg_offset k"
  using assms by (cases k; cases k'; simp add: unmarked_def page_addr_def)+

section \<open>Changes of lists and hash\<close>

lemma pool_invD:
  assumes "pool_inv srv pool" and "b \<in> set (lru_list pool)"
  shows "b < curr_size pool" "pg_state (bblocks pool b) = BUF_BLOCK_FILE_PAGE" "page_hash pool (page_addr (bblocks pool b)) = Some (Page b)"
    "b \<notin> set (free_list pool)"
  using assms by (auto simp: pool_inv_def)

lemma pool_inv_hash:
  assumes "pool_inv srv pool" and "page_hash pool a = Some (Page b)"
  shows "b \<in> set (lru_list pool)" "page_addr (bblocks pool b) = a"
  using assms unfolding pool_inv_def by blast+

lemma pool_inv_lists:
  assumes "pool_inv srv pool"
  shows "b \<in> set (flush_list pool) \<longleftrightarrow> b \<in> set (lru_list pool) \<and> oldest_modification (bblocks pool b) \<noteq> 0"
    and "b \<in> set (free_list pool) \<Longrightarrow> pg_state (bblocks pool b) = BUF_BLOCK_NOT_USED"
    and "distinct (flush_list pool)" "distinct (free_list pool)" "curr_size pool < 2 ^ 62" "lru_inv srv pool"
    "distinct (lru_list pool)"
  using assms unfolding pool_inv_def lru_inv_def lru_base_def by blast+

lemma pool_invI:
  assumes "lru_inv srv pool"
    and "\<And>b. b \<in> set (lru_list pool) \<Longrightarrow> b < curr_size pool \<and> pg_state (bblocks pool b) = BUF_BLOCK_FILE_PAGE \<and>
      page_hash pool (page_addr (bblocks pool b)) = Some (Page b)"
    and "curr_size pool < 2 ^ 62"
    and "\<And>a b. page_hash pool a = Some (Page b) \<Longrightarrow> b \<in> set (lru_list pool) \<and> page_addr (bblocks pool b) = a"
    and "distinct (flush_list pool)"
    and "\<And>b. b \<in> set (flush_list pool) \<longleftrightarrow> b \<in> set (lru_list pool) \<and> oldest_modification (bblocks pool b) \<noteq> 0"
    and "distinct (free_list pool)" and "\<And>b. b \<in> set (free_list pool) \<Longrightarrow> pg_state (bblocks pool b) = BUF_BLOCK_NOT_USED"
  shows "pool_inv srv pool"
  using assms unfolding pool_inv_def by blast

lemma flush_remove_inv:
  assumes inv: "pool_inv srv pool" and b: "b \<in> set (lru_list pool)"
  shows "\<exists>pool'. buf_flush_remove srv b pool = Some pool' \<and> pool_inv srv pool' \<and> lru_list pool' = lru_list pool \<and>
    page_hash pool' = page_hash pool \<and> curr_size pool' = curr_size pool \<and> free_list pool' = free_list pool \<and>
    bblocks pool' = (bblocks pool)(b := (bblocks pool b)\<lparr>oldest_modification := 0\<rparr>)"
proof -
  have st: "pg_state (bblocks pool b) = BUF_BLOCK_FILE_PAGE" by (rule pool_invD(2) [OF inv b])
  then obtain q where q: "buf_flush_remove srv b pool = Some q" "lru_list q = lru_list pool" "page_hash q = page_hash pool"
    "curr_size q = curr_size pool" "flush_list q = remove1 b (flush_list pool)" "free_list q = free_list pool"
    "LRU_old q = LRU_old pool" "LRU_old_len q = LRU_old_len pool" "LRU_old_ratio q = LRU_old_ratio pool"
    "LRU_bytes q = LRU_bytes pool" "bblocks q = (bblocks pool)(b := (bblocks pool b)\<lparr>oldest_modification := 0\<rparr>)"
    by (simp add: buf_flush_remove_def Let_def upd_block_def)
  have "lru_inv srv q = lru_inv srv pool" by (rule lru_inv_cong) (use q in simp_all)
  then have "lru_inv srv q" using inv by (simp add: pool_inv_def)
  moreover have "page_addr (bblocks q c) = page_addr (bblocks pool c)" for c using q by (simp add: page_addr_def)
  ultimately have "pool_inv srv q"
    using inv q by (auto simp: pool_inv_def set_remove1_distinct distinct_remove1)
  then show ?thesis using q by blast
qed

lemma unhash_block_inv:
  assumes inv: "pool_inv srv pool" and b: "b \<in> set (lru_list pool)"
    and free: "io_fix (bblocks pool b) = BUF_IO_NONE" "buf_fix_count (bblocks pool b) = 0" "oldest_modification (bblocks pool b) = 0"
  shows "\<exists>pool'. unhash_block srv b pool = Some pool' \<and>
    pool_inv srv (upd_block b (\<lambda>k. k\<lparr>pg_state := BUF_BLOCK_READY_FOR_USE, pg_space := x, pg_offset := y\<rparr>) pool') \<and>
    lru_list pool' = remove1 b (lru_list pool) \<and> curr_size pool' = curr_size pool \<and> free_list pool' = free_list pool \<and>
    page_hash pool' = (page_hash pool)(page_addr (bblocks pool b) := None) \<and>
    unmarked (bblocks pool' b) = unmarked ((bblocks pool b)\<lparr>modify_clock := modify_clock (bblocks pool b) + 1\<rparr>)"
proof -
  have l: "lru_inv srv pool" using inv by (simp add: pool_inv_def)
  obtain q where q: "buf_LRU_remove_block srv b pool = Some q" "lru_inv srv q" "lru_frame q = lru_frame pool"
    "lru_list q = remove1 b (lru_list pool)" using lru_remove.runs [OF l b] by blast
  note ff = lru_frame_fields [OF q(3)] and bf = unmarked_fields [OF unmarked_frame [OF q(3)]]
  define r where "r = upd_block b (\<lambda>k. k\<lparr>modify_clock := modify_clock k + 1\<rparr>)
    (q\<lparr>pool_freed_page_clock := pool_freed_page_clock q + 1, page_hash := (page_hash pool)(page_addr (bblocks pool b) := None)\<rparr>)"
  have run: "unhash_block srv b pool = Some r"
    using free q(1) ff bf pool_invD [OF inv b]
    by (auto simp: unhash_block_def Let_def r_def upd_block_def page_addr_def)
  define t where "t = upd_block b (\<lambda>k. k\<lparr>pg_state := BUF_BLOCK_READY_FOR_USE, pg_space := x, pg_offset := y\<rparr>) r"
  have set: "set (lru_list t) = set (lru_list pool) - {b}"
    using q(4) l by (simp add: t_def r_def lru_inv_def lru_base_def)
  have blocks: "c \<noteq> b \<Longrightarrow> bblocks t c = bblocks q c" for c by (simp add: t_def r_def)
  have "pool_inv srv t"
  proof (rule pool_invI)
    have "lru_inv srv t = lru_inv srv q" by (rule lru_inv_cong) (use set in \<open>auto simp: t_def r_def\<close>)
    then show "lru_inv srv t" using q(2) by simp
    show "c < curr_size t \<and> pg_state (bblocks t c) = BUF_BLOCK_FILE_PAGE \<and>
        page_hash t (page_addr (bblocks t c)) = Some (Page c)" if "c \<in> set (lru_list t)" for c
      using that set blocks ff bf pool_invD [OF inv, of c] pool_invD(3) [OF inv b] by (auto simp: t_def r_def upd_block_def)
    show "c \<in> set (lru_list t) \<and> page_addr (bblocks t c) = a" if "page_hash t a = Some (Page c)" for a c
    proof -
      have "a \<noteq> page_addr (bblocks pool b)" "page_hash pool a = Some (Page c)" using that by (auto simp: t_def r_def split: if_splits)
      then have c: "c \<in> set (lru_list pool)" "c \<noteq> b" "page_addr (bblocks pool c) = a" using pool_inv_hash [OF inv] by metis+
      then show ?thesis unfolding blocks [OF c(2)] bf(2) set by simp
    qed
    show "c \<in> set (flush_list t) \<longleftrightarrow> c \<in> set (lru_list t) \<and> oldest_modification (bblocks t c) \<noteq> 0" for c
      using pool_inv_lists(1) [OF inv, of c] free(3) set blocks [of c] ff(2) bf(3) [of c] by (cases "c = b") (simp_all add: t_def r_def)
    show "pg_state (bblocks t c) = BUF_BLOCK_NOT_USED" if "c \<in> set (free_list t)" for c
    proof -
      have c: "c \<in> set (free_list pool)" "c \<noteq> b" using that ff(3) pool_invD(4) [OF inv b] by (auto simp: t_def r_def)
      then show ?thesis unfolding blocks [OF c(2)] bf(1) using pool_inv_lists(2) [OF inv] by blast
    qed
    show "curr_size t < 2 ^ 62" "distinct (flush_list t)" "distinct (free_list t)"
      using pool_inv_lists(3-5) [OF inv] ff(2-4) by (simp_all add: t_def r_def upd_block_def)
  qed
  moreover have "unmarked (bblocks r b) = unmarked ((bblocks pool b)\<lparr>modify_clock := modify_clock (bblocks pool b) + 1\<rparr>)"
    using unmarked_frame [OF q(3), of b] by (cases "bblocks q b"; cases "bblocks pool b") (simp add: r_def unmarked_def)
  ultimately show ?thesis using run q(4) ff unfolding t_def
    by (intro exI [of _ r]) (simp add: r_def upd_block_def)
qed

lemma lru_length:
  assumes "pool_inv srv pool"
  shows "length (lru_list pool) \<le> curr_size pool"
proof -
  have "set (lru_list pool) \<subseteq> {..<curr_size pool}" using pool_invD(1) [OF assms] by auto
  then have "card (set (lru_list pool)) \<le> card {..<curr_size pool}" by (intro card_mono) auto
  then show ?thesis using distinct_card [OF pool_inv_lists(7) [OF assms]] by simp
qed

lemma add_new_block_inv:
  assumes inv: "pool_inv srv pool" and b: "b \<notin> set (lru_list pool)" "b \<notin> set (free_list pool)" "b < curr_size pool"
    and a: "page_hash pool (page_addr k) = None" and k: "pg_state k = BUF_BLOCK_FILE_PAGE" "oldest_modification k = 0"
  shows "\<exists>pool'. buf_LRU_add_block_low srv b False
      (upd_block b (\<lambda>_. k) (pool\<lparr>page_hash := (page_hash pool)(page_addr k := Some (Page b))\<rparr>)) = Some pool' \<and>
    pool_inv srv pool' \<and> set (lru_list pool') = insert b (set (lru_list pool)) \<and> curr_size pool' = curr_size pool \<and>
    free_list pool' = free_list pool \<and> page_hash pool' = (page_hash pool)(page_addr k := Some (Page b)) \<and>
    unmarked (bblocks pool' b) = unmarked k"
proof -
  define q where "q = upd_block b (\<lambda>_. k) (pool\<lparr>page_hash := (page_hash pool)(page_addr k := Some (Page b))\<rparr>)"
  have "lru_inv srv q = lru_inv srv pool" by (rule lru_inv_cong) (use b(1) in \<open>auto simp: q_def\<close>)
  then have l: "lru_inv srv q" using pool_inv_lists(6) [OF inv] by simp
  moreover have "can_add b q"
    using b(1) k lru_length [OF inv] pool_inv_lists(5) [OF inv] by (simp add: can_add_def q_def)
  ultimately obtain r where r: "buf_LRU_add_block_low srv b False q = Some r" "lru_inv srv r" "lru_frame r = lru_frame q"
    "lru_list r = b # lru_list pool" using lru_add.runs [of srv q b False] by (auto simp: add_spec_def q_def)
  note ff = lru_frame_fields [OF r(3)] and bf = unmarked_fields [OF unmarked_frame [OF r(3)]]
  have hash: "page_hash r = (page_hash pool)(page_addr k := Some (Page b))" using ff(1) by (simp add: q_def)
  have lists: "flush_list r = flush_list pool" "free_list r = free_list pool" "curr_size r = curr_size pool"
    using ff by (simp_all add: q_def upd_block_def)
  have new: "pg_state (bblocks r b) = BUF_BLOCK_FILE_PAGE" "page_addr (bblocks r b) = page_addr k" "oldest_modification (bblocks r b) = 0"
    unfolding bf using k by (simp_all add: q_def)
  have other: "pg_state (bblocks r c) = pg_state (bblocks pool c)" "page_addr (bblocks r c) = page_addr (bblocks pool c)"
    "oldest_modification (bblocks r c) = oldest_modification (bblocks pool c)" if "c \<noteq> b" for c
    unfolding bf using that by (simp_all add: q_def)
  have "pool_inv srv r"
  proof (rule pool_invI)
    show "c < curr_size r \<and> pg_state (bblocks r c) = BUF_BLOCK_FILE_PAGE \<and> page_hash r (page_addr (bblocks r c)) = Some (Page c)"
      if "c \<in> set (lru_list r)" for c
      using that b(3) a pool_invD [OF inv, of c] other [of c] by (cases "c = b") (auto simp: hash lists r(4) new)
    show "c \<in> set (lru_list r) \<and> page_addr (bblocks r c) = x" if "page_hash r x = Some (Page c)" for x c
    proof (cases "x = page_addr k")
      case True
      then show ?thesis using that new(2) by (simp add: hash r(4))
    next
      case False
      then have c: "c \<in> set (lru_list pool)" "page_addr (bblocks pool c) = x" using that pool_inv_hash [OF inv] by (simp_all add: hash)
      then have "c \<noteq> b" using b(1) by blast
      then show ?thesis using c other(2) by (simp add: r(4))
    qed
    show "c \<in> set (flush_list r) \<longleftrightarrow> c \<in> set (lru_list r) \<and> oldest_modification (bblocks r c) \<noteq> 0" for c
      using pool_inv_lists(1) [OF inv, of c] b(1) new(3) other(3) [of c] by (cases "c = b") (simp_all add: lists r(4))
    show "pg_state (bblocks r c) = BUF_BLOCK_NOT_USED" if "c \<in> set (free_list r)" for c
      using that b(2) other(1) [of c] pool_inv_lists(2) [OF inv, of c] by (cases "c = b") (simp_all add: lists)
  qed (use r(2) pool_inv_lists [OF inv] in \<open>simp_all add: lists\<close>)
  then show ?thesis
    using r lists hash unmarked_frame [OF r(3), of b] unfolding q_def by (intro exI [of _ r]) simp
qed

end
