(* ===== verification/Buf_Exchange.thy ===== *)
theory Buf_Exchange
  imports Buf_Inv
begin

text \<open>
  The steps by which a block of the pool changes its page through an RW command: the i/o on the victim, its removal from list
  and hash, and the installation of the page that was read. What of the state the steps depend on is a
  record, \<open>rw_view\<close>; each lemma gives its value after a step. What the other threads may do in
  between is the predicate \<open>spares\<close>.
\<close>

section \<open>Pages in memory and on the device\<close>

type_synonym disk = "nat \<Rightarrow> nat \<Rightarrow> 8 word"

text \<open>The content of a page that starts at a block of the device, and a number of four bytes in a page.\<close>

definition disk_page :: "nat \<Rightarrow> disk \<Rightarrow> nat \<Rightarrow> nat \<Rightarrow> 8 word" where
  "disk_page n d lba = (\<lambda>k. if k < n then d (lba + k div 4096) (k mod 4096) else 0)"

definition be4 :: "(nat \<Rightarrow> 8 word) \<Rightarrow> nat \<Rightarrow> nat" where
  "be4 p k = unat (p k) * 2 ^ 24 + unat (p (k + 1)) * 2 ^ 16 + unat (p (k + 2)) * 2 ^ 8 + unat (p (k + 3))"

text \<open>
  What the device does with an RW command: it takes the blocks to write from the buffer, and then fills the buffer with
  the blocks to read.
\<close>

definition rw_effect :: "nvme_passthru_cmd \<Rightarrow> disk host \<Rightarrow> disk host" where
  "rw_effect cmd h =
     (let w = unat (cdw10 cmd); nw = unat (cdw12 cmd) + 1; r = unat (cdw14 cmd); nr = unat (cdw13 cmd) + 1;
          d = (\<lambda>l k. if w \<le> l \<and> l < w + nw \<and> k < 4096 then ram h (addr cmd + of_nat ((l - w) * 4096 + k)) else dev h l k);
          m = (\<lambda>x. let k = unat (x - addr cmd) in if k < nr * 4096 then d (r + k div 4096) (k mod 4096) else ram h x)
      in \<lparr>ram = m, dev = d\<rparr>)"

definition rw_device :: "(nvme_passthru_cmd \<Rightarrow> disk host \<Rightarrow> disk host option) \<Rightarrow> bool" where
  "rw_device send \<longleftrightarrow> (\<forall>cmd h. opcode cmd = 0x66 \<longrightarrow> send cmd h = Some (rw_effect cmd h))"

lemma ucast_lba: "n < 2 ^ 32 \<Longrightarrow> unat (ucast (of_nat n :: 64 word) :: 32 word) = n"
  by (simp add: unsigned_ucast_eq unsigned_of_nat take_bit_eq_mod)

lemma page_size:
  assumes "12 \<le> srv_page_size_shift srv" and "srv_page_size_shift srv \<le> 16"
  shows "4096 dvd UNIV_PAGE_SIZE srv" and "0 < UNIV_PAGE_SIZE srv" and "UNIV_PAGE_SIZE srv \<le> 65536" and "4096 \<le> UNIV_PAGE_SIZE srv"
proof -
  show "4096 dvd UNIV_PAGE_SIZE srv" using le_imp_power_dvd [OF assms(1), of 2] by (simp add: UNIV_PAGE_SIZE_def)
  show "0 < UNIV_PAGE_SIZE srv" by (simp add: UNIV_PAGE_SIZE_def)
  show "UNIV_PAGE_SIZE srv \<le> 65536" using power_increasing [OF assms(2), of "2 :: nat"] by (simp add: UNIV_PAGE_SIZE_def)
  show "4096 \<le> UNIV_PAGE_SIZE srv" using power_increasing [OF assms(1), of "2 :: nat"] by (simp add: UNIV_PAGE_SIZE_def)
qed

lemma rw_effect_pages:
  fixes ps :: nat and a :: "64 word" and h :: "disk host"
  assumes ps: "4096 dvd ps" "0 < ps" "ps \<le> 65536" and lba: "w < 2 ^ 32" "r < 2 ^ 32"
    and apart: "w + ps div 4096 \<le> r \<or> r + ps div 4096 \<le> w"
  defines "h' \<equiv> rw_effect (rw_passthru_cmd a (of_nat ps) (of_nat ps) (of_nat w) (of_nat r)) h"
  shows "disk_page ps (dev h') w = page_bytes ps (ram h) a" and "disk_page ps (dev h') r = disk_page ps (dev h) r"
    and "page_bytes ps (ram h') a = disk_page ps (dev h) r"
proof -
  define n where "n = ps div 4096"
  have n: "unat (ucast (of_nat ps :: 64 word) div 4096 - 1 :: 32 word) + 1 = n" "n * 4096 = ps" "0 < n"
    using page_nlb [OF ps] ps by (auto simp: n_def elim!: dvdE)
  define d where "d = (\<lambda>l k. if w \<le> l \<and> l < w + n \<and> k < 4096 then ram h (a + of_nat ((l - w) * 4096 + k)) else dev h l k)"
  define m where "m = (\<lambda>x. let k = unat (x - a) in if k < ps then d (r + k div 4096) (k mod 4096) else ram h x)"
  define cmd where "cmd = rw_passthru_cmd a (of_nat ps) (of_nat ps) (of_nat w) (of_nat r)"
  have c: "addr cmd = a" "unat (cdw10 cmd) = w" "unat (cdw14 cmd) = r" "unat (cdw12 cmd) + 1 = n" "unat (cdw13 cmd) + 1 = n"
    using n(1) lba by (simp_all add: cmd_def rw_passthru_cmd_def Let_def ucast_lba)
  have h': "h' = \<lparr>ram = m, dev = d\<rparr>"
    unfolding h'_def cmd_def [symmetric] rw_effect_def Let_def m_def d_def c n(2) ..
  have k: "k div 4096 < n" "k mod 4096 < 4096" "k div 4096 * 4096 + k mod 4096 = k" if "k < ps" for k
    using that n(2) by (simp_all add: less_mult_imp_div_less div_mult_mod_eq)
  show "disk_page ps (dev h') w = page_bytes ps (ram h) a"
    using k by (auto simp: h' d_def disk_page_def page_bytes_def fun_eq_iff)
  have far: "d (r + k div 4096) (k mod 4096) = dev h (r + k div 4096) (k mod 4096)" if "k < ps" for k
    using k [OF that] apart by (auto simp: d_def n_def)
  then show "disk_page ps (dev h') r = disk_page ps (dev h) r" by (simp add: h' disk_page_def fun_eq_iff)
  have "unat (of_nat k :: 64 word) = k" if "k < ps" for k using that ps(3) by (simp add: unsigned_of_nat take_bit_eq_mod)
  then show "page_bytes ps (ram h') a = disk_page ps (dev h) r"
    using far by (simp add: h' m_def page_bytes_def disk_page_def fun_eq_iff Let_def)
qed

text \<open>Two memories with the same content in a frame.\<close>

definition agree :: "nat \<Rightarrow> 64 word \<Rightarrow> (64 word \<Rightarrow> 8 word) \<Rightarrow> (64 word \<Rightarrow> 8 word) \<Rightarrow> bool" where
  "agree n a m m' \<longleftrightarrow> (\<forall>x. unat (x - a) < n \<longrightarrow> m x = m' x)"

lemma agree_page_bytes:
  assumes "n < 2 ^ 64"
  shows "page_bytes n m a = page_bytes n m' a \<longleftrightarrow> agree n a m m'"
proof
  assume p: "page_bytes n m a = page_bytes n m' a"
  have "m x = m' x" if "unat (x - a) < n" for x
    using fun_cong [OF p, of "unat (x - a)"] that by (simp add: page_bytes_def)
  then show "agree n a m m'" by (simp add: agree_def)
next
  assume "agree n a m m'"
  moreover have "unat (of_nat k :: 64 word) < n" if "k < n" for k using that assms by (simp add: unsigned_of_nat take_bit_eq_mod)
  ultimately show "page_bytes n m a = page_bytes n m' a" by (simp add: page_bytes_def agree_def fun_eq_iff)
qed

lemma agree_write:
  assumes "agree n a m m'"
  shows "agree n a (mach_write_to_4 b v m) (mach_write_to_4 b v m')" and "agree n a (mach_write_to_8 b u m) (mach_write_to_8 b u m')"
  using assms by (simp_all add: agree_def mach_write_to_8_def mach_write_to_4_def)

lemma stamp_local:
  assumes "UNIV_PAGE_SIZE (settings env) < 2 ^ 64"
    and "page_bytes (UNIV_PAGE_SIZE (settings env)) m a = page_bytes (UNIV_PAGE_SIZE (settings env)) m' a"
  shows "page_bytes (UNIV_PAGE_SIZE (settings env)) (buf_flush_init_for_writing env a lsn m) a =
    page_bytes (UNIV_PAGE_SIZE (settings env)) (buf_flush_init_for_writing env a lsn m') a"
proof -
  define P where "P = UNIV_PAGE_SIZE (settings env)"
  note pb = agree_page_bytes [OF assms(1) [folded P_def], of _ a]
  define f where "f x = mach_write_to_8 (a + of_nat P - FIL_PAGE_END_LSN_OLD_CHKSUM) (of_nat lsn)
    (mach_write_to_8 (a + FIL_PAGE_LSN) (of_nat lsn) x)" for x
  have f: "agree P a (f m) (f m')" using assms(2) unfolding f_def P_def [symmetric] pb by (intro agree_write)
  then have c: "page_bytes P (f m) a = page_bytes P (f m') a"
    "page_bytes P (mach_write_to_4 b v (f m)) a = page_bytes P (mach_write_to_4 b v (f m')) a" for b v
    unfolding pb by (blast intro: agree_write)+
  show ?thesis
    unfolding pb P_def [symmetric] buf_flush_init_for_writing_def Let_def f_def [symmetric]
    by (auto simp: c intro!: agree_write f)
qed

section \<open>The exchange and what may happen beside it\<close>

text \<open>A block, the page it holds, the page that is wanted, and where the two are on the device.\<close>

record rw_job =
  job_block :: nat
  out_page :: "nat \<times> nat"
  in_page :: "nat \<times> nat"
  out_lba :: nat
  in_lba :: nat

text \<open>The files of both pages are open, the limit of open files is not reached, and the file system maps the pages to the two addresses.\<close>

definition page_at :: "disk buf_env \<Rightarrow> fil_system_t \<Rightarrow> nat \<times> nat \<Rightarrow> nat \<Rightarrow> bool" where
  "page_at env sys pg lba \<longleftrightarrow>
     (\<exists>n k. holds_page sys (fst pg) (snd pg) n k \<and> node_open (nodes sys n) \<and>
        buf_get_lba (file_blksize env) (file_fibmap env) (node_handle (nodes sys n)) (of_nat (k * UNIV_PAGE_SIZE (settings env))) =
          Some (of_nat lba))"

definition files_ready :: "disk buf_env \<Rightarrow> rw_job \<Rightarrow> fil_system_t \<Rightarrow> bool" where
  "files_ready env J sys \<longleftrightarrow> fil_inv (settings env) sys \<and>
     page_at env sys (out_page J) (out_lba J) \<and> page_at env sys (in_page J) (in_lba J) \<and>
     (\<forall>n. node_size (nodes sys n) < 2 ^ 64) \<and> n_open sys < max_n_open sys \<and>
     \<not> (\<exists>sw sr. spaces sys (fst (out_page J)) = Some sw \<and> spaces sys (fst (in_page J)) = Some sr \<and> stop_ios sw \<and> stop_ios sr)"

text \<open>What of the state the exchange depends on.\<close>

record rw_view =
  v_block :: buf_block_t
  v_hash :: "hashed option"
  v_frame :: "nat \<Rightarrow> 8 word"
  v_out :: "nat \<Rightarrow> 8 word"
  v_in :: "nat \<Rightarrow> 8 word"
  v_listed :: bool
  v_free :: bool
  v_size :: nat
  v_slots :: "nat set"

definition view :: "disk buf_env \<Rightarrow> rw_job \<Rightarrow> disk srv_state \<Rightarrow> rw_view" where
  "view env J s =
     (let P = UNIV_PAGE_SIZE (settings env); b = job_block J in
      \<lparr>v_block = unmarked (blk s b), v_hash = page_hash (bp s) (in_page J),
       v_frame = page_bytes P (ram (hm s)) (frame (blk s b)), v_out = disk_page P (dev (hm s)) (out_lba J),
       v_in = disk_page P (dev (hm s)) (in_lba J), v_listed = (b \<in> set (lru_list (bp s))),
       v_free = (b \<in> set (free_list (bp s))), v_size = curr_size (bp s),
       v_slots = {i. dblwr_arr s i = Some b}\<rparr>)"

text \<open>
  What the other threads and the log do: as long as the block is marked as the target of an RW command or as holding
  its result, they leave the block and its frame alone, do not read in the wanted page themselves, write neither page on the
  device, reserve no slot of the doublewrite buffer for the block and keep the files open.
\<close>

definition keeps :: "disk buf_env \<Rightarrow> rw_job \<Rightarrow> (disk srv_state \<Rightarrow> disk srv_state) \<Rightarrow> bool" where
  "keeps env J f \<longleftrightarrow>
     (\<forall>s. pool_inv (settings env) (bp s) \<and> (target_rw_cmd (blk s (job_block J)) \<or> use_rw_cmd (blk s (job_block J))) \<longrightarrow>
        pool_inv (settings env) (bp (f s)) \<and> view env J (f s) = view env J s \<and>
        (files_ready env J (fs s) \<longrightarrow> files_ready env J (fs (f s))))"

definition spares :: "disk buf_env \<Rightarrow> rw_job \<Rightarrow> bool" where
  "spares env J \<longleftrightarrow> (\<forall>t. keeps env J (other_threads env t)) \<and> (\<forall>lsn. keeps env J (log_write_up_to env lsn))"

text \<open>
  The server and the device: pages of 4 to 64 KB, and a device that carries out RW commands. The two pages do not overlap
  there.
\<close>

definition rw_server :: "disk buf_env \<Rightarrow> rw_job \<Rightarrow> bool" where
  "rw_server env J \<longleftrightarrow>
     12 \<le> srv_page_size_shift (settings env) \<and> srv_page_size_shift (settings env) \<le> 16 \<and>
     rw_device (nvme_send env) \<and> leaves_io (settings env) (fil_during env) \<and>
     out_lba J < 2 ^ 32 \<and> in_lba J < 2 ^ 32 \<and>
     (out_lba J + UNIV_PAGE_SIZE (settings env) div 4096 \<le> in_lba J \<or> in_lba J + UNIV_PAGE_SIZE (settings env) div 4096 \<le> out_lba J)"

lemma unmarked_same [simp]:
  "pg_state (unmarked k) = pg_state k" "page_addr (unmarked k) = page_addr k" "oldest_modification (unmarked k) = oldest_modification k"
  "buf_fix_count (unmarked k) = buf_fix_count k" "io_fix (unmarked k) = io_fix k" "frame (unmarked k) = frame k"
  "use_rw_cmd (unmarked k) = use_rw_cmd k" "target_rw_cmd (unmarked k) = target_rw_cmd k" "lock_word (unmarked k) = lock_word k"
  "flush_type (unmarked k) = flush_type k" "newest_modification (unmarked k) = newest_modification k"
  "pg_space (unmarked k) = pg_space k" "pg_offset (unmarked k) = pg_offset k"
  by (simp_all add: unmarked_def page_addr_def)

lemma view_fields:
  assumes "view env J s = V"
  shows "pg_state (blk s (job_block J)) = pg_state (v_block V)" "page_addr (blk s (job_block J)) = page_addr (v_block V)"
    "oldest_modification (blk s (job_block J)) = oldest_modification (v_block V)"
    "buf_fix_count (blk s (job_block J)) = buf_fix_count (v_block V)" "io_fix (blk s (job_block J)) = io_fix (v_block V)"
    "frame (blk s (job_block J)) = frame (v_block V)" "use_rw_cmd (blk s (job_block J)) = use_rw_cmd (v_block V)"
    "target_rw_cmd (blk s (job_block J)) = target_rw_cmd (v_block V)" "lock_word (blk s (job_block J)) = lock_word (v_block V)"
    "flush_type (blk s (job_block J)) = flush_type (v_block V)"
    "newest_modification (blk s (job_block J)) = newest_modification (v_block V)"
    "pg_space (blk s (job_block J)) = pg_space (v_block V)" "pg_offset (blk s (job_block J)) = pg_offset (v_block V)"
    "page_hash (bp s) (in_page J) = v_hash V" "job_block J \<in> set (lru_list (bp s)) \<longleftrightarrow> v_listed V"
    "job_block J \<in> set (free_list (bp s)) \<longleftrightarrow> v_free V" "curr_size (bp s) = v_size V"
    "page_bytes (UNIV_PAGE_SIZE (settings env)) (ram (hm s)) (frame (blk s (job_block J))) = v_frame V"
  using assms by (auto simp: view_def Let_def)

lemma elsewhere_keeps:
  assumes "spares env J" and "pool_inv (settings env) (bp s)"
    and "target_rw_cmd (blk s (job_block J)) \<or> use_rw_cmd (blk s (job_block J))"
  shows "pool_inv (settings env) (bp (elsewhere env s))" and "view env J (elsewhere env s) = view env J s"
    and "files_ready env J (fs s) \<Longrightarrow> files_ready env J (fs (elsewhere env s))"
  using assms unfolding spares_def keeps_def elsewhere_def by (auto simp: view_def blk_def)

lemma view_set_blk:
  assumes "\<And>x. unmarked (f x) = f (unmarked x)" and "\<And>x. frame (f x) = frame x"
  shows "view env J (set_blk (job_block J) f s) = (view env J s)\<lparr>v_block := f (v_block (view env J s))\<rparr>"
  using assms by (simp add: view_def set_blk_def blk_def Let_def upd_block_def)

lemma pool_inv_set_blk:
  assumes "block_key (f (blk s b)) = block_key (blk s b)"
  shows "pool_inv srv (bp (set_blk b f s)) = pool_inv srv (bp s)"
  using pool_inv_core(2) [OF same_core_upd_block] assms by (simp add: set_blk_def blk_def)

lemma pool_inv_counters [simp]:
  "pool_inv srv (pool\<lparr>n_flush := x\<rparr>) = pool_inv srv pool" "pool_inv srv (pool\<lparr>n_pages_written := n\<rparr>) = pool_inv srv pool"
  "pool_inv srv (pool\<lparr>n_pages_read := n\<rparr>) = pool_inv srv pool" "pool_inv srv (pool\<lparr>n_pend_reads := w\<rparr>) = pool_inv srv pool"
  by (auto intro!: pool_inv_core(2) simp: same_core_def)

lemma view_counters [simp]:
  "view env J (s\<lparr>bp := (bp s)\<lparr>n_flush := x\<rparr>\<rparr>) = view env J s" "view env J (s\<lparr>bp := (bp s)\<lparr>n_pages_written := n\<rparr>\<rparr>) = view env J s"
  "view env J (s\<lparr>bp := (bp s)\<lparr>n_pend_reads := w\<rparr>\<rparr>) = view env J s"
  "view env J (s\<lparr>lru_stat_io := n\<rparr>) = view env J s" "view env J (s\<lparr>n_rwcmd := n\<rparr>) = view env J s"
  "view env J (s\<lparr>n_no_block := n\<rparr>) = view env J s"
  by (simp_all add: view_def blk_def Let_def)

text \<open>The i/o itself.\<close>

lemma rw_exchange:
  assumes srv: "rw_server env J" and ready: "files_ready env J sys"
  shows "\<exists>sys' st'. fil_io_with_rw_cmd (settings env) (files env) (fil_others env) (fil_during env) (file_blksize env) (file_fibmap env)
      (nvme_send env) OS_FILE_WRITE (fst (out_page J)) 0 (snd (out_page J)) 0 (UNIV_PAGE_SIZE (settings env)) a
      (fst (in_page J)) (snd (in_page J)) (sys, st, h) =
    Some (DB_SUCCESS, sys', st', rw_effect (rw_passthru_cmd a (of_nat (UNIV_PAGE_SIZE (settings env)))
      (of_nat (UNIV_PAGE_SIZE (settings env))) (of_nat (out_lba J)) (of_nat (in_lba J))) h)"
proof -
  obtain w kw where w: "holds_page sys (fst (out_page J)) (snd (out_page J)) w kw" "node_open (nodes sys w)"
    "buf_get_lba (file_blksize env) (file_fibmap env) (node_handle (nodes sys w)) (of_nat (kw * UNIV_PAGE_SIZE (settings env))) =
      Some (of_nat (out_lba J))"
    using ready by (auto simp: files_ready_def page_at_def)
  obtain r kr where r: "holds_page sys (fst (in_page J)) (snd (in_page J)) r kr" "node_open (nodes sys r)"
    "buf_get_lba (file_blksize env) (file_fibmap env) (node_handle (nodes sys r)) (of_nat (kr * UNIV_PAGE_SIZE (settings env))) =
      Some (of_nat (in_lba J))"
    using ready by (auto simp: files_ready_def page_at_def)
  have "opcode (rw_passthru_cmd b n m x y) = 0x66" for b n m x y by (simp add: rw_passthru_cmd_def Let_def)
  then have send: "nvme_send env (rw_passthru_cmd b n m x y) h = Some (rw_effect (rw_passthru_cmd b n m x y) h)" for b n m x y
    using srv by (simp add: rw_server_def rw_device_def)
  obtain st' where "os_rw_io_func (of_nat (UNIV_PAGE_SIZE (settings env))) (file_blksize env) (file_fibmap env) (nvme_send env)
      OS_FILE_WRITE (node_handle (nodes sys w)) a (of_nat (kw * UNIV_PAGE_SIZE (settings env)))
      (of_nat (UNIV_PAGE_SIZE (settings env))) (node_handle (nodes sys r)) (of_nat (kr * UNIV_PAGE_SIZE (settings env)))
      (of_nat (UNIV_PAGE_SIZE (settings env))) (st, h) =
    Some (st', rw_effect (rw_passthru_cmd a (of_nat (UNIV_PAGE_SIZE (settings env)))
      (of_nat (UNIV_PAGE_SIZE (settings env))) (of_nat (out_lba J)) (of_nat (in_lba J))) h)"
    using w(3) r(3) send by (simp add: os_rw_io_func_def Let_def)
  note io = this
  have f: "fil_inv (settings env) sys" "n_open sys < max_n_open sys"
    "\<not> (\<exists>sw sr. spaces sys (fst (out_page J)) = Some sw \<and> spaces sys (fst (in_page J)) = Some sr \<and> stop_ios sw \<and> stop_ios sr)"
    and size: "\<And>n. node_size (nodes sys n) < 2 ^ 64"
    using ready unfolding files_ready_def by blast+
  have g: "9 \<le> srv_page_size_shift (settings env)" "leaves_io (settings env) (fil_during env)"
    using srv by (simp_all add: rw_server_def)
  show ?thesis using rw_pages [OF f(1) w(1) r(1) w(2) r(2) size g(1) f(3) f(2) g(2) io] by blast
qed

text \<open>The stamped image of a page.\<close>

definition stamped :: "disk buf_env \<Rightarrow> buf_block_t \<Rightarrow> (nat \<Rightarrow> 8 word) \<Rightarrow> nat \<Rightarrow> 8 word" where
  "stamped env k img = page_bytes (UNIV_PAGE_SIZE (settings env))
     (buf_flush_init_for_writing env (frame k) (newest_modification k) (\<lambda>x. img (unat (x - frame k)))) (frame k)"

lemma stamped_frame:
  assumes "rw_server env J"
  shows "stamped env k (page_bytes (UNIV_PAGE_SIZE (settings env)) m (frame k)) =
    page_bytes (UNIV_PAGE_SIZE (settings env)) (buf_flush_init_for_writing env (frame k) (newest_modification k) m) (frame k)"
proof -
  have P: "UNIV_PAGE_SIZE (settings env) < 2 ^ 64" using page_size(3) [of "settings env"] assms by (simp add: rw_server_def)
  then have u: "unat (of_nat i :: 64 word) = i" if "i < UNIV_PAGE_SIZE (settings env)" for i
    using that by (simp add: unsigned_of_nat take_bit_eq_mod)
  show ?thesis unfolding stamped_def by (rule stamp_local [OF P]) (simp add: page_bytes_def fun_eq_iff u)
qed

lemma transfer_view:
  fixes s :: "disk srv_state"
  assumes srv: "rw_server env J" and b: "b = job_block J"
  defines "P \<equiv> UNIV_PAGE_SIZE (settings env)"
  defines "s0 \<equiv> set_ram (buf_flush_init_for_writing env (frame (blk s b)) (newest_modification (blk s b))) s"
  shows "view env J (s0\<lparr>fs := sys, ios := st,
      hm := rw_effect (rw_passthru_cmd (frame (blk s b)) (of_nat P) (of_nat P) (of_nat (out_lba J)) (of_nat (in_lba J))) (hm s0)\<rparr>) =
    (view env J s)\<lparr>v_frame := v_in (view env J s), v_out := stamped env (v_block (view env J s)) (v_frame (view env J s))\<rparr>"
proof -
  have j: "12 \<le> srv_page_size_shift (settings env)" "srv_page_size_shift (settings env) \<le> 16" "out_lba J < 2 ^ 32" "in_lba J < 2 ^ 32"
    "out_lba J + P div 4096 \<le> in_lba J \<or> in_lba J + P div 4096 \<le> out_lba J"
    using srv by (simp_all add: rw_server_def P_def)
  note e = rw_effect_pages [OF page_size(1-3) [OF j(1,2)] j(3,4) j(5) [unfolded P_def], of "frame (blk s b)" "hm s0", folded P_def]
  have "stamped env (unmarked (blk s b)) (page_bytes P (ram (hm s)) (frame (unmarked (blk s b)))) =
      page_bytes P (ram (hm s0)) (frame (blk s b))"
    unfolding P_def stamped_frame [OF srv] by (simp add: s0_def set_ram_def)
  then show ?thesis
    using e by (simp add: view_def Let_def blk_def s0_def set_ram_def b flip: P_def)
qed

lemma write_complete_runs:
  assumes "\<not> use_doublewrite_buf env" and inv: "pool_inv (settings env) (bp s)" and V: "view env J s = V"
    and k: "v_listed V" "io_fix (v_block V) = BUF_IO_WRITE"
  shows "\<exists>s'. buf_page_io_complete env (job_block J) s = Some (True, s') \<and> pool_inv (settings env) (bp s') \<and>
    view env J s' = V\<lparr>v_block := (v_block V)\<lparr>io_fix := BUF_IO_NONE, oldest_modification := 0, lock_word := lock_word (v_block V) + 1\<rparr>\<rparr>"
proof -
  define b where "b = job_block J"
  note F = view_fields [OF V, folded b_def]
  define s1 where "s1 = set_blk b (\<lambda>k. k\<lparr>io_fix := BUF_IO_NONE\<rparr>) s"
  have i1: "pool_inv (settings env) (bp s1)"
    unfolding s1_def by (subst pool_inv_set_blk) (use inv in \<open>simp_all add: block_key_def page_addr_def\<close>)
  have l1: "b \<in> set (lru_list (bp s1))" using k(1) F(15) by (simp add: s1_def set_blk_def)
  obtain q where q: "buf_flush_remove (settings env) b (bp s1) = Some q" "pool_inv (settings env) q" "lru_list q = lru_list (bp s1)"
    "page_hash q = page_hash (bp s1)" "curr_size q = curr_size (bp s1)" "free_list q = free_list (bp s1)"
    "bblocks q = (bblocks (bp s1))(b := (bblocks (bp s1) b)\<lparr>oldest_modification := 0\<rparr>)"
    using flush_remove_inv [OF i1 l1] by blast
  define s2 where "s2 = s1\<lparr>bp := q\<lparr>n_flush := (n_flush q)(flush_type (bblocks q b) := n_flush q (flush_type (bblocks q b)) - 1)\<rparr>\<rparr>"
  have "buf_flush_write_complete env b s1 = Some s2"
    using q(1) assms(1) by (simp add: buf_flush_write_complete_def in_pool_def buf_dblwr_update_def s2_def blk_def Let_def)
  moreover have st: "pg_state (blk s b) = BUF_BLOCK_FILE_PAGE" using pool_invD(2) [OF inv] k(1) F(15) by (simp add: blk_def)
  moreover define s3 where "s3 = set_blk b (\<lambda>k. k\<lparr>lock_word := lock_word k + 1\<rparr>) s2"
  ultimately have run: "buf_page_io_complete env b s = Some (True, s3\<lparr>bp := (bp s3)\<lparr>n_pages_written := n_pages_written (bp s3) + 1\<rparr>\<rparr>)"
    using k(2) F(5) by (simp add: buf_page_io_complete_def Let_def s1_def)
  have "pool_inv (settings env) (bp s3) = pool_inv (settings env) (bp s2)"
    unfolding s3_def by (rule pool_inv_set_blk) (simp add: block_key_def page_addr_def)
  then have "pool_inv (settings env) (bp s3)" using q(2) by (simp add: s2_def)
  moreover have "view env J s3 = V\<lparr>v_block := (v_block V)\<lparr>io_fix := BUF_IO_NONE, oldest_modification := 0,
      lock_word := lock_word (v_block V) + 1\<rparr>\<rparr>"
    using V [symmetric] q(3-7) by (simp add: view_def Let_def s3_def s2_def s1_def set_blk_def blk_def upd_block_def b_def unmarked_def)
  ultimately show ?thesis using run b_def by simp
qed

lemma log_keeps:
  assumes "spares env J" and "pool_inv (settings env) (bp s)"
    and "target_rw_cmd (blk s (job_block J)) \<or> use_rw_cmd (blk s (job_block J))"
  shows "pool_inv (settings env) (bp (log_write_up_to env lsn s))" and "view env J (log_write_up_to env lsn s) = view env J s"
    and "files_ready env J (fs s) \<Longrightarrow> files_ready env J (fs (log_write_up_to env lsn s))"
  using assms unfolding spares_def keeps_def by blast+

lemma claimed_view:
  assumes "target_rw_cmd (v_block (view env J s)) \<or> use_rw_cmd (v_block (view env J s))"
  shows "target_rw_cmd (blk s (job_block J)) \<or> use_rw_cmd (blk s (job_block J))"
  using assms by (simp add: view_def Let_def)

text \<open>The i/o is announced, the page is stamped and the command sent.\<close>

lemma announce_view:
  fixes s :: "disk srv_state" and ft :: buf_flush_t
  assumes inv: "pool_inv (settings env) (bp s)" and V: "view env J s = V"
  defines "f \<equiv> \<lambda>k. k\<lparr>lock_word := lock_word k - 1, io_fix := BUF_IO_WRITE, flush_type := ft\<rparr> :: buf_block_t"
  defines "s1 \<equiv> set_blk (job_block J) f s"
  defines "s2 \<equiv> s1\<lparr>bp := (bp s1)\<lparr>n_flush := (n_flush (bp s1))(ft := n_flush (bp s1) ft + 1)\<rparr>\<rparr>"
  shows "pool_inv (settings env) (bp s2)" and "view env J s2 = V\<lparr>v_block := f (v_block V)\<rparr>" and "fs s2 = fs s"
proof -
  have "pool_inv (settings env) (bp s1) = pool_inv (settings env) (bp s)"
    unfolding s1_def by (rule pool_inv_set_blk) (simp add: block_key_def page_addr_def f_def)
  then show "pool_inv (settings env) (bp s2)" using inv by (simp add: s2_def)
  show "view env J s2 = V\<lparr>v_block := f (v_block V)\<rparr>"
    using view_set_blk [of f env J s] V by (simp add: s2_def s1_def f_def unmarked_def)
  show "fs s2 = fs s" by (simp add: s2_def s1_def set_blk_def)
qed

lemma command_runs:
  fixes s :: "disk srv_state"
  assumes srv: "rw_server env J" and ready: "files_ready env J (fs s)" and V: "view env J s = V"
    and pg: "page_addr (v_block V) = out_page J"
  defines "b \<equiv> job_block J"
  defines "s0 \<equiv> set_ram (buf_flush_init_for_writing env (frame (blk s b)) (newest_modification (blk s b))) s"
  shows "\<exists>sys st h. fil_io_with_rw_cmd (settings env) (files env) (fil_others env) (fil_during env) (file_blksize env) (file_fibmap env)
      (nvme_send env) OS_FILE_WRITE (pg_space (blk s0 b)) 0 (pg_offset (blk s0 b)) 0 (UNIV_PAGE_SIZE (settings env)) (frame (blk s0 b))
      (fst (in_page J)) (snd (in_page J)) (fs s0, ios s0, hm s0) = Some (DB_SUCCESS, sys, st, h) \<and>
    view env J (s0\<lparr>fs := sys, ios := st, hm := h\<rparr>) = V\<lparr>v_frame := v_in V, v_out := stamped env (v_block V) (v_frame V)\<rparr>"
proof -
  have blk: "blk s0 b = blk s b" "fs s0 = fs s" by (simp_all add: s0_def set_ram_def blk_def)
  have pg': "pg_space (blk s b) = fst (out_page J)" "pg_offset (blk s b) = snd (out_page J)"
    using view_fields(2) [OF V] pg by (simp_all add: b_def page_addr_def flip: pg)
  show ?thesis
    using rw_exchange [OF srv ready, of "frame (blk s b)" "ios s0" "hm s0"] transfer_view [OF srv b_def [THEN meta_eq_to_obj_eq], of s, folded s0_def] V
    unfolding blk pg' by metis
qed

lemma exchange_sent:
  assumes srv: "rw_server env J" and sp: "spares env J" and inv: "pool_inv (settings env) (bp s)"
    and ready: "files_ready env J (fs s)" and V: "view env J s = V" and k: "target_rw_cmd (v_block V)" "v_listed V"
      "page_addr (v_block V) = out_page J" "0 < lock_word (v_block V)"
  shows "\<exists>s'. buf_flush_page_with_rw_cmd env (job_block J) ft (fst (in_page J)) (snd (in_page J)) s =
      do { (ok, s) \<leftarrow> buf_page_io_complete env (job_block J) s'; Some (True, s\<lparr>lru_stat_io := lru_stat_io s + 1\<rparr>) } \<and>
    pool_inv (settings env) (bp s') \<and>
    view env J s' = V\<lparr>v_block := (v_block V)\<lparr>lock_word := lock_word (v_block V) - 1, io_fix := BUF_IO_WRITE, flush_type := ft\<rparr>,
      v_frame := v_in V, v_out := stamped env (v_block V) (v_frame V)\<rparr>"
proof -
  define b where "b = job_block J"
  define f where "f = (\<lambda>k. k\<lparr>lock_word := lock_word k - 1, io_fix := BUF_IO_WRITE, flush_type := ft\<rparr> :: buf_block_t)"
  define V2 where "V2 = V\<lparr>v_block := f (v_block V)\<rparr>"
  define s1 where "s1 = set_blk b f s"
  define s2 where "s2 = s1\<lparr>bp := (bp s1)\<lparr>n_flush := (n_flush (bp s1))(ft := n_flush (bp s1) ft + 1)\<rparr>\<rparr>"
  have e2: "pool_inv (settings env) (bp s2)" "view env J s2 = V2" "fs s2 = fs s"
    unfolding s2_def s1_def V2_def f_def b_def by (rule announce_view [OF inv V])+
  have claimed: "target_rw_cmd (blk t (job_block J)) \<or> use_rw_cmd (blk t (job_block J))" if "v_block (view env J t) = v_block V2" for t
    by (rule claimed_view [of env]) (use that k(1) in \<open>simp add: V2_def f_def\<close>)
  define s3 where "s3 = elsewhere env s2"
  have e3: "pool_inv (settings env) (bp s3)" "view env J s3 = V2" "files_ready env J (fs s3)"
    using elsewhere_keeps [OF sp e2(1) claimed] e2 ready unfolding s3_def by auto
  define s4 where "s4 = log_write_up_to env (newest_modification (blk s3 b)) s3"
  have e4: "pool_inv (settings env) (bp s4)" "view env J s4 = V2" "files_ready env J (fs s4)"
    using log_keeps [OF sp e3(1) claimed] e3 unfolding s4_def by auto
  define s5 where "s5 = set_ram (buf_flush_init_for_writing env (frame (blk s4 b)) (newest_modification (blk s4 b))) s4"
  obtain sys st h where io: "fil_io_with_rw_cmd (settings env) (files env) (fil_others env) (fil_during env) (file_blksize env)
      (file_fibmap env) (nvme_send env) OS_FILE_WRITE (pg_space (blk s5 b)) 0 (pg_offset (blk s5 b)) 0 (UNIV_PAGE_SIZE (settings env))
      (frame (blk s5 b)) (fst (in_page J)) (snd (in_page J)) (fs s5, ios s5, hm s5) = Some (DB_SUCCESS, sys, st, h)"
    and v6: "view env J (s5\<lparr>fs := sys, ios := st, hm := h\<rparr>) = V2\<lparr>v_frame := v_in V2, v_out := stamped env (v_block V2) (v_frame V2)\<rparr>"
    using command_runs [OF srv e4(3,2), folded b_def, folded s5_def] k(3) by (auto simp: V2_def f_def page_addr_def)
  define s6 where "s6 = s5\<lparr>fs := sys, ios := st, hm := h\<rparr>"
  have i6: "pool_inv (settings env) (bp s6)" using e4(1) by (simp add: s6_def s5_def set_ram_def)
  define s7 where "s7 = elsewhere env s6"
  have e7: "pool_inv (settings env) (bp s7)" "view env J s7 = view env J s6"
    using elsewhere_keeps [OF sp i6 claimed] v6 unfolding s7_def s6_def by simp_all
  have "pg_state (blk s4 b) = BUF_BLOCK_FILE_PAGE"
    using pool_invD(2) [OF e4(1)] view_fields(15) [OF e4(2)] k(2) by (simp add: V2_def b_def blk_def)
  moreover have "\<not> lock_word (blk s b) \<le> 0" using view_fields(9) [OF V] k(4) by (simp add: b_def)
  ultimately have "buf_flush_page_with_rw_cmd env b ft (fst (in_page J)) (snd (in_page J)) s =
      do { (ok, s) \<leftarrow> buf_page_io_complete env b s7; Some (True, s\<lparr>lru_stat_io := lru_stat_io s + 1\<rparr>) }"
    using io unfolding buf_flush_page_with_rw_cmd_def Let_def s7_def s6_def s5_def s4_def s3_def s2_def s1_def f_def by simp
  then show ?thesis using e7 v6 unfolding s6_def by (auto simp: b_def V2_def f_def stamped_def)
qed

lemma exchange_runs:
  assumes "\<not> use_doublewrite_buf env" and "rw_server env J" and "spares env J" and "pool_inv (settings env) (bp s)"
    and "files_ready env J (fs s)" and "view env J s = V" and "target_rw_cmd (v_block V)" and listed: "v_listed V"
    and "page_addr (v_block V) = out_page J" and "0 < lock_word (v_block V)"
  shows "\<exists>s'. buf_flush_page_with_rw_cmd env (job_block J) ft (fst (in_page J)) (snd (in_page J)) s = Some (True, s') \<and>
    pool_inv (settings env) (bp s') \<and>
    view env J s' = V\<lparr>v_block := (v_block V)\<lparr>io_fix := BUF_IO_NONE, flush_type := ft, oldest_modification := 0\<rparr>,
      v_frame := v_in V, v_out := stamped env (v_block V) (v_frame V)\<rparr>"
proof -
  define V1 where "V1 = V\<lparr>v_block := (v_block V)\<lparr>lock_word := lock_word (v_block V) - 1, io_fix := BUF_IO_WRITE, flush_type := ft\<rparr>,
    v_frame := v_in V, v_out := stamped env (v_block V) (v_frame V)\<rparr>"
  obtain s1 where s1: "buf_flush_page_with_rw_cmd env (job_block J) ft (fst (in_page J)) (snd (in_page J)) s =
      do { (ok, s) \<leftarrow> buf_page_io_complete env (job_block J) s1; Some (True, s\<lparr>lru_stat_io := lru_stat_io s + 1\<rparr>) }"
    "pool_inv (settings env) (bp s1)" "view env J s1 = V1"
    using exchange_sent [OF assms(2-), of ft, folded V1_def] by (elim exE conjE) (rule that)
  have k: "v_listed V1" "io_fix (v_block V1) = BUF_IO_WRITE" using listed by (simp_all add: V1_def)
  obtain s2 where "buf_page_io_complete env (job_block J) s1 = Some (True, s2)" "pool_inv (settings env) (bp s2)"
    "view env J s2 = V1\<lparr>v_block := (v_block V1)\<lparr>io_fix := BUF_IO_NONE, oldest_modification := 0, lock_word := lock_word (v_block V1) + 1\<rparr>\<rparr>"
    using write_complete_runs [OF assms(1) s1(2,3) k] by (elim exE conjE) (rule that)
  then show ?thesis using s1(1) by (simp add: V1_def)
qed

text \<open>
  The i/o of an RW command reserves no slot in the doublewrite buffer, but its end gives one back: with the doublewrite buffer
  on, the assertion that there is one fails.
\<close>

lemma complete_without_slot:
  assumes "use_doublewrite_buf env" and "pg_state (blk s b) = BUF_BLOCK_FILE_PAGE" and "io_fix (blk s b) = BUF_IO_WRITE"
    and "flush_type (blk s b) = BUF_FLUSH_SINGLE_PAGE" and "\<And>i. dblwr_arr s i \<noteq> Some b"
  shows "buf_page_io_complete env b s = None"
proof -
  define s1 where "s1 = set_blk b (\<lambda>k. k\<lparr>io_fix := BUF_IO_NONE\<rparr>) s"
  have "pg_state (bblocks (bp s1) b) = BUF_BLOCK_FILE_PAGE" using assms(2) by (simp add: s1_def set_blk_def blk_def)
  then obtain q where q: "buf_flush_remove (settings env) b (bp s1) = Some q" "flush_type (bblocks q b) = flush_type (bblocks (bp s1) b)"
    by (simp add: buf_flush_remove_def Let_def)
  have "dblwr_arr s1 = dblwr_arr s" "flush_type (bblocks (bp s1) b) = BUF_FLUSH_SINGLE_PAGE"
    using assms(4) by (simp_all add: s1_def set_blk_def blk_def)
  then have "buf_flush_write_complete env b s1 = None"
    using q assms(1,5) by (simp add: buf_flush_write_complete_def in_pool_def buf_dblwr_update_def blk_def Let_def)
  then show ?thesis using assms(2,3) by (simp add: buf_page_io_complete_def Let_def s1_def)
qed

lemma exchange_stops:
  assumes "use_doublewrite_buf env" and "rw_server env J" and "spares env J" and "pool_inv (settings env) (bp s)"
    and "files_ready env J (fs s)" and "view env J s = V" and "target_rw_cmd (v_block V)" and listed: "v_listed V"
    and "page_addr (v_block V) = out_page J" and "0 < lock_word (v_block V)" and slots: "v_slots V = {}"
  shows "buf_flush_page_with_rw_cmd env (job_block J) BUF_FLUSH_SINGLE_PAGE (fst (in_page J)) (snd (in_page J)) s = None"
proof -
  obtain s1 where s1: "buf_flush_page_with_rw_cmd env (job_block J) BUF_FLUSH_SINGLE_PAGE (fst (in_page J)) (snd (in_page J)) s =
      do { (ok, s) \<leftarrow> buf_page_io_complete env (job_block J) s1; Some (True, s\<lparr>lru_stat_io := lru_stat_io s + 1\<rparr>) }"
    "pool_inv (settings env) (bp s1)" "view env J s1 = V\<lparr>v_block := (v_block V)\<lparr>lock_word := lock_word (v_block V) - 1,
       io_fix := BUF_IO_WRITE, flush_type := BUF_FLUSH_SINGLE_PAGE\<rparr>, v_frame := v_in V, v_out := stamped env (v_block V) (v_frame V)\<rparr>"
    using exchange_sent [OF assms(2-10), of BUF_FLUSH_SINGLE_PAGE] by (elim exE conjE) (rule that)
  note F = view_fields [OF s1(3)]
  have "dblwr_arr s1 i \<noteq> Some (job_block J)" for i
    using arg_cong [OF s1(3), of v_slots] slots by (auto simp: view_def Let_def)
  moreover have "pg_state (blk s1 (job_block J)) = BUF_BLOCK_FILE_PAGE" using pool_invD(2) [OF s1(2)] F(15) listed by (simp add: blk_def)
  ultimately have "buf_page_io_complete env (job_block J) s1 = None"
    using complete_without_slot [OF assms(1)] F(5,10) by simp
  then show ?thesis using s1(1) by simp
qed

section \<open>The block changes its page\<close>

lemma unhash_runs:
  assumes inv: "pool_inv (settings env) (bp s)" and V: "view env J s = V"
    and k: "v_listed V" "io_fix (v_block V) = BUF_IO_NONE" "buf_fix_count (v_block V) = 0" "oldest_modification (v_block V) = 0"
      "v_hash V = None"
  shows "\<exists>s'. buf_LRU_block_remove_hashed_for_rw_cmd env (job_block J) s = Some s' \<and> pool_inv (settings env) (bp s') \<and>
    view env J s' = V\<lparr>v_block := (v_block V)\<lparr>target_rw_cmd := False, use_rw_cmd := True, modify_clock := modify_clock (v_block V) + 1,
      pg_state := BUF_BLOCK_READY_FOR_USE, pg_space := ULINT32_UNDEFINED, pg_offset := ULINT32_UNDEFINED\<rparr>, v_listed := False\<rparr>"
proof -
  define b where "b = job_block J"
  define s1 where "s1 = set_blk b (\<lambda>k. k\<lparr>target_rw_cmd := False, use_rw_cmd := True\<rparr>) s"
  note F = view_fields [OF V, folded b_def blk_def]
  have i1: "pool_inv (settings env) (bp s1)"
    unfolding s1_def by (subst pool_inv_set_blk) (use inv in \<open>simp_all add: block_key_def page_addr_def\<close>)
  have p1: "b \<in> set (lru_list (bp s1))" "io_fix (bblocks (bp s1) b) = BUF_IO_NONE" "buf_fix_count (bblocks (bp s1) b) = 0"
    "oldest_modification (bblocks (bp s1) b) = 0" using k F by (simp_all add: s1_def set_blk_def flip: blk_def)
  obtain q where q: "unhash_block (settings env) b (bp s1) = Some q"
    "pool_inv (settings env) (upd_block b (\<lambda>k. k\<lparr>pg_state := BUF_BLOCK_READY_FOR_USE, pg_space := ULINT32_UNDEFINED,
       pg_offset := ULINT32_UNDEFINED\<rparr>) q)"
    "lru_list q = remove1 b (lru_list (bp s1))" "curr_size q = curr_size (bp s1)" "free_list q = free_list (bp s1)"
    "page_hash q = (page_hash (bp s1))(page_addr (bblocks (bp s1) b) := None)"
    "unmarked (bblocks q b) = unmarked ((bblocks (bp s1) b)\<lparr>modify_clock := modify_clock (bblocks (bp s1) b) + 1\<rparr>)"
    using unhash_block_inv [OF i1 p1] by blast
  define s2 where "s2 = set_blk b (\<lambda>k. k\<lparr>pg_state := BUF_BLOCK_READY_FOR_USE, pg_space := ULINT32_UNDEFINED,
    pg_offset := ULINT32_UNDEFINED\<rparr>) (s1\<lparr>bp := q\<rparr>)"
  have run: "buf_LRU_block_remove_hashed_for_rw_cmd env b s = Some s2"
    using q(1) by (simp add: buf_LRU_block_remove_hashed_for_rw_cmd_def in_pool_def Let_def s1_def s2_def)
  have inv2: "pool_inv (settings env) (bp s2)" using q(2) by (simp add: s2_def set_blk_def)
  have out: "b \<notin> set (lru_list q)" using q(3) pool_inv_lists(7) [OF i1] by simp
  have u: "unmarked (blk s2 b) = (unmarked (blk s b))\<lparr>target_rw_cmd := False, use_rw_cmd := True,
      modify_clock := modify_clock (unmarked (blk s b)) + 1, pg_state := BUF_BLOCK_READY_FOR_USE, pg_space := ULINT32_UNDEFINED,
      pg_offset := ULINT32_UNDEFINED\<rparr>"
    using q(7) by (cases "bblocks q b"; cases "bblocks (bp s) b") (simp add: s2_def s1_def set_blk_def blk_def unmarked_def)
  have "frame (blk s2 b) = frame (blk s b)" using arg_cong [OF u, of frame] by simp
  then have "view env J s2 = V\<lparr>v_block := unmarked (blk s2 b), v_listed := False\<rparr>"
    using out q(4-6) k(5) V [symmetric] unfolding view_def Let_def b_def [symmetric] blk_def
    by (simp add: s2_def s1_def set_blk_def upd_block_def)
  then show ?thesis using run inv2 u V [symmetric] by (simp add: view_def Let_def b_def)
qed

lemma holds_header_view:
  assumes "rw_server env J"
  shows "holds_header s (job_block J) space offset \<longleftrightarrow> be4 (v_frame (view env J s)) 34 = space \<and> be4 (v_frame (view env J s)) 4 = offset"
proof -
  have "4096 \<le> UNIV_PAGE_SIZE (settings env)" using page_size(4) [of "settings env"] assms by (simp add: rw_server_def)
  then show ?thesis
    by (simp add: holds_header_def view_def Let_def mach_read_from_4_def be4_def page_bytes_def FIL_PAGE_OFFSET_def
        FIL_PAGE_ARCH_LOG_NO_OR_SPACE_ID_def add.assoc)
qed

text \<open>The block with its new page.\<close>

definition new_page :: "disk buf_env \<Rightarrow> rw_job \<Rightarrow> buf_block_t \<Rightarrow> buf_block_t" where
  "new_page env J k = (let (space, offset) = in_page J in
     buf_page_init_low ((buf_block_init_low_with_rw_cmd (buf_block_set_file_page space offset k))
       \<lparr>lock_hash_val := lock_rec_hash env space offset\<rparr>))"

lemma new_page_fields:
  "pg_state (new_page env J k) = BUF_BLOCK_FILE_PAGE" "oldest_modification (new_page env J k) = 0" "buf_fix_count (new_page env J k) = 0"
  "use_rw_cmd (new_page env J k) = use_rw_cmd k" "\<not> target_rw_cmd (new_page env J k)" "lock_word (new_page env J k) = lock_word k"
  "frame (new_page env J k) = frame k" "unmarked (new_page env J k) = new_page env J (unmarked k)"
  by (simp_all add: new_page_def buf_page_init_low_def buf_block_init_low_with_rw_cmd_def buf_block_set_file_page_def unmarked_def
      split: prod.split)

lemma new_page_addr:
  assumes "fst (in_page J) < 2 ^ 32" and "snd (in_page J) < 2 ^ 32"
  shows "page_addr (new_page env J k) = in_page J"
  using assms by (auto simp: new_page_def buf_page_init_low_def buf_block_init_low_with_rw_cmd_def buf_block_set_file_page_def page_addr_def
      u32_def split: prod.split)

lemma init_with_rw_cmd:
  assumes "fst (in_page J) < 2 ^ 32" and "snd (in_page J) < 2 ^ 32" and "page_hash pool (in_page J) = None"
  shows "buf_page_init_with_rw_cmd env (fst (in_page J)) (snd (in_page J)) b pool =
    Some (upd_block b (\<lambda>_. new_page env J (bblocks pool b)) (pool\<lparr>page_hash := (page_hash pool)(in_page J := Some (Page b))\<rparr>))"
  using assms(3) new_page_addr [OF assms(1,2), of env "bblocks pool b"]
  by (simp add: buf_page_init_with_rw_cmd_def hash_new_page_def upd_block_def new_page_def split: prod.splits)

lemma install_runs:
  assumes srv: "rw_server env J" and inv: "pool_inv (settings env) (bp s)" and V: "view env J s = V"
    and k: "\<not> v_listed V" "\<not> v_free V" "job_block J < v_size V" "v_hash V = None" "use_rw_cmd (v_block V)"
      "lock_word (v_block V) = X_LOCK_DECR"
    and header: "be4 (v_frame V) 34 = fst (in_page J)" "be4 (v_frame V) 4 = snd (in_page J)"
    and small: "fst (in_page J) < 2 ^ 32" "snd (in_page J) < 2 ^ 32"
  shows "\<exists>s'. install_block env (fst (in_page J)) (snd (in_page J)) (job_block J) s = Some s' \<and> pool_inv (settings env) (bp s') \<and>
    view env J s' = V\<lparr>v_block := (new_page env J (v_block V))\<lparr>lock_word := 0, io_fix := BUF_IO_READ\<rparr>,
      v_hash := Some (Page (job_block J)), v_listed := True\<rparr>"
proof -
  define b where "b = job_block J"
  define k1 where "k1 = new_page env J (blk s b)"
  note F = view_fields [OF V, folded b_def] and a = new_page_addr [OF small]
  have p: "page_hash (bp s) (page_addr k1) = None" "b \<notin> set (lru_list (bp s))" "b \<notin> set (free_list (bp s))" "b < curr_size (bp s)"
    "pg_state k1 = BUF_BLOCK_FILE_PAGE" "oldest_modification k1 = 0"
    using F k by (simp_all add: b_def k1_def a new_page_fields)
  obtain q where q: "buf_LRU_add_block_low (settings env) b False
      (upd_block b (\<lambda>_. k1) ((bp s)\<lparr>page_hash := (page_hash (bp s))(in_page J := Some (Page b))\<rparr>)) = Some q"
    "pool_inv (settings env) q" "set (lru_list q) = insert b (set (lru_list (bp s)))" "curr_size q = curr_size (bp s)"
    "free_list q = free_list (bp s)" "page_hash q = (page_hash (bp s))(in_page J := Some (Page b))" "unmarked (bblocks q b) = unmarked k1"
    using add_new_block_inv [OF inv p(2-4,1,5,6), unfolded k1_def a, folded k1_def] by (elim exE conjE) (rule that)
  have "use_rw_cmd (blk s b)" "holds_header s b (fst (in_page J)) (snd (in_page J))"
    using F(7) k(5) holds_header_view [OF srv] V header by (simp_all add: b_def)
  moreover have lw: "lock_word (bblocks q b) = X_LOCK_DECR" "use_rw_cmd k1"
    using unmarked_fields(9) [OF q(7)] F(7,9) k(5,6) by (simp_all add: k1_def new_page_fields)
  moreover define s1 where "s1 = set_blk b (\<lambda>k. k\<lparr>lock_word := lock_word k - X_LOCK_DECR, io_fix := BUF_IO_READ\<rparr>) (s\<lparr>bp := q\<rparr>)"
  ultimately have run: "install_block env (fst (in_page J)) (snd (in_page J)) b s =
      Some (s1\<lparr>bp := (bp s1)\<lparr>n_pend_reads := n_pend_reads (bp s1) + 1\<rparr>\<rparr>)"
    using q(1) init_with_rw_cmd [OF small, of "bp s" env b] F(14) k(4) by (simp add: install_block_def in_pool_def blk_def Let_def k1_def)
  have i1: "pool_inv (settings env) (bp s1) = pool_inv (settings env) q"
    unfolding s1_def by (subst pool_inv_set_blk) (simp_all add: block_key_def page_addr_def)
  have u: "unmarked (blk s1 b) = (new_page env J (v_block V))\<lparr>lock_word := 0, io_fix := BUF_IO_READ\<rparr>"
  proof -
    have "unmarked (blk s1 b) = (unmarked k1)\<lparr>lock_word := 0, io_fix := BUF_IO_READ\<rparr>"
      using lw(1) unfolding q(7) [symmetric] by (simp add: s1_def set_blk_def blk_def unmarked_def)
    then show ?thesis using V by (auto simp: k1_def new_page_fields view_def Let_def b_def)
  qed
  have "frame (blk s1 b) = frame (blk s b)" using unmarked_fields(6) [OF q(7)] by (simp add: s1_def set_blk_def blk_def k1_def new_page_fields)
  then have "view env J s1 = V\<lparr>v_block := unmarked (blk s1 b), v_hash := Some (Page b), v_listed := True\<rparr>"
    using q(3-6) V [symmetric] unfolding view_def Let_def b_def [symmetric] blk_def by (simp add: s1_def set_blk_def upd_block_def)
  then show ?thesis using run q(2) i1 u by (simp add: b_def)
qed

lemma read_complete_runs:
  assumes inv: "pool_inv (settings env) (bp s)" and V: "view env J s = V"
    and k: "v_listed V" "io_fix (v_block V) = BUF_IO_READ"
    and page: "\<not> buf_page_is_corrupted env (v_frame V)" and ibuf: "\<And>s. ibuf_merge_or_delete_for_page env (job_block J) s = s"
  shows "\<exists>s'. buf_page_io_complete env (job_block J) s = Some (True, s') \<and> pool_inv (settings env) (bp s') \<and>
    view env J s' = V\<lparr>v_block := (v_block V)\<lparr>io_fix := BUF_IO_NONE, lock_word := lock_word (v_block V) + X_LOCK_DECR\<rparr>\<rparr>"
proof -
  define b where "b = job_block J"
  define f where "f = (\<lambda>k. k\<lparr>io_fix := BUF_IO_NONE\<rparr> :: buf_block_t)"
  define g where "g = (\<lambda>k. k\<lparr>lock_word := lock_word k + X_LOCK_DECR\<rparr> :: buf_block_t)"
  have st: "pg_state (blk s b) = BUF_BLOCK_FILE_PAGE" using pool_invD(2) [OF inv] view_fields(15) [OF V] k(1) by (simp add: blk_def b_def)
  then have chk: "read_checked env b s = Some (True, s)"
    using page ibuf view_fields(18) [OF V] by (simp add: read_checked_def b_def)
  define s1 where "s1 = set_blk b f s"
  define s2 where "s2 = s1\<lparr>bp := (bp s1)\<lparr>n_pend_reads := n_pend_reads (bp s1) - 1, n_pages_read := n_pages_read (bp s1) + 1\<rparr>,
    n_total_reads := n_total_reads s1 + 1\<rparr>"
  have run: "buf_page_io_complete env b s = Some (True, set_blk b g s2)"
    using st chk k(2) view_fields(5) [OF V] by (simp add: buf_page_io_complete_def Let_def s2_def s1_def f_def g_def b_def)
  have "pool_inv (settings env) (bp (set_blk b g s2)) = pool_inv (settings env) (bp s2)"
    by (rule pool_inv_set_blk) (simp add: block_key_def page_addr_def g_def)
  also have "\<dots> = pool_inv (settings env) (bp s1)" by (simp add: s2_def)
  also have "\<dots> = pool_inv (settings env) (bp s)"
    unfolding s1_def by (rule pool_inv_set_blk) (simp add: block_key_def page_addr_def f_def)
  finally have "pool_inv (settings env) (bp (set_blk b g s2))" using inv by simp
  moreover have "view env J s2 = view env J s1" by (simp add: s2_def view_def blk_def Let_def)
  then have "view env J (set_blk b g s2) = V\<lparr>v_block := g (f (v_block V))\<rparr>"
    using view_set_blk [of g env J s2] view_set_blk [of f env J s] V by (simp add: s1_def f_def g_def unmarked_def b_def)
  ultimately show ?thesis using run by (simp add: b_def f_def g_def)
qed

end
