(* ===== verification/Buf_Theorems.thy ===== *)
theory Buf_Theorems
  imports Buf_Exchange
begin

text \<open>
  The read of a page that goes through an RW command, from the search for a victim to the end of the read.
\<close>

section \<open>The victim\<close>

text \<open>Pages that the search passes over: of a space below \<^verbatim>\<open>log_fd\<close>, in use, clean or in an i/o, or with a latched frame.\<close>

definition passed_over :: "fil_system_t \<Rightarrow> buf_block_t \<Rightarrow> bool" where
  "passed_over sys k \<longleftrightarrow> pg_space k < log_fd sys \<or> buf_fix_count k \<noteq> 0 \<or> buf_flush_ready_for_flush k = Some False \<or>
     buf_flush_ready_for_flush k = Some True \<and> lock_word k \<le> 0"

definition rw_victim :: "rw_job \<Rightarrow> disk srv_state \<Rightarrow> bool" where
  "rw_victim J s \<longleftrightarrow>
     (\<exists>pre post. rev (lru_list (bp s)) = pre @ job_block J # post \<and> (\<forall>c \<in> set pre. passed_over (fs s) (blk s c))) \<and>
     log_fd (fs s) \<le> pg_space (blk s (job_block J)) \<and> buf_fix_count (blk s (job_block J)) = 0 \<and>
     buf_flush_ready_for_flush (blk s (job_block J)) = Some True \<and> lock_word (blk s (job_block J)) = X_LOCK_DECR \<and>
     page_addr (blk s (job_block J)) = out_page J"

lemma set_blk_undo:
  assumes "\<not> target_rw_cmd (blk s b)"
  shows "set_blk b (\<lambda>k. k\<lparr>target_rw_cmd := False\<rparr>) (set_blk b (\<lambda>k. k\<lparr>target_rw_cmd := True\<rparr>) s) = s"
proof -
  have "(bblocks (bp s) b)\<lparr>target_rw_cmd := False\<rparr> = bblocks (bp s) b"
    by (rule buf_block_t.equality) (use assms in \<open>simp_all add: blk_def\<close>)
  then have "upd_block b (\<lambda>k. k\<lparr>target_rw_cmd := False\<rparr>) (upd_block b (\<lambda>k. k\<lparr>target_rw_cmd := True\<rparr>) (bp s)) = bp s"
    by (intro buf_pool_t.equality) (simp_all add: upd_block_def fun_upd_idem)
  then show ?thesis by (simp add: set_blk_def)
qed

lemma ready_unclaimed: "buf_flush_ready_for_flush k = Some True \<Longrightarrow> \<not> target_rw_cmd k \<and> \<not> use_rw_cmd k \<and> io_fix k = BUF_IO_NONE"
  by (auto simp: buf_flush_ready_for_flush_def split: if_splits)

lemma victim_loop_skips:
  assumes "\<forall>c \<in> set pre. passed_over (fs s) (blk s c)"
  shows "rw_victim_loop env space offset (pre @ bs) s = rw_victim_loop env space offset bs s"
  using assms
proof (induction pre)
  case (Cons c pre)
  have "lock_word (blk (set_blk c (\<lambda>k. k\<lparr>target_rw_cmd := True\<rparr>) s) c) = lock_word (blk s c)" by (simp add: blk_def set_blk_def)
  then show ?case
    using Cons ready_unclaimed [of "blk s c"]
    by (auto simp: passed_over_def buf_flush_page_with_rw_cmd_def set_blk_undo)
qed simp

lemma rw_victim_listed: "rw_victim J s \<Longrightarrow> job_block J \<in> set (lru_list (bp s))"
  unfolding rw_victim_def by (metis in_set_conv_decomp set_rev)

lemma victim_claimed:
  assumes inv: "pool_inv (settings env) (bp s)" and ready: "files_ready env J (fs s)" and victim: "rw_victim J s" and V: "view env J s = V"
  shows "\<exists>s' post. buf_flush_single_page_with_rw_cmd env (fst (in_page J)) (snd (in_page J)) s =
      do {
        (flushed, t) \<leftarrow> buf_flush_page_with_rw_cmd env (job_block J) BUF_FLUSH_SINGLE_PAGE (fst (in_page J)) (snd (in_page J)) s';
        (if flushed then Some (Some (job_block J), t)
         else rw_victim_loop env (fst (in_page J)) (snd (in_page J)) post (set_blk (job_block J) (\<lambda>k. k\<lparr>target_rw_cmd := False\<rparr>) t))
      } \<and> pool_inv (settings env) (bp s') \<and> files_ready env J (fs s') \<and>
    view env J s' = V\<lparr>v_block := (v_block V)\<lparr>target_rw_cmd := True\<rparr>\<rparr>"
    and "v_listed V" and "page_addr (v_block V) = out_page J" and "0 < lock_word (v_block V)"
proof -
  define b where "b = job_block J"
  define f where "f = (\<lambda>k. k\<lparr>target_rw_cmd := True\<rparr> :: buf_block_t)"
  obtain pre post where l: "rev (lru_list (bp s)) = pre @ b # post" "\<forall>c \<in> set pre. passed_over (fs s) (blk s c)"
    using victim by (auto simp: rw_victim_def b_def)
  have k: "log_fd (fs s) \<le> pg_space (blk s b)" "buf_fix_count (blk s b) = 0" "buf_flush_ready_for_flush (blk s b) = Some True"
    "lock_word (blk s b) = X_LOCK_DECR" "page_addr (blk s b) = out_page J"
    using victim by (simp_all add: rw_victim_def b_def)
  have "view env J (set_blk b f s) = V\<lparr>v_block := (v_block V)\<lparr>target_rw_cmd := True\<rparr>\<rparr>"
    using view_set_blk [of f env J s] V by (simp add: f_def unmarked_def b_def)
  moreover have "pool_inv (settings env) (bp (set_blk b f s))"
    by (subst pool_inv_set_blk) (use inv in \<open>simp_all add: block_key_def page_addr_def f_def\<close>)
  moreover have "files_ready env J (fs (set_blk b f s))" using ready by (simp add: set_blk_def)
  moreover have "buf_flush_single_page_with_rw_cmd env (fst (in_page J)) (snd (in_page J)) s =
      do {
        (flushed, t) \<leftarrow> buf_flush_page_with_rw_cmd env b BUF_FLUSH_SINGLE_PAGE (fst (in_page J)) (snd (in_page J)) (set_blk b f s);
        (if flushed then Some (Some b, t)
         else rw_victim_loop env (fst (in_page J)) (snd (in_page J)) post (set_blk b (\<lambda>k. k\<lparr>target_rw_cmd := False\<rparr>) t))
      }"
    unfolding buf_flush_single_page_with_rw_cmd_def l(1) victim_loop_skips [OF l(2)] using k(1-3) by (simp add: f_def)
  ultimately show "\<exists>s' post. buf_flush_single_page_with_rw_cmd env (fst (in_page J)) (snd (in_page J)) s =
      do {
        (flushed, t) \<leftarrow> buf_flush_page_with_rw_cmd env (job_block J) BUF_FLUSH_SINGLE_PAGE (fst (in_page J)) (snd (in_page J)) s';
        (if flushed then Some (Some (job_block J), t)
         else rw_victim_loop env (fst (in_page J)) (snd (in_page J)) post (set_blk (job_block J) (\<lambda>k. k\<lparr>target_rw_cmd := False\<rparr>) t))
      } \<and> pool_inv (settings env) (bp s') \<and> files_ready env J (fs s') \<and>
    view env J s' = V\<lparr>v_block := (v_block V)\<lparr>target_rw_cmd := True\<rparr>\<rparr>" unfolding b_def by blast
  show "v_listed V" using view_fields(15) [OF V] rw_victim_listed [OF victim] by simp
  show "page_addr (v_block V) = out_page J" "0 < lock_word (v_block V)"
    using k(4,5) view_fields(2,9) [OF V] by (simp_all add: b_def X_LOCK_DECR_def)
qed

lemma victim_exchanged:
  assumes "\<not> use_doublewrite_buf env" and srv: "rw_server env J" "spares env J" and at: "pool_inv (settings env) (bp s)"
    "files_ready env J (fs s)" "rw_victim J s" "view env J s = V"
  shows "\<exists>s'. buf_flush_single_page_with_rw_cmd env (fst (in_page J)) (snd (in_page J)) s = Some (Some (job_block J), s') \<and>
    pool_inv (settings env) (bp s') \<and>
    view env J s' = V\<lparr>v_block := (v_block V)\<lparr>target_rw_cmd := True, io_fix := BUF_IO_NONE, flush_type := BUF_FLUSH_SINGLE_PAGE,
      oldest_modification := 0\<rparr>, v_frame := v_in V, v_out := stamped env (v_block V) (v_frame V)\<rparr>"
proof -
  define V1 where "V1 = V\<lparr>v_block := (v_block V)\<lparr>target_rw_cmd := True\<rparr>\<rparr>"
  obtain s1 post where s1: "buf_flush_single_page_with_rw_cmd env (fst (in_page J)) (snd (in_page J)) s =
      do {
        (flushed, t) \<leftarrow> buf_flush_page_with_rw_cmd env (job_block J) BUF_FLUSH_SINGLE_PAGE (fst (in_page J)) (snd (in_page J)) s1;
        (if flushed then Some (Some (job_block J), t)
         else rw_victim_loop env (fst (in_page J)) (snd (in_page J)) post (set_blk (job_block J) (\<lambda>k. k\<lparr>target_rw_cmd := False\<rparr>) t))
      }" "pool_inv (settings env) (bp s1)" "files_ready env J (fs s1)" "view env J s1 = V1"
    using victim_claimed(1) [OF at, folded V1_def] by (elim exE conjE) (rule that)
  have k: "target_rw_cmd (v_block V1)" "v_listed V1" "page_addr (v_block V1) = out_page J" "0 < lock_word (v_block V1)"
    using victim_claimed(2-4) [OF at] by (simp_all add: V1_def page_addr_def)
  obtain s2 where "buf_flush_page_with_rw_cmd env (job_block J) BUF_FLUSH_SINGLE_PAGE (fst (in_page J)) (snd (in_page J)) s1 = Some (True, s2)"
    "pool_inv (settings env) (bp s2)" "view env J s2 = V1\<lparr>v_block := (v_block V1)\<lparr>io_fix := BUF_IO_NONE,
       flush_type := BUF_FLUSH_SINGLE_PAGE, oldest_modification := 0\<rparr>, v_frame := v_in V1, v_out := stamped env (v_block V1) (v_frame V1)\<rparr>"
    using exchange_runs [OF assms(1) srv s1(2-4) k, of BUF_FLUSH_SINGLE_PAGE] by (elim exE conjE) (rule that)
  then show ?thesis using s1(1) by (simp add: V1_def stamped_def)
qed

lemma get_block_runs:
  assumes dblwr: "\<not> use_doublewrite_buf env" and srv: "rw_server env J" "spares env J"
    and start: "buf_LRU_check_size_of_non_data_objects (bp s)" "free_list (bp s) = []" "\<not> try_LRU_scan (bp s)"
    and inv: "pool_inv (settings env) (bp (elsewhere env s))" and ready: "files_ready env J (fs (elsewhere env s))"
    and victim: "rw_victim J (elsewhere env s)" and V: "view env J (elsewhere env s) = V" and wanted: "v_hash V = None"
  shows "\<exists>s' V'. buf_LRU_get_free_block env (fst (in_page J)) (snd (in_page J)) 0 s = Some (job_block J, s') \<and>
    pool_inv (settings env) (bp s') \<and> view env J s' = V' \<and> \<not> v_listed V' \<and> v_free V' = v_free V \<and> v_size V' = v_size V \<and>
    v_hash V' = None \<and> use_rw_cmd (v_block V') \<and> lock_word (v_block V') = lock_word (v_block V) \<and> v_frame V' = v_in V \<and>
    v_out V' = stamped env (v_block V) (v_frame V) \<and> frame (v_block V') = frame (v_block V)"
proof -
  define V2 where "V2 = V\<lparr>v_block := (v_block V)\<lparr>target_rw_cmd := True, io_fix := BUF_IO_NONE, flush_type := BUF_FLUSH_SINGLE_PAGE,
    oldest_modification := 0\<rparr>, v_frame := v_in V, v_out := stamped env (v_block V) (v_frame V)\<rparr>"
  obtain s2 where s2: "buf_flush_single_page_with_rw_cmd env (fst (in_page J)) (snd (in_page J)) (elsewhere env s) =
      Some (Some (job_block J), s2)" "pool_inv (settings env) (bp s2)" "view env J s2 = V2"
    using victim_exchanged [OF dblwr srv inv ready victim V, folded V2_def] by blast
  have "target_rw_cmd (blk s2 (job_block J))" using view_fields(8) [OF s2(3)] by (simp add: V2_def)
  note e = elsewhere_keeps [OF srv(2) s2(2) disjI1, OF this, unfolded s2(3)]
  have k: "v_listed V2" "io_fix (v_block V2) = BUF_IO_NONE" "buf_fix_count (v_block V2) = 0" "oldest_modification (v_block V2) = 0"
    "v_hash V2 = None"
    using view_fields(4,15) [OF V] victim rw_victim_listed [OF victim] wanted by (simp_all add: rw_victim_def V2_def)
  obtain s3 where s3: "buf_LRU_block_remove_hashed_for_rw_cmd env (job_block J) (elsewhere env s2) = Some s3" "pool_inv (settings env) (bp s3)"
    "view env J s3 = V2\<lparr>v_block := (v_block V2)\<lparr>target_rw_cmd := False, use_rw_cmd := True, modify_clock := modify_clock (v_block V2) + 1,
      pg_state := BUF_BLOCK_READY_FOR_USE, pg_space := ULINT32_UNDEFINED, pg_offset := ULINT32_UNDEFINED\<rparr>, v_listed := False\<rparr>"
    using unhash_runs [OF e(1,2) k] by blast
  have "buf_LRU_get_free_block env (fst (in_page J)) (snd (in_page J)) 0 s =
      Some (job_block J, s3\<lparr>n_rwcmd := n_rwcmd s3 + 1, n_no_block := n_no_block s3 + 1\<rparr>)"
    using start dblwr s2(1) s3(1) by (subst buf_LRU_get_free_block.simps) (simp add: lru_scan_round_def Let_def)
  then show ?thesis using s3(2,3) k(5) by (simp add: V2_def)
qed

text \<open>
  The wanted page: its number fits the header, the copy on the device has that header and is not corrupt, it is not a page of
  the doublewrite buffer, its tablespace is not deleted, and there are no buffered changes to merge into it.
\<close>

definition good_page :: "disk buf_env \<Rightarrow> rw_job \<Rightarrow> int \<Rightarrow> (nat \<Rightarrow> 8 word) \<Rightarrow> bool" where
  "good_page env J version img \<longleftrightarrow>
     fst (in_page J) < 2 ^ 32 \<and> snd (in_page J) < 2 ^ 32 \<and> be4 img 34 = fst (in_page J) \<and> be4 img 4 = snd (in_page J) \<and>
     \<not> buf_page_is_corrupted env img \<and> \<not> (fst (in_page J) = 0 \<and> buf_dblwr_page_inside env (snd (in_page J))) \<and>
     (\<forall>s. \<not> tablespace_deleted env (fst (in_page J)) version s) \<and> (\<forall>s. ibuf_merge_or_delete_for_page env (job_block J) s = s)"

lemma init_for_read_runs:
  assumes srv: "rw_server env J" "spares env J" and good: "good_page env J version img"
    and get: "buf_LRU_get_free_block env (fst (in_page J)) (snd (in_page J)) 0 s = Some (job_block J, s1)"
    and inv: "pool_inv (settings env) (bp s1)" and V1: "view env J s1 = V1"
    and k: "\<not> v_listed V1" "\<not> v_free V1" "job_block J < v_size V1" "v_hash V1 = None" "use_rw_cmd (v_block V1)"
      "lock_word (v_block V1) = X_LOCK_DECR" "v_frame V1 = img"
  shows "\<exists>s' V'. buf_page_init_for_read env BUF_READ_ANY_PAGE (fst (in_page J)) version (snd (in_page J)) True s =
      Some (DB_SUCCESS, Some (job_block J), s') \<and> pool_inv (settings env) (bp s') \<and> view env J s' = V' \<and>
    v_hash V' = Some (Page (job_block J)) \<and> v_listed V' \<and> v_frame V' = img \<and> v_out V' = v_out V1 \<and>
    frame (v_block V') = frame (v_block V1) \<and> page_addr (v_block V') = in_page J \<and> oldest_modification (v_block V') = 0 \<and>
    io_fix (v_block V') = BUF_IO_READ \<and> buf_fix_count (v_block V') = 0 \<and> lock_word (v_block V') = 0 \<and>
    \<not> target_rw_cmd (v_block V') \<and> use_rw_cmd (v_block V')"
proof -
  have "use_rw_cmd (blk s1 (job_block J))" using view_fields(7) [OF V1] k(5) by simp
  note e = elsewhere_keeps [OF srv(2) inv disjI2, OF this, unfolded V1]
  have p: "be4 (v_frame V1) 34 = fst (in_page J)" "be4 (v_frame V1) 4 = snd (in_page J)" "fst (in_page J) < 2 ^ 32" "snd (in_page J) < 2 ^ 32"
    and d: "\<not> tablespace_deleted env (fst (in_page J)) version t" for t
    using good k(7) by (simp_all add: good_page_def)
  have h: "page_hash (bp (elsewhere env s1)) (fst (in_page J), snd (in_page J)) = None" using view_fields(14) [OF e(2)] k(4) by simp
  obtain s2 where s2: "install_block env (fst (in_page J)) (snd (in_page J)) (job_block J) (elsewhere env s1) = Some s2"
    "pool_inv (settings env) (bp s2)" "view env J s2 = V1\<lparr>v_block := (new_page env J (v_block V1))\<lparr>lock_word := 0, io_fix := BUF_IO_READ\<rparr>,
       v_hash := Some (Page (job_block J)), v_listed := True\<rparr>"
    using install_runs [OF srv(1) e(1,2) k(1-6) p] by blast
  have "buf_page_init_for_read env BUF_READ_ANY_PAGE (fst (in_page J)) version (snd (in_page J)) True s =
      Some (DB_SUCCESS, Some (job_block J), s2)"
    using get h d s2(1) by (simp add: buf_page_init_for_read_def BUF_READ_ANY_PAGE_def BUF_READ_IBUF_PAGES_ONLY_def Let_def)
  then show ?thesis
    using s2(2,3) k(5,7) new_page_addr [OF p(3,4), of env "v_block V1"] by (simp add: new_page_fields page_addr_def)
qed

lemma read_finishes:
  assumes sp: "spares env J" and inv: "pool_inv (settings env) (bp s)" and V: "view env J s = V"
    and k: "v_listed V" "io_fix (v_block V) = BUF_IO_READ" "use_rw_cmd (v_block V)" and good: "good_page env J version (v_frame V)"
  shows "\<exists>s'. buf_page_io_complete env (job_block J) (set_blk (job_block J) (\<lambda>k. k\<lparr>use_rw_cmd := False\<rparr>) (elsewhere env s)) =
      Some (True, s') \<and> use_rw_cmd (blk (elsewhere env s) (job_block J)) \<and> pool_inv (settings env) (bp s') \<and>
    view env J s' = V\<lparr>v_block := (v_block V)\<lparr>use_rw_cmd := False, io_fix := BUF_IO_NONE, lock_word := lock_word (v_block V) + X_LOCK_DECR\<rparr>\<rparr>"
proof -
  have "use_rw_cmd (blk s (job_block J))" using view_fields(7) [OF V] k(3) by simp
  note e = elsewhere_keeps [OF sp inv disjI2, OF this, unfolded V]
  define f where "f = (\<lambda>k. k\<lparr>use_rw_cmd := False\<rparr> :: buf_block_t)"
  define V1 where "V1 = V\<lparr>v_block := f (v_block V)\<rparr>"
  define s1 where "s1 = set_blk (job_block J) f (elsewhere env s)"
  have v1: "view env J s1 = V1"
    using view_set_blk [of f env J "elsewhere env s"] e(2) by (simp add: s1_def V1_def f_def unmarked_def)
  have i1: "pool_inv (settings env) (bp s1)"
    unfolding s1_def by (subst pool_inv_set_blk) (use e(1) in \<open>simp_all add: block_key_def page_addr_def f_def\<close>)
  have k1: "v_listed V1" "io_fix (v_block V1) = BUF_IO_READ" "\<not> buf_page_is_corrupted env (v_frame V1)"
    "\<And>s. ibuf_merge_or_delete_for_page env (job_block J) s = s" using k good by (simp_all add: V1_def f_def good_page_def)
  show ?thesis
    using read_complete_runs [OF i1 v1 k1] view_fields(7) [OF e(2)] k(3) unfolding f_def [symmetric] s1_def [symmetric] by (simp add: V1_def f_def)
qed

lemma mode_any_page: "\<not> bit BUF_READ_ANY_PAGE 10" "\<not> bit BUF_READ_ANY_PAGE 9"
  "unset_bit 10 (unset_bit 9 BUF_READ_ANY_PAGE) = BUF_READ_ANY_PAGE"
  by (simp_all add: BUF_READ_ANY_PAGE_def unset_bit_eq_idem_iff bit_iff_odd)


text \<open>A pool with one dirty page, a device that holds the wanted one, and a server in which nothing else happens.\<close>

definition dirty_pool :: buf_pool_t where
  "dirty_pool = empty_pool\<lparr>curr_size := 1,
     bblocks := \<lambda>b. (page_block b)\<lparr>pg_offset := 5, oldest_modification := 1, newest_modification := 1\<rparr>,
     page_hash := [(10, 5) \<mapsto> Page 0], lru_list := [0], flush_list := [0], LRU_bytes := 4096\<rparr>"

definition sample_disk :: disk where
  "sample_disk l k = (if l = 1263 \<and> k = 7 then 7 else if l = 1263 \<and> k = 37 then 11 else 0)"

definition sample_state :: "disk srv_state" where
  "sample_state = \<lparr>bp = dirty_pool, fs = two_files, ios = no_stats, hm = \<lparr>ram = (\<lambda>a. 1), dev = sample_disk\<rparr>,
     dblwr_arr = (\<lambda>i. None), dblwr_in_use = (\<lambda>i. False), s_reserved = 0, b_reserved = 0, dblwr_first_free = 0, batch_running = False,
     lru_stat_io = 0, n_free_block = 0, n_bg_wait = 0, n_clean_block = 0, n_no_block = 0, n_rwcmd = 0, n_spf = 0, n_ckpt_batch = 0, n_lru_batch = 0, n_total_reads = 0,
     moment = 0\<rparr>"

definition sample_env :: "bool \<Rightarrow> disk buf_env" where
  "sample_env dblwr = \<lparr>settings = small_srv, files = all_open, fil_others = (\<lambda>k s. s), fil_during = (\<lambda>s. s),
     fil_flush_file_spaces = (\<lambda>s. s), file_blksize = (\<lambda>f. 4096), file_fibmap = (\<lambda>f b. Some (b + 1000)),
     nvme_send = (\<lambda>cmd h. Some (rw_effect cmd h)), other_threads = (\<lambda>t s. s), fil_io_read = (\<lambda>ty sp off sync a s. None),
     log_write_up_to = (\<lambda>lsn s. s), srv_checksum_algorithm = SRV_CHECKSUM_ALGORITHM_NONE, buf_calc_page_crc32 = (\<lambda>p. 0),
     buf_calc_page_new_checksum = (\<lambda>p. 0), buf_calc_page_old_checksum = (\<lambda>p. 0), buf_page_is_corrupted = (\<lambda>p. p 0 \<noteq> 0),
     ignore_corrupt = False, dict_set_corrupted_by_space = (\<lambda>sp. True), recv_no_ibuf_operations = False,
     ibuf_merge_or_delete_for_page = (\<lambda>b s. s), ibuf_page = (\<lambda>sp off. False), buf_dblwr_page_inside = (\<lambda>off. False),
     use_doublewrite_buf = dblwr, srv_doublewrite_batch_size = 120, srv_LRU_scan_depth = 1024, lock_rec_hash = (\<lambda>sp off. 0),
     tablespace_deleted = (\<lambda>sp v s. False), fil_io_write = (\<lambda>ty sync sp off a s. s),
     fil_flush = (\<lambda>sp s. s), page_is_comp = (\<lambda>p. True), page_simple_validate_new = (\<lambda>p. True), page_simple_validate_old = (\<lambda>p. True),
     dblwr_block1 = 64, dblwr_block2 = 128, buf_dblwr_add_to_batch = (\<lambda>b s. s), buf_dblwr_flush_buffered_writes = (\<lambda>s. s),
     buf_flush_wait_batch_end = (\<lambda>s. s)\<rparr>"

definition sample_job :: rw_job where
  "sample_job = \<lparr>job_block = 0, out_page = (10, 5), in_page = (11, 7), out_lba = 1261, in_lba = 1263\<rparr>"

lemma small_page: "UNIV_PAGE_SIZE small_srv = 4096"
  by (simp add: UNIV_PAGE_SIZE_def small_srv_def)

lemma dirty_pool_inv: "pool_inv small_srv dirty_pool"
proof (rule pool_invI)
  show "lru_inv small_srv dirty_pool"
    by (simp add: lru_inv_def lru_base_def dirty_pool_def empty_pool_def page_block_def small_page BUF_LRU_OLD_RATIO_MIN_def
        BUF_LRU_OLD_RATIO_MAX_def BUF_LRU_OLD_RATIO_DIV_def BUF_LRU_OLD_MIN_LEN_def)
qed (auto simp: dirty_pool_def empty_pool_def page_block_def page_addr_def split: if_splits)

lemma sample_ready: "files_ready (sample_env d) sample_job two_files"
proof -
  have "page_at (sample_env d) two_files (10, 5) 1261" unfolding page_at_def
    using two_files_page(1) two_files_quick(5)
    by (intro exI [of _ 1] exI [of _ 5]) (simp add: sample_env_def small_page buf_get_lba_def START_SECTOR_def)
  moreover have "page_at (sample_env d) two_files (11, 7) 1263" unfolding page_at_def
    using two_files_page(2) two_files_quick(5)
    by (intro exI [of _ 2] exI [of _ 7]) (simp add: sample_env_def small_page buf_get_lba_def START_SECTOR_def)
  ultimately show ?thesis
    using two_files_inv two_files_quick unfolding files_ready_def by (simp add: sample_job_def sample_env_def)
qed

lemma sample_elsewhere: "elsewhere (sample_env d) sample_state = sample_state\<lparr>moment := 1\<rparr>"
  by (simp add: elsewhere_def sample_env_def sample_state_def)

lemma sample_server: "rw_server (sample_env d) sample_job" "spares (sample_env d) sample_job"
  "good_page (sample_env d) sample_job 0 (disk_page 4096 sample_disk 1263)"
proof -
  show "rw_server (sample_env d) sample_job" using two_files_quick(6)
    by (simp add: rw_server_def sample_env_def sample_job_def rw_device_def small_page) (simp add: small_srv_def)
  show "spares (sample_env d) sample_job" by (simp add: spares_def keeps_def sample_env_def)
  show "good_page (sample_env d) sample_job 0 (disk_page 4096 sample_disk 1263)"
    by (simp add: good_page_def sample_env_def sample_job_def be4_def disk_page_def sample_disk_def)
qed

lemma sample_victim: "rw_victim sample_job (sample_state\<lparr>moment := 1\<rparr>)"
proof -
  have "rev (lru_list (bp sample_state)) = [] @ job_block sample_job # []"
    by (simp add: sample_state_def dirty_pool_def sample_job_def)
  then have "\<exists>pre post. rev (lru_list (bp (sample_state\<lparr>moment := 1\<rparr>))) = pre @ job_block sample_job # post \<and>
      (\<forall>c \<in> set pre. passed_over (fs (sample_state\<lparr>moment := 1\<rparr>)) (blk (sample_state\<lparr>moment := 1\<rparr>) c))"
    by (intro exI [of _ "[]"]) simp
  then show ?thesis
    unfolding rw_victim_def by (simp add: sample_job_def sample_state_def dirty_pool_def page_block_def blk_def two_files_def
        buf_flush_ready_for_flush_def X_LOCK_DECR_def page_addr_def)
qed


section \<open>Where the path fails\<close>

text \<open>
  C38. An RW command and the doublewrite buffer do not go together. Let the doublewrite buffer be on and have no slot reserved for the
  block of the victim, let no batch of the LRU list be running, and let everything else be as for a successful read through an RW
  command. Then the server stops: \<^verbatim>\<open>buf_flush_page_with_rw_cmd\<close> writes the victim without the doublewrite buffer, but ends the i/o as a
  single page flush, and the assertion that such a flush has a slot fails.
\<close>

theorem rw_read_stops_with_doublewrite:
  fixes env :: "disk buf_env" and s :: "disk srv_state" and J :: rw_job
  assumes s1: "s1 = elsewhere env s" and dblwr: "use_doublewrite_buf env" "\<And>i. dblwr_arr s1 i \<noteq> Some (job_block J)"
    and srv: "rw_server env J" "spares env J" and page: "\<not> (fst (in_page J) = 0 \<and> buf_dblwr_page_inside env (snd (in_page J)))"
    and start: "buf_LRU_check_size_of_non_data_objects (bp s)" "free_list (bp s) = []" "\<not> try_LRU_scan (bp s)" "\<not> init_flush (bp s) BUF_FLUSH_LRU"
    and pool: "pool_inv (settings env) (bp s1)" "files_ready env J (fs s1)" "rw_victim J s1"
  shows "buf_read_page_low env True BUF_READ_ANY_PAGE (fst (in_page J)) version (snd (in_page J)) s = None"
proof -
  define V where "V = view env J s1"
  define V1 where "V1 = V\<lparr>v_block := (v_block V)\<lparr>target_rw_cmd := True\<rparr>\<rparr>"
  obtain s2 post where s2: "buf_flush_single_page_with_rw_cmd env (fst (in_page J)) (snd (in_page J)) s1 =
      do {
        (flushed, t) \<leftarrow> buf_flush_page_with_rw_cmd env (job_block J) BUF_FLUSH_SINGLE_PAGE (fst (in_page J)) (snd (in_page J)) s2;
        (if flushed then Some (Some (job_block J), t)
         else rw_victim_loop env (fst (in_page J)) (snd (in_page J)) post (set_blk (job_block J) (\<lambda>k. k\<lparr>target_rw_cmd := False\<rparr>) t))
      }" "pool_inv (settings env) (bp s2)" "files_ready env J (fs s2)" "view env J s2 = V1"
    using victim_claimed(1) [OF pool V_def [symmetric], folded V1_def] by (elim exE conjE) (rule that)
  have k: "target_rw_cmd (v_block V1)" "v_listed V1" "page_addr (v_block V1) = out_page J" "0 < lock_word (v_block V1)" "v_slots V1 = {}"
    using victim_claimed(2-4) [OF pool V_def [symmetric]] dblwr(2) by (simp_all add: V1_def page_addr_def V_def view_def Let_def)
  have "buf_flush_single_page_with_rw_cmd env (fst (in_page J)) (snd (in_page J)) s1 = None"
    using s2(1) exchange_stops [OF dblwr(1) srv s2(2-4) k] by simp
  then have "buf_LRU_get_free_block env (fst (in_page J)) (snd (in_page J)) 0 s = None"
    using start by (subst buf_LRU_get_free_block.simps) (simp add: lru_scan_round_def Let_def s1)
  then have "buf_page_init_for_read env BUF_READ_ANY_PAGE (fst (in_page J)) version (snd (in_page J)) True s = None"
    by (simp add: buf_page_init_for_read_def BUF_READ_ANY_PAGE_def BUF_READ_IBUF_PAGES_ONLY_def)
  then show ?thesis using page mode_any_page unfolding buf_read_page_low_def Let_def by simp
qed

theorem rw_read_stops_with_doublewrite_witness:
  "buf_read_page_low (sample_env True) True BUF_READ_ANY_PAGE 11 0 7 sample_state = None"
proof -
  have s: "bp sample_state = dirty_pool" "fs sample_state = two_files" "\<And>i. dblwr_arr sample_state i = None"
    "settings (sample_env True) = small_srv" "use_doublewrite_buf (sample_env True)" "in_page sample_job = (11, 7)"
    by (simp_all add: sample_state_def sample_env_def sample_job_def)
  have start: "buf_LRU_check_size_of_non_data_objects dirty_pool" "free_list dirty_pool = []" "\<not> try_LRU_scan dirty_pool"
    "\<not> init_flush dirty_pool BUF_FLUSH_LRU"
    by (simp_all add: buf_LRU_check_size_of_non_data_objects_def dirty_pool_def empty_pool_def)
  show ?thesis
    using rw_read_stops_with_doublewrite [OF refl _ _ sample_server(1,2), of True sample_state 0] dirty_pool_inv sample_ready sample_victim start
    unfolding sample_elsewhere by (simp add: s)
qed

text \<open>The write of a single page without an RW command does reserve a slot, and the end of the i/o gives back just that one.\<close>

lemma dblwr_slot_given_back:
  assumes "use_doublewrite_buf env" and free: "\<And>i. dblwr_in_use s i \<longleftrightarrow> dblwr_arr s i \<noteq> None" and b: "\<And>i. dblwr_arr s i \<noteq> Some b"
    and room: "s_reserved s \<noteq> of_nat (2 * TRX_SYS_DOUBLEWRITE_BLOCK_SIZE (settings env) - srv_doublewrite_batch_size env)"
    and run: "dblwr_reserve env b s = Some (i, s')"
  shows "buf_dblwr_update env b BUF_FLUSH_SINGLE_PAGE s' = Some s"
proof -
  define slots where "slots = [srv_doublewrite_batch_size env..<2 * TRX_SYS_DOUBLEWRITE_BLOCK_SIZE (settings env)]"
  obtain js where js: "filter (\<lambda>i. \<not> dblwr_in_use s i) slots = i # js"
    and s': "s' = s\<lparr>dblwr_in_use := (dblwr_in_use s)(i := True), s_reserved := s_reserved s + 1, dblwr_arr := (dblwr_arr s)(i := Some b)\<rparr>"
    using run room by (subst (asm) dblwr_reserve.simps) (auto simp: Let_def slots_def split: list.splits)
  have "i \<in> set (filter (\<lambda>i. \<not> dblwr_in_use s i) slots)" unfolding js by simp
  then have i: "i \<in> set slots" "\<not> dblwr_in_use s i" "dblwr_arr s i = None" using free by auto
  have "filter (\<lambda>j. dblwr_arr s' j = Some b) slots = filter (\<lambda>j. j = i) slots" using b by (intro filter_cong) (auto simp: s')
  moreover obtain x ks where x: "filter (\<lambda>j. j = i) slots = x # ks"
    using i(1) by (cases "filter (\<lambda>j. j = i) slots") (auto simp: filter_empty_conv)
  moreover have "x \<in> set (filter (\<lambda>j. j = i) slots)" unfolding x by simp
  then have "x = i" by simp
  moreover have "s'\<lparr>s_reserved := s_reserved s' - 1, dblwr_arr := (dblwr_arr s')(i := None), dblwr_in_use := (dblwr_in_use s')(i := False)\<rparr> = s"
    using i(2,3) by (intro srv_state.equality) (auto simp: s' fun_upd_idem)
  ultimately show ?thesis using assms(1) by (simp add: buf_dblwr_update_def slots_def)
qed

text \<open>
  When another thread has read in the wanted page meanwhile, the block that was emptied for it stays as it is: in no list, and
  still marked.
\<close>

lemma rw_block_lost:
  assumes "buf_LRU_get_free_block env space offset 0 s = Some (b, s1)" and "s2 = elsewhere env s1" and "use_rw_cmd (blk s2 b)"
    and "page_hash (bp s2) (space, offset) = Some (Page a)"
  shows "buf_page_init_for_read env BUF_READ_ANY_PAGE space version offset True s = Some (DB_SUCCESS, None, s2)"
  using assms by (simp add: buf_page_init_for_read_def read_err_exit_def BUF_READ_ANY_PAGE_def BUF_READ_IBUF_PAGES_ONLY_def Let_def)

text \<open>
  An asynchronous read asks for a block with the page number (0, 0). When that is the page that is wanted, the block keeps its mark:
  no i/o is started, so none ends, and the page stays latched and fixed for reading.
\<close>

lemma async_rw_read_never_ends:
  assumes "buf_page_init_for_read env BUF_READ_ANY_PAGE space version offset False s = Some (DB_SUCCESS, Some b, s1)"
    and "use_rw_cmd (blk (elsewhere env s1) b)" and "\<not> ibuf_bitmap_page (settings env) offset" and "\<not> trx_sys_hdr_page space offset"
    and "\<not> (space = 0 \<and> buf_dblwr_page_inside env offset)"
  shows "buf_read_page_low env False BUF_READ_ANY_PAGE space version offset s = Some (1, DB_SUCCESS, elsewhere env s1)"
  using assms mode_any_page unfolding buf_read_page_low_def Let_def by simp

end
