(* ===== verification/Spec2Isabelle.thy ===== *)
theory Spec2Isabelle
  imports Mapping_Theorems Nand_Theorems Nvme_Theorems Buffer_Coherence Startup_Theorems Buf_Theorems
begin

text \<open>
  A verification development for the read-write (RW) command: one NVMe command that writes a dirty page and reads
  another one into the same host buffer. The repository has two halves. \<^verbatim>\<open>src/cosmos-firmware\<close> is the firmware of
  a Cosmos+ OpenSSD, a flash translation layer extended by the command and by a second data buffer for
  the pages read by it (R-Buf). \<^verbatim>\<open>src/mysql/storage/innobase\<close> is InnoDB, changed to send the command when a
  page has to be read and the buffer pool has no free frame.

  \<^bold>\<open>How the parts interact.\<close> When a page has to be read (\<^verbatim>\<open>buf0rea.cc\<close>) and the buffer pool of InnoDB has no free block,
  the pool chooses a dirty page near the end of its list as the victim (\<^verbatim>\<open>buf0lru.cc\<close>, \<^verbatim>\<open>buf0flu.cc\<close>), and its frame gets the
  new page (\<^verbatim>\<open>buf0buf.cc\<close>). InnoDB asks the tablespace cache for the files of the two pages (\<^verbatim>\<open>fil0fil.cc\<close>), turns file offsets into block addresses (\<^verbatim>\<open>rw0rw.cc\<close>) and sends the command
  (\<^verbatim>\<open>os0file.cc\<close>). In the firmware, the main loop fetches commands (\<^verbatim>\<open>nvme_main.c\<close>) and hands them to
  their handlers (\<^verbatim>\<open>nvme_io_cmd.c\<close>, \<^verbatim>\<open>nvme_admin_cmd.c\<close>). An I/O command is cut into slice requests, each of
  which gets an entry of one of the buffers, with an eviction or a read of the flash where needed
  (\<^verbatim>\<open>request_transform.c\<close>). The requests go through queues (\<^verbatim>\<open>request_allocation.c\<close>) to the host DMA engine and,
  through the address tables (\<^verbatim>\<open>address_translation.c\<close>, \<^verbatim>\<open>garbage_collection.c\<close>), to the flash scheduler
  (\<^verbatim>\<open>request_schedule.c\<close>), which drives the controllers (\<^verbatim>\<open>nsc_driver.c\<close>).

  \<^bold>\<open>How the model is built.\<close> A global structure of the C code is a record; a C function is a HOL function
  from the state to the new state. The firmware's state is \<open>ssd\<close> in \<open>Ssd_State\<close>, with one field per component.
  A failed assertion, an endless loop, an assertion of the storage engine is the value \<open>None\<close>. What the hardware does
  is not guessed: each register that is read is a function of time (the record \<open>platform\<close>, an argument
  everywhere), each read lets time pass, and each register or DRAM write is appended to a list of outputs. So a theorem about
  all platforms is one about all behaviours of the devices. Loops over a known range are structural recursion or folds.
  Loops that wait for hardware, and those of the scheduler, are \<open>while_option\<close> or \<open>partial_function\<close> in the option
  monad; there is no fuel. Bit fields and counters that can wrap are words of their width or are truncated explicitly; indices,
  slots and DRAM addresses are natural numbers.

  \<^bold>\<open>The theories.\<close>
  \<^item> \<open>Ftl_Prelude\<close>, \<open>Dll\<close>: common vocabulary, and the doubly linked lists that all queues, chains and
    lists of the firmware are, with the locales \<open>dlist\<close>, \<open>dlist_fifo\<close>, \<open>dlist_sel\<close> that refine
    them to lists. Each queue of the code is an interpretation.
  \<^item> \<open>Ftl_Config\<close>, \<open>Memory_Map\<close>: \<^verbatim>\<open>ftl_config.[ch]\<close>, \<^verbatim>\<open>memory_map.h\<close>; a configuration that passes the check
    at start-up has disjoint regions of DRAM.
  \<^item> \<open>Request_Allocation\<close>: the request pool; each queue operation refines the operation on lists.
  \<^item> \<open>Data_Buffer\<close>, \<open>Data_Buffer_Ccmd\<close>: the two buffers, \<^verbatim>\<open>data_buffer.[ch]\<close> and \<^verbatim>\<open>data_buffer_ccmd.[ch]\<close>, both
    instances of the contract \<open>slice_cache\<close>: a lookup finds a slice exactly if it is there and makes it the most recent, an
    allocation takes the least recent entry. \<open>Buffer_Coherence\<close>: no slice is ever in both buffers.
  \<^item> \<open>Address_Map\<close>, \<open>Slice_Allocation\<close>, \<open>Mapping_Theorems\<close>: the slice, block and die tables and what
    writes and collections do to them. The tables stay consistent, a write changes the place of its slice alone, and a
    collection loses no slice; the collection of the block being filled is the exception. \<open>Ftl_Ops\<close> has the same
    operations complete with the flash requests they issue, as refinements.
  \<^item> \<open>Block_Remap\<close>, \<open>Bad_Block_Table\<close>, \<open>Startup_Theorems\<close>: replacement of bad blocks, the tables of bad
    blocks, start-up as a whole; replaced blocks are good and distinct, and the table survives a restart.
  \<^item> \<open>Way_Lists\<close>, \<open>Request_Flow\<close>, \<open>Nand_Schedule\<close>, \<open>Low_Level_Select\<close>, \<open>Nand_Theorems\<close>: the flash scheduler; every die
    is in exactly one list, requests of a block go in an order that the flash allows, addresses are sound and
    stay in their buffers, and failing reads are given up after their tries. \<open>Low_Level_View\<close> has, as a locale,
    what the low level leaves alone.
  \<^item> \<open>Device_Io\<close>, \<open>Dma_Progress\<close>, \<open>Dma_Issue\<close>: both drivers, \<^verbatim>\<open>nvme/host_lld.[ch]\<close> and \<^verbatim>\<open>nsc_driver.[ch]\<close>; the eight bit
    positions of the transfer queues are interpreted rightly, and a request's transfers are exactly its blocks.
  \<^item> \<open>Custom_Completion\<close>, \<open>Host_Time\<close>: the counters that complete an RW command, and the time stamps.
  \<^item> \<open>Request_Transform\<close>, \<open>Nvme_Cmd\<close>, \<open>Nvme_Main\<close>, \<open>Nvme_Theorems\<close>: from commands to requests, the handlers, the main
    loop as a step relation with interrupts between iterations. Slices cover a command exactly, admin commands are answered
    once, and commands are fetched only from an enabled controller.
  \<^item> \<open>Rw_Command\<close>, \<open>Fil_Io\<close>, \<open>Fil_Theorems\<close>: the side of InnoDB. The command that is sent is the one the
    device carries out; the cache of open files stays consistent under it, and the right parts of the right files are used.
  \<^item> \<open>Buf_Lru\<close>: the buffer pool and its list of pages in the order of their use, with the part of the old pages; each operation
    on the list ends and keeps that part, as instances of the locales \<open>lru_operation\<close> and \<open>lru_move\<close>.
  \<^item> \<open>Buf_Io\<close>, \<open>Buf_Flush\<close>, \<open>Buf_Rw\<close>: the path of a page read through the pool, from \<^verbatim>\<open>buf_read_page_low\<close> down to the RW command and
    back, with its fallback, the flush of a single page. One thread runs; wherever it has released the mutex of the pool,
    \<open>elsewhere\<close> is what the others do.
  \<^item> \<open>Buf_Inv\<close>, \<open>Buf_Exchange\<close>, \<open>Buf_Theorems\<close>: lists and page hash stay consistent; a read through an RW command puts the wanted
    page into the victim's frame and the victim on the device; and what goes wrong with the doublewrite buffer, a page that
    another thread has read, and an asynchronous read.
  \<^item> \<open>Example_Device\<close>: a concrete device for the examples that show that hypotheses can hold.

  \<^bold>\<open>Assumptions on other code.\<close> The operating system (\<^verbatim>\<open>fstat\<close>, \<^verbatim>\<open>FIBMAP\<close>, opening files, the
  NVMe driver) and the other threads of InnoDB are parameters. Their documented behaviour is assumed by name:
  \<open>passed_through\<close> for a driver that hands the dwords of the command to the device, \<open>well_behaved\<close> and \<open>leaves_io\<close> for threads that
  keep the invariant of the cache and each other's pending i/o, \<open>keeps_up\<close> for a DMA engine that makes progress,
  \<open>rw_device\<close> for a device that writes and then reads on an RW command, \<open>spares\<close> for threads that leave a block alone that is
  marked for one.

  \<^bold>\<open>Not modelled.\<close>
  \<^item> Interrupts within an iteration of the main loop; debug prints; the operator's prompt beyond the key it returns.
  \<^item> The overlap of the fields of a request's address union: the fields are separate in the model, and each
    is used only with the address format under which it was stored.
  \<^item> The set-up of caches, MMU and interrupt controller in \<^verbatim>\<open>main.c\<close>, calls of the board support package;
    \<^verbatim>\<open>V2FGetFeaturesSync\<close>, \<^verbatim>\<open>V2FStatusCheckSync\<close> and \<^verbatim>\<open>PrintDataBuffer\<close>, which nothing calls in the configured build.
  \<^item> In the buffer pool: compressed pages, the statistics of monitors, recovery, waiting for a latch (a latch that is not free is
    \<open>None\<close>), and the operations off the path of a read: lookups (\<^verbatim>\<open>buf_page_get_gen\<close>), batches of flushes, read-ahead,
    dropping of tablespaces. Ordinary i/o (\<^verbatim>\<open>fil_io\<close>, \<^verbatim>\<open>fil_flush\<close>), the log, the insert buffer, checksums and page
    checks are parameters of the path, because its correctness does not depend on what they compute.
  \<^item> All other code of InnoDB and of MySQL, which is the code of the upstream release.
\<close>

end
